(* ===== verification/Portal_Prelude.thy ===== *)
theory Portal_Prelude
  imports Main "HOL-Library.Word" "HOL-Library.Sublist"
begin

text \<open>
  Shared vocabulary of the development: identifiers, instants and durations, the relational
  statements the repositories issue (a table is a list of rows), and the generic lemmas the
  component theories use.

  \<^item> A \<open>uuid\<close> is a 128-bit word; its unsigned order is the byte order PostgreSQL uses for
    \<open>uuid\<close> columns.
  \<^item> A \<open>datetime\<close> is the number of microseconds since the Unix epoch (UTC), the resolution of
    Python's \<open>datetime\<close> and of PostgreSQL's \<open>timestamptz\<close>; a \<open>timedelta\<close> is a difference.
  \<^item> \<open>SELECT ... WHERE p\<close> is \<open>filter p\<close>, a lookup on a column with a unique constraint is
    \<open>find_row p\<close>, \<open>UPDATE ... WHERE p SET f\<close> is \<open>update_rows p f\<close>, an \<open>UPDATE ... RETURNING\<close>
    whose result is read with \<open>scalar_one_or_none\<close> is \<open>update_returning p f\<close>, and
    \<open>DELETE ... WHERE p\<close> is \<open>delete_rows p\<close>.
\<close>

named_theorems query_defs \<open>definitions of the relational statements\<close>
named_theorems repo_defs \<open>definitions of the repository methods\<close>
named_theorems cache_defs \<open>definitions of the cache gateways\<close>
named_theorems service_defs \<open>definitions of the service methods\<close>

section \<open>Identifiers and time\<close>

type_synonym uuid = "128 word"

type_synonym datetime = int

definition seconds :: "int \<Rightarrow> int" where
  "seconds n = n * 1000000"

definition minutes :: "int \<Rightarrow> int" where
  "minutes n = seconds (n * 60)"

definition hours :: "int \<Rightarrow> int" where
  "hours n = seconds (n * 3600)"

definition days :: "int \<Rightarrow> int" where
  "days n = seconds (n * 86400)"

lemmas duration_defs = seconds_def minutes_def hours_def days_def

section \<open>Relational statements\<close>

abbreviation find_row :: "('a \<Rightarrow> bool) \<Rightarrow> 'a list \<Rightarrow> 'a option" where
  "find_row \<equiv> List.find"

definition update_rows :: "('a \<Rightarrow> bool) \<Rightarrow> ('a \<Rightarrow> 'a) \<Rightarrow> 'a list \<Rightarrow> 'a list" where
  "update_rows p f rows = map (\<lambda>r. if p r then f r else r) rows"

definition update_returning ::
  "('a \<Rightarrow> bool) \<Rightarrow> ('a \<Rightarrow> 'a) \<Rightarrow> 'a list \<Rightarrow> 'a option \<times> 'a list" where
  "update_returning p f rows = (map_option f (find_row p rows), update_rows p f rows)"

definition delete_rows :: "('a \<Rightarrow> bool) \<Rightarrow> 'a list \<Rightarrow> 'a list" where
  "delete_rows p rows = filter (\<lambda>r. \<not> p r) rows"

declare update_returning_def [query_defs] delete_rows_def [query_defs]

lemma update_rows_Nil [simp]: "update_rows p f [] = []"
  by (simp add: update_rows_def)

lemma update_rows_Cons [simp]:
  "update_rows p f (r # rows) = (if p r then f r else r) # update_rows p f rows"
  by (simp add: update_rows_def)

lemma update_rows_append [simp]:
  "update_rows p f (xs @ ys) = update_rows p f xs @ update_rows p f ys"
  by (simp add: update_rows_def)

lemma length_update_rows [simp]: "length (update_rows p f rows) = length rows"
  by (simp add: update_rows_def)

lemma set_update_rows:
  "set (update_rows p f rows) = {if p r then f r else r |r. r \<in> set rows}"
  by (auto simp: update_rows_def)

lemma in_update_rowsE:
  assumes "x \<in> set (update_rows p f rows)"
  obtains r where "r \<in> set rows" and "x = (if p r then f r else r)"
  using assms by (auto simp: set_update_rows)

lemma in_update_rowsI:
  "r \<in> set rows \<Longrightarrow> (if p r then f r else r) \<in> set (update_rows p f rows)"
  by (auto simp: set_update_rows)

lemma map_update_rows_same [simp]:
  "(\<And>r. g (f r) = g r) \<Longrightarrow> map g (update_rows p f rows) = map g rows"
  by (induction rows) auto

lemma update_rows_no_match:
  "(\<And>r. r \<in> set rows \<Longrightarrow> \<not> p r) \<Longrightarrow> update_rows p f rows = rows"
  by (induction rows) auto

lemma find_row_SomeD:
  "find_row p rows = Some r \<Longrightarrow> r \<in> set rows \<and> p r"
  by (auto simp: find_Some_iff)

lemma find_row_NoneD: "find_row p rows = None \<Longrightarrow> r \<in> set rows \<Longrightarrow> \<not> p r"
  by (auto simp: find_None_iff)

lemma find_row_append:
  "find_row p (xs @ ys) = (case find_row p xs of None \<Rightarrow> find_row p ys | Some r \<Rightarrow> Some r)"
  by (induction xs) auto

lemma find_row_update_same:
  assumes "\<And>r. p (f r) = p r" and "\<And>r. p r \<Longrightarrow> q r"
  shows "find_row p (update_rows q f rows) = map_option f (find_row p rows)"
  using assms by (induction rows) auto

lemma find_row_update:
  assumes "\<And>r. p (f r) = p r"
  shows "find_row p (update_rows q f rows)
    = map_option (\<lambda>r. if q r then f r else r) (find_row p rows)"
  using assms by (induction rows) auto

lemma find_row_unique:
  assumes "distinct (map key rows)" and "r \<in> set rows"
  shows "find_row (\<lambda>x. key x = key r) rows = Some r"
  using assms by (induction rows) (auto simp: image_iff)

lemma distinct_key_eqD:
  "distinct (map key rows) \<Longrightarrow> a \<in> set rows \<Longrightarrow> b \<in> set rows \<Longrightarrow> key a = key b \<Longrightarrow> a = b"
  by (induction rows) (auto simp: image_iff)

section \<open>Small facts on lists and sums\<close>

lemma length_filter_update_le:
  assumes "\<And>r. q (f r) \<Longrightarrow> q r"
  shows "length (filter q (update_rows p f rows)) \<le> length (filter q rows)"
  using assms by (induction rows) auto

lemma length_remdups_le_card: "length (remdups xs) = card (set xs)"
  by (simp add: length_remdups_card_conv)

lemma card_insert_le_Suc: "finite A \<Longrightarrow> card (insert x A) \<le> Suc (card A)"
  by (simp add: card_insert_if)

text \<open>Python's \<open>min(xs, key=f)\<close> on a non-empty list: the first minimal element.\<close>

fun first_min :: "('a \<Rightarrow> 'b::linorder) \<Rightarrow> 'a \<Rightarrow> 'a list \<Rightarrow> 'a" where
  "first_min f x [] = x"
| "first_min f x (y # ys) = (if f y < f x then first_min f y ys else first_min f x ys)"

lemma first_min_in: "first_min f x ys = x \<or> first_min f x ys \<in> set ys"
proof (induction ys arbitrary: x)
  case (Cons y ys)
  show ?case using Cons.IH [of x] Cons.IH [of y] by auto
qed simp

lemma first_min_le: "f (first_min f x ys) \<le> f x \<and> (\<forall>z \<in> set ys. f (first_min f x ys) \<le> f z)"
proof (induction ys arbitrary: x)
  case (Cons y ys)
  show ?case using Cons.IH [of x] Cons.IH [of y] by (auto intro: order.trans less_imp_le)
qed simp

text \<open>Python's \<open>sep.join(xs)\<close>.\<close>

definition join_with :: "string \<Rightarrow> string list \<Rightarrow> string" where
  "join_with sep xs = (case xs of [] \<Rightarrow> [] | y # ys \<Rightarrow> y @ concat (map (\<lambda>x. sep @ x) ys))"

section \<open>Printers whose output can be read back\<close>

lemma append_cut: "c \<notin> set a \<Longrightarrow> c \<notin> set a' \<Longrightarrow> a @ c # b = a' @ c # b' \<longleftrightarrow> a = a' \<and> b = b'"
proof (induction a arbitrary: a')
  case Nil
  then show ?case by (cases a') auto
next
  case (Cons x a)
  then show ?case by (cases a') auto
qed

text \<open>The output of a prefix-free printer is recognised in front of any continuation; a printer with a
  reader that takes a printed value off the front of a string is one.\<close>

locale prefix_free =
  fixes put :: "'a \<Rightarrow> string"
  assumes split_put: "put x @ r = put y @ r' \<Longrightarrow> x = y \<and> r = r'"
begin

lemma put_eqD: "put x = put y \<Longrightarrow> x = y"
  using split_put [of x "[]" y "[]"] by simp

end

locale prefix_code =
  fixes put :: "'a \<Rightarrow> string" and get :: "string \<Rightarrow> 'a \<times> string"
  assumes get_put: "get (put x @ rest) = (x, rest)"
begin

lemma get_put_whole: "fst (get (put x)) = x"
  using get_put [of x "[]"] by simp

lemma put_inj: "put x = put y \<Longrightarrow> x = y"
  using get_put_whole by metis

end

sublocale prefix_code \<subseteq> prefix_free put
proof
  fix x y r r'
  assume "put x @ r = put y @ r'"
  then have "get (put x @ r) = get (put y @ r')" by simp
  then show "x = y \<and> r = r'" by (simp add: get_put)
qed

end
