(* ===== verification/Config.thy ===== *)
theory Config
  imports Portal_Prelude
begin

text \<open>
  \<open>app/core/config.py\<close>: the settings the services read. Connection strings, file paths and
  secrets that no modelled branch inspects are left out; the two keys that are passed to the
  cryptographic libraries are kept as opaque strings.
\<close>

record settings =
  argon2_time_cost :: int
  argon2_memory_cost_kb :: int
  argon2_parallelism :: int
  verification_token_ttl_hours :: int
  resend_cooldown_seconds :: int
  unverified_account_purge_after_days :: int
  jwt_secret_key :: string
  access_token_ttl_seconds :: int
  email_change_token_ttl_hours :: int
  login_failure_threshold_account :: int
  login_failure_threshold_ip :: int
  login_throttle_window_seconds :: int
  refresh_token_ttl_seconds :: int
  password_reset_token_ttl_minutes :: int
  password_reset_cooldown_seconds :: int
  password_reset_account_hourly_limit :: int
  password_reset_ip_hourly_limit :: int
  perm_epoch_ttl_seconds :: int
  mfa_secret_encryption_key :: string
  mfa_token_ttl_seconds :: int
  mfa_verify_lockout_threshold :: int
  mfa_grace_period_days :: int
  max_live_sessions_per_user :: int
  invitation_token_ttl_hours :: int
  invitation_resend_hourly_limit :: int
  support_queue_email :: string

text \<open>The defaults declared by the class, which an environment without overrides runs with.\<close>

definition get_settings :: settings where
  "get_settings = \<lparr>
     argon2_time_cost = 3,
     argon2_memory_cost_kb = 65536,
     argon2_parallelism = 4,
     verification_token_ttl_hours = 24,
     resend_cooldown_seconds = 60,
     unverified_account_purge_after_days = 7,
     jwt_secret_key = ''dev-only-insecure-secret-change-me'',
     access_token_ttl_seconds = 900,
     email_change_token_ttl_hours = 24,
     login_failure_threshold_account = 10,
     login_failure_threshold_ip = 20,
     login_throttle_window_seconds = 900,
     refresh_token_ttl_seconds = 2592000,
     password_reset_token_ttl_minutes = 30,
     password_reset_cooldown_seconds = 60,
     password_reset_account_hourly_limit = 5,
     password_reset_ip_hourly_limit = 10,
     perm_epoch_ttl_seconds = 900,
     mfa_secret_encryption_key = ''ZGV2LW9ubHktaW5zZWN1cmUtbWZhLWtleS0zMmJ5dGU='',
     mfa_token_ttl_seconds = 300,
     mfa_verify_lockout_threshold = 5,
     mfa_grace_period_days = 14,
     max_live_sessions_per_user = 20,
     invitation_token_ttl_hours = 24,
     invitation_resend_hourly_limit = 5,
     support_queue_email = ''support-queue@portal.internal''\<rparr>"

lemma get_settings_simps [simp]:
  "argon2_time_cost get_settings = 3"
  "argon2_memory_cost_kb get_settings = 65536"
  "argon2_parallelism get_settings = 4"
  "verification_token_ttl_hours get_settings = 24"
  "resend_cooldown_seconds get_settings = 60"
  "unverified_account_purge_after_days get_settings = 7"
  "access_token_ttl_seconds get_settings = 900"
  "email_change_token_ttl_hours get_settings = 24"
  "login_failure_threshold_account get_settings = 10"
  "login_failure_threshold_ip get_settings = 20"
  "login_throttle_window_seconds get_settings = 900"
  "refresh_token_ttl_seconds get_settings = 2592000"
  "password_reset_token_ttl_minutes get_settings = 30"
  "password_reset_cooldown_seconds get_settings = 60"
  "password_reset_account_hourly_limit get_settings = 5"
  "password_reset_ip_hourly_limit get_settings = 10"
  "perm_epoch_ttl_seconds get_settings = 900"
  "mfa_token_ttl_seconds get_settings = 300"
  "mfa_verify_lockout_threshold get_settings = 5"
  "mfa_grace_period_days get_settings = 14"
  "max_live_sessions_per_user get_settings = 20"
  "invitation_token_ttl_hours get_settings = 24"
  "invitation_resend_hourly_limit get_settings = 5"
  by (simp_all add: get_settings_def)

end
