(* ===== verification/Valkey.thy ===== *)
theory Valkey
  imports Portal_Prelude
begin

text \<open>
  The Valkey commands the gateways issue, on a map whose entries carry an absolute expiry:
  \<open>GET\<close>, \<open>SET ... EX\<close>, \<open>SET ... NX EX\<close>, \<open>GETDEL\<close>, \<open>DEL\<close>, \<open>TTL\<close> and the transaction
  \<open>INCR; EXPIRE\<close>. Every key the application writes has a time to live. The map is polymorphic in
  the key and the value; \<^verbatim>\<open>Cache_Keys\<close> shows that the string keys the application builds keep
  the key spaces apart.

  The locale \<open>ttl_cache\<close> states the contract the gateways rely on (documented behaviour of the
  server) and derives from it the facts the service proofs use; it is interpreted on the map.
\<close>

type_synonym ('k, 'v) ttl_map = "'k \<Rightarrow> ('v \<times> datetime) option"

definition vk_get :: "datetime \<Rightarrow> 'k \<Rightarrow> ('k, 'v) ttl_map \<Rightarrow> 'v option" where
  "vk_get t k m = (case m k of
     None \<Rightarrow> None
   | Some (v, e) \<Rightarrow> if t < e then Some v else None)"

definition vk_set_ex :: "datetime \<Rightarrow> 'k \<Rightarrow> 'v \<Rightarrow> int \<Rightarrow> ('k, 'v) ttl_map \<Rightarrow> ('k, 'v) ttl_map" where
  "vk_set_ex t k v ttl m = m(k \<mapsto> (v, t + seconds ttl))"

definition vk_del :: "'k \<Rightarrow> ('k, 'v) ttl_map \<Rightarrow> ('k, 'v) ttl_map" where
  "vk_del k m = m(k := None)"

definition vk_set_nx_ex ::
  "datetime \<Rightarrow> 'k \<Rightarrow> 'v \<Rightarrow> int \<Rightarrow> ('k, 'v) ttl_map \<Rightarrow> bool \<times> ('k, 'v) ttl_map" where
  "vk_set_nx_ex t k v ttl m = (case vk_get t k m of
     None \<Rightarrow> (True, vk_set_ex t k v ttl m)
   | Some _ \<Rightarrow> (False, m))"

definition vk_getdel :: "datetime \<Rightarrow> 'k \<Rightarrow> ('k, 'v) ttl_map \<Rightarrow> 'v option \<times> ('k, 'v) ttl_map" where
  "vk_getdel t k m = (vk_get t k m, vk_del k m)"

text \<open>\<open>INCR\<close> starts from 0 on a missing key; \<open>EXPIRE\<close> then overwrites the time to live.\<close>

definition vk_incr_expire ::
  "datetime \<Rightarrow> 'k \<Rightarrow> int \<Rightarrow> ('k, int) ttl_map \<Rightarrow> int \<times> ('k, int) ttl_map" where
  "vk_incr_expire t k window m =
     (let n = (case vk_get t k m of None \<Rightarrow> 0 | Some c \<Rightarrow> c) + 1
      in (n, vk_set_ex t k n window m))"

text \<open>\<open>TTL\<close> answers -2 on a missing key and otherwise the remaining whole seconds (rounded to the
  nearest second, as the server does).\<close>

definition vk_ttl :: "datetime \<Rightarrow> 'k \<Rightarrow> ('k, 'v) ttl_map \<Rightarrow> int" where
  "vk_ttl t k m = (case m k of
     None \<Rightarrow> - 2
   | Some (_, e) \<Rightarrow> if t < e then (e - t + 500000) div 1000000 else - 2)"

lemmas vk_defs = vk_get_def vk_set_ex_def vk_del_def vk_set_nx_ex_def vk_getdel_def
  vk_incr_expire_def

section \<open>The contract\<close>

locale ttl_cache =
  fixes get :: "datetime \<Rightarrow> 'k \<Rightarrow> 'm \<Rightarrow> 'v option"
    and set_ex :: "datetime \<Rightarrow> 'k \<Rightarrow> 'v \<Rightarrow> int \<Rightarrow> 'm \<Rightarrow> 'm"
    and del :: "'k \<Rightarrow> 'm \<Rightarrow> 'm"
    and set_nx_ex :: "datetime \<Rightarrow> 'k \<Rightarrow> 'v \<Rightarrow> int \<Rightarrow> 'm \<Rightarrow> bool \<times> 'm"
    and getdel :: "datetime \<Rightarrow> 'k \<Rightarrow> 'm \<Rightarrow> 'v option \<times> 'm"
  assumes get_set_same:
      "get t' k (set_ex t k v ttl m) = (if t' < t + seconds ttl then Some v else None)"
    and get_set_other: "k' \<noteq> k \<Longrightarrow> get t' k' (set_ex t k v ttl m) = get t' k' m"
    and get_del: "get t' k' (del k m) = (if k' = k then None else get t' k' m)"
    and set_nx: "set_nx_ex t k v ttl m =
      (if get t k m = None then (True, set_ex t k v ttl m) else (False, m))"
    and getdel: "getdel t k m = (get t k m, del k m)"
    and get_expires: "t \<le> t' \<Longrightarrow> get t k m = None \<Longrightarrow> get t' k m = None"
begin

text \<open>A claim excludes every other claim of the same key until it expires or is deleted.\<close>

lemma claim_excludes:
  assumes "set_nx_ex t k v ttl m = (True, m')" and "t' < t + seconds ttl"
  shows "set_nx_ex t' k w ttl' m' = (False, m')"
proof -
  from assms(1) have "m' = set_ex t k v ttl m" by (auto simp: set_nx split: if_splits)
  with assms(2) show ?thesis by (simp add: set_nx get_set_same)
qed

lemma claim_fails_iff: "fst (set_nx_ex t k v ttl m) \<longleftrightarrow> get t k m = None"
  by (simp add: set_nx)

lemma released_claim: "set_nx_ex t k v ttl (del k m) = (True, set_ex t k v ttl (del k m))"
  by (simp add: set_nx get_del)

text \<open>A token read with \<open>GETDEL\<close> is gone.\<close>

lemma getdel_single_use: "getdel t k m = (r, m') \<Longrightarrow> fst (getdel t' k m') = None"
  by (auto simp: getdel get_del)

end

interpretation vk: ttl_cache vk_get vk_set_ex vk_del vk_set_nx_ex vk_getdel
  by unfold_locales (auto simp: vk_defs split: option.splits if_splits)

lemmas vk_simps [simp] = vk.get_set_same vk.get_set_other vk.get_del

section \<open>Counters\<close>

lemma vk_incr_expire_fresh:
  "vk_get t k m = None \<Longrightarrow> vk_incr_expire t k w m = (1, vk_set_ex t k 1 w m)"
  by (simp add: vk_incr_expire_def)

lemma vk_incr_expire_live:
  "vk_get t k m = Some c \<Longrightarrow> vk_incr_expire t k w m = (c + 1, vk_set_ex t k (c + 1) w m)"
  by (simp add: vk_incr_expire_def Let_def)

lemma vk_incr_expire_other:
  "k' \<noteq> k \<Longrightarrow> vk_get t' k' (snd (vk_incr_expire t k w m)) = vk_get t' k' m"
  by (simp add: vk_incr_expire_def Let_def)

lemma vk_ttl_bound:
  assumes "0 \<le> w" and "t \<le> t'"
  shows "vk_ttl t' k (vk_set_ex t k v w m) \<le> w"
  using assms by (auto simp: vk_ttl_def vk_set_ex_def seconds_def)

text \<open>A run of increments at the instants of a list. Each increment renews the time to live, so the
  counter only restarts after a silence of a whole window.\<close>

fun incr_run :: "'k \<Rightarrow> int \<Rightarrow> datetime list \<Rightarrow> ('k, int) ttl_map \<Rightarrow> ('k, int) ttl_map" where
  "incr_run k w [] m = m"
| "incr_run k w (t # ts) m = incr_run k w ts (snd (vk_incr_expire t k w m))"

fun closely_spaced :: "int \<Rightarrow> datetime \<Rightarrow> datetime list \<Rightarrow> bool" where
  "closely_spaced w t [] = True"
| "closely_spaced w t (u # us) = (t \<le> u \<and> u < t + seconds w \<and> closely_spaced w u us)"

lemma incr_run_counts:
  assumes "m k = Some (c, s + seconds w)" and "closely_spaced w s ts"
  shows "incr_run k w ts m k = Some (c + int (length ts), last (s # ts) + seconds w)"
  using assms
proof (induction ts arbitrary: m c s)
  case Nil
  then show ?case by simp
next
  case (Cons t ts)
  then have "snd (vk_incr_expire t k w m) k = Some (c + 1, t + seconds w)"
    by (simp add: vk_incr_expire_def vk_get_def vk_set_ex_def Let_def)
  with Cons.prems show ?case by (simp add: Cons.IH [of _ "c + 1" t])
qed

end
