(* ===== verification/Cache_Keys.thy ===== *)
theory Cache_Keys
  imports Valkey
begin

text \<open>
  \<open>app/core/cache_keys.py\<close>: the names of all cache entries, as the strings the application builds.
  \<open>str(uuid)\<close> is the usual 8-4-4-4-12 hexadecimal rendering. The main result is that distinct cache
  entries never share a name, which justifies giving each kind of entry a map of its own
  (\<^verbatim>\<open>Cache_Gateways\<close>).
\<close>

section \<open>Rendering identifiers and integers\<close>

definition hex_digit :: "nat \<Rightarrow> char" where
  "hex_digit n = ''0123456789abcdef'' ! n"

fun hex_pad :: "nat \<Rightarrow> nat \<Rightarrow> string" where
  "hex_pad 0 n = []"
| "hex_pad (Suc k) n = hex_pad k (n div 16) @ [hex_digit (n mod 16)]"

definition uuid_hex :: "uuid \<Rightarrow> string" where
  "uuid_hex u = hex_pad 32 (unat u)"

definition uuid_str :: "uuid \<Rightarrow> string" where
  "uuid_str u = (let h = uuid_hex u in
     take 8 h @ ''-'' @ take 4 (drop 8 h) @ ''-'' @ take 4 (drop 12 h) @ ''-'' @
     take 4 (drop 16 h) @ ''-'' @ drop 20 h)"

fun nat_digits :: "nat \<Rightarrow> string" where
  "nat_digits n = (if n < 10 then [hex_digit n] else nat_digits (n div 10) @ [hex_digit (n mod 10)])"

declare nat_digits.simps [simp del]

definition int_str :: "int \<Rightarrow> string" where
  "int_str i = (if i < 0 then CHR ''-'' # nat_digits (nat (- i)) else nat_digits (nat i))"

lemma hex_digit_mem: "n < 16 \<Longrightarrow> hex_digit n \<in> set ''0123456789abcdef''"
  unfolding hex_digit_def by (rule nth_mem) simp

lemma hex_digit_neq_dash [simp]: "n < 16 \<Longrightarrow> hex_digit n \<noteq> CHR ''-''"
  by (drule hex_digit_mem) auto

lemma hex_digit_inj: "m < 16 \<Longrightarrow> n < 16 \<Longrightarrow> hex_digit m = hex_digit n \<Longrightarrow> m = n"
proof -
  have d: "distinct ''0123456789abcdef''" and l: "length ''0123456789abcdef'' = 16" by simp_all
  assume "m < 16" "n < 16" "hex_digit m = hex_digit n"
  then show "m = n" using nth_eq_iff_index_eq [OF d, of m n] l by (simp add: hex_digit_def)
qed

lemma length_hex_pad [simp]: "length (hex_pad k n) = k"
  by (induction k arbitrary: n) auto

lemma hex_pad_no_dash: "CHR ''-'' \<notin> set (hex_pad k n)"
proof (induction k arbitrary: n)
  case (Suc k)
  have "hex_digit (n mod 16) \<noteq> CHR ''-''" by simp
  with Suc show ?case by (metis UnE append.simps(1) empty_iff empty_set hex_pad.simps(2) set_ConsD set_append)
qed simp

lemma hex_pad_inj: "hex_pad k m = hex_pad k n \<Longrightarrow> m mod 16 ^ k = n mod 16 ^ k"
proof (induction k arbitrary: m n)
  case (Suc k)
  from Suc.prems have tl: "hex_pad k (m div 16) = hex_pad k (n div 16)"
    and hd: "m mod 16 = n mod 16" by (auto intro: hex_digit_inj)
  have "m mod 16 ^ Suc k = 16 * (m div 16 mod 16 ^ k) + m mod 16"
    by (simp add: mod_mult2_eq)
  also have "\<dots> = 16 * (n div 16 mod 16 ^ k) + n mod 16"
    using Suc.IH [OF tl] hd by simp
  also have "\<dots> = n mod 16 ^ Suc k" by (simp add: mod_mult2_eq)
  finally show ?case .
qed simp

lemma uuid_hex_inj: "uuid_hex u = uuid_hex v \<Longrightarrow> u = v"
proof -
  assume "uuid_hex u = uuid_hex v"
  then have "unat u mod 16 ^ 32 = unat v mod 16 ^ 32"
    unfolding uuid_hex_def by (rule hex_pad_inj)
  moreover have "unat u < 16 ^ 32" "unat v < 16 ^ 32"
    using unsigned_less [of u, where ?'a = nat] unsigned_less [of v, where ?'a = nat] by simp_all
  ultimately show "u = v" by (simp add: word_unat_eq_iff)
qed

lemma length_uuid_str [simp]: "length (uuid_str u) = 36"
  by (simp add: uuid_str_def uuid_hex_def Let_def)

lemma take_4_concat:
  "take 8 h @ take 4 (drop 8 h) @ take 4 (drop 12 h) @ take 4 (drop 16 h) @ drop 20 h = h"
proof -
  have "take 4 (drop 16 h) @ drop 20 h = drop 16 h"
    using append_take_drop_id [of 4 "drop 16 h"] by simp
  moreover have "take 4 (drop 12 h) @ drop 16 h = drop 12 h"
    using append_take_drop_id [of 4 "drop 12 h"] by simp
  moreover have "take 4 (drop 8 h) @ drop 12 h = drop 8 h"
    using append_take_drop_id [of 4 "drop 8 h"] by simp
  ultimately show ?thesis by simp
qed

lemma filter_no_dash: "CHR ''-'' \<notin> set h \<Longrightarrow> filter (\<lambda>c. c \<noteq> CHR ''-'') h = h"
  by (induction h) auto

lemma uuid_str_hex: "filter (\<lambda>c. c \<noteq> CHR ''-'') (uuid_str u) = uuid_hex u"
proof -
  let ?h = "uuid_hex u" and ?P = "\<lambda>c. c \<noteq> CHR ''-''"
  have d: "CHR ''-'' \<notin> set ?h" by (simp add: uuid_hex_def hex_pad_no_dash)
  have "filter ?P (take n (drop m ?h)) = take n (drop m ?h)" for n m
    using d by (intro filter_no_dash) (meson in_set_dropD in_set_takeD)
  moreover have "filter ?P (take n ?h) = take n ?h" "filter ?P (drop n ?h) = drop n ?h" for n
    using d by (intro filter_no_dash; meson in_set_dropD in_set_takeD)+
  ultimately show ?thesis using take_4_concat [of ?h] by (simp add: uuid_str_def Let_def)
qed

lemma uuid_str_inj [simp]: "uuid_str u = uuid_str v \<longleftrightarrow> u = v"
  using uuid_str_hex uuid_hex_inj by metis

lemma uuid_str_append_inj: "uuid_str u @ xs = uuid_str v @ ys \<longleftrightarrow> u = v \<and> xs = ys"
proof -
  have "length (uuid_str u) = length (uuid_str v)" by simp
  then have "uuid_str u @ xs = uuid_str v @ ys \<longleftrightarrow> uuid_str u = uuid_str v \<and> xs = ys"
    by (rule append_eq_append_conv [OF disjI1])
  then show ?thesis by simp
qed

lemma nat_digits_nonempty [simp]: "nat_digits n \<noteq> []"
  by (subst nat_digits.simps) simp

lemma nat_digits_inj: "nat_digits m = nat_digits n \<Longrightarrow> m = n"
proof (induction m arbitrary: n rule: nat_digits.induct)
  case (1 m)
  have eq: "(if m < 10 then [hex_digit m] else nat_digits (m div 10) @ [hex_digit (m mod 10)])
    = (if n < 10 then [hex_digit n] else nat_digits (n div 10) @ [hex_digit (n mod 10)])"
    using "1.prems" nat_digits.simps [of m] nat_digits.simps [of n] by simp
  show ?case
  proof (cases "m < 10 \<or> n < 10")
    case True
    with eq show ?thesis by (auto split: if_splits intro: hex_digit_inj dest: sym [of "[]"])
  next
    case False
    with eq have d: "nat_digits (m div 10) = nat_digits (n div 10)"
      and r: "hex_digit (m mod 10) = hex_digit (n mod 10)" by auto
    from r have "m mod 10 = n mod 10" by (rule hex_digit_inj [rotated 2]) simp_all
    moreover from "1.IH" [OF _ d] False have "m div 10 = n div 10" by simp
    ultimately show ?thesis by (metis div_mult_mod_eq)
  qed
qed

lemma nat_digits_no_dash: "CHR ''-'' \<notin> set (nat_digits n)"
proof (induction n rule: nat_digits.induct)
  case (1 n)
  then show ?case by (subst nat_digits.simps) (auto dest: sym)
qed

lemma int_str_inj [simp]: "int_str i = int_str j \<longleftrightarrow> i = j"
proof
  assume eq: "int_str i = int_str j"
  have "CHR ''-'' # xs \<noteq> nat_digits n" for xs n
    using nat_digits_no_dash [of n] by (metis list.set_intros(1))
  with eq show "i = j"
    by (auto simp: int_str_def dest!: nat_digits_inj split: if_splits dest: sym)
qed simp

section \<open>The key functions\<close>

definition revoke_before_key :: "uuid \<Rightarrow> string" where
  "revoke_before_key user_id = ''revoke_before:'' @ uuid_str user_id"

definition perm_epoch_key :: "uuid \<Rightarrow> string" where
  "perm_epoch_key user_id = ''perm_epoch:'' @ uuid_str user_id"

definition login_fail_account_key :: "uuid \<Rightarrow> string" where
  "login_fail_account_key user_id = ''login_fail:account:'' @ uuid_str user_id"

definition login_fail_ip_key :: "string \<Rightarrow> string" where
  "login_fail_ip_key ip = ''login_fail:ip:'' @ ip"

definition refresh_rate_limit_key :: "uuid \<Rightarrow> string" where
  "refresh_rate_limit_key family_id = ''refresh_rate_limit:'' @ uuid_str family_id"

definition password_reset_cooldown_key :: "string \<Rightarrow> string" where
  "password_reset_cooldown_key email_hash = ''password_reset_cooldown:'' @ email_hash"

definition password_reset_account_hourly_key :: "string \<Rightarrow> string" where
  "password_reset_account_hourly_key email_hash = ''password_reset_account_hourly:'' @ email_hash"

definition password_reset_ip_hourly_key :: "string \<Rightarrow> string" where
  "password_reset_ip_hourly_key ip = ''password_reset_ip_hourly:'' @ ip"

definition mfa_token_key :: "string \<Rightarrow> string" where
  "mfa_token_key token_hash = ''mfa_token:'' @ token_hash"

definition mfa_verify_attempts_key :: "string \<Rightarrow> string" where
  "mfa_verify_attempts_key token_hash = ''mfa_verify_attempts:'' @ token_hash"

definition mfa_used_step_key :: "uuid \<Rightarrow> int \<Rightarrow> string" where
  "mfa_used_step_key user_id step = ''mfa_used_step:'' @ uuid_str user_id @ '':'' @ int_str step"

definition idempotency_key :: "uuid \<Rightarrow> string \<Rightarrow> string" where
  "idempotency_key user_id key = ''idempotency:'' @ uuid_str user_id @ '':'' @ key"

definition ticket_create_rate_key :: "uuid \<Rightarrow> string" where
  "ticket_create_rate_key user_id = ''ticket_create_rate:'' @ uuid_str user_id"

definition ticket_reply_rate_key :: "uuid \<Rightarrow> string" where
  "ticket_reply_rate_key user_id = ''ticket_reply_rate:'' @ uuid_str user_id"

lemmas cache_key_defs = revoke_before_key_def perm_epoch_key_def login_fail_account_key_def
  login_fail_ip_key_def refresh_rate_limit_key_def password_reset_cooldown_key_def
  password_reset_account_hourly_key_def password_reset_ip_hourly_key_def mfa_token_key_def
  mfa_verify_attempts_key_def mfa_used_step_key_def idempotency_key_def
  ticket_create_rate_key_def ticket_reply_rate_key_def

text \<open>The abstract names: which function with which arguments.\<close>

datatype cache_entry =
    RevokeBefore uuid | PermEpoch uuid | LoginFailAccount uuid | LoginFailIp string
  | RefreshRateLimit uuid | PasswordResetCooldown string | PasswordResetAccountHourly string
  | PasswordResetIpHourly string | MfaToken string | MfaVerifyAttempts string
  | MfaUsedStep uuid int | Idempotency uuid string | TicketCreateRate uuid | TicketReplyRate uuid

fun cache_key :: "cache_entry \<Rightarrow> string" where
  "cache_key (RevokeBefore u) = revoke_before_key u"
| "cache_key (PermEpoch u) = perm_epoch_key u"
| "cache_key (LoginFailAccount u) = login_fail_account_key u"
| "cache_key (LoginFailIp i) = login_fail_ip_key i"
| "cache_key (RefreshRateLimit f) = refresh_rate_limit_key f"
| "cache_key (PasswordResetCooldown h) = password_reset_cooldown_key h"
| "cache_key (PasswordResetAccountHourly h) = password_reset_account_hourly_key h"
| "cache_key (PasswordResetIpHourly i) = password_reset_ip_hourly_key i"
| "cache_key (MfaToken h) = mfa_token_key h"
| "cache_key (MfaVerifyAttempts h) = mfa_verify_attempts_key h"
| "cache_key (MfaUsedStep u s) = mfa_used_step_key u s"
| "cache_key (Idempotency u k) = idempotency_key u k"
| "cache_key (TicketCreateRate u) = ticket_create_rate_key u"
| "cache_key (TicketReplyRate u) = ticket_reply_rate_key u"

text \<open>C36. Two cache entries have the same Valkey key only if they are the same entry: the key
  functions are injective and no two of them can ever produce the same string, whatever the
  identifiers, addresses, hashes and client-chosen idempotency keys are. So no gateway can read or
  overwrite another gateway's entry.\<close>

theorem cache_key_injective: "cache_key a = cache_key b \<longleftrightarrow> a = b"
  by (cases a; cases b) (simp_all add: cache_key_defs uuid_str_append_inj)

end
