(* ===== verification/Cache_Gateways.thy ===== *)
theory Cache_Gateways
  imports Cache_Keys
begin

text \<open>
  The cache gateways: \<open>RevocationCache\<close> and \<open>PermissionEpochCache\<close> (\<open>app/core/revocation_cache.py\<close>),
  the login, refresh, password-reset and MFA gateways (\<open>app/modules/users/cache.py\<close>) and the ticket
  gateways (\<open>app/modules/support/cache.py\<close>). The state is one Valkey instance; by
  \<^verbatim>\<open>cache_key_injective\<close> it splits into one map per key function. Values keep their Python type:
  the ISO timestamps, decimal counters, identifiers and JSON envelopes that go over the wire are
  written and read back by the same gateway only.
\<close>

record idempotency_envelope =
  env_request_hash :: string
  env_ticket_id :: "uuid option"

record valkey =
  vk_revoke_before :: "(uuid, datetime) ttl_map"
  vk_perm_epoch :: "(uuid, datetime) ttl_map"
  vk_login_fail_account :: "(uuid, int) ttl_map"
  vk_login_fail_ip :: "(string, int) ttl_map"
  vk_refresh_rate_limit :: "(uuid, int) ttl_map"
  vk_password_reset_cooldown :: "(string, int) ttl_map"
  vk_password_reset_account_hourly :: "(string, int) ttl_map"
  vk_password_reset_ip_hourly :: "(string, int) ttl_map"
  vk_mfa_token :: "(string, uuid) ttl_map"
  vk_mfa_verify_attempts :: "(string, int) ttl_map"
  vk_mfa_used_step :: "(uuid \<times> int, unit) ttl_map"
  vk_idempotency :: "(uuid \<times> string, idempotency_envelope) ttl_map"
  vk_ticket_create_rate :: "(uuid, int) ttl_map"
  vk_ticket_reply_rate :: "(uuid, int) ttl_map"

definition empty_valkey :: valkey where
  "empty_valkey = \<lparr>vk_revoke_before = Map.empty, vk_perm_epoch = Map.empty,
     vk_login_fail_account = Map.empty, vk_login_fail_ip = Map.empty,
     vk_refresh_rate_limit = Map.empty, vk_password_reset_cooldown = Map.empty,
     vk_password_reset_account_hourly = Map.empty, vk_password_reset_ip_hourly = Map.empty,
     vk_mfa_token = Map.empty, vk_mfa_verify_attempts = Map.empty, vk_mfa_used_step = Map.empty,
     vk_idempotency = Map.empty, vk_ticket_create_rate = Map.empty,
     vk_ticket_reply_rate = Map.empty\<rparr>"

section \<open>RevocationCache and PermissionEpochCache\<close>

definition set_revoke_before :: "datetime \<Rightarrow> uuid \<Rightarrow> int \<Rightarrow> valkey \<Rightarrow> valkey" where
  "set_revoke_before t user_id ttl_seconds c =
     c\<lparr>vk_revoke_before := vk_set_ex t user_id t ttl_seconds (vk_revoke_before c)\<rparr>"

definition get_revoke_before :: "datetime \<Rightarrow> uuid \<Rightarrow> valkey \<Rightarrow> datetime option" where
  "get_revoke_before t user_id c = vk_get t user_id (vk_revoke_before c)"

definition set_perm_epoch :: "datetime \<Rightarrow> uuid \<Rightarrow> int \<Rightarrow> valkey \<Rightarrow> valkey" where
  "set_perm_epoch t user_id ttl_seconds c =
     c\<lparr>vk_perm_epoch := vk_set_ex t user_id t ttl_seconds (vk_perm_epoch c)\<rparr>"

definition get_perm_epoch :: "datetime \<Rightarrow> uuid \<Rightarrow> valkey \<Rightarrow> datetime option" where
  "get_perm_epoch t user_id c = vk_get t user_id (vk_perm_epoch c)"

section \<open>LoginThrottleCache\<close>

text \<open>\<open>_get_count\<close> and \<open>_get_ttl\<close> are shared by the counter gateways.\<close>

definition count_of :: "datetime \<Rightarrow> 'k \<Rightarrow> ('k, int) ttl_map \<Rightarrow> int" where
  "count_of t k m = (case vk_get t k m of None \<Rightarrow> 0 | Some n \<Rightarrow> n)"

definition retry_after_of :: "datetime \<Rightarrow> 'k \<Rightarrow> ('k, int) ttl_map \<Rightarrow> int" where
  "retry_after_of t k m = max (vk_ttl t k m) 0"

definition record_account_failure :: "datetime \<Rightarrow> uuid \<Rightarrow> int \<Rightarrow> valkey \<Rightarrow> int \<times> valkey" where
  "record_account_failure t user_id window_seconds c =
     (let (n, m) = vk_incr_expire t user_id window_seconds (vk_login_fail_account c)
      in (n, c\<lparr>vk_login_fail_account := m\<rparr>))"

definition record_ip_failure :: "datetime \<Rightarrow> string \<Rightarrow> int \<Rightarrow> valkey \<Rightarrow> int \<times> valkey" where
  "record_ip_failure t ip window_seconds c =
     (let (n, m) = vk_incr_expire t ip window_seconds (vk_login_fail_ip c)
      in (n, c\<lparr>vk_login_fail_ip := m\<rparr>))"

definition get_account_failure_count :: "datetime \<Rightarrow> uuid \<Rightarrow> valkey \<Rightarrow> int" where
  "get_account_failure_count t user_id c = count_of t user_id (vk_login_fail_account c)"

definition get_ip_failure_count :: "datetime \<Rightarrow> string \<Rightarrow> valkey \<Rightarrow> int" where
  "get_ip_failure_count t ip c = count_of t ip (vk_login_fail_ip c)"

definition get_account_retry_after_seconds :: "datetime \<Rightarrow> uuid \<Rightarrow> valkey \<Rightarrow> int" where
  "get_account_retry_after_seconds t user_id c = retry_after_of t user_id (vk_login_fail_account c)"

definition get_ip_retry_after_seconds :: "datetime \<Rightarrow> string \<Rightarrow> valkey \<Rightarrow> int" where
  "get_ip_retry_after_seconds t ip c = retry_after_of t ip (vk_login_fail_ip c)"

definition reset_account_failures :: "uuid \<Rightarrow> valkey \<Rightarrow> valkey" where
  "reset_account_failures user_id c =
     c\<lparr>vk_login_fail_account := vk_del user_id (vk_login_fail_account c)\<rparr>"

section \<open>RefreshRateLimitCache\<close>

definition record_request :: "datetime \<Rightarrow> uuid \<Rightarrow> int \<Rightarrow> valkey \<Rightarrow> int \<times> valkey" where
  "record_request t family_id window_seconds c =
     (let (n, m) = vk_incr_expire t family_id window_seconds (vk_refresh_rate_limit c)
      in (n, c\<lparr>vk_refresh_rate_limit := m\<rparr>))"

definition get_request_count :: "datetime \<Rightarrow> uuid \<Rightarrow> valkey \<Rightarrow> int" where
  "get_request_count t family_id c = count_of t family_id (vk_refresh_rate_limit c)"

definition get_refresh_retry_after_seconds :: "datetime \<Rightarrow> uuid \<Rightarrow> valkey \<Rightarrow> int" where
  "get_refresh_retry_after_seconds t family_id c = retry_after_of t family_id (vk_refresh_rate_limit c)"

section \<open>PasswordResetRateLimitCache\<close>

definition record_cooldown_attempt :: "datetime \<Rightarrow> string \<Rightarrow> int \<Rightarrow> valkey \<Rightarrow> int \<times> valkey" where
  "record_cooldown_attempt t email_hash window_seconds c =
     (let (n, m) = vk_incr_expire t email_hash window_seconds (vk_password_reset_cooldown c)
      in (n, c\<lparr>vk_password_reset_cooldown := m\<rparr>))"

definition get_cooldown_retry_after_seconds :: "datetime \<Rightarrow> string \<Rightarrow> valkey \<Rightarrow> int" where
  "get_cooldown_retry_after_seconds t email_hash c =
     retry_after_of t email_hash (vk_password_reset_cooldown c)"

definition record_account_attempt :: "datetime \<Rightarrow> string \<Rightarrow> int \<Rightarrow> valkey \<Rightarrow> int \<times> valkey" where
  "record_account_attempt t email_hash window_seconds c =
     (let (n, m) = vk_incr_expire t email_hash window_seconds (vk_password_reset_account_hourly c)
      in (n, c\<lparr>vk_password_reset_account_hourly := m\<rparr>))"

definition get_reset_account_retry_after_seconds :: "datetime \<Rightarrow> string \<Rightarrow> valkey \<Rightarrow> int" where
  "get_reset_account_retry_after_seconds t email_hash c =
     retry_after_of t email_hash (vk_password_reset_account_hourly c)"

definition record_ip_attempt :: "datetime \<Rightarrow> string \<Rightarrow> int \<Rightarrow> valkey \<Rightarrow> int \<times> valkey" where
  "record_ip_attempt t ip window_seconds c =
     (let (n, m) = vk_incr_expire t ip window_seconds (vk_password_reset_ip_hourly c)
      in (n, c\<lparr>vk_password_reset_ip_hourly := m\<rparr>))"

definition get_reset_ip_retry_after_seconds :: "datetime \<Rightarrow> string \<Rightarrow> valkey \<Rightarrow> int" where
  "get_reset_ip_retry_after_seconds t ip c = retry_after_of t ip (vk_password_reset_ip_hourly c)"

section \<open>MfaTokenCache and MfaReplayCache\<close>

definition mfa_issue :: "datetime \<Rightarrow> string \<Rightarrow> uuid \<Rightarrow> int \<Rightarrow> valkey \<Rightarrow> valkey" where
  "mfa_issue t token_hash user_id ttl_seconds c =
     c\<lparr>vk_mfa_token := vk_set_ex t token_hash user_id ttl_seconds (vk_mfa_token c)\<rparr>"

definition mfa_get_user_id :: "datetime \<Rightarrow> string \<Rightarrow> valkey \<Rightarrow> uuid option" where
  "mfa_get_user_id t token_hash c = vk_get t token_hash (vk_mfa_token c)"

definition mfa_consume :: "datetime \<Rightarrow> string \<Rightarrow> valkey \<Rightarrow> uuid option \<times> valkey" where
  "mfa_consume t token_hash c =
     (let (r, m) = vk_getdel t token_hash (vk_mfa_token c) in (r, c\<lparr>vk_mfa_token := m\<rparr>))"

definition mfa_record_failed_attempt :: "datetime \<Rightarrow> string \<Rightarrow> int \<Rightarrow> valkey \<Rightarrow> int \<times> valkey" where
  "mfa_record_failed_attempt t token_hash window_seconds c =
     (let (n, m) = vk_incr_expire t token_hash window_seconds (vk_mfa_verify_attempts c)
      in (n, c\<lparr>vk_mfa_verify_attempts := m\<rparr>))"

definition mfa_invalidate :: "string \<Rightarrow> valkey \<Rightarrow> valkey" where
  "mfa_invalidate token_hash c =
     c\<lparr>vk_mfa_token := vk_del token_hash (vk_mfa_token c),
       vk_mfa_verify_attempts := vk_del token_hash (vk_mfa_verify_attempts c)\<rparr>"

definition mark_step_used :: "datetime \<Rightarrow> uuid \<Rightarrow> int \<Rightarrow> int \<Rightarrow> valkey \<Rightarrow> bool \<times> valkey" where
  "mark_step_used t user_id step ttl_seconds c =
     (let (ok, m) = vk_set_nx_ex t (user_id, step) () ttl_seconds (vk_mfa_used_step c)
      in (ok, c\<lparr>vk_mfa_used_step := m\<rparr>))"

section \<open>Ticket caches\<close>

definition idem_claim :: "datetime \<Rightarrow> uuid \<Rightarrow> string \<Rightarrow> string \<Rightarrow> int \<Rightarrow> valkey \<Rightarrow> bool \<times> valkey" where
  "idem_claim t user_id key request_hash ttl_seconds c =
     (let (ok, m) = vk_set_nx_ex t (user_id, key)
        \<lparr>env_request_hash = request_hash, env_ticket_id = None\<rparr> ttl_seconds (vk_idempotency c)
      in (ok, c\<lparr>vk_idempotency := m\<rparr>))"

definition idem_get_envelope :: "datetime \<Rightarrow> uuid \<Rightarrow> string \<Rightarrow> valkey \<Rightarrow> idempotency_envelope option" where
  "idem_get_envelope t user_id key c = vk_get t (user_id, key) (vk_idempotency c)"

definition idem_resolve ::
  "datetime \<Rightarrow> uuid \<Rightarrow> string \<Rightarrow> string \<Rightarrow> uuid \<Rightarrow> int \<Rightarrow> valkey \<Rightarrow> valkey" where
  "idem_resolve t user_id key request_hash ticket_id ttl_seconds c =
     c\<lparr>vk_idempotency := vk_set_ex t (user_id, key)
        \<lparr>env_request_hash = request_hash, env_ticket_id = Some ticket_id\<rparr> ttl_seconds
        (vk_idempotency c)\<rparr>"

definition idem_release :: "uuid \<Rightarrow> string \<Rightarrow> valkey \<Rightarrow> valkey" where
  "idem_release user_id key c = c\<lparr>vk_idempotency := vk_del (user_id, key) (vk_idempotency c)\<rparr>"

definition ticket_create_record_and_check :: "datetime \<Rightarrow> uuid \<Rightarrow> int \<Rightarrow> valkey \<Rightarrow> int \<times> valkey" where
  "ticket_create_record_and_check t user_id window_seconds c =
     (let (n, m) = vk_incr_expire t user_id window_seconds (vk_ticket_create_rate c)
      in (n, c\<lparr>vk_ticket_create_rate := m\<rparr>))"

definition ticket_create_retry_after_seconds :: "datetime \<Rightarrow> uuid \<Rightarrow> valkey \<Rightarrow> int" where
  "ticket_create_retry_after_seconds t user_id c = retry_after_of t user_id (vk_ticket_create_rate c)"

definition ticket_reply_record_and_check :: "datetime \<Rightarrow> uuid \<Rightarrow> int \<Rightarrow> valkey \<Rightarrow> int \<times> valkey" where
  "ticket_reply_record_and_check t user_id window_seconds c =
     (let (n, m) = vk_incr_expire t user_id window_seconds (vk_ticket_reply_rate c)
      in (n, c\<lparr>vk_ticket_reply_rate := m\<rparr>))"

definition ticket_reply_retry_after_seconds :: "datetime \<Rightarrow> uuid \<Rightarrow> valkey \<Rightarrow> int" where
  "ticket_reply_retry_after_seconds t user_id c = retry_after_of t user_id (vk_ticket_reply_rate c)"

declare set_revoke_before_def [cache_defs] get_revoke_before_def [cache_defs]
  set_perm_epoch_def [cache_defs] get_perm_epoch_def [cache_defs]
  record_account_failure_def [cache_defs] record_ip_failure_def [cache_defs]
  get_account_failure_count_def [cache_defs] get_ip_failure_count_def [cache_defs]
  reset_account_failures_def [cache_defs] record_request_def [cache_defs]
  record_cooldown_attempt_def [cache_defs] record_account_attempt_def [cache_defs]
  record_ip_attempt_def [cache_defs] mfa_issue_def [cache_defs] mfa_get_user_id_def [cache_defs]
  mfa_consume_def [cache_defs] mfa_record_failed_attempt_def [cache_defs]
  mfa_invalidate_def [cache_defs] mark_step_used_def [cache_defs] idem_claim_def [cache_defs]
  idem_get_envelope_def [cache_defs] idem_resolve_def [cache_defs] idem_release_def [cache_defs]
  ticket_create_record_and_check_def [cache_defs] ticket_reply_record_and_check_def [cache_defs]

section \<open>Facts the services use\<close>

lemma get_revoke_before_set [simp]:
  "get_revoke_before t' u (set_revoke_before t u ttl c)
     = (if t' < t + seconds ttl then Some t else None)"
  by (simp add: cache_defs)

lemma get_perm_epoch_set [simp]:
  "get_perm_epoch t' u (set_perm_epoch t u ttl c)
     = (if t' < t + seconds ttl then Some t else None)"
  by (simp add: cache_defs)

text \<open>The two denylist entries do not interfere.\<close>

lemma revocation_frame [simp]:
  "get_perm_epoch t' u (set_revoke_before t v ttl c) = get_perm_epoch t' u c"
  "get_revoke_before t' u (set_perm_epoch t v ttl c) = get_revoke_before t' u c"
  "v \<noteq> u \<Longrightarrow> get_revoke_before t' u (set_revoke_before t v ttl c) = get_revoke_before t' u c"
  "v \<noteq> u \<Longrightarrow> get_perm_epoch t' u (set_perm_epoch t v ttl c) = get_perm_epoch t' u c"
  by (simp_all add: cache_defs)

lemma mark_step_used_iff: "fst (mark_step_used t u s ttl c) \<longleftrightarrow> vk_get t (u, s) (vk_mfa_used_step c) = None"
  by (simp add: cache_defs vk.set_nx Let_def split: prod.splits if_splits)

lemma mark_step_used_blocks:
  assumes "mark_step_used t u s ttl c = (True, c')" and "t' < t + seconds ttl"
    and "vk_mfa_used_step c2 (u, s) = vk_mfa_used_step c' (u, s)"
  shows "\<not> fst (mark_step_used t' u s ttl' c2)"
proof -
  from assms(1) have "vk_mfa_used_step c' (u, s) = Some ((), t + seconds ttl)"
    by (auto simp: cache_defs vk.set_nx vk_set_ex_def split: prod.splits if_splits)
  with assms(2,3) show ?thesis by (simp add: mark_step_used_iff vk_get_def)
qed

lemma idem_claim_cases:
  obtains (claimed) "idem_get_envelope t u k c = None"
      "idem_claim t u k h ttl c = (True, c\<lparr>vk_idempotency := vk_set_ex t (u, k)
        \<lparr>env_request_hash = h, env_ticket_id = None\<rparr> ttl (vk_idempotency c)\<rparr>)"
  | (taken) e where "idem_get_envelope t u k c = Some e" "idem_claim t u k h ttl c = (False, c)"
  by (cases "idem_get_envelope t u k c")
    (auto simp: idem_claim_def idem_get_envelope_def vk.set_nx split: prod.splits)

text \<open>A run of refresh requests of one family, at the given instants.\<close>

fun record_requests :: "datetime list \<Rightarrow> uuid \<Rightarrow> int \<Rightarrow> valkey \<Rightarrow> valkey" where
  "record_requests [] f w c = c"
| "record_requests (t # ts) f w c = record_requests ts f w (snd (record_request t f w c))"

lemma record_requests_incr_run:
  "record_requests ts f w c
     = c\<lparr>vk_refresh_rate_limit := incr_run f w ts (vk_refresh_rate_limit c)\<rparr>"
  by (induction ts arbitrary: c) (simp_all add: record_request_def Let_def case_prod_beta)

text \<open>The request counter of a token family counts every request made since the last silence of
  a full window, not the requests of the last window: as long as consecutive requests are less than
  a window apart (however long the whole run lasts), each one renews the time to live and the next
  count is one more than the number of requests of the run.\<close>

theorem refresh_counter_never_resets:
  assumes "vk_get t0 f (vk_refresh_rate_limit c) = None" and "closely_spaced w t0 (ts @ [t])"
  shows "fst (record_request t f w (record_requests (t0 # ts) f w c)) = int (length ts) + 2"
proof -
  let ?m = "vk_refresh_rate_limit c"
  let ?m1 = "snd (vk_incr_expire t0 f w ?m)"
  have one: "?m1 f = Some (1, t0 + seconds w)"
    using assms(1) by (simp add: vk_incr_expire_fresh vk_set_ex_def)
  have spaced: "closely_spaced w t0 ts"
    and last: "t < last (t0 # ts) + seconds w"
    using assms(2) by (induction ts arbitrary: t0) auto
  have "incr_run f w ts ?m1 f = Some (1 + int (length ts), last (t0 # ts) + seconds w)"
    using incr_run_counts [of ?m1 f 1 t0 w ts] one spaced by simp
  with last show ?thesis
    by (simp add: record_requests_incr_run record_request_def vk_incr_expire_def vk_get_def
        Let_def split: prod.splits)
qed

text \<open>Sixty requests at intervals of fifty minutes, then one more: the count is 61 although the last
  hour holds two requests.\<close>

lemma refresh_counter_spaced_example:
  "closely_spaced 3600 0 (map (\<lambda>i. seconds (3000 * i)) [1..59] @ [seconds 180000])"
  by code_simp

theorem refresh_counter_never_resets_witness:
  "fst (record_request (seconds 180000) 7 3600
     (record_requests (0 # map (\<lambda>i. seconds (3000 * i)) [1..59]) 7 3600 empty_valkey)) = 61"
proof -
  have "vk_get 0 7 (vk_refresh_rate_limit empty_valkey) = None"
    by (simp add: empty_valkey_def vk_get_def)
  from refresh_counter_never_resets [OF this refresh_counter_spaced_example]
  show ?thesis by simp
qed

end
