(* ===== verification/Security.thy ===== *)
theory Security
  imports Config Cache_Gateways
begin

text \<open>
  \<open>app/core/security.py\<close>, \<open>crypto.py\<close>, \<open>device.py\<close> and \<open>breached_passwords.py\<close>: password
  hashing, opaque tokens, access tokens and time-based one-time passwords.

  The primitives these modules call (Argon2, SHA-256, HMAC-SHA1, AES-GCM, PyJWT, base64, ISO 8601
  rendering and parsing, the driver's encoding of a \<open>timestamptz\<close> parameter (an offset-free value is
  read in the server's local zone, a value out of range raises), PostgreSQL's text output of
  \<open>timestamptz\<close>, \<open>jsonb\<close> and \<open>extract(year from _)\<close>, Pydantic's messages, the time zone database, the user-agent parser and the
  e-mail validator) are the fields of a record \<open>libs\<close>, an argument of every
  definition that uses them. What the proofs need of them is stated as named predicates
  (\<open>jwt_sound\<close>, \<open>hmac_sha1_sized\<close>, \<open>aesgcm_sound\<close>).

  A Python exception that no modelled code catches (\<open>UnicodeEncodeError\<close>, \<open>struct.error\<close>,
  \<open>TypeError\<close>) is the value \<open>None\<close> of an option type.
\<close>

type_synonym bytes = "8 word list"

datatype argon2_outcome = Verified | VerificationError | InvalidHash

text \<open>JSON values: request bodies and \<open>jsonb\<close> columns. A number that is not an integer is kept as
  its literal.\<close>

datatype json = JNull | JBool bool | JInt int | JFloat string | JStr string | JList "json list"
  | JObj "(string \<times> json) list"

text \<open>A parsed ISO 8601 string carries a UTC offset or not.\<close>

datatype parsed_datetime = Aware datetime | Naive datetime

record jwt_payload =
  jp_sub :: "uuid option"
  jp_jti :: "uuid option"
  jp_exp :: "int option"
  jp_scopes :: "string list option"
  jp_mfa_enrollment_required :: "bool option"

record libs =
  sha256_hex :: "string \<Rightarrow> string"
  hmac_sha1 :: "bytes \<Rightarrow> bytes \<Rightarrow> bytes"
  argon2_hash :: "int \<times> int \<times> int \<Rightarrow> string \<Rightarrow> string \<Rightarrow> string"
  argon2_verify :: "string \<Rightarrow> string \<Rightarrow> argon2_outcome"
  urlsafe_b64decode :: "string \<Rightarrow> bytes"
  aesgcm_encrypt :: "bytes \<Rightarrow> bytes \<Rightarrow> bytes \<Rightarrow> bytes"
  aesgcm_decrypt :: "bytes \<Rightarrow> bytes \<Rightarrow> bytes \<Rightarrow> bytes option"
  jwt_encode :: "string \<Rightarrow> jwt_payload \<Rightarrow> string"
  jwt_decode :: "string \<Rightarrow> datetime \<Rightarrow> string \<Rightarrow> jwt_payload option"
  validate_email :: "string \<Rightarrow> string option"
  parse_user_agent :: "string \<Rightarrow> string \<times> string"
  geoip_city :: "string \<Rightarrow> (string option \<times> string option) option"
  breached_password_lines :: "string list"
  isoformat :: "datetime \<Rightarrow> string"
  fromisoformat :: "string \<Rightarrow> parsed_datetime option"
  to_timestamptz :: "parsed_datetime \<Rightarrow> datetime option"
  b64url_encode :: "string \<Rightarrow> string"
  b64url_decode :: "string \<Rightarrow> string option"
  timestamptz_text :: "datetime \<Rightarrow> string"
  jsonb_text :: "json \<Rightarrow> string"
  extract_year :: "datetime \<Rightarrow> string"
  pydantic_msg :: "string \<Rightarrow> json \<Rightarrow> string"
  available_timezones :: "string list"

section \<open>Passwords\<close>

text \<open>The salt is the random value the hasher draws.\<close>

definition hash_password :: "libs \<Rightarrow> string \<Rightarrow> string \<Rightarrow> string" where
  "hash_password L salt password =
     argon2_hash L (argon2_time_cost get_settings, argon2_memory_cost_kb get_settings,
       argon2_parallelism get_settings) salt password"

definition verify_password :: "libs \<Rightarrow> string \<Rightarrow> string \<Rightarrow> bool" where
  "verify_password L password hashed_password =
     (case argon2_verify L hashed_password password of
        Verified \<Rightarrow> True
      | VerificationError \<Rightarrow> False
      | InvalidHash \<Rightarrow> False)"

text \<open>\<open>_load_breached_passwords\<close> keeps the non-blank lines, stripped.\<close>

definition py_strip :: "string \<Rightarrow> string" where
  "py_strip s = (let ws = (\<lambda>c. c \<in> {CHR '' '', CHR 0x09, CHR 0x0A, CHR 0x0B, CHR 0x0C, CHR 0x0D, CHR 0x1C,
       CHR 0x1D, CHR 0x1E, CHR 0x1F, CHR 0x85, CHR 0xA0})
     in rev (dropWhile ws (rev (dropWhile ws s))))"

definition is_breached_password :: "libs \<Rightarrow> string \<Rightarrow> bool" where
  "is_breached_password L password =
     (password \<in> set (filter (\<lambda>l. l \<noteq> []) (map py_strip (breached_password_lines L))))"

section \<open>Opaque tokens\<close>

definition is_ascii :: "string \<Rightarrow> bool" where
  "is_ascii s = list_all (\<lambda>c. (of_char c :: nat) < 128) s"

definition hash_refresh_token :: "libs \<Rightarrow> string \<Rightarrow> string option" where
  "hash_refresh_token L raw_token = (if is_ascii raw_token then Some (sha256_hex L raw_token) else None)"

text \<open>\<open>secrets.token_urlsafe\<close> only draws ASCII characters, so hashing a generated token cannot fail.\<close>

definition generate_refresh_token :: "libs \<Rightarrow> string \<Rightarrow> string \<times> string" where
  "generate_refresh_token L drawn = (drawn, sha256_hex L drawn)"

definition hash_mfa_token :: "libs \<Rightarrow> string \<Rightarrow> string option" where
  "hash_mfa_token L raw_token = (if is_ascii raw_token then Some (sha256_hex L raw_token) else None)"

definition generate_mfa_token :: "libs \<Rightarrow> string \<Rightarrow> string \<times> string" where
  "generate_mfa_token L drawn = (drawn, sha256_hex L drawn)"

lemma hash_generated_refresh_token:
  "is_ascii drawn \<Longrightarrow> generate_refresh_token L drawn = (raw, h) \<Longrightarrow> hash_refresh_token L raw = Some h"
  by (auto simp: generate_refresh_token_def hash_refresh_token_def)

section \<open>Access tokens\<close>

record access_token_claims =
  ac_user_id :: uuid
  ac_jti :: uuid
  ac_exp :: datetime
  ac_scopes :: "string list"
  ac_mfa_enrollment_required :: bool

text \<open>PyJWT writes \<open>exp\<close> as whole seconds.\<close>

definition access_token_payload :: "datetime \<Rightarrow> uuid \<Rightarrow> uuid \<Rightarrow> string list \<Rightarrow> bool \<Rightarrow> jwt_payload" where
  "access_token_payload t user_id jti scopes mfa_enrollment_required =
     (let expires_at = t + seconds (access_token_ttl_seconds get_settings) in
      \<lparr>jp_sub = Some user_id, jp_jti = Some jti, jp_exp = Some (expires_at div 1000000),
       jp_scopes = Some scopes, jp_mfa_enrollment_required = Some mfa_enrollment_required\<rparr>)"

definition encode_access_token ::
  "libs \<Rightarrow> datetime \<Rightarrow> uuid \<Rightarrow> uuid \<Rightarrow> string list \<Rightarrow> bool \<Rightarrow> string" where
  "encode_access_token L t user_id jti scopes mfa_enrollment_required =
     jwt_encode L (jwt_secret_key get_settings)
       (access_token_payload t user_id jti scopes mfa_enrollment_required)"

definition decode_access_token :: "libs \<Rightarrow> datetime \<Rightarrow> string \<Rightarrow> access_token_claims option" where
  "decode_access_token L t token =
     (case jwt_decode L (jwt_secret_key get_settings) t token of
        None \<Rightarrow> None
      | Some p \<Rightarrow>
          (case (jp_sub p, jp_jti p, jp_exp p) of
             (Some sub, Some jti, Some e) \<Rightarrow>
               Some \<lparr>ac_user_id = sub, ac_jti = jti, ac_exp = seconds e,
                 ac_scopes = (case jp_scopes p of None \<Rightarrow> [] | Some s \<Rightarrow> s),
                 ac_mfa_enrollment_required =
                   (case jp_mfa_enrollment_required p of None \<Rightarrow> False | Some b \<Rightarrow> b)\<rparr>
           | _ \<Rightarrow> None))"

text \<open>PyJWT's documented behaviour: a token signed with the key decodes to its payload until its
  \<open>exp\<close> has been reached, and is rejected from then on.\<close>

definition jwt_sound :: "libs \<Rightarrow> bool" where
  "jwt_sound L \<longleftrightarrow> (\<forall>k t p. jwt_decode L k t (jwt_encode L k p) =
     (case jp_exp p of None \<Rightarrow> Some p | Some e \<Rightarrow> if seconds e \<le> t then None else Some p))"

lemma decode_encoded_access_token:
  assumes "jwt_sound L"
  shows "decode_access_token L t' (encode_access_token L t u j sc b) =
    (if seconds ((t + seconds 900) div 1000000) \<le> t' then None
     else Some \<lparr>ac_user_id = u, ac_jti = j, ac_exp = seconds ((t + seconds 900) div 1000000),
       ac_scopes = sc, ac_mfa_enrollment_required = b\<rparr>)"
  using assms by (simp add: jwt_sound_def decode_access_token_def encode_access_token_def
      access_token_payload_def Let_def)

text \<open>An access token is dead once its nominal lifetime of 900 seconds is over.\<close>

lemma access_token_expired:
  assumes "jwt_sound L" and "t + seconds 900 \<le> t'"
  shows "decode_access_token L t' (encode_access_token L t u j sc b) = None"
proof -
  have "seconds ((t + seconds 900) div 1000000) \<le> t + seconds 900" by (simp add: seconds_def)
  with assms show ?thesis by (simp add: decode_encoded_access_token)
qed

section \<open>Time-based one-time passwords\<close>

definition TOTP_DIGITS :: nat where "TOTP_DIGITS = 6"
definition TOTP_STEP_SECONDS :: int where "TOTP_STEP_SECONDS = 30"
definition TOTP_SKEW_STEPS :: int where "TOTP_SKEW_STEPS = 1"

text \<open>\<open>struct.pack(">Q", n)\<close>: eight big-endian bytes; \<open>struct.error\<close> outside the range.\<close>

fun be_bytes :: "nat \<Rightarrow> nat \<Rightarrow> bytes" where
  "be_bytes 0 n = []"
| "be_bytes (Suc k) n = be_bytes k (n div 256) @ [of_nat (n mod 256)]"

definition struct_pack_Q :: "int \<Rightarrow> bytes option" where
  "struct_pack_Q n = (if 0 \<le> n \<and> n < 2 ^ 64 then Some (be_bytes 8 (nat n)) else None)"

definition struct_unpack_I :: "bytes \<Rightarrow> nat" where
  "struct_unpack_I bs = foldl (\<lambda>a b. a * 256 + unat b) 0 bs"

definition zfill :: "nat \<Rightarrow> string \<Rightarrow> string" where
  "zfill n s = replicate (n - length s) (CHR ''0'') @ s"

definition hotp :: "libs \<Rightarrow> bytes \<Rightarrow> int \<Rightarrow> string option" where
  "hotp L secret counter =
     (case struct_pack_Q counter of
        None \<Rightarrow> None
      | Some counter_bytes \<Rightarrow>
          (let digest = hmac_sha1 L secret counter_bytes;
               offset = unat (last digest) mod 16;
               truncated = struct_unpack_I (take 4 (drop offset digest)) mod 2 ^ 31
           in Some (zfill TOTP_DIGITS (nat_digits (truncated mod 10 ^ TOTP_DIGITS)))))"

definition current_totp_step :: "datetime \<Rightarrow> int" where
  "current_totp_step at = at div (TOTP_STEP_SECONDS * 1000000)"

text \<open>The loop over \<open>range(-1, 2)\<close>. \<open>hmac.compare_digest\<close> raises \<open>TypeError\<close> on a string with a
  non-ASCII character.\<close>

fun totp_search :: "libs \<Rightarrow> bytes \<Rightarrow> string \<Rightarrow> int \<Rightarrow> int list \<Rightarrow> int option option" where
  "totp_search L secret code current_step [] = Some None"
| "totp_search L secret code current_step (offset # offsets) =
     (case hotp L secret (current_step + offset) of
        None \<Rightarrow> None
      | Some expected \<Rightarrow>
          if \<not> is_ascii code then None
          else if expected = code then Some (Some (current_step + offset))
          else totp_search L secret code current_step offsets)"

definition verify_totp_code :: "libs \<Rightarrow> bytes \<Rightarrow> string \<Rightarrow> datetime \<Rightarrow> int option option" where
  "verify_totp_code L secret code at =
     totp_search L secret code (current_totp_step at) [- TOTP_SKEW_STEPS..TOTP_SKEW_STEPS]"

lemma totp_offsets: "[- TOTP_SKEW_STEPS..TOTP_SKEW_STEPS] = [- 1, 0, 1]"
  by (simp add: TOTP_SKEW_STEPS_def upto_rec1)

definition hmac_sha1_sized :: "libs \<Rightarrow> bool" where
  "hmac_sha1_sized L \<longleftrightarrow> (\<forall>k m. length (hmac_sha1 L k m) = 20)"

definition is_digit :: "char \<Rightarrow> bool" where
  "is_digit c \<longleftrightarrow> c \<in> set ''0123456789''"

lemma nat_digits_are_digits: "\<forall>c \<in> set (nat_digits n). is_digit c"
proof (induction n rule: nat_digits.induct)
  case (1 n)
  have d: "is_digit (hex_digit k)" if "k < 10" for k
  proof -
    have "hex_digit k = ''0123456789'' ! k"
      using that nth_append [of "''0123456789''" "''abcdef''" k] by (simp add: hex_digit_def)
    moreover have "''0123456789'' ! k \<in> set ''0123456789''" using that by (intro nth_mem) simp
    ultimately show ?thesis by (simp only: is_digit_def)
  qed
  then show ?case using "1.IH" by (subst nat_digits.simps) (auto simp: d)
qed

lemma length_nat_digits_le: "n < 10 ^ Suc k \<Longrightarrow> length (nat_digits n) \<le> Suc k"
proof (induction k arbitrary: n)
  case 0
  then show ?case by (subst nat_digits.simps) simp
next
  case (Suc k)
  then have "n div 10 < 10 ^ Suc k" by (simp add: less_mult_imp_div_less)
  with Suc.IH show ?case by (subst nat_digits.simps) simp
qed

lemma hotp_SomeD:
  assumes "hotp L secret counter = Some code"
  shows "\<exists>n. code = zfill TOTP_DIGITS (nat_digits (n mod 10 ^ TOTP_DIGITS))"
  using assms by (cases "struct_pack_Q counter") (auto simp only: hotp_def Let_def option.simps)

text \<open>Every HOTP value is a string of exactly six decimal digits, whatever the secret and the
  (packable) counter are, so it can match the six-digit pattern of the request schemas.\<close>

theorem hotp_six_digits:
  assumes "hotp L secret counter = Some code"
  shows "length code = 6 \<and> (\<forall>c \<in> set code. is_digit c)"
proof -
  obtain n where code: "code = zfill TOTP_DIGITS (nat_digits (n mod 10 ^ TOTP_DIGITS))"
    using assms hotp_SomeD by blast
  have "n mod 10 ^ TOTP_DIGITS < 10 ^ Suc 5" by (simp add: TOTP_DIGITS_def)
  then have "length (nat_digits (n mod 10 ^ TOTP_DIGITS)) \<le> Suc 5" by (rule length_nat_digits_le)
  then have "length code = 6" by (simp add: code zfill_def TOTP_DIGITS_def)
  moreover have "is_digit (CHR ''0'')" by (simp add: is_digit_def)
  ultimately show ?thesis
    using nat_digits_are_digits [of "n mod 10 ^ TOTP_DIGITS"] by (auto simp: code zfill_def)
qed

text \<open>A concrete library: every MAC is twenty zero bytes, instants are rendered in unary.\<close>

definition unary :: "int \<Rightarrow> string" where
  "unary t = (if t < 0 then CHR ''-'' # replicate (nat (- t)) (CHR ''1'') else replicate (nat t) (CHR ''1''))"

definition of_unary :: "string \<Rightarrow> parsed_datetime option" where
  "of_unary s = Some (Aware (if hd (s @ ''1'') = CHR ''-'' then - int (length (tl s)) else int (length s)))"

lemma of_unary_unary: "of_unary (unary t) = Some (Aware t)"
  by (cases "nat t") (auto simp: unary_def of_unary_def)

definition instant_of :: "parsed_datetime \<Rightarrow> datetime option" where
  "instant_of p = (case p of Aware t \<Rightarrow> Some t | Naive t \<Rightarrow> Some t)"

definition zero_libs :: libs where
  "zero_libs = \<lparr>sha256_hex = (\<lambda>s. ''h:'' @ s), hmac_sha1 = (\<lambda>k m. replicate 20 0),
     argon2_hash = (\<lambda>c salt p. salt @ ''$'' @ p),
     argon2_verify = (\<lambda>h p. if drop 1 (dropWhile (\<lambda>c. c \<noteq> CHR ''$'') h) = p then Verified else VerificationError),
     urlsafe_b64decode = (\<lambda>s. []), aesgcm_encrypt = (\<lambda>k n p. p), aesgcm_decrypt = (\<lambda>k n c. Some c),
     jwt_encode = (\<lambda>k p. []), jwt_decode = (\<lambda>k t s. None),
     validate_email = Some, parse_user_agent = (\<lambda>s. (''Other'', ''Other'')),
     geoip_city = (\<lambda>s. None), breached_password_lines = [''password''],
     isoformat = unary, fromisoformat = of_unary, to_timestamptz = instant_of, b64url_encode = id, b64url_decode = Some,
     timestamptz_text = unary, jsonb_text = (\<lambda>j. case j of JNull \<Rightarrow> ''null'' | _ \<Rightarrow> ''{}''),
     extract_year = (\<lambda>t. ''2026''), pydantic_msg = (\<lambda>code v. code),
     available_timezones = [''UTC'', ''Europe/Kyiv'']\<rparr>"

lemma struct_unpack_I_zeros [simp]: "struct_unpack_I (replicate n 0) = 0"
  by (induction n) (simp_all add: struct_unpack_I_def)

lemma hotp_zero_libs:
  assumes "0 \<le> n" "n < 2 ^ 64"
  shows "hotp zero_libs k n = Some ''000000''"
proof -
  have "replicate 5 (CHR ''0'') = ''00000''" by (simp add: eval_nat_numeral)
  then have z: "zfill TOTP_DIGITS (nat_digits 0) = ''000000''"
    by (simp add: zfill_def TOTP_DIGITS_def nat_digits.simps [of 0] hex_digit_def)
  have h: "hmac_sha1 zero_libs k m = replicate 20 0" for m by (simp add: zero_libs_def)
  show ?thesis using assms
    by (simp add: hotp_def struct_pack_Q_def Let_def h z take_replicate drop_replicate)
qed

theorem hotp_six_digits_witness:
  "hotp zero_libs [1, 2, 3] 5 = Some ''000000'' \<and> length ''000000'' = 6
    \<and> list_all is_digit ''000000''"
proof -
  have h: "hotp zero_libs [1, 2, 3] 5 = Some ''000000''" by (rule hotp_zero_libs) simp_all
  from h hotp_six_digits [OF h] show ?thesis by (simp add: list_all_iff)
qed

lemma verify_totp_code_cases:
  "verify_totp_code L secret code at = Some (Some step) \<longleftrightarrow>
     is_ascii code \<and>
     (let s = current_totp_step at in
       (hotp L secret (s - 1) = Some code \<and> step = s - 1)
     \<or> ((\<exists>x. hotp L secret (s - 1) = Some x \<and> x \<noteq> code) \<and> hotp L secret s = Some code \<and> step = s)
     \<or> ((\<exists>x. hotp L secret (s - 1) = Some x \<and> x \<noteq> code) \<and> (\<exists>x. hotp L secret s = Some x \<and> x \<noteq> code)
         \<and> hotp L secret (s + 1) = Some code \<and> step = s + 1))"
  by (auto simp: verify_totp_code_def totp_offsets Let_def split: option.splits if_splits)

lemma verify_totp_code_SomeD:
  assumes "verify_totp_code L secret code at = Some (Some step)"
  shows "hotp L secret step = Some code" and "\<bar>step - current_totp_step at\<bar> \<le> 1"
  using assms by (auto simp: verify_totp_code_cases Let_def)

text \<open>Specification of \<open>verify_totp_code\<close> for a clock past the first minute of 1970: on an ASCII
  code it never raises; it returns a step exactly when the code is the one of the previous, the
  current or the next 30-second step (a skew of one step and no wider), and the returned step is one
  that generates the code.\<close>

lemma verify_totp_code_spec:
  assumes "is_ascii code" and "30000000 \<le> at" and "at < 2 ^ 63"
  shows "\<exists>r. verify_totp_code L secret code at = Some r
    \<and> (r = None \<longleftrightarrow> (\<forall>d \<in> {-1, 0, 1}. hotp L secret (current_totp_step at + d) \<noteq> Some code))
    \<and> (\<forall>step. r = Some step \<longrightarrow>
         \<bar>step - current_totp_step at\<bar> \<le> 1 \<and> hotp L secret step = Some code)"
proof -
  let ?s = "current_totp_step at"
  have "1 \<le> ?s" "?s < 2 ^ 63"
    using assms(2,3) by (auto simp: current_totp_step_def TOTP_STEP_SECONDS_def)
  then have ex: "\<exists>x. hotp L secret (?s + d) = Some x" if "- 1 \<le> d" "d \<le> 1" for d
    using that by (auto simp: hotp_def struct_pack_Q_def Let_def)
  obtain x y z where h: "hotp L secret (?s + (- 1)) = Some x" "hotp L secret (?s + 0) = Some y"
      "hotp L secret (?s + 1) = Some z"
    using ex [of "- 1"] ex [of 0] ex [of 1] by auto
  then show ?thesis
    using assms(1) by (auto simp: verify_totp_code_def totp_offsets)
qed

theorem verify_totp_code_spec_witness:
  "\<exists>step. verify_totp_code zero_libs [7] ''000000'' 60000000 = Some (Some step)
    \<and> \<bar>step - 2\<bar> \<le> 1 \<and> hotp zero_libs [7] step = Some ''000000''"
proof -
  have s: "current_totp_step 60000000 = 2" by (simp add: current_totp_step_def TOTP_STEP_SECONDS_def)
  have h: "hotp zero_libs [7] (2 + 0) = Some ''000000''" by (rule hotp_zero_libs) simp_all
  have "is_ascii ''000000''" by (simp add: is_ascii_def)
  from verify_totp_code_spec [OF this, of 60000000 zero_libs "[7]"] s h show ?thesis by fastforce
qed

section \<open>Encryption of the TOTP secret\<close>

definition encrypt_mfa_secret :: "libs \<Rightarrow> bytes \<Rightarrow> bytes \<Rightarrow> bytes" where
  "encrypt_mfa_secret L nonce plaintext =
     nonce @ aesgcm_encrypt L (urlsafe_b64decode L (mfa_secret_encryption_key get_settings)) nonce plaintext"

definition decrypt_mfa_secret :: "libs \<Rightarrow> bytes \<Rightarrow> bytes option" where
  "decrypt_mfa_secret L ciphertext =
     aesgcm_decrypt L (urlsafe_b64decode L (mfa_secret_encryption_key get_settings))
       (take 12 ciphertext) (drop 12 ciphertext)"

definition aesgcm_sound :: "libs \<Rightarrow> bool" where
  "aesgcm_sound L \<longleftrightarrow> (\<forall>k n p. aesgcm_decrypt L k n (aesgcm_encrypt L k n p) = Some p)"

lemma mfa_secret_roundtrip:
  "aesgcm_sound L \<Longrightarrow> length nonce = 12 \<Longrightarrow>
   decrypt_mfa_secret L (encrypt_mfa_secret L nonce secret) = Some secret"
  by (simp add: aesgcm_sound_def decrypt_mfa_secret_def encrypt_mfa_secret_def)

section \<open>Device labels\<close>

definition resolve_device_label :: "libs \<Rightarrow> string option \<Rightarrow> string" where
  "resolve_device_label L user_agent =
     (case user_agent of
        None \<Rightarrow> ''Unknown device''
      | Some ua \<Rightarrow>
          if ua = [] then ''Unknown device''
          else (let (browser, os_family) = parse_user_agent L ua in
            if browser \<in> {''Other'', ''''} \<or> os_family \<in> {''Other'', ''''} then ''Unknown device''
            else browser @ '' on '' @ os_family))"

end
