(* ===== verification/Portal_Database.thy ===== *)
theory Portal_Database
  imports Security
begin

text \<open>
  The relational state (\<open>app/modules/*/models.py\<close>) and the state a request runs on.

  Every table is a list of rows, every row a record with the columns of the SQLAlchemy model. The
  surrogate keys of the append-only log tables are left out, except \<open>audit_log.id\<close>, by which the hash
  chain is ordered; the one query that reads the others takes them as an argument (\<^verbatim>\<open>Audit_Chain\<close>). A column whose values are an enumeration in the code
  (\<open>users.status\<close>, \<open>tickets.status\<close>, \<open>author_kind\<close>, \<open>visibility\<close>) is a datatype.

  A request runs in one database transaction at a time: a service that raises before its \<open>commit\<close>
  leaves the committed database as it was, while its cache operations stay. A service is a function
  from the committed state to an error or a result, and the new committed state.
\<close>

section \<open>Rows\<close>

datatype user_status = PENDING_VERIFICATION | ACTIVE | DEACTIVATED | INVITED

fun user_status_str :: "user_status \<Rightarrow> string" where
  "user_status_str PENDING_VERIFICATION = ''PENDING_VERIFICATION''"
| "user_status_str ACTIVE = ''active''"
| "user_status_str DEACTIVATED = ''deactivated''"
| "user_status_str INVITED = ''invited''"

record user =
  u_id :: uuid
  u_email :: string
  u_hashed_password :: string
  u_status :: user_status
  u_email_verified :: bool
  u_created_at :: datetime
  u_display_name :: "string option"
  u_locale :: "string option"
  u_timezone :: "string option"
  u_avatar_url :: "string option"
  u_pending_email :: "string option"
  u_deactivated_at :: "datetime option"
  u_last_login_at :: "datetime option"
  u_mfa_enabled :: bool
  u_mfa_secret_encrypted :: "bytes option"
  u_mfa_activated_at :: "datetime option"
  u_mfa_reenrollment_required :: bool

record user_session =
  us_jti :: uuid
  us_user_id :: uuid
  us_issued_at :: datetime
  us_expires_at :: datetime
  us_revoked_at :: "datetime option"

record auth_audit_log =
  aal_event :: string
  aal_reason :: "string option"
  aal_scope :: "string option"
  aal_severity :: "string option"
  aal_target_family :: "uuid option"
  aal_actor_id :: "uuid option"
  aal_ip :: string
  aal_user_agent :: "string option"
  aal_request_id :: string
  aal_occurred_at :: datetime

record password_reset_token =
  prt_user_id :: uuid
  prt_token_hash :: string
  prt_issued_at :: datetime
  prt_expires_at :: datetime
  prt_consumed_at :: "datetime option"

record refresh_token =
  rt_token_hash :: string
  rt_family_id :: uuid
  rt_user_id :: uuid
  rt_issued_at :: datetime
  rt_expires_at :: datetime
  rt_revoked_at :: "datetime option"
  rt_consumed_at :: "datetime option"
  rt_last_used_at :: "datetime option"
  rt_ip :: "string option"
  rt_user_agent :: "string option"

record mfa_recovery_code =
  mrc_id :: uuid
  mrc_user_id :: uuid
  mrc_code_hash :: string
  mrc_created_at :: datetime
  mrc_consumed_at :: "datetime option"

text \<open>A role with the scopes \<open>selectinload(Role.permissions)\<close> loads for it.\<close>

record role =
  ro_id :: uuid
  ro_name :: string
  ro_permissions :: "string list"

record user_role =
  ur_user_id :: uuid
  ur_role_id :: uuid
  ur_granted_at :: datetime

record admin_audit_log =
  aud_event :: string
  aud_actor_id :: "uuid option"
  aud_target_id :: "uuid option"
  aud_old_roles :: "string list option"
  aud_new_roles :: "string list option"
  aud_severity :: "string option"
  aud_request_id :: string
  aud_occurred_at :: datetime
  aud_field :: "string option"
  aud_old_value :: "string option"
  aud_new_value :: "string option"
  aud_reason :: "string option"

record email_verification_token =
  evt_id :: uuid
  evt_user_id :: uuid
  evt_token_hash :: string
  evt_issued_at :: datetime
  evt_expires_at :: datetime
  evt_consumed_at :: "datetime option"

record unverified_account_purge_log =
  upl_event :: string
  upl_subject_user_id :: "uuid option"
  upl_detail :: string
  upl_occurred_at :: datetime

record account_lifecycle_audit_log =
  lal_user_id :: uuid
  lal_event :: string
  lal_actor :: string
  lal_occurred_at :: datetime
  lal_reason :: "string option"

record invitation_token =
  it_id :: uuid
  it_user_id :: uuid
  it_token_hash :: string
  it_issued_at :: datetime
  it_expires_at :: datetime
  it_consumed_at :: "datetime option"

record email_change_token =
  ect_id :: uuid
  ect_user_id :: uuid
  ect_token_hash :: string
  ect_issued_at :: datetime
  ect_expires_at :: datetime
  ect_consumed_at :: "datetime option"

record profile_audit_log =
  pal_actor_id :: uuid
  pal_field :: string
  pal_old_value :: "string option"
  pal_new_value :: "string option"
  pal_request_id :: string
  pal_timestamp :: datetime

record audit_log =
  al_id :: uuid
  al_occurred_at :: datetime
  al_category :: string
  al_actor_id :: "uuid option"
  al_actor_role :: "string option"
  al_event :: string
  al_target_id :: "uuid option"
  al_outcome :: "string option"
  al_request_id :: "string option"
  al_ip :: "string option"
  al_user_agent :: "string option"
  al_payload :: "json option"
  al_previous_hash :: string
  al_row_hash :: string

datatype ticket_status = Open | WaitingOnSupport | WaitingOnCustomer | Resolved | Closed

fun ticket_status_str :: "ticket_status \<Rightarrow> string" where
  "ticket_status_str Open = ''open''"
| "ticket_status_str WaitingOnSupport = ''waiting_on_support''"
| "ticket_status_str WaitingOnCustomer = ''waiting_on_customer''"
| "ticket_status_str Resolved = ''resolved''"
| "ticket_status_str Closed = ''closed''"

lemma ticket_status_str_inj: "ticket_status_str s = ticket_status_str s' \<Longrightarrow> s = s'"
  by (cases s; cases s') simp_all

definition SYSTEM_ACTOR_ID :: uuid where
  "SYSTEM_ACTOR_ID = 0"

record ticket =
  tk_id :: uuid
  tk_ticket_number :: string
  tk_requester_id :: uuid
  tk_subject :: string
  tk_body :: string
  tk_category :: string
  tk_status :: ticket_status
  tk_created_at :: datetime
  tk_updated_at :: datetime
  tk_first_response_at :: "datetime option"
  tk_resolved_at :: "datetime option"
  tk_resolution_note :: "string option"
  tk_closed_at :: "datetime option"
  tk_closed_by :: "uuid option"
  tk_assignee_id :: "uuid option"

datatype actor_kind = Customer | Agent

datatype visibility = Public | Internal

record ticket_reply =
  tr_id :: uuid
  tr_ticket_id :: uuid
  tr_author_id :: uuid
  tr_author_kind :: actor_kind
  tr_body :: string
  tr_visibility :: visibility
  tr_created_at :: datetime

record attachment =
  at_id :: uuid
  at_uploaded_by :: uuid
  at_ticket_id :: "uuid option"
  at_ticket_reply_id :: "uuid option"
  at_created_at :: datetime

section \<open>The database, and the state of the portal\<close>

record db =
  users :: "user list"
  user_sessions :: "user_session list"
  auth_audit_logs :: "auth_audit_log list"
  password_reset_tokens :: "password_reset_token list"
  refresh_tokens :: "refresh_token list"
  mfa_recovery_codes :: "mfa_recovery_code list"
  roles :: "role list"
  user_roles :: "user_role list"
  admin_audit_logs :: "admin_audit_log list"
  email_verification_tokens :: "email_verification_token list"
  unverified_account_purge_logs :: "unverified_account_purge_log list"
  account_lifecycle_audit_logs :: "account_lifecycle_audit_log list"
  invitation_tokens :: "invitation_token list"
  email_change_tokens :: "email_change_token list"
  profile_audit_logs :: "profile_audit_log list"
  audit_logs :: "audit_log list"
  tickets :: "ticket list"
  ticket_number_seq :: nat
  ticket_replies :: "ticket_reply list"
  attachments :: "attachment list"

definition empty_db :: db where
  "empty_db = \<lparr>users = [], user_sessions = [], auth_audit_logs = [], password_reset_tokens = [],
     refresh_tokens = [], mfa_recovery_codes = [], roles = [], user_roles = [], admin_audit_logs = [],
     email_verification_tokens = [], unverified_account_purge_logs = [], account_lifecycle_audit_logs = [],
     invitation_tokens = [], email_change_tokens = [], profile_audit_logs = [], audit_logs = [], tickets = [],
     ticket_number_seq = 1, ticket_replies = [], attachments = []\<rparr>"

text \<open>The methods of \<open>EmailSender\<close> (\<open>app/core/email.py\<close>), one constructor each.\<close>

datatype email =
    VerificationEmail string string
  | EmailChangeConfirmation string string
  | EmailChangeNotice string
  | RefreshReuseAlert string
  | PasswordResetEmail string string
  | PasswordResetNotice string
  | MfaRecoveryUsedNotice string
  | InvitationEmail string string
  | TicketCreatedEmail string string
  | TicketReplyNotification string string
  | TicketReplyQueueNotification string
  | TicketResolvedEmail string string string

record portal =
  database :: db
  cache :: valkey
  outbox :: "email list"

text \<open>What a request brings along: the instant of the application clock, the start of its database
  transaction (the value of SQL's \<open>now()\<close>), its HTTP metadata, the values its random draws return
  (\<open>uuid.uuid4\<close>, \<open>secrets.token_urlsafe\<close>/\<open>token_hex\<close>, \<open>os.urandom\<close>), whether the mail provider
  accepts its messages, and whether the denylist reads reach the cache.\<close>

record request =
  rq_now :: datetime
  rq_db_now :: datetime
  rq_ip :: string
  rq_user_agent :: "string option"
  rq_request_id :: string
  rq_uuid :: "nat \<Rightarrow> uuid"
  rq_token :: "nat \<Rightarrow> string"
  rq_bytes :: "nat \<Rightarrow> bytes"
  rq_mail_ok :: bool
  rq_valkey_up :: bool

definition send_email :: "request \<Rightarrow> email \<Rightarrow> portal \<Rightarrow> portal" where
  "send_email rq m p = (if rq_mail_ok rq then p\<lparr>outbox := outbox p @ [m]\<rparr> else p)"

lemma send_email_simps [simp]:
  "database (send_email rq m p) = database p" "cache (send_email rq m p) = cache p"
  by (simp_all add: send_email_def)

text \<open>Database errors that reach the application as exceptions.\<close>

datatype sql_error = IntegrityError | MultipleResultsFound | DataError | PendingRollbackError

text \<open>\<open>scalar_one_or_none\<close> on a query without a unique column.\<close>

definition scalar_one_or_none :: "'a list \<Rightarrow> sql_error + 'a option" where
  "scalar_one_or_none rows =
     (case rows of [] \<Rightarrow> Inr None | [r] \<Rightarrow> Inr (Some r) | _ \<Rightarrow> Inl MultipleResultsFound)"

lemma scalar_one_or_none_Inr_Some: "scalar_one_or_none rows = Inr (Some r) \<longleftrightarrow> rows = [r]"
  by (auto simp: scalar_one_or_none_def split: list.splits)

lemma scalar_one_or_none_Inr_None: "scalar_one_or_none rows = Inr None \<longleftrightarrow> rows = []"
  by (auto simp: scalar_one_or_none_def split: list.splits)

text \<open>An insert into a table with a unique column.\<close>

definition insert_unique :: "('a \<Rightarrow> 'k) \<Rightarrow> 'a \<Rightarrow> 'a list \<Rightarrow> sql_error + 'a list" where
  "insert_unique key row rows =
     (if key row \<in> key ` set rows then Inl IntegrityError else Inr (rows @ [row]))"

lemma insert_unique_Inr [simp]:
  "insert_unique key row rows = Inr rows' \<longleftrightarrow> key row \<notin> key ` set rows \<and> rows' = rows @ [row]"
  by (auto simp: insert_unique_def)

lemma insert_unique_distinct:
  "insert_unique key row rows = Inr rows' \<Longrightarrow> distinct (map key rows) \<Longrightarrow> distinct (map key rows')"
  by auto

section \<open>Case folding\<close>

text \<open>\<open>str.lower\<close> and SQL's \<open>lower\<close> on ASCII letters.\<close>

definition lower_char :: "char \<Rightarrow> char" where
  "lower_char c = (let n = (of_char c :: nat) in if 65 \<le> n \<and> n \<le> 90 then char_of (n + 32) else c)"

definition lower :: "string \<Rightarrow> string" where
  "lower s = map lower_char s"

lemma lower_char_idem [simp]: "lower_char (lower_char c) = lower_char c"
  by (auto simp: lower_char_def Let_def of_char_of)

lemma lower_idem [simp]: "lower (lower s) = lower s"
  by (simp add: lower_def)

end
