(* ===== verification/Problems.thy ===== *)
theory Problems
  imports Portal_Database
begin

text \<open>
  The exceptions the services raise (\<open>app/modules/*/exceptions.py\<close>) and the responses
  \<open>problem_error_handler\<close> in \<open>app/main.py\<close> renders for them. Exceptions of different modules with
  one name are told apart by a prefix. The constant \<open>detail\<close> texts are left out.

  Exceptions no handler catches (a database error that escapes a repository, an explicit
  \<open>RuntimeError\<close>, an encoding or comparison error of the standard library) are the last group; they
  render as status 500.
\<close>

record field_error =
  fe_field :: string
  fe_message :: string
  fe_code :: string

datatype support_error =
    SupportValidationFailedError "field_error list"
  | IdempotencyKeyReuseError
  | AttachmentNotOwnedError
  | TicketCreationRateLimitError int
  | SupportAccountDeactivatedError
  | TicketNotFoundError
  | SupportInsufficientPermissionError
  | TicketClosedError
  | InvalidStateTransitionError "string list"
  | TicketReplyRateLimitError int
  | AssignmentConflictError

datatype admin_users_error =
    AdminEmailAlreadyRegisteredError
  | AdminPreconditionRequiredError
  | AdminPreconditionFailedError
  | AdminImmutableFieldError
  | AdminValidationFailedError "field_error list"
  | UserNotFoundError
  | AdminAlreadyDeactivatedError
  | AdminCannotTargetSelfError
  | AdminInvalidStateTransitionError
  | AdminTooManyAttemptsError int

datatype profile_error =
    ProfilePreconditionRequiredError
  | ProfilePreconditionFailedError
  | ProfileImmutableFieldError
  | ProfileValidationFailedError "field_error list"
  | ReauthenticationRequiredError
  | ProfileDuplicateEmailError
  | EmailChangeTokenExpiredError
  | EmailChangeTokenInvalidError

datatype portal_error =
    RegistrationValidationError "field_error list"
  | DuplicateEmailError
  | InvalidCredentialsError
  | EmailNotVerifiedError
  | AccountDeactivatedError
  | TooManyAttemptsError int
  | TokenInvalidError
  | PasswordResetTokenInvalidError
  | PasswordResetTokenExpiredError
  | PasswordPolicyError "string list"
  | TokenStaleError
  | MfaInvalidCodeError
  | MfaRequiredForRoleError
  | MfaEnrollmentRequiredError
  | SessionNotFoundError
  | CurrentSessionError
  | UnauthenticatedError
  | InsufficientPermissionError
  | CannotTargetSelfError
  | PrivilegeEscalationError
  | LastAdminError
  | RolesValidationFailedError "field_error list"
  | InvalidPasswordError
  | AlreadyDeactivatedError
  | VerificationTokenExpiredError
  | VerificationTokenInvalidError
  | InvalidRequestError
  | VerificationTooManyAttemptsError int
  | RangeTooWideError
  | AuditValidationFailedError "field_error list"
  | SupportError support_error
  | AdminUsersError admin_users_error
  | ProfileError profile_error
  | DatabaseError sql_error
  | RuntimeError string
  | UnicodeEncodeError
  | TypeError
  | InvalidTag
  | IndexError

record problem =
  pr_type_slug :: string
  pr_title :: string
  pr_status :: nat
  pr_retry_after :: "int option"
  pr_errors :: "field_error list option"
  pr_allowed_events :: "string list option"

definition ProblemError :: "string \<Rightarrow> string \<Rightarrow> nat \<Rightarrow> problem" where
  "ProblemError slug t st = \<lparr>pr_type_slug = slug, pr_title = t, pr_status = st, pr_retry_after = None,
     pr_errors = None, pr_allowed_events = None\<rparr>"

definition password_policy_message :: "string \<Rightarrow> string" where
  "password_policy_message rule =
     (if rule = ''min_length'' then ''Password must be at least 12 characters.''
      else if rule = ''breached'' then
        ''This password has appeared in a known data breach. Choose a different one.''
      else ''New password must be different from your current password.'')"

definition users_problem :: "portal_error \<Rightarrow> problem option" where
  "users_problem e =
     (case e of
        InvalidCredentialsError \<Rightarrow> Some (ProblemError ''invalid-credentials'' ''Invalid Credentials'' 401)
      | EmailNotVerifiedError \<Rightarrow> Some (ProblemError ''email-not-verified'' ''Email Not Verified'' 403)
      | AccountDeactivatedError \<Rightarrow> Some (ProblemError ''account-deactivated'' ''Account Deactivated'' 403)
      | TooManyAttemptsError s \<Rightarrow>
          Some ((ProblemError ''too-many-attempts'' ''Too Many Attempts'' 429)\<lparr>pr_retry_after := Some s\<rparr>)
      | TokenInvalidError \<Rightarrow> Some (ProblemError ''token-invalid'' ''Refresh Token Invalid'' 401)
      | PasswordResetTokenInvalidError \<Rightarrow>
          Some (ProblemError ''token-invalid'' ''Password Reset Token Invalid'' 400)
      | PasswordResetTokenExpiredError \<Rightarrow>
          Some (ProblemError ''token-expired'' ''Password Reset Token Expired'' 400)
      | PasswordPolicyError rules \<Rightarrow>
          Some ((ProblemError ''password-policy'' ''Password Does Not Meet Policy'' 422)\<lparr>pr_errors := Some (map (\<lambda>rule. \<lparr>fe_field = ''new_password'', fe_message = password_policy_message rule, fe_code = rule\<rparr>) rules)\<rparr>)
      | TokenStaleError \<Rightarrow> Some (ProblemError ''token-stale'' ''Token Predates a Permission Change'' 401)
      | MfaInvalidCodeError \<Rightarrow> Some (ProblemError ''mfa-invalid-code'' ''Invalid MFA Code'' 401)
      | MfaRequiredForRoleError \<Rightarrow>
          Some (ProblemError ''mfa-required-for-role'' ''MFA Required For This Role'' 409)
      | MfaEnrollmentRequiredError \<Rightarrow>
          Some (ProblemError ''mfa-enrollment-required'' ''MFA Enrolment Required'' 403)
      | SessionNotFoundError \<Rightarrow> Some (ProblemError ''not-found'' ''Session Not Found'' 404)
      | CurrentSessionError \<Rightarrow>
          Some (ProblemError ''current-session'' ''Cannot Revoke Current Session'' 409)
      | UnauthenticatedError \<Rightarrow> Some (ProblemError ''unauthenticated'' ''Unauthenticated'' 401)
      | _ \<Rightarrow> None)"

definition roles_problem :: "portal_error \<Rightarrow> problem option" where
  "roles_problem e =
     (case e of
        InsufficientPermissionError \<Rightarrow>
          Some (ProblemError ''insufficient-permission'' ''Insufficient Permission'' 403)
      | CannotTargetSelfError \<Rightarrow> Some (ProblemError ''cannot-target-self'' ''Cannot Target Self'' 403)
      | PrivilegeEscalationError \<Rightarrow>
          Some (ProblemError ''privilege-escalation'' ''Privilege Escalation'' 403)
      | LastAdminError \<Rightarrow> Some (ProblemError ''last-admin'' ''Last Administrator'' 409)
      | RolesValidationFailedError es \<Rightarrow>
          Some ((ProblemError ''validation-failed'' ''Validation Failed'' 422)\<lparr>pr_errors := Some es\<rparr>)
      | _ \<Rightarrow> None)"

definition account_problem :: "portal_error \<Rightarrow> problem option" where
  "account_problem e =
     (case e of
        InvalidPasswordError \<Rightarrow> Some (ProblemError ''invalid-credentials'' ''Invalid Credentials'' 401)
      | AlreadyDeactivatedError \<Rightarrow>
          Some (ProblemError ''already-deactivated'' ''Account Already Deactivated'' 409)
      | _ \<Rightarrow> None)"

definition verification_problem :: "portal_error \<Rightarrow> problem option" where
  "verification_problem e =
     (case e of
        VerificationTokenExpiredError \<Rightarrow>
          Some (ProblemError ''token-expired'' ''Verification Token Expired'' 400)
      | VerificationTokenInvalidError \<Rightarrow>
          Some (ProblemError ''token-invalid'' ''Verification Token Invalid'' 400)
      | InvalidRequestError \<Rightarrow> Some (ProblemError ''invalid-request'' ''Invalid Request'' 400)
      | VerificationTooManyAttemptsError s \<Rightarrow>
          Some ((ProblemError ''too-many-attempts'' ''Too Many Attempts'' 429)\<lparr>pr_retry_after := Some s\<rparr>)
      | _ \<Rightarrow> None)"

definition audit_problem :: "portal_error \<Rightarrow> problem option" where
  "audit_problem e =
     (case e of
        RangeTooWideError \<Rightarrow> Some (ProblemError ''range-too-wide'' ''Range Too Wide'' 422)
      | AuditValidationFailedError es \<Rightarrow>
          Some ((ProblemError ''validation-failed'' ''Validation Failed'' 422)\<lparr>pr_errors := Some es\<rparr>)
      | _ \<Rightarrow> None)"

definition support_problem :: "support_error \<Rightarrow> problem" where
  "support_problem e =
     (case e of
        SupportValidationFailedError es \<Rightarrow>
          (ProblemError ''validation-failed'' ''Validation Failed'' 422)\<lparr>pr_errors := Some es\<rparr>
      | IdempotencyKeyReuseError \<Rightarrow> ProblemError ''idempotency-key-reuse'' ''Idempotency Key Reuse'' 422
      | AttachmentNotOwnedError \<Rightarrow> ProblemError ''attachment-not-owned'' ''Attachment Not Owned'' 422
      | TicketCreationRateLimitError s \<Rightarrow>
          (ProblemError ''too-many-requests'' ''Too Many Requests'' 429)\<lparr>pr_retry_after := Some s\<rparr>
      | SupportAccountDeactivatedError \<Rightarrow> ProblemError ''account-deactivated'' ''Account Deactivated'' 403
      | TicketNotFoundError \<Rightarrow> ProblemError ''not-found'' ''Ticket Not Found'' 404
      | SupportInsufficientPermissionError \<Rightarrow>
          ProblemError ''insufficient-permission'' ''Insufficient Permission'' 403
      | TicketClosedError \<Rightarrow> ProblemError ''ticket-closed'' ''Ticket Closed'' 409
      | InvalidStateTransitionError evs \<Rightarrow>
          (ProblemError ''invalid-state-transition'' ''Invalid State Transition'' 409)\<lparr> pr_allowed_events := Some evs\<rparr>
      | TicketReplyRateLimitError s \<Rightarrow>
          (ProblemError ''too-many-requests'' ''Too Many Requests'' 429)\<lparr>pr_retry_after := Some s\<rparr>
      | AssignmentConflictError \<Rightarrow> ProblemError ''assignment-conflict'' ''Assignment Conflict'' 409)"

definition admin_users_problem :: "admin_users_error \<Rightarrow> problem" where
  "admin_users_problem e =
     (case e of
        AdminEmailAlreadyRegisteredError \<Rightarrow>
          ProblemError ''email-already-registered'' ''Email Already Registered'' 409
      | AdminPreconditionRequiredError \<Rightarrow>
          ProblemError ''precondition-required'' ''Precondition Required'' 400
      | AdminPreconditionFailedError \<Rightarrow> ProblemError ''precondition-failed'' ''Precondition Failed'' 412
      | AdminImmutableFieldError \<Rightarrow> ProblemError ''immutable-field'' ''Immutable Field'' 422
      | AdminValidationFailedError es \<Rightarrow>
          (ProblemError ''validation-failed'' ''Validation Failed'' 422)\<lparr>pr_errors := Some es\<rparr>
      | UserNotFoundError \<Rightarrow> ProblemError ''not-found'' ''User Not Found'' 404
      | AdminAlreadyDeactivatedError \<Rightarrow> ProblemError ''already-deactivated'' ''Already Deactivated'' 409
      | AdminCannotTargetSelfError \<Rightarrow> ProblemError ''cannot-target-self'' ''Cannot Target Self'' 409
      | AdminInvalidStateTransitionError \<Rightarrow>
          ProblemError ''invalid-state-transition'' ''Invalid State Transition'' 409
      | AdminTooManyAttemptsError s \<Rightarrow>
          (ProblemError ''too-many-requests'' ''Too Many Requests'' 429)\<lparr>pr_retry_after := Some s\<rparr>)"

definition profile_problem :: "profile_error \<Rightarrow> problem" where
  "profile_problem e =
     (case e of
        ProfilePreconditionRequiredError \<Rightarrow>
          ProblemError ''precondition-required'' ''Precondition Required'' 400
      | ProfilePreconditionFailedError \<Rightarrow> ProblemError ''precondition-failed'' ''Precondition Failed'' 412
      | ProfileImmutableFieldError \<Rightarrow> ProblemError ''immutable-field'' ''Immutable Field'' 422
      | ProfileValidationFailedError es \<Rightarrow>
          (ProblemError ''validation-failed'' ''Validation Failed'' 422)\<lparr>pr_errors := Some es\<rparr>
      | ReauthenticationRequiredError \<Rightarrow>
          ProblemError ''reauthentication-required'' ''Reauthentication Required'' 401
      | ProfileDuplicateEmailError \<Rightarrow>
          ProblemError ''email-already-registered'' ''Email Already Registered'' 409
      | EmailChangeTokenExpiredError \<Rightarrow> ProblemError ''token-expired'' ''Email Change Token Expired'' 400
      | EmailChangeTokenInvalidError \<Rightarrow> ProblemError ''token-invalid'' ''Email Change Token Invalid'' 400)"

definition first_some :: "'a option list \<Rightarrow> 'a option" where
  "first_some xs = (case filter (\<lambda>x. x \<noteq> None) xs of [] \<Rightarrow> None | x # _ \<Rightarrow> x)"

text \<open>The exception handlers of \<open>app/main.py\<close>: the status code a raised exception is answered with.\<close>

definition http_status :: "portal_error \<Rightarrow> nat" where
  "http_status e =
     (case e of
        RegistrationValidationError _ \<Rightarrow> 400
      | DuplicateEmailError \<Rightarrow> 409
      | SupportError se \<Rightarrow> pr_status (support_problem se)
      | AdminUsersError ae \<Rightarrow> pr_status (admin_users_problem ae)
      | ProfileError pe \<Rightarrow> pr_status (profile_problem pe)
      | _ \<Rightarrow> (case first_some [users_problem e, roles_problem e, account_problem e,
                 verification_problem e, audit_problem e] of
             Some p \<Rightarrow> pr_status p
           | None \<Rightarrow> 500))"

text \<open>The exceptions no handler catches are exactly the unexpected ones: every domain exception has a
  4xx answer.\<close>

definition unexpected :: "portal_error \<Rightarrow> bool" where
  "unexpected e = (case e of DatabaseError _ \<Rightarrow> True | RuntimeError _ \<Rightarrow> True
     | UnicodeEncodeError \<Rightarrow> True | TypeError \<Rightarrow> True | InvalidTag \<Rightarrow> True
     | IndexError \<Rightarrow> True | _ \<Rightarrow> False)"

lemma support_status: "pr_status (support_problem e) \<noteq> 500"
  by (cases e) (simp_all add: support_problem_def ProblemError_def)

lemma admin_users_status: "pr_status (admin_users_problem e) \<noteq> 500"
  by (cases e) (simp_all add: admin_users_problem_def ProblemError_def)

lemma profile_status: "pr_status (profile_problem e) \<noteq> 500"
  by (cases e) (simp_all add: profile_problem_def ProblemError_def)

lemma http_status_500: "http_status e = 500 \<longleftrightarrow> unexpected e"
  by (cases e) (simp_all add: http_status_def first_some_def unexpected_def ProblemError_def support_status
      admin_users_status profile_status users_problem_def roles_problem_def account_problem_def verification_problem_def audit_problem_def)

type_synonym 'r outcome = "portal_error + 'r"

end
