(* ===== verification/Keyset.thy ===== *)
theory Keyset
  imports Problems "HOL-Library.Product_Lexorder" "HOL-Library.Multiset"
begin

text \<open>
  Keyset pagination as the repositories of tickets, replies, users and audit entries implement it:
  opaque cursors (\<open>_encode_cursor\<close>, \<open>_decode_cursor\<close>) and the page query. The four modules carry the
  same code; they share the definitions here.

  The locale \<open>paged_query\<close> is the contract of one page of an ordered query; its lemmas show that
  following the cursors from the first page visits every row exactly once and ends.
\<close>

section \<open>Parsing identifiers\<close>

text \<open>\<open>uuid.UUID(s)\<close>: all occurrences of \<open>urn:\<close> and \<open>uuid:\<close> are deleted, braces at both ends and all
  dashes removed, and the remaining 32 characters are read by \<open>int(_, 16)\<close>, which allows surrounding
  white space, a sign, the prefix \<open>0x\<close> and single underscores between digits.\<close>

function delete_all :: "string \<Rightarrow> string \<Rightarrow> string" where
  "delete_all pat [] = []"
| "delete_all pat (c # s) =
     (if pat \<noteq> [] \<and> take (length pat) (c # s) = pat then delete_all pat (drop (length pat) (c # s))
      else c # delete_all pat s)"
  by pat_completeness auto
termination
  by (relation "measure (\<lambda>(pat, s). length s)") (auto simp: length_Suc_conv neq_Nil_conv)

definition strip_chars :: "string \<Rightarrow> string \<Rightarrow> string" where
  "strip_chars cs s = rev (dropWhile (\<lambda>c. c \<in> set cs) (rev (dropWhile (\<lambda>c. c \<in> set cs) s)))"

definition index_of :: "string \<Rightarrow> char \<Rightarrow> nat" where
  "index_of s c = length (takeWhile (\<lambda>x. x \<noteq> c) s)"

definition hex_value :: "char \<Rightarrow> nat option" where
  "hex_value c =
     (if c \<in> set ''0123456789abcdef'' then Some (index_of ''0123456789abcdef'' c)
      else if c \<in> set ''0123456789ABCDEF'' then Some (index_of ''0123456789ABCDEF'' c)
      else None)"

fun digits16 :: "bool \<Rightarrow> nat \<Rightarrow> string \<Rightarrow> nat option" where
  "digits16 ok acc [] = (if ok then Some acc else None)"
| "digits16 ok acc (c # s) =
     (if c = CHR ''_'' then (if ok then digits16 False acc s else None)
      else case hex_value c of None \<Rightarrow> None | Some v \<Rightarrow> digits16 True (acc * 16 + v) s)"

definition py_int16 :: "string \<Rightarrow> int option" where
  "py_int16 s =
     (let s1 = py_strip s;
          neg = (take 1 s1 = ''-'');
          s2 = (if take 1 s1 \<in> {''-'', ''+''} then drop 1 s1 else s1);
          s3 = (if take 2 s2 \<in> {''0x'', ''0X''}
                then (if take 1 (drop 2 s2) = ''_'' then drop 3 s2 else drop 2 s2) else s2)
      in map_option (\<lambda>n. if neg then - int n else int n) (digits16 False 0 s3))"

definition parse_uuid :: "string \<Rightarrow> uuid option" where
  "parse_uuid s =
     (let h = delete_all ''-'' (strip_chars ''{}'' (delete_all ''uuid:'' (delete_all ''urn:'' s))) in
      if length h \<noteq> 32 then None
      else case py_int16 h of
             None \<Rightarrow> None
           | Some n \<Rightarrow> if 0 \<le> n \<and> n < 2 ^ 128 then Some (of_int n) else None)"

lemma index_of_nth: "distinct s \<Longrightarrow> n < length s \<Longrightarrow> index_of s (s ! n) = n"
proof -
  assume d: "distinct s" and n: "n < length s"
  have s: "s = take n s @ s ! n # drop (Suc n) s" using n by (simp add: id_take_nth_drop)
  have "s ! n \<notin> set (take n s)"
    using d n by (metis s distinct_append IntI list.set_intros(1) empty_iff)
  then have "takeWhile (\<lambda>x. x \<noteq> s ! n) (take n s @ s ! n # drop (Suc n) s) = take n s"
    by (subst takeWhile_append2) auto
  then show ?thesis using n by (simp add: index_of_def flip: s)
qed

lemma hex_value_digit: "n < 16 \<Longrightarrow> hex_value (hex_digit n) = Some n"
proof -
  assume n: "n < 16"
  have "index_of ''0123456789abcdef'' (''0123456789abcdef'' ! n) = n"
    using n by (intro index_of_nth) simp_all
  with hex_digit_mem [OF n] show ?thesis by (simp only: hex_value_def hex_digit_def if_True)
qed

lemma hex_digit_not_underscore: "n < 16 \<Longrightarrow> hex_digit n \<noteq> CHR ''_''"
  by (drule hex_digit_mem) auto

lemma digits16_append:
  "digits16 b acc xs = Some n \<Longrightarrow> digits16 b acc (xs @ ys) = digits16 True n ys"
  by (induction b acc xs rule: digits16.induct) (auto split: if_splits option.splits)

lemma digits16_hex_pad: "digits16 b acc (hex_pad (Suc k) n) = Some (acc * 16 ^ Suc k + n mod 16 ^ Suc k)"
proof (induction k arbitrary: n)
  case 0
  show ?case by (simp add: hex_value_digit hex_digit_not_underscore)
next
  case (Suc k)
  have "digits16 b acc (hex_pad (Suc (Suc k)) n)
      = digits16 True (acc * 16 ^ Suc k + n div 16 mod 16 ^ Suc k) [hex_digit (n mod 16)]"
    using digits16_append [OF Suc.IH [of "n div 16"]] by simp
  also have "\<dots> = Some ((acc * 16 ^ Suc k + n div 16 mod 16 ^ Suc k) * 16 + n mod 16)"
    by (simp add: hex_value_digit hex_digit_not_underscore)
  also have "(acc * 16 ^ Suc k + n div 16 mod 16 ^ Suc k) * 16 + n mod 16
      = acc * 16 ^ Suc (Suc k) + n mod 16 ^ Suc (Suc k)"
    using mod_mult2_eq [of n 16 "16 ^ Suc k"] by (simp add: algebra_simps)
  finally show ?case .
qed

lemma delete_all_absent: "x \<in> set pat \<Longrightarrow> x \<notin> set s \<Longrightarrow> delete_all pat s = s"
proof (induction pat s rule: delete_all.induct)
  case (2 pat c s)
  then have "take (length pat) (c # s) \<noteq> pat" by (metis in_set_takeD)
  with 2 show ?case by auto
qed simp

lemma delete_all_char: "delete_all [x] s = filter (\<lambda>c. c \<noteq> x) s"
  by (induction s) auto

lemma dropWhile_none: "(\<And>c. c \<in> set s \<Longrightarrow> \<not> P c) \<Longrightarrow> dropWhile P s = s"
  by (cases s) auto

lemma strip_none: "(\<And>c. c \<in> set s \<Longrightarrow> \<not> P c) \<Longrightarrow> rev (dropWhile P (rev (dropWhile P s))) = s"
  using dropWhile_none [of s P] dropWhile_none [of "rev s" P] by simp

lemma hex_pad_chars: "c \<in> set (hex_pad k n) \<Longrightarrow> \<exists>m < 16. c = hex_digit m"
proof (induction k arbitrary: n)
  case (Suc k)
  have "n mod 16 < 16" by simp
  moreover have "c = hex_digit (n mod 16) \<or> c \<in> set (hex_pad k (n div 16))" using Suc.prems by auto
  ultimately show ?case using Suc.IH by blast
qed simp

lemma hex_chars_range:
  assumes "c \<in> set (hex_pad k n)"
  shows "c \<notin> set ''{}:+-_xX|''" and "py_strip [c] = [c]"
proof -
  obtain m where "m < 16" "c = hex_digit m" using hex_pad_chars [OF assms] by blast
  then have c: "c \<in> set ''0123456789abcdef''" using hex_digit_mem by simp
  then show "c \<notin> set ''{}:+-_xX|''" by auto
  from c show "py_strip [c] = [c]" by (auto simp: py_strip_def)
qed

lemma py_strip_id:
  assumes "\<And>c. c \<in> set s \<Longrightarrow> py_strip [c] = [c]"
  shows "py_strip s = s"
proof -
  let ?ws = "\<lambda>c. c \<in> {CHR '' '', CHR 0x09, CHR 0x0A, CHR 0x0B, CHR 0x0C, CHR 0x0D, CHR 0x1C,
       CHR 0x1D, CHR 0x1E, CHR 0x1F, CHR 0x85, CHR 0xA0}"
  have "\<not> ?ws c" if "c \<in> set s" for c
  proof
    assume "?ws c"
    then have "py_strip [c] = []" by (simp add: py_strip_def)
    with assms [OF that] show False by simp
  qed
  then have "rev (dropWhile ?ws (rev (dropWhile ?ws s))) = s" by (rule strip_none)
  then show ?thesis by (simp only: py_strip_def Let_def)
qed

lemma uuid_str_chars: "c \<in> set (uuid_str u) \<Longrightarrow> c = CHR ''-'' \<or> c \<in> set (hex_pad 32 (unat u))"
  by (auto simp: uuid_str_def uuid_hex_def Let_def dest: in_set_takeD in_set_dropD)

lemma uuid_str_plain: "c \<in> set (uuid_str u) \<Longrightarrow> c \<notin> set ''{}:|''"
  by (drule uuid_str_chars) (auto dest: hex_chars_range(1))

lemma take_neq: "x \<in> set ys \<Longrightarrow> x \<notin> set xs \<Longrightarrow> take n xs \<noteq> ys"
  by (metis in_set_takeD)

text \<open>\<open>uuid.UUID(str(u))\<close> is \<open>u\<close>.\<close>

lemma parse_uuid_str: "parse_uuid (uuid_str u) = Some u"
proof -
  let ?s = "uuid_str u" and ?h = "hex_pad 32 (unat u)"
  have colon: "CHR '':'' \<notin> set ?s" using uuid_str_plain [of "CHR '':''" u] by auto
  have "delete_all ''uuid:'' (delete_all ''urn:'' ?s) = ?s"
    using colon delete_all_absent [of "CHR '':''" "''urn:''" ?s] delete_all_absent [of "CHR '':''" "''uuid:''" ?s] by simp
  moreover have "strip_chars ''{}'' ?s = ?s"
    unfolding strip_chars_def by (rule strip_none) (auto dest: uuid_str_plain)
  moreover have "delete_all ''-'' ?s = ?h"
    unfolding delete_all_char by (simp add: uuid_str_hex uuid_hex_def)
  ultimately have h: "delete_all ''-'' (strip_chars ''{}'' (delete_all ''uuid:'' (delete_all ''urn:'' ?s))) = ?h" by simp
  have strip: "py_strip ?h = ?h" by (rule py_strip_id) (rule hex_chars_range(2))
  have absent: "x \<notin> set ?h" if "x \<in> set ''{}:+-_xX|''" for x
    using hex_chars_range(1) that by blast
  have minus: "take 1 ?h \<noteq> ''-''" by (rule take_neq [of "CHR ''-''"]) (use absent [of "CHR ''-''"] in simp_all)
  have plus: "take 1 ?h \<noteq> ''+''" by (rule take_neq [of "CHR ''+''"]) (use absent [of "CHR ''+''"] in simp_all)
  have x: "take 2 ?h \<noteq> ''0x''" by (rule take_neq [of "CHR ''x''"]) (use absent [of "CHR ''x''"] in simp_all)
  have X: "take 2 ?h \<noteq> ''0X''" by (rule take_neq [of "CHR ''X''"]) (use absent [of "CHR ''X''"] in simp_all)
  have small: "unat u < 16 ^ 32" using unsigned_less [of u, where ?'a = nat] by simp
  have "digits16 False 0 (hex_pad (Suc 31) (unat u)) = Some (unat u mod 16 ^ Suc 31)"
    by (simp only: digits16_hex_pad mult_zero_left add_0)
  moreover have "Suc 31 = (32::nat)" by simp
  ultimately have "digits16 False 0 ?h = Some (unat u mod 16 ^ 32)" by (simp only:)
  then have "digits16 False 0 ?h = Some (unat u)" by (simp only: mod_less [OF small])
  then have i: "py_int16 ?h = Some (int (unat u))"
    unfolding py_int16_def Let_def strip
    by (simp only: minus plus x X insert_iff empty_iff if_False simp_thms option.map)
  have "int (unat u) < 2 ^ 128" using unsigned_less [of u, where ?'a = int] by simp
  then show ?thesis unfolding parse_uuid_def Let_def h by (simp add: i)
qed

section \<open>Cursors\<close>

type_synonym position = "datetime \<times> uuid"

definition encode_cursor :: "libs \<Rightarrow> position \<Rightarrow> string" where
  "encode_cursor L pos = b64url_encode L (isoformat L (fst pos) @ ''|'' @ uuid_str (snd pos))"

text \<open>\<open>raw.split("|", 1)\<close> unpacked into two names fails on a string without the separator; every
  failure is a \<open>ValueError\<close> and gives \<open>None\<close>.\<close>

definition decode_cursor :: "libs \<Rightarrow> string \<Rightarrow> (parsed_datetime \<times> uuid) option" where
  "decode_cursor L cursor =
     (case b64url_decode L cursor of
        None \<Rightarrow> None
      | Some raw \<Rightarrow>
          if CHR ''|'' \<notin> set raw then None
          else (case (fromisoformat L (takeWhile (\<lambda>c. c \<noteq> CHR ''|'') raw),
                      parse_uuid (drop 1 (dropWhile (\<lambda>c. c \<noteq> CHR ''|'') raw))) of
                  (Some t, Some i) \<Rightarrow> Some (t, i)
                | _ \<Rightarrow> None))"

text \<open>What the cursors rely on: ISO 8601 renderings of an instant contain no vertical bar and are
  parsed back to it, base64 decoding inverts encoding, and the driver passes an instant through.\<close>

definition codec_sound :: "libs \<Rightarrow> bool" where
  "codec_sound L \<longleftrightarrow>
     (\<forall>t. CHR ''|'' \<notin> set (isoformat L t) \<and> fromisoformat L (isoformat L t) = Some (Aware t)
        \<and> to_timestamptz L (Aware t) = Some t)
     \<and> (\<forall>s. b64url_decode L (b64url_encode L s) = Some s)"

lemma decode_encode_cursor:
  assumes "codec_sound L"
  shows "decode_cursor L (encode_cursor L (t, i)) = Some (Aware t, i)"
proof -
  have "\<forall>c \<in> set (isoformat L t). c \<noteq> CHR ''|''" using assms by (auto simp: codec_sound_def)
  then show ?thesis using assms
    by (simp add: codec_sound_def decode_cursor_def encode_cursor_def parse_uuid_str)
qed

text \<open>Round trip of the pagination cursors: decoding an encoded cursor gives the position back, and the
  textual form of every identifier is parsed to that identifier.\<close>

lemma cursor_roundtrip:
  assumes "codec_sound L"
  shows "decode_cursor L (encode_cursor L (t, i)) = Some (Aware t, i) \<and> parse_uuid (uuid_str i) = Some i"
  using decode_encode_cursor [OF assms] parse_uuid_str by simp

lemma codec_sound_unary: "CHR ''|'' \<notin> set (unary t)"
  by (auto simp: unary_def)

section \<open>One page\<close>

text \<open>The \<open>WHERE\<close> clause of a cursor: strictly after its row in the order of the query.\<close>

definition beyond :: "bool \<Rightarrow> position \<Rightarrow> position \<Rightarrow> bool" where
  "beyond descending cursor row =
     (if descending then fst row < fst cursor \<or> fst row = fst cursor \<and> snd row < snd cursor
      else fst cursor < fst row \<or> fst row = fst cursor \<and> snd cursor < snd row)"

text \<open>\<open>ORDER BY\<close> the instant and the identifier, both ascending or both descending.\<close>

definition order_rows :: "bool \<Rightarrow> ('a \<Rightarrow> position) \<Rightarrow> 'a list \<Rightarrow> 'a list" where
  "order_rows descending pos rows = (if descending then rev (sort_key pos rows) else sort_key pos rows)"

definition cut_page :: "libs \<Rightarrow> ('a \<Rightarrow> position) \<Rightarrow> int \<Rightarrow> 'a list \<Rightarrow> ('a list \<times> string option) outcome" where
  "cut_page L pos limit ordered =
     (if limit + 1 < 0 then Inl (DatabaseError DataError)
      else (let rows = take (nat (limit + 1)) ordered in
        if int (length rows) > limit then
          (let items = take (nat limit) rows in
           if items = [] then Inl IndexError
           else Inr (items, Some (encode_cursor L (pos (last items)))))
        else Inr (rows, None)))"

text \<open>A page of \<open>rows\<close>, the rows the other conditions of the query select. The result \<open>Inr None\<close> is
  the repository's \<open>None\<close> for a malformed cursor.\<close>

definition keyset_page ::
  "libs \<Rightarrow> bool \<Rightarrow> ('a \<Rightarrow> position) \<Rightarrow> string option \<Rightarrow> int \<Rightarrow> 'a list
     \<Rightarrow> ('a list \<times> string option) option outcome" where
  "keyset_page L descending pos cursor limit rows =
     (case cursor of
        None \<Rightarrow> map_sum id Some (cut_page L pos limit (order_rows descending pos rows))
      | Some c \<Rightarrow>
          (case decode_cursor L c of
             None \<Rightarrow> Inr None
           | Some (at, i) \<Rightarrow>
               (case to_timestamptz L at of
                  None \<Rightarrow> Inl (DatabaseError DataError)
                | Some t \<Rightarrow> map_sum id Some (cut_page L pos limit (order_rows descending pos
                    (filter (\<lambda>r. beyond descending (t, i) (pos r)) rows))))))"

lemma beyond_less: "beyond d c r \<longleftrightarrow> (if d then r < c else c < r)"
  by (cases c; cases r) (auto simp: beyond_def)

lemma set_order_rows [simp]: "set (order_rows d pos rows) = set rows"
  by (simp add: order_rows_def)

lemma distinct_order_rows [simp]: "distinct (map pos (order_rows d pos rows)) \<longleftrightarrow> distinct (map pos rows)"
proof -
  have "mset (order_rows d pos rows) = mset rows" by (simp add: order_rows_def)
  then have "mset (map pos (order_rows d pos rows)) = mset (map pos rows)" by (metis mset_map)
  then show ?thesis by (rule mset_eq_imp_distinct_iff)
qed

lemma order_rows_filter: "order_rows d pos (filter P rows) = filter P (order_rows d pos rows)"
  by (simp add: order_rows_def filter_sort flip: rev_filter)

lemma order_rows_strict:
  assumes "distinct (map pos rows)"
  shows "sorted_wrt (\<lambda>a b. beyond d (pos a) (pos b)) (order_rows d pos rows)"
proof -
  have "sorted_wrt (<) (map pos (sort_key pos rows))"
    using assms distinct_order_rows [of pos False rows] by (simp add: strict_sorted_iff order_rows_def)
  then show ?thesis by (cases d) (simp_all add: order_rows_def sorted_wrt_map sorted_wrt_rev beyond_less)
qed

lemma filter_beyond:
  assumes "distinct (map pos rows)" and "order_rows d pos rows = xs @ y # ys"
  shows "order_rows d pos (filter (\<lambda>r. beyond d (pos y) (pos r)) rows) = ys"
proof -
  have "sorted_wrt (\<lambda>a b. beyond d (pos a) (pos b)) (xs @ y # ys)"
    using order_rows_strict [OF assms(1), of d] assms(2) by simp
  then have "\<And>x. x \<in> set xs \<Longrightarrow> beyond d (pos x) (pos y)" and ys: "\<And>r. r \<in> set ys \<Longrightarrow> beyond d (pos y) (pos r)"
    by (auto simp: sorted_wrt_append)
  then have xs: "\<And>x. x \<in> set xs \<Longrightarrow> \<not> beyond d (pos y) (pos x)" and y: "\<not> beyond d (pos y) (pos y)"
    by (fastforce simp: beyond_less split: if_splits)+
  show ?thesis unfolding order_rows_filter assms(2) using xs ys y by simp
qed

lemma cut_page_pos:
  assumes "1 \<le> limit"
  shows "cut_page L pos limit rows = Inr (take (nat limit) rows,
    if nat limit < length rows then Some (encode_cursor L (pos (rows ! (nat limit - 1)))) else None)"
proof -
  obtain n where n: "limit = int (Suc n)" using assms by (metis Suc_pred' nat_0_iff nat_eq_iff2 not_le zero_less_nat_eq zero_less_one_class.zero_le_one order.trans int_one_le_iff_zero_less)
  have "take (Suc n) rows \<noteq> [] \<and> last (take (Suc n) rows) = rows ! n" if "Suc n < length rows"
    using that by (cases rows) (auto simp: last_conv_nth)
  then show ?thesis by (auto simp: cut_page_def n Let_def min_def nat_add_distrib)
qed

lemma map_sum_Inr_iff: "map_sum id f x = Inr y \<longleftrightarrow> (\<exists>z. x = Inr z \<and> y = f z)"
  by (cases x) auto

lemma cut_page_items: "cut_page L pos limit rows = Inr (items, next) \<Longrightarrow> prefix items rows"
  by (auto simp: cut_page_def Let_def take_is_prefix split: if_splits intro: prefix_order.trans)

lemma keyset_page_items:
  assumes "keyset_page L d pos cursor limit rows = Inr (Some (items, next))"
  shows "set items \<subseteq> set rows" and "sorted_wrt (\<lambda>a b. \<not> beyond d (pos b) (pos a)) items"
proof -
  obtain P where c: "cut_page L pos limit (order_rows d pos (filter P rows)) = Inr (items, next)"
  proof (cases cursor)
    case None
    with assms that [of "\<lambda>r. True"] show ?thesis
      by (auto simp: keyset_page_def map_sum_Inr_iff)
  next
    case (Some a)
    with assms obtain at i t where "cut_page L pos limit (order_rows d pos (filter (\<lambda>r. beyond d (t, i) (pos r)) rows)) = Inr (items, next)"
      by (auto simp: keyset_page_def map_sum_Inr_iff split: option.splits)
    then show ?thesis by (rule that)
  qed
  note pre = cut_page_items [OF c]
  show "set items \<subseteq> set rows" using set_mono_prefix [OF pre] by auto
  have "sorted (map pos (sort_key pos (filter P rows)))" by simp
  then have "sorted_wrt (\<lambda>a b. \<not> beyond d (pos b) (pos a)) (order_rows d pos (filter P rows))"
    by (cases d) (simp_all add: order_rows_def sorted_map sorted_wrt_rev beyond_less not_less)
  with pre show "sorted_wrt (\<lambda>a b. \<not> beyond d (pos b) (pos a)) items" by (auto simp: prefix_def sorted_wrt_append)
qed

section \<open>Following the cursors\<close>

text \<open>A client that starts without a cursor and follows \<open>next_cursor\<close> until it is \<open>None\<close>; the
  collected items, or \<open>None\<close> when a page fails or the fuel runs out.\<close>

fun walk_pages :: "nat \<Rightarrow> (string option \<Rightarrow> ('a list \<times> string option) option outcome) \<Rightarrow> string option \<Rightarrow> 'a list option" where
  "walk_pages 0 page cursor = None"
| "walk_pages (Suc fuel) page cursor =
     (case page cursor of
        Inr (Some (items, None)) \<Rightarrow> Some items
      | Inr (Some (items, Some c)) \<Rightarrow> map_option ((@) items) (walk_pages fuel page (Some c))
      | _ \<Rightarrow> None)"

locale paged_query =
  fixes page :: "'q \<Rightarrow> string option \<Rightarrow> ('a list \<times> string option) option outcome"
    and ordered :: "'q \<Rightarrow> 'a list" and size_of :: "'q \<Rightarrow> nat" and valid :: "'q \<Rightarrow> bool"
    and cursor_of :: "'q \<Rightarrow> 'a \<Rightarrow> string"
  assumes size_pos: "valid q \<Longrightarrow> 0 < size_of q"
    and first_page: "valid q \<Longrightarrow> page q None = Inr (Some (take (size_of q) (ordered q),
      if size_of q < length (ordered q) then Some (cursor_of q (ordered q ! (size_of q - 1))) else None))"
    and next_page: "valid q \<Longrightarrow> ordered q = xs @ y # ys \<Longrightarrow> page q (Some (cursor_of q y)) = Inr (Some (take (size_of q) ys,
      if size_of q < length ys then Some (cursor_of q (ys ! (size_of q - 1))) else None))"
begin

lemma walk_from:
  assumes "valid q" and "ordered q = xs @ y # ys" and "length ys < fuel"
  shows "walk_pages fuel (page q) (Some (cursor_of q y)) = Some ys"
  using assms(2,3)
proof (induction fuel arbitrary: xs y ys)
  case (Suc fuel)
  note p = next_page [OF assms(1) Suc.prems(1)]
  show ?case
  proof (cases "size_of q < length ys")
    case True
    then obtain n where n: "size_of q = Suc n" using size_pos [OF assms(1)] gr0_implies_Suc by blast
    have ys: "ys = take n ys @ ys ! n # drop (Suc n) ys" using True n by (simp add: id_take_nth_drop)
    have "ordered q = (xs @ y # take n ys) @ ys ! n # drop (Suc n) ys" using Suc.prems(1) ys by simp
    from Suc.IH [OF this] Suc.prems(2) True n
    have "walk_pages fuel (page q) (Some (cursor_of q (ys ! n))) = Some (drop (Suc n) ys)" by simp
    with p True n show ?thesis by simp
  qed (use p in simp)
qed simp

text \<open>Every row is visited exactly once, in order, and the walk ends.\<close>

lemma walk_all:
  assumes "valid q"
  shows "walk_pages (Suc (length (ordered q))) (page q) None = Some (ordered q)"
proof (cases "size_of q < length (ordered q)")
  case True
  then obtain n where n: "size_of q = Suc n" using size_pos [OF assms] gr0_implies_Suc by blast
  let ?o = "ordered q"
  have "?o = take n ?o @ ?o ! n # drop (Suc n) ?o" using True n by (simp add: id_take_nth_drop)
  from walk_from [OF assms this, of "length ?o"] True n
  have "walk_pages (length ?o) (page q) (Some (cursor_of q (?o ! n))) = Some (drop (Suc n) ?o)" by simp
  with first_page [OF assms] True n show ?thesis by simp
qed (use first_page [OF assms] in simp)

end

text \<open>The page query of the repositories satisfies the contract, for sound codecs, a positive limit
  and rows with distinct positions.\<close>

type_synonym 'a query = "libs \<times> bool \<times> ('a \<Rightarrow> position) \<times> int \<times> 'a list"

definition query_page :: "'a query \<Rightarrow> string option \<Rightarrow> ('a list \<times> string option) option outcome" where
  "query_page = (\<lambda>(L, d, pos, limit, rows) cursor. keyset_page L d pos cursor limit rows)"

definition query_rows :: "'a query \<Rightarrow> 'a list" where
  "query_rows = (\<lambda>(L, d, pos, limit, rows). order_rows d pos rows)"

definition query_size :: "'a query \<Rightarrow> nat" where
  "query_size = (\<lambda>(L, d, pos, limit, rows). nat limit)"

definition query_valid :: "'a query \<Rightarrow> bool" where
  "query_valid = (\<lambda>(L, d, pos, limit, rows). codec_sound L \<and> 1 \<le> limit \<and> distinct (map pos rows))"

definition query_cursor :: "'a query \<Rightarrow> 'a \<Rightarrow> string" where
  "query_cursor = (\<lambda>(L, d, pos, limit, rows) r. encode_cursor L (pos r))"

lemmas query_parts = query_page_def query_rows_def query_size_def query_valid_def query_cursor_def

lemma keyset_page_next:
  assumes "codec_sound L" "1 \<le> limit" "distinct (map pos rows)" and "order_rows d pos rows = xs @ y # ys"
  shows "keyset_page L d pos (Some (encode_cursor L (pos y))) limit rows
    = Inr (Some (take (nat limit) ys, if nat limit < length ys then Some (encode_cursor L (pos (ys ! (nat limit - 1)))) else None))"
proof -
  obtain t i where y: "pos y = (t, i)" by (cases "pos y")
  have "to_timestamptz L (Aware t) = Some t" using assms(1) by (simp add: codec_sound_def)
  moreover have "order_rows d pos (filter (\<lambda>r. beyond d (t, i) (pos r)) rows) = ys"
    using filter_beyond [OF assms(3,4)] y by simp
  ultimately show ?thesis
    using assms(1,2) by (simp add: keyset_page_def y decode_encode_cursor cut_page_pos)
qed

interpretation keyset: paged_query query_page query_rows query_size query_valid query_cursor
proof unfold_locales
  fix q :: "'a query" and xs y ys
  obtain L d pos limit rows where q: "q = (L, d, pos, limit, rows)" by (cases q)
  assume v: "query_valid q"
  then show "0 < query_size q" by (simp add: query_parts q)
  from v show "query_page q None = Inr (Some (take (query_size q) (query_rows q),
      if query_size q < length (query_rows q) then Some (query_cursor q (query_rows q ! (query_size q - 1))) else None))"
    by (simp add: query_parts q keyset_page_def cut_page_pos)
  assume "query_rows q = xs @ y # ys"
  with v keyset_page_next show "query_page q (Some (query_cursor q y)) = Inr (Some (take (query_size q) ys,
      if query_size q < length ys then Some (query_cursor q (ys ! (query_size q - 1))) else None))"
    by (fastforce simp: query_parts q)
qed

text \<open>Without any hypothesis on the codecs, a limit below 1 is not answered by a page: a repository
  that lets it through raises, unless nothing is selected and the limit is 0.\<close>

lemma keyset_page_limit:
  "limit \<le> 0 \<Longrightarrow> rows \<noteq> [] \<or> limit < 0 \<Longrightarrow> \<exists>e. keyset_page L d pos None limit rows = Inl e \<and> http_status e = 500"
proof -
  assume l: "limit \<le> 0" and r: "rows \<noteq> [] \<or> limit < 0"
  have o: "order_rows d pos rows \<noteq> []" if "rows \<noteq> []" using that by (metis set_order_rows set_empty)
  consider "limit < -1" | "limit = -1" | "limit = 0" "rows \<noteq> []" using l r by linarith
  then show ?thesis
    by cases (use o in \<open>auto simp: keyset_page_def cut_page_def http_status_500 unexpected_def Let_def\<close>)
qed

end
