(* ===== verification/Users_Repository.thy ===== *)
theory Users_Repository
  imports Problems
begin

text \<open>
  \<open>app/modules/users/repository.py\<close>: the statements of \<open>UserRepository\<close>, one definition each. The
  argument \<open>t\<close> is the timestamp of the transaction, the value of SQL's \<open>now()\<close>. Inserts into tables
  with a unique column report \<open>IntegrityError\<close>. The last section has the laws of the atomic
  check-and-consume statements, stated as a locale and interpreted for the tables that use them.
\<close>

section \<open>Users\<close>

definition get_by_email :: "string \<Rightarrow> db \<Rightarrow> sql_error + user option" where
  "get_by_email email d = scalar_one_or_none (filter (\<lambda>u. lower (u_email u) = lower email) (users d))"

definition get_by_id :: "uuid \<Rightarrow> db \<Rightarrow> user option" where
  "get_by_id user_id d = find_row (\<lambda>u. u_id u = user_id) (users d)"

definition new_user :: "datetime \<Rightarrow> uuid \<Rightarrow> string \<Rightarrow> string \<Rightarrow> user_status \<Rightarrow> user" where
  "new_user t uid email hashed_password st =
     \<lparr>u_id = uid, u_email = email, u_hashed_password = hashed_password, u_status = st,
      u_email_verified = False, u_created_at = t, u_display_name = None, u_locale = None,
      u_timezone = None, u_avatar_url = None, u_pending_email = None, u_deactivated_at = None,
      u_last_login_at = None, u_mfa_enabled = False, u_mfa_secret_encrypted = None,
      u_mfa_activated_at = None, u_mfa_reenrollment_required = False\<rparr>"

text \<open>\<open>create\<close> turns the unique violation on \<open>email\<close> (or on the drawn primary key) into \<open>None\<close>.\<close>

definition create_user :: "datetime \<Rightarrow> uuid \<Rightarrow> string \<Rightarrow> string \<Rightarrow> user_status \<Rightarrow> db \<Rightarrow> (user \<times> db) option" where
  "create_user t uid email hashed_password st d =
     (let u = new_user t uid email hashed_password st in
      if uid \<in> u_id ` set (users d) \<or> email \<in> u_email ` set (users d) then None
      else Some (u, d\<lparr>users := users d @ [u]\<rparr>))"

definition update_user :: "uuid \<Rightarrow> (user \<Rightarrow> user) \<Rightarrow> db \<Rightarrow> db" where
  "update_user user_id f d = d\<lparr>users := update_rows (\<lambda>u. u_id u = user_id) f (users d)\<rparr>"

definition update_last_login_at :: "datetime \<Rightarrow> uuid \<Rightarrow> db \<Rightarrow> db" where
  "update_last_login_at t user_id = update_user user_id (\<lambda>u. u\<lparr>u_last_login_at := Some t\<rparr>)"

definition update_password_hash :: "uuid \<Rightarrow> string \<Rightarrow> db \<Rightarrow> db" where
  "update_password_hash user_id hashed_password =
     update_user user_id (\<lambda>u. u\<lparr>u_hashed_password := hashed_password\<rparr>)"

definition update_mfa_pending_secret :: "uuid \<Rightarrow> bytes \<Rightarrow> db \<Rightarrow> db" where
  "update_mfa_pending_secret user_id secret_encrypted =
     update_user user_id (\<lambda>u. u\<lparr>u_mfa_secret_encrypted := Some secret_encrypted\<rparr>)"

definition repo_activate_mfa :: "datetime \<Rightarrow> uuid \<Rightarrow> db \<Rightarrow> db" where
  "repo_activate_mfa t user_id = update_user user_id
     (\<lambda>u. u\<lparr>u_mfa_enabled := True, u_mfa_activated_at := Some t, u_mfa_reenrollment_required := False\<rparr>)"

definition set_mfa_reenrollment_required :: "uuid \<Rightarrow> db \<Rightarrow> db" where
  "set_mfa_reenrollment_required user_id =
     update_user user_id (\<lambda>u. u\<lparr>u_mfa_reenrollment_required := True\<rparr>)"

definition repo_disable_mfa :: "uuid \<Rightarrow> db \<Rightarrow> db" where
  "repo_disable_mfa user_id = update_user user_id
     (\<lambda>u. u\<lparr>u_mfa_enabled := False, u_mfa_secret_encrypted := None, u_mfa_activated_at := None,
        u_mfa_reenrollment_required := False\<rparr>)"

section \<open>Sessions\<close>

definition create_session :: "datetime \<Rightarrow> uuid \<Rightarrow> uuid \<Rightarrow> datetime \<Rightarrow> db \<Rightarrow> sql_error + db" where
  "create_session t user_id jti expires_at d =
     (let s = \<lparr>us_jti = jti, us_user_id = user_id, us_issued_at = t, us_expires_at = expires_at,
                us_revoked_at = None\<rparr> in
      map_sum id (\<lambda>rows. d\<lparr>user_sessions := rows\<rparr>) (insert_unique us_jti s (user_sessions d)))"

definition get_session_by_jti :: "uuid \<Rightarrow> db \<Rightarrow> user_session option" where
  "get_session_by_jti jti d = find_row (\<lambda>s. us_jti s = jti) (user_sessions d)"

definition revoke_sessions_except :: "datetime \<Rightarrow> uuid \<Rightarrow> uuid option \<Rightarrow> db \<Rightarrow> db" where
  "revoke_sessions_except t user_id except_jti d =
     d\<lparr>user_sessions := update_rows
        (\<lambda>s. us_user_id s = user_id \<and> us_revoked_at s = None
           \<and> (case except_jti of None \<Rightarrow> True | Some j \<Rightarrow> us_jti s \<noteq> j))
        (\<lambda>s. s\<lparr>us_revoked_at := Some t\<rparr>) (user_sessions d)\<rparr>"

definition repo_revoke_session :: "datetime \<Rightarrow> uuid \<Rightarrow> db \<Rightarrow> db" where
  "repo_revoke_session t jti d =
     d\<lparr>user_sessions := update_rows (\<lambda>s. us_jti s = jti) (\<lambda>s. s\<lparr>us_revoked_at := Some t\<rparr>) (user_sessions d)\<rparr>"

section \<open>Refresh tokens\<close>

definition get_refresh_token_by_hash :: "string \<Rightarrow> db \<Rightarrow> refresh_token option" where
  "get_refresh_token_by_hash token_hash d = find_row (\<lambda>r. rt_token_hash r = token_hash) (refresh_tokens d)"

definition revoke_refresh_token_family :: "datetime \<Rightarrow> uuid \<Rightarrow> db \<Rightarrow> db" where
  "revoke_refresh_token_family t family_id d =
     d\<lparr>refresh_tokens := update_rows (\<lambda>r. rt_family_id r = family_id)
        (\<lambda>r. r\<lparr>rt_revoked_at := Some t\<rparr>) (refresh_tokens d)\<rparr>"

definition consume_refresh_token :: "datetime \<Rightarrow> string \<Rightarrow> db \<Rightarrow> refresh_token option \<times> db" where
  "consume_refresh_token t token_hash d =
     (let (r, rows) = update_returning (\<lambda>r. rt_token_hash r = token_hash \<and> rt_consumed_at r = None)
            (\<lambda>r. r\<lparr>rt_consumed_at := Some t\<rparr>) (refresh_tokens d)
      in (r, d\<lparr>refresh_tokens := rows\<rparr>))"

definition create_refresh_token ::
  "datetime \<Rightarrow> string \<Rightarrow> uuid \<Rightarrow> uuid \<Rightarrow> datetime \<Rightarrow> string option \<Rightarrow> string option \<Rightarrow> datetime option
    \<Rightarrow> db \<Rightarrow> sql_error + db" where
  "create_refresh_token t token_hash family_id user_id expires_at ip user_agent last_used_at d =
     (let r = \<lparr>rt_token_hash = token_hash, rt_family_id = family_id, rt_user_id = user_id,
                rt_issued_at = t, rt_expires_at = expires_at, rt_revoked_at = None,
                rt_consumed_at = None, rt_last_used_at = last_used_at, rt_ip = ip,
                rt_user_agent = user_agent\<rparr> in
      map_sum id (\<lambda>rows. d\<lparr>refresh_tokens := rows\<rparr>) (insert_unique rt_token_hash r (refresh_tokens d)))"

text \<open>\<open>LIMIT 1\<close> without an order: some row of the family, here the first one in the table.\<close>

definition get_any_refresh_token_for_family :: "uuid \<Rightarrow> uuid \<Rightarrow> db \<Rightarrow> refresh_token option" where
  "get_any_refresh_token_for_family family_id user_id d =
     find_row (\<lambda>r. rt_family_id r = family_id \<and> rt_user_id r = user_id) (refresh_tokens d)"

definition live_token :: "datetime \<Rightarrow> uuid \<Rightarrow> refresh_token \<Rightarrow> bool" where
  "live_token t user_id r \<longleftrightarrow> rt_user_id r = user_id \<and> rt_revoked_at r = None \<and> t < rt_expires_at r"

text \<open>\<open>lock_live_refresh_tokens_for_user\<close> changes no row; what it contributes is that the count and
  the insert that follow run without another login of the same user in between.\<close>

definition lock_live_refresh_tokens_for_user :: "datetime \<Rightarrow> uuid \<Rightarrow> db \<Rightarrow> db" where
  "lock_live_refresh_tokens_for_user t user_id d = d"

text \<open>\<open>DISTINCT ON (family_id) ... ORDER BY family_id, issued_at DESC\<close>.\<close>

fun distinct_on :: "('a \<Rightarrow> 'k) \<Rightarrow> 'a list \<Rightarrow> 'a list" where
  "distinct_on k [] = []"
| "distinct_on k (x # xs) = x # distinct_on k (filter (\<lambda>y. k y \<noteq> k x) xs)"

definition list_live_families_for_user :: "datetime \<Rightarrow> uuid \<Rightarrow> db \<Rightarrow> refresh_token list" where
  "list_live_families_for_user t user_id d =
     distinct_on rt_family_id
       (sort_key rt_family_id (sort_key (\<lambda>r. - rt_issued_at r) (filter (live_token t user_id) (refresh_tokens d))))"

text \<open>\<open>SELECT family_id, min(issued_at) ... GROUP BY family_id\<close>, as an association list.\<close>

definition get_family_created_at_map_for_user :: "datetime \<Rightarrow> uuid \<Rightarrow> db \<Rightarrow> (uuid \<times> datetime) list" where
  "get_family_created_at_map_for_user t user_id d =
     (let live = filter (live_token t user_id) (refresh_tokens d) in
      map (\<lambda>f. (f, Min (set (map rt_issued_at (filter (\<lambda>r. rt_family_id r = f) live)))))
        (remdups (map rt_family_id live)))"

section \<open>The authentication audit log\<close>

definition create_auth_audit_log_entry ::
  "datetime \<Rightarrow> string \<Rightarrow> string option \<Rightarrow> string option \<Rightarrow> uuid option \<Rightarrow> string \<Rightarrow> string option \<Rightarrow> string
    \<Rightarrow> string option \<Rightarrow> uuid option \<Rightarrow> db \<Rightarrow> db" where
  "create_auth_audit_log_entry t event reason scope actor_id ip user_agent request_id severity target_family d =
     d\<lparr>auth_audit_logs := auth_audit_logs d @
        [\<lparr>aal_event = event, aal_reason = reason, aal_scope = scope, aal_severity = severity,
          aal_target_family = target_family, aal_actor_id = actor_id, aal_ip = ip,
          aal_user_agent = user_agent, aal_request_id = request_id, aal_occurred_at = t\<rparr>]\<rparr>"

section \<open>Password reset tokens\<close>

definition invalidate_password_reset_tokens_for_user :: "datetime \<Rightarrow> uuid \<Rightarrow> db \<Rightarrow> db" where
  "invalidate_password_reset_tokens_for_user t user_id d =
     d\<lparr>password_reset_tokens := update_rows (\<lambda>k. prt_user_id k = user_id \<and> prt_consumed_at k = None)
        (\<lambda>k. k\<lparr>prt_consumed_at := Some t\<rparr>) (password_reset_tokens d)\<rparr>"

definition create_password_reset_token :: "datetime \<Rightarrow> uuid \<Rightarrow> string \<Rightarrow> datetime \<Rightarrow> db \<Rightarrow> sql_error + db" where
  "create_password_reset_token t user_id token_hash expires_at d =
     (let k = \<lparr>prt_user_id = user_id, prt_token_hash = token_hash, prt_issued_at = t,
                prt_expires_at = expires_at, prt_consumed_at = None\<rparr> in
      map_sum id (\<lambda>rows. d\<lparr>password_reset_tokens := rows\<rparr>)
        (insert_unique prt_token_hash k (password_reset_tokens d)))"

definition get_password_reset_token_by_hash :: "string \<Rightarrow> db \<Rightarrow> password_reset_token option" where
  "get_password_reset_token_by_hash token_hash d =
     find_row (\<lambda>k. prt_token_hash k = token_hash) (password_reset_tokens d)"

definition consume_password_reset_token :: "datetime \<Rightarrow> string \<Rightarrow> db \<Rightarrow> password_reset_token option \<times> db" where
  "consume_password_reset_token t token_hash d =
     (let (k, rows) = update_returning (\<lambda>k. prt_token_hash k = token_hash \<and> prt_consumed_at k = None)
            (\<lambda>k. k\<lparr>prt_consumed_at := Some t\<rparr>) (password_reset_tokens d)
      in (k, d\<lparr>password_reset_tokens := rows\<rparr>))"

section \<open>Recovery codes\<close>

definition create_recovery_codes :: "datetime \<Rightarrow> uuid \<Rightarrow> (uuid \<times> string) list \<Rightarrow> db \<Rightarrow> sql_error + db" where
  "create_recovery_codes t user_id code_hashes d =
     (let rows = map (\<lambda>(i, h). \<lparr>mrc_id = i, mrc_user_id = user_id, mrc_code_hash = h, mrc_created_at = t,
                mrc_consumed_at = None\<rparr>) code_hashes
      in if distinct (map mrc_id (mfa_recovery_codes d @ rows))
         then Inr (d\<lparr>mfa_recovery_codes := mfa_recovery_codes d @ rows\<rparr>)
         else Inl IntegrityError)"

definition list_unconsumed_recovery_codes :: "uuid \<Rightarrow> db \<Rightarrow> mfa_recovery_code list" where
  "list_unconsumed_recovery_codes user_id d =
     filter (\<lambda>c. mrc_user_id c = user_id \<and> mrc_consumed_at c = None) (mfa_recovery_codes d)"

definition consume_recovery_code :: "datetime \<Rightarrow> uuid \<Rightarrow> db \<Rightarrow> mfa_recovery_code option \<times> db" where
  "consume_recovery_code t code_id d =
     (let (c, rows) = update_returning (\<lambda>c. mrc_id c = code_id \<and> mrc_consumed_at c = None)
            (\<lambda>c. c\<lparr>mrc_consumed_at := Some t\<rparr>) (mfa_recovery_codes d)
      in (c, d\<lparr>mfa_recovery_codes := rows\<rparr>))"

definition delete_recovery_codes_for_user :: "uuid \<Rightarrow> db \<Rightarrow> db" where
  "delete_recovery_codes_for_user user_id d =
     d\<lparr>mfa_recovery_codes := delete_rows (\<lambda>c. mrc_user_id c = user_id) (mfa_recovery_codes d)\<rparr>"

lemmas [repo_defs] = update_last_login_at_def update_password_hash_def update_mfa_pending_secret_def
  repo_activate_mfa_def set_mfa_reenrollment_required_def repo_disable_mfa_def update_user_def
  create_session_def revoke_sessions_except_def repo_revoke_session_def revoke_refresh_token_family_def
  consume_refresh_token_def create_refresh_token_def create_auth_audit_log_entry_def
  invalidate_password_reset_tokens_for_user_def create_password_reset_token_def
  consume_password_reset_token_def create_recovery_codes_def consume_recovery_code_def
  delete_recovery_codes_for_user_def lock_live_refresh_tokens_for_user_def

section \<open>Atomic check-and-consume\<close>

text \<open>
  \<open>UPDATE t SET consumed_at = now() WHERE key = :key AND consumed_at IS NULL RETURNING *\<close>, the statement
  behind refresh tokens, password reset tokens and recovery codes. \<open>consume\<close> is the statement on the
  rows of the table, \<open>used\<close> tells whether \<open>consumed_at\<close> is set.
\<close>

locale consumable =
  fixes consume :: "datetime \<Rightarrow> 'k \<Rightarrow> 'a list \<Rightarrow> 'a option \<times> 'a list"
    and key :: "'a \<Rightarrow> 'k"
    and used :: "'a \<Rightarrow> bool"
    and mark :: "datetime \<Rightarrow> 'a \<Rightarrow> 'a"
  assumes consume_eq: "consume t k rows =
      (map_option (mark t) (find_row (\<lambda>r. key r = k \<and> \<not> used r) rows),
       update_rows (\<lambda>r. key r = k \<and> \<not> used r) (mark t) rows)"
    and mark_used: "used (mark t r)"
    and mark_key: "key (mark t r) = key r"
begin

lemma consumed_row:
  assumes "consume t k rows = (Some r, rows')"
  obtains r0 where "r0 \<in> set rows" "key r0 = k" "\<not> used r0" "r = mark t r0"
  using assms by (auto simp: consume_eq dest: find_row_SomeD)

lemma consume_marks_all:
  assumes "r \<in> set (snd (consume t k rows))" and "key r = k"
  shows "used r"
proof -
  from assms(1) obtain r0 where "r = (if key r0 = k \<and> \<not> used r0 then mark t r0 else r0)"
    by (auto simp: consume_eq set_update_rows)
  with assms(2) show ?thesis by (cases "key r0 = k \<and> \<not> used r0") (simp add: mark_used, force)
qed

text \<open>Between two consumers of one key, whatever else happens to the table as long as used rows stay
  used and no unused row with the key appears, at most one wins.\<close>

lemma consume_single_winner:
  assumes "consume t k rows = (Some r, rows1)"
    and "\<And>x. x \<in> set rows2 \<Longrightarrow> key x = k \<Longrightarrow> \<not> used x \<Longrightarrow> \<exists>y \<in> set rows1. key y = k \<and> \<not> used y"
  shows "fst (consume t' k rows2) = None"
proof -
  have "\<not> (key x = k \<and> \<not> used x)" if "x \<in> set rows2" for x
    using assms(2) [OF that] consume_marks_all [of _ t k rows] assms(1) by auto
  then have "find_row (\<lambda>r. key r = k \<and> \<not> used r) rows2 = None" by (simp add: find_None_iff)
  then show ?thesis by (simp add: consume_eq)
qed

lemma consume_keeps_keys: "map key (snd (consume t k rows)) = map key rows"
  by (simp add: consume_eq mark_key)

lemma consume_other: "key r \<noteq> k \<Longrightarrow> r \<in> set (snd (consume t k rows)) \<longleftrightarrow> r \<in> set rows"
  by (auto simp: consume_eq set_update_rows mark_key)

end

definition consume_refresh_rows :: "datetime \<Rightarrow> string \<Rightarrow> refresh_token list \<Rightarrow> refresh_token option \<times> refresh_token list" where
  "consume_refresh_rows t h = update_returning (\<lambda>r. rt_token_hash r = h \<and> rt_consumed_at r = None)
     (\<lambda>r. r\<lparr>rt_consumed_at := Some t\<rparr>)"

definition consume_reset_rows ::
  "datetime \<Rightarrow> string \<Rightarrow> password_reset_token list \<Rightarrow> password_reset_token option \<times> password_reset_token list" where
  "consume_reset_rows t h = update_returning (\<lambda>r. prt_token_hash r = h \<and> prt_consumed_at r = None)
     (\<lambda>r. r\<lparr>prt_consumed_at := Some t\<rparr>)"

definition consume_recovery_rows ::
  "datetime \<Rightarrow> uuid \<Rightarrow> mfa_recovery_code list \<Rightarrow> mfa_recovery_code option \<times> mfa_recovery_code list" where
  "consume_recovery_rows t i = update_returning (\<lambda>r. mrc_id r = i \<and> mrc_consumed_at r = None)
     (\<lambda>r. r\<lparr>mrc_consumed_at := Some t\<rparr>)"

interpretation refresh_consume: consumable consume_refresh_rows rt_token_hash
  "\<lambda>r. rt_consumed_at r \<noteq> None" "\<lambda>t r. r\<lparr>rt_consumed_at := Some t\<rparr>"
  by unfold_locales (simp_all add: consume_refresh_rows_def query_defs)

interpretation reset_consume: consumable consume_reset_rows prt_token_hash
  "\<lambda>r. prt_consumed_at r \<noteq> None" "\<lambda>t r. r\<lparr>prt_consumed_at := Some t\<rparr>"
  by unfold_locales (simp_all add: consume_reset_rows_def query_defs)

interpretation recovery_consume: consumable consume_recovery_rows mrc_id
  "\<lambda>r. mrc_consumed_at r \<noteq> None" "\<lambda>t r. r\<lparr>mrc_consumed_at := Some t\<rparr>"
  by unfold_locales (simp_all add: consume_recovery_rows_def query_defs)

lemma consume_refresh_token_rows:
  "consume_refresh_token t h d =
     (fst (consume_refresh_rows t h (refresh_tokens d)),
      d\<lparr>refresh_tokens := snd (consume_refresh_rows t h (refresh_tokens d))\<rparr>)"
  by (simp add: consume_refresh_token_def consume_refresh_rows_def case_prod_beta)

lemma consume_password_reset_token_rows:
  "consume_password_reset_token t h d =
     (fst (consume_reset_rows t h (password_reset_tokens d)),
      d\<lparr>password_reset_tokens := snd (consume_reset_rows t h (password_reset_tokens d))\<rparr>)"
  by (simp add: consume_password_reset_token_def consume_reset_rows_def case_prod_beta)

lemma consume_recovery_code_rows:
  "consume_recovery_code t h d =
     (fst (consume_recovery_rows t h (mfa_recovery_codes d)),
      d\<lparr>mfa_recovery_codes := snd (consume_recovery_rows t h (mfa_recovery_codes d))\<rparr>)"
  by (simp add: consume_recovery_code_def consume_recovery_rows_def case_prod_beta)

section \<open>What the statements leave alone\<close>

lemma create_session_Inr:
  "create_session t u j e d = Inr d' \<longleftrightarrow> j \<notin> us_jti ` set (user_sessions d)
    \<and> d' = d\<lparr>user_sessions := user_sessions d @ [\<lparr>us_jti = j, us_user_id = u, us_issued_at = t,
        us_expires_at = e, us_revoked_at = None\<rparr>]\<rparr>"
  by (auto simp: create_session_def insert_unique_def Let_def)

lemma create_refresh_token_Inr:
  "create_refresh_token t h f u e ip ua lu d = Inr d' \<longleftrightarrow> h \<notin> rt_token_hash ` set (refresh_tokens d)
    \<and> d' = d\<lparr>refresh_tokens := refresh_tokens d @ [\<lparr>rt_token_hash = h, rt_family_id = f, rt_user_id = u,
        rt_issued_at = t, rt_expires_at = e, rt_revoked_at = None, rt_consumed_at = None,
        rt_last_used_at = lu, rt_ip = ip, rt_user_agent = ua\<rparr>]\<rparr>"
  by (auto simp: create_refresh_token_def insert_unique_def Let_def)

lemma create_password_reset_token_Inr:
  "create_password_reset_token t u h e d = Inr d' \<longleftrightarrow> h \<notin> prt_token_hash ` set (password_reset_tokens d)
    \<and> d' = d\<lparr>password_reset_tokens := password_reset_tokens d @ [\<lparr>prt_user_id = u, prt_token_hash = h,
        prt_issued_at = t, prt_expires_at = e, prt_consumed_at = None\<rparr>]\<rparr>"
  by (auto simp: create_password_reset_token_def insert_unique_def Let_def)

lemma create_user_Some:
  "create_user t i e h st d = Some (u, d') \<longleftrightarrow> i \<notin> u_id ` set (users d) \<and> e \<notin> u_email ` set (users d)
    \<and> u = new_user t i e h st \<and> d' = d\<lparr>users := users d @ [u]\<rparr>"
  by (auto simp: create_user_def Let_def)

lemma get_by_id_SomeD: "get_by_id i d = Some u \<Longrightarrow> u \<in> set (users d) \<and> u_id u = i"
  by (auto simp: get_by_id_def dest: find_row_SomeD)

lemma get_by_id_update_user:
  assumes "\<And>u. u_id (f u) = u_id u"
  shows "get_by_id i (update_user j f d) = (if i = j then map_option f (get_by_id i d) else get_by_id i d)"
proof -
  have eq: "find_row (\<lambda>u. u_id u = i) (update_rows (\<lambda>u. u_id u = j) f rows)
      = map_option (\<lambda>r. if u_id r = j then f r else r) (find_row (\<lambda>u. u_id u = i) rows)" for rows
    by (rule find_row_update) (simp add: assms)
  show ?thesis
    by (cases "find_row (\<lambda>u. u_id u = i) (users d)")
      (auto simp: get_by_id_def update_user_def eq dest: find_row_SomeD)
qed

lemma refresh_token_by_hash_SomeD:
  "get_refresh_token_by_hash h d = Some r \<Longrightarrow> r \<in> set (refresh_tokens d) \<and> rt_token_hash r = h"
  by (auto simp: get_refresh_token_by_hash_def dest: find_row_SomeD)

text \<open>Statements of the audit log and on users touch no other table.\<close>

lemma audit_log_frame [simp]:
  "users (create_auth_audit_log_entry t ev re sc a ip ua rid sev tf d) = users d"
  "user_sessions (create_auth_audit_log_entry t ev re sc a ip ua rid sev tf d) = user_sessions d"
  "refresh_tokens (create_auth_audit_log_entry t ev re sc a ip ua rid sev tf d) = refresh_tokens d"
  "password_reset_tokens (create_auth_audit_log_entry t ev re sc a ip ua rid sev tf d) = password_reset_tokens d"
  "mfa_recovery_codes (create_auth_audit_log_entry t ev re sc a ip ua rid sev tf d) = mfa_recovery_codes d"
  "roles (create_auth_audit_log_entry t ev re sc a ip ua rid sev tf d) = roles d"
  "user_roles (create_auth_audit_log_entry t ev re sc a ip ua rid sev tf d) = user_roles d"
  by (simp_all add: create_auth_audit_log_entry_def)

lemma update_user_frame [simp]:
  "user_sessions (update_user i f d) = user_sessions d"
  "refresh_tokens (update_user i f d) = refresh_tokens d"
  "password_reset_tokens (update_user i f d) = password_reset_tokens d"
  "mfa_recovery_codes (update_user i f d) = mfa_recovery_codes d"
  "roles (update_user i f d) = roles d"
  "user_roles (update_user i f d) = user_roles d"
  by (simp_all add: update_user_def)

lemma revoke_family_frame [simp]:
  "users (revoke_refresh_token_family t f d) = users d"
  "user_sessions (revoke_refresh_token_family t f d) = user_sessions d"
  "password_reset_tokens (revoke_refresh_token_family t f d) = password_reset_tokens d"
  "mfa_recovery_codes (revoke_refresh_token_family t f d) = mfa_recovery_codes d"
  "roles (revoke_refresh_token_family t f d) = roles d"
  "user_roles (revoke_refresh_token_family t f d) = user_roles d"
  by (simp_all add: revoke_refresh_token_family_def)

end
