(* ===== verification/Roles.thy ===== *)
theory Roles
  imports Users_Repository "HOL-Library.List_Lexorder" "HOL-Library.Char_ord"
begin

text \<open>
  \<open>app/modules/roles\<close>: the role catalogue, the \<open>user_roles\<close> association (\<open>repository.py\<close>) and
  \<open>RoleService\<close> (\<open>service.py\<close>): scope resolution for access tokens, role replacement with its
  privilege-escalation and last-administrator guards, and the checks other modules call.
\<close>

section \<open>Repository\<close>

definition list_all_with_permissions :: "db \<Rightarrow> role list" where
  "list_all_with_permissions d = roles d"

definition get_by_names :: "string list \<Rightarrow> db \<Rightarrow> role list" where
  "get_by_names names d = (if names = [] then [] else filter (\<lambda>r. ro_name r \<in> set names) (roles d))"

text \<open>The join of \<open>roles\<close> and \<open>user_roles\<close> both readers use.\<close>

definition join_user_roles :: "uuid \<Rightarrow> db \<Rightarrow> (role \<times> user_role) list" where
  "join_user_roles user_id d =
     concat (map (\<lambda>r. map (Pair r)
       (filter (\<lambda>ur. ur_role_id ur = ro_id r \<and> ur_user_id ur = user_id) (user_roles d))) (roles d))"

definition list_role_names_for_user :: "uuid \<Rightarrow> db \<Rightarrow> string list" where
  "list_role_names_for_user user_id d = map (\<lambda>(r, ur). ro_name r) (join_user_roles user_id d)"

definition list_role_grants_for_user :: "uuid \<Rightarrow> db \<Rightarrow> (string \<times> datetime) list" where
  "list_role_grants_for_user user_id d =
     map (\<lambda>(r, ur). (ro_name r, ur_granted_at ur)) (join_user_roles user_id d)"

definition count_active_admins_excluding :: "uuid \<Rightarrow> uuid \<Rightarrow> db \<Rightarrow> nat" where
  "count_active_admins_excluding admin_role_id excluding_user_id d =
     card (set (map ur_user_id (filter (\<lambda>ur. ur_role_id ur = admin_role_id
        \<and> list_ex (\<lambda>u. u_id u = ur_user_id ur \<and> u_status u = ACTIVE) (users d)) (user_roles d)))
       - {excluding_user_id})"

text \<open>The foreign key on \<open>user_roles.user_id\<close> rejects a grant to a user that does not exist.\<close>

definition replace_for_user :: "datetime \<Rightarrow> uuid \<Rightarrow> uuid list \<Rightarrow> db \<Rightarrow> sql_error + db" where
  "replace_for_user t user_id role_ids d =
     (let kept = delete_rows (\<lambda>ur. ur_user_id ur = user_id) (user_roles d);
          new = map (\<lambda>r. \<lparr>ur_user_id = user_id, ur_role_id = r, ur_granted_at = t\<rparr>) role_ids
      in if \<not> distinct role_ids \<or> role_ids \<noteq> [] \<and> get_by_id user_id d = None then Inl IntegrityError
         else Inr (d\<lparr>user_roles := kept @ new\<rparr>))"

definition create_admin_audit_log_entry ::
  "datetime \<Rightarrow> string \<Rightarrow> uuid \<Rightarrow> uuid option \<Rightarrow> string list option \<Rightarrow> string list option \<Rightarrow> string option
    \<Rightarrow> string \<Rightarrow> db \<Rightarrow> db" where
  "create_admin_audit_log_entry t event actor_id target_id old_roles new_roles severity request_id d =
     d\<lparr>admin_audit_logs := admin_audit_logs d @
        [\<lparr>aud_event = event, aud_actor_id = Some actor_id, aud_target_id = target_id,
          aud_old_roles = old_roles, aud_new_roles = new_roles, aud_severity = severity,
          aud_request_id = request_id, aud_occurred_at = t, aud_field = None, aud_old_value = None,
          aud_new_value = None, aud_reason = None\<rparr>]\<rparr>"

section \<open>Service\<close>

definition ADMIN_ROLE_NAME :: string where "ADMIN_ROLE_NAME = ''admin''"

definition role_scopes :: "role list \<Rightarrow> string list" where
  "role_scopes rs = concat (map ro_permissions rs)"

definition list_catalogue :: "db \<Rightarrow> (string \<times> string list) list" where
  "list_catalogue d = map (\<lambda>r. (ro_name r, sort (ro_permissions r))) (list_all_with_permissions d)"

definition resolve_scopes_for_user :: "uuid \<Rightarrow> db \<Rightarrow> string list" where
  "resolve_scopes_for_user user_id d =
     (let role_names = list_role_names_for_user user_id d in
      if role_names = [] then []
      else sort (remdups (role_scopes (get_by_names role_names d))))"

definition get_role_grants_for_user :: "uuid \<Rightarrow> db \<Rightarrow> (string \<times> datetime) list" where
  "get_role_grants_for_user user_id d = list_role_grants_for_user user_id d"

text \<open>\<open>raise_if_last_admin\<close>: \<open>True\<close> where the code raises \<open>LastAdminError\<close>.\<close>

definition raise_if_last_admin :: "uuid \<Rightarrow> db \<Rightarrow> bool" where
  "raise_if_last_admin target_user_id d =
     (if ADMIN_ROLE_NAME \<notin> set (list_role_names_for_user target_user_id d) then False
      else case get_by_names [ADMIN_ROLE_NAME] d of
             [] \<Rightarrow> False
           | admin # _ \<Rightarrow> count_active_admins_excluding (ro_id admin) target_user_id d = 0)"

definition invalid_roles_error :: portal_error where
  "invalid_roles_error = RolesValidationFailedError [\<lparr>fe_field = ''roles'',
     fe_message = ''roles must be a non-empty list with no duplicate names.'', fe_code = ''invalid_roles''\<rparr>]"

definition join_comma :: "string list \<Rightarrow> string" where
  "join_comma xs = (case xs of [] \<Rightarrow> [] | y # ys \<Rightarrow> y @ concat (map (\<lambda>x. '', '' @ x) ys))"

definition unknown_role_error :: "string list \<Rightarrow> portal_error" where
  "unknown_role_error unknown = RolesValidationFailedError [\<lparr>fe_field = ''roles'',
     fe_message = ''Unknown role(s): '' @ join_comma unknown @ ''.'', fe_code = ''unknown_role''\<rparr>]"

definition replace_user_roles ::
  "request \<Rightarrow> uuid \<Rightarrow> string set \<Rightarrow> uuid \<Rightarrow> string list \<Rightarrow> portal \<Rightarrow> string list outcome \<times> portal" where
  "replace_user_roles rq actor_id actor_scopes target_id requested_role_names p =
     (let d = database p; t = rq_db_now rq in
      if target_id = actor_id then (Inl CannotTargetSelfError, p)
      else if requested_role_names = [] \<or> length requested_role_names \<noteq> card (set requested_role_names)
      then (Inl invalid_roles_error, p)
      else
        let matched_roles = get_by_names requested_role_names d;
            matched_names = remdups (map ro_name matched_roles);
            unknown_names = filter (\<lambda>n. n \<notin> set matched_names) requested_role_names
        in if unknown_names \<noteq> [] then (Inl (unknown_role_error (sort unknown_names)), p)
        else if \<not> set (role_scopes matched_roles) \<subseteq> actor_scopes then
          (Inl PrivilegeEscalationError,
           p\<lparr>database := create_admin_audit_log_entry t ''authz_denied'' actor_id (Some target_id) None
               (Some (sort matched_names)) (Some ''high'') (rq_request_id rq) d\<rparr>)
        else
          let old_role_names = list_role_names_for_user target_id d;
              last_admin = (ADMIN_ROLE_NAME \<in> set old_role_names \<and> ADMIN_ROLE_NAME \<notin> set matched_names
                 \<and> (case get_by_names [ADMIN_ROLE_NAME] d of
                      [] \<Rightarrow> False
                    | admin # _ \<Rightarrow> count_active_admins_excluding (ro_id admin) target_id d = 0))
          in if last_admin then (Inl LastAdminError, p)
          else case replace_for_user t target_id (map ro_id matched_roles) d of
                 Inl e \<Rightarrow> (Inl (DatabaseError e), p)
               | Inr d1 \<Rightarrow>
                   let d2 = create_admin_audit_log_entry t ''roles_replaced'' actor_id (Some target_id)
                              (Some old_role_names) (Some (sort matched_names)) None (rq_request_id rq) d1
                   in (Inr (sort matched_names),
                       p\<lparr>database := d2,
                         cache := set_perm_epoch (rq_now rq) target_id (perm_epoch_ttl_seconds get_settings)
                           (cache p)\<rparr>))"

definition resolve_role_ids_for_grant ::
  "request \<Rightarrow> uuid \<Rightarrow> string set \<Rightarrow> string list \<Rightarrow> portal \<Rightarrow> uuid list outcome \<times> portal" where
  "resolve_role_ids_for_grant rq actor_id actor_scopes role_names p =
     (let d = database p; matched_roles = get_by_names role_names d in
      if \<not> set (role_scopes matched_roles) \<subseteq> actor_scopes then
        (Inl PrivilegeEscalationError,
         p\<lparr>database := create_admin_audit_log_entry (rq_db_now rq) ''authz_denied'' actor_id None None
             (Some (sort (map ro_name matched_roles))) (Some ''high'') (rq_request_id rq) d\<rparr>)
      else (Inr (map ro_id matched_roles), p))"

text \<open>\<open>require_scope\<close> (\<open>dependencies.py\<close>): the guard of the administrative routes.\<close>

definition require_scope :: "string \<Rightarrow> string list \<Rightarrow> unit outcome" where
  "require_scope scope scopes = (if scope \<notin> set scopes then Inl InsufficientPermissionError else Inr ())"

section \<open>Facts\<close>

text \<open>The unique constraints of the catalogue.\<close>

definition catalogue_ok :: "db \<Rightarrow> bool" where
  "catalogue_ok d \<longleftrightarrow> distinct (map ro_id (roles d)) \<and> distinct (map ro_name (roles d))"

definition active_admins :: "db \<Rightarrow> uuid set" where
  "active_admins d = {i. ADMIN_ROLE_NAME \<in> set (list_role_names_for_user i d)
     \<and> (\<exists>u \<in> set (users d). u_id u = i \<and> u_status u = ACTIVE)}"

lemma role_names_iff:
  "n \<in> set (list_role_names_for_user i d) \<longleftrightarrow>
     (\<exists>r \<in> set (roles d). ro_name r = n \<and> (\<exists>ur \<in> set (user_roles d). ur_role_id ur = ro_id r \<and> ur_user_id ur = i))"
  by (auto simp: list_role_names_for_user_def join_user_roles_def image_iff Bex_def)

lemma role_grants_names: "map fst (list_role_grants_for_user i d) = list_role_names_for_user i d"
  by (simp add: list_role_grants_for_user_def list_role_names_for_user_def case_prod_beta comp_def)

lemma set_get_by_names: "set (get_by_names ns d) = {r \<in> set (roles d). ro_name r \<in> set ns}"
  by (auto simp: get_by_names_def)

lemma set_resolve_scopes:
  "set (resolve_scopes_for_user i d) =
     (\<Union>r \<in> {r \<in> set (roles d). ro_name r \<in> set (list_role_names_for_user i d)}. set (ro_permissions r))"
  by (auto simp: resolve_scopes_for_user_def Let_def role_scopes_def set_get_by_names)

lemma admin_audit_frame [simp]:
  "roles (create_admin_audit_log_entry t ev a tg ol nw sev rid d) = roles d"
  "user_roles (create_admin_audit_log_entry t ev a tg ol nw sev rid d) = user_roles d"
  "users (create_admin_audit_log_entry t ev a tg ol nw sev rid d) = users d"
  by (simp_all add: create_admin_audit_log_entry_def)

lemma list_role_names_cong:
  "roles d = roles d' \<Longrightarrow> user_roles d = user_roles d' \<Longrightarrow>
   list_role_names_for_user i d = list_role_names_for_user i d'"
  by (simp add: list_role_names_for_user_def join_user_roles_def)

lemma admin_role_unique:
  "catalogue_ok d \<Longrightarrow> get_by_names [ADMIN_ROLE_NAME] d = a # rest \<Longrightarrow>
   r \<in> set (roles d) \<Longrightarrow> ro_name r = ADMIN_ROLE_NAME \<Longrightarrow> r = a"
proof -
  assume c: "catalogue_ok d" and g: "get_by_names [ADMIN_ROLE_NAME] d = a # rest"
    and r: "r \<in> set (roles d)" "ro_name r = ADMIN_ROLE_NAME"
  have "a \<in> set (get_by_names [ADMIN_ROLE_NAME] d)" by (simp add: g)
  then have "a \<in> set (roles d)" "ro_name a = ADMIN_ROLE_NAME" by (auto simp: set_get_by_names)
  with c r show "r = a" by (auto simp: catalogue_ok_def intro: distinct_key_eqD [of ro_name])
qed

text \<open>The guard both last-admin checks evaluate: no other active administrator is left.\<close>

lemma count_active_admins_zero:
  assumes "catalogue_ok d" and "get_by_names [ADMIN_ROLE_NAME] d = a # rest"
    and "i \<in> active_admins d" and "i \<noteq> x"
  shows "count_active_admins_excluding (ro_id a) x d \<noteq> 0"
proof -
  from assms(3) obtain r ur u where r: "r \<in> set (roles d)" "ro_name r = ADMIN_ROLE_NAME"
    and ur: "ur \<in> set (user_roles d)" "ur_role_id ur = ro_id r" "ur_user_id ur = i"
    and u: "u \<in> set (users d)" "u_id u = i" "u_status u = ACTIVE"
    by (auto simp: active_admins_def role_names_iff)
  have "r = a" using assms(1,2) r by (rule admin_role_unique)
  then have "i \<in> set (map ur_user_id (filter (\<lambda>ur. ur_role_id ur = ro_id a
        \<and> list_ex (\<lambda>u. u_id u = ur_user_id ur \<and> u_status u = ACTIVE) (users d)) (user_roles d))) - {x}"
    using ur u assms(4) by (force simp: list_ex_iff)
  then show ?thesis by (auto simp: count_active_admins_excluding_def)
qed

lemma count_active_admins_witness:
  assumes "count_active_admins_excluding (ro_id a) x d \<noteq> 0" and "a \<in> set (roles d)"
    and "ro_name a = ADMIN_ROLE_NAME"
  obtains i where "i \<in> active_admins d" "i \<noteq> x"
proof -
  have "set (map ur_user_id (filter (\<lambda>ur. ur_role_id ur = ro_id a
        \<and> list_ex (\<lambda>u. u_id u = ur_user_id ur \<and> u_status u = ACTIVE) (users d)) (user_roles d))) - {x} \<noteq> {}" (is "?S \<noteq> {}")
  proof
    assume "?S = {}"
    then have "count_active_admins_excluding (ro_id a) x d = 0"
      unfolding count_active_admins_excluding_def by (simp only: card.empty)
    with assms(1) show False by simp
  qed
  then obtain ur u where "ur \<in> set (user_roles d)" "ur_role_id ur = ro_id a" "ur_user_id ur \<noteq> x"
      "u \<in> set (users d)" "u_id u = ur_user_id ur" "u_status u = ACTIVE"
    by (auto simp: list_ex_iff)
  with assms(2,3) have "ur_user_id ur \<in> active_admins d" by (auto simp: active_admins_def role_names_iff)
  with \<open>ur_user_id ur \<noteq> x\<close> that show thesis by blast
qed

lemma replace_for_user_frame:
  assumes "replace_for_user t i ids d = Inr d'"
  shows "roles d' = roles d" "users d' = users d"
  using assms by (auto simp: replace_for_user_def Let_def split: if_splits)

lemma replace_for_user_grants:
  assumes "replace_for_user t i ids d = Inr d'"
  shows "(\<exists>ur \<in> set (user_roles d'). ur_role_id ur = x \<and> ur_user_id ur = j) \<longleftrightarrow>
    (if j = i then x \<in> set ids else \<exists>ur \<in> set (user_roles d). ur_role_id ur = x \<and> ur_user_id ur = j)"
proof -
  have "set (user_roles d') = {ur \<in> set (user_roles d). ur_user_id ur \<noteq> i}
      \<union> (\<lambda>r. \<lparr>ur_user_id = i, ur_role_id = r, ur_granted_at = t\<rparr>) ` set ids"
    using assms by (auto simp: replace_for_user_def Let_def query_defs split: if_splits)
  then show ?thesis by (auto simp: bex_Un)
qed

lemma replace_for_user_names:
  assumes "replace_for_user t i ids d = Inr d'"
  shows "n \<in> set (list_role_names_for_user j d') \<longleftrightarrow>
      (if j = i then \<exists>r \<in> set (roles d). ro_name r = n \<and> ro_id r \<in> set ids
       else n \<in> set (list_role_names_for_user j d))"
  by (simp add: role_names_iff replace_for_user_frame [OF assms] replace_for_user_grants [OF assms])

lemma distinct_roles_card:
  "length xs = card (set xs) \<longleftrightarrow> distinct xs"
  by (metis card_distinct distinct_card)

text \<open>The only successful path of \<open>replace_user_roles\<close>.\<close>

lemma replace_user_roles_success:
  assumes "replace_user_roles rq a sc i ns p = (Inr names, p')" and "catalogue_ok (database p)"
  shows "i \<noteq> a" and "ns \<noteq> []" and "distinct ns"
    and "set names = set ns"
    and "\<forall>r \<in> set (roles (database p)). ro_name r \<in> set ns \<longrightarrow> set (ro_permissions r) \<subseteq> sc"
    and "set (list_role_names_for_user i (database p')) = set ns"
    and "j \<noteq> i \<Longrightarrow> set (list_role_names_for_user j (database p')) = set (list_role_names_for_user j (database p))"
    and "roles (database p') = roles (database p)" and "users (database p') = users (database p)"
    and "cache p' = set_perm_epoch (rq_now rq) i 900 (cache p)"
proof -
  let ?d = "database p" and ?m = "get_by_names ns (database p)"
  from assms(1) have g: "i \<noteq> a" "ns \<noteq> []" "length ns = card (set ns)" "set ns \<subseteq> ro_name ` set ?m"
      "set (role_scopes ?m) \<subseteq> sc"
    and nm: "names = sort (remdups (map ro_name ?m))"
    and ex: "\<exists>d1. replace_for_user (rq_db_now rq) i (map ro_id ?m) ?d = Inr d1 \<and> roles (database p') = roles d1
      \<and> user_roles (database p') = user_roles d1 \<and> users (database p') = users d1
      \<and> cache p' = set_perm_epoch (rq_now rq) i 900 (cache p)"
    by (auto simp: replace_user_roles_def Let_def filter_empty_conv split: if_splits sum.splits)
  show "i \<noteq> a" "ns \<noteq> []" "distinct ns" using g(1-3) distinct_roles_card by auto
  have sub: "set (map ro_name ?m) = set ns" using g(4) by (auto simp: set_get_by_names)
  then show "set names = set ns" by (simp add: nm)
  show "\<forall>r \<in> set (roles ?d). ro_name r \<in> set ns \<longrightarrow> set (ro_permissions r) \<subseteq> sc"
    using g(5) by (auto simp: role_scopes_def set_get_by_names)
  from ex obtain d1 where d1: "replace_for_user (rq_db_now rq) i (map ro_id ?m) ?d = Inr d1"
    and fr: "roles (database p') = roles d1" "user_roles (database p') = user_roles d1"
      "users (database p') = users d1" and "cache p' = set_perm_epoch (rq_now rq) i 900 (cache p)"
    by blast
  then show "roles (database p') = roles ?d" "users (database p') = users ?d"
    "cache p' = set_perm_epoch (rq_now rq) i 900 (cache p)"
    by (simp_all add: replace_for_user_frame [OF d1])
  have names: "list_role_names_for_user k (database p') = list_role_names_for_user k d1" for k
    using fr by (intro list_role_names_cong)
  show "j \<noteq> i \<Longrightarrow> set (list_role_names_for_user j (database p')) = set (list_role_names_for_user j ?d)"
    by (auto simp: names replace_for_user_names [OF d1])
  have "ro_id r \<in> set (map ro_id ?m) \<longleftrightarrow> ro_name r \<in> set ns" if "r \<in> set (roles ?d)" for r
    using assms(2) that by (auto simp: catalogue_ok_def set_get_by_names dest: distinct_key_eqD [of ro_id])
  moreover have "\<exists>r \<in> set (roles ?d). ro_name r = n" if "n \<in> set ns" for n
  proof -
    from that sub have "n \<in> ro_name ` set ?m" by simp
    then show ?thesis by (auto simp: set_get_by_names)
  qed
  ultimately show "set (list_role_names_for_user i (database p')) = set ns"
    by (auto simp: names replace_for_user_names [OF d1] set_get_by_names) blast
qed

text \<open>A failed replacement leaves every grant, account and cache entry alone (a refused escalation
  only adds its audit row).\<close>

lemma replace_user_roles_failure:
  assumes "replace_user_roles rq a sc i ns p = (Inl e, p')"
  shows "user_roles (database p') = user_roles (database p)" "users (database p') = users (database p)"
    "roles (database p') = roles (database p)" "cache p' = cache p"
  using assms by (auto simp: replace_user_roles_def Let_def split: if_splits sum.splits)

lemma replace_user_roles_last_admin_guard:
  assumes "replace_user_roles rq a sc i ns p = (Inr names, p')" and "catalogue_ok (database p)"
    and "ADMIN_ROLE_NAME \<in> set (list_role_names_for_user i (database p))" and "ADMIN_ROLE_NAME \<notin> set ns"
    and "get_by_names [ADMIN_ROLE_NAME] (database p) = ad # rest"
  shows "count_active_admins_excluding (ro_id ad) i (database p) \<noteq> 0"
proof -
  have "ADMIN_ROLE_NAME \<notin> set (map ro_name (get_by_names ns (database p)))"
    using assms(4) by (auto simp: set_get_by_names)
  with assms(1,3,5) show ?thesis
    by (auto simp: replace_user_roles_def Let_def split: if_splits sum.splits)
qed

lemma keeps_admin:
  assumes "replace_user_roles rq a sc i ns p = (Inr names, p')" and "catalogue_ok (database p)"
    and "active_admins (database p) \<noteq> {}"
  shows "active_admins (database p') \<noteq> {}"
proof -
  note S = replace_user_roles_success [OF assms(1,2)]
  have other: "j \<in> active_admins (database p')" if "j \<in> active_admins (database p)" "j \<noteq> i" for j
    using that S(7) [of j] S(9) by (auto simp: active_admins_def)
  from assms(3) obtain j where j: "j \<in> active_admins (database p)" by blast
  show ?thesis
  proof (cases "j = i \<and> ADMIN_ROLE_NAME \<notin> set ns")
    case False
    then have "j \<in> active_admins (database p')"
      using j other [of j] S(6,9) by (cases "j = i") (auto simp: active_admins_def)
    then show ?thesis by blast
  next
    case True
    then have adm: "ADMIN_ROLE_NAME \<in> set (list_role_names_for_user i (database p))"
      using j by (simp add: active_admins_def)
    then obtain ad rest where ad: "get_by_names [ADMIN_ROLE_NAME] (database p) = ad # rest"
      by (cases "get_by_names [ADMIN_ROLE_NAME] (database p)") (auto simp: role_names_iff get_by_names_def filter_empty_conv)
    then have "ad \<in> set (get_by_names [ADMIN_ROLE_NAME] (database p))" by simp
    then have "ad \<in> set (roles (database p))" "ro_name ad = ADMIN_ROLE_NAME" by (auto simp: set_get_by_names)
    with replace_user_roles_last_admin_guard [OF assms(1,2) adm _ ad] True
    obtain k where "k \<in> active_admins (database p)" "k \<noteq> i" by (metis count_active_admins_witness)
    with other show ?thesis by blast
  qed
qed

section \<open>Properties\<close>

text \<open>C14. Role replacement cannot escalate privileges. On success the target holds exactly the requested
  roles, every scope its next access token can carry is one the acting administrator holds, the actor
  is not the target, nobody else's roles change, and the target's permission epoch is advanced so that
  older access tokens become stale. On any error no grant, no account and no cache entry changes.\<close>

theorem replace_user_roles_no_escalation:
  assumes "catalogue_ok (database p)"
  shows "case replace_user_roles rq actor scopes target names p of
      (Inr granted, p') \<Rightarrow>
        target \<noteq> actor \<and> set granted = set names
        \<and> set (list_role_names_for_user target (database p')) = set names
        \<and> set (resolve_scopes_for_user target (database p')) \<subseteq> scopes
        \<and> (\<forall>u. u \<noteq> target \<longrightarrow> set (list_role_names_for_user u (database p'))
              = set (list_role_names_for_user u (database p)))
        \<and> get_perm_epoch (rq_now rq) target (cache p') = Some (rq_now rq)
    | (Inl e, p') \<Rightarrow> user_roles (database p') = user_roles (database p)
        \<and> users (database p') = users (database p) \<and> cache p' = cache p"
proof (cases "replace_user_roles rq actor scopes target names p")
  case (Pair res p')
  show ?thesis
  proof (cases res)
    case (Inl e)
    then show ?thesis using Pair replace_user_roles_failure by simp
  next
    case (Inr granted)
    note S = replace_user_roles_success [OF Pair [unfolded Inr] assms]
    have "set (resolve_scopes_for_user target (database p')) \<subseteq> scopes"
      using S(5) by (auto simp: set_resolve_scopes S(6,8))
    moreover have "get_perm_epoch (rq_now rq) target (cache p') = Some (rq_now rq)"
      by (simp add: S(10) get_perm_epoch_set duration_defs)
    ultimately show ?thesis using Pair Inr S(1,4,6) S(7) by auto
  qed
qed

text \<open>A portal with two active administrators, users 1 and 2.\<close>

definition two_admins :: portal where
  "two_admins = \<lparr>database = empty_db\<lparr>
       users := [new_user 0 1 ''a@x'' ''h'' ACTIVE, new_user 0 2 ''b@x'' ''h'' ACTIVE],
       roles := [\<lparr>ro_id = 30, ro_name = ''admin'', ro_permissions = [''users:read'', ''roles:write'']\<rparr>,
                 \<lparr>ro_id = 40, ro_name = ''auditor'', ro_permissions = [''audit:read'']\<rparr>],
       user_roles := [\<lparr>ur_user_id = 1, ur_role_id = 30, ur_granted_at = 0\<rparr>,
                      \<lparr>ur_user_id = 2, ur_role_id = 30, ur_granted_at = 0\<rparr>]\<rparr>,
     cache = empty_valkey, outbox = []\<rparr>"

definition sample_request :: request where
  "sample_request = \<lparr>rq_now = 1000, rq_db_now = 990, rq_ip = ''10.0.0.1'', rq_user_agent = None,
     rq_request_id = ''r'', rq_uuid = (\<lambda>n. of_nat (100 + n)), rq_token = (\<lambda>n. replicate (n + 5) (CHR ''t'')),
     rq_bytes = (\<lambda>n. []), rq_mail_ok = True, rq_valkey_up = True\<rparr>"

lemma catalogue_ok_two_admins: "catalogue_ok (database two_admins)"
  by (simp add: catalogue_ok_def two_admins_def empty_db_def)

lemma two_admins_replacement:
  "fst (replace_user_roles sample_request 1 {''audit:read''} 2 [''auditor''] two_admins) = Inr [''auditor'']"
proof -
  have m: "get_by_names [''auditor''] (database two_admins)
      = [\<lparr>ro_id = 40, ro_name = ''auditor'', ro_permissions = [''audit:read'']\<rparr>]"
    and a: "get_by_names [''admin''] (database two_admins) = [\<lparr>ro_id = 30, ro_name = ''admin'',
        ro_permissions = [''users:read'', ''roles:write'']\<rparr>]"
    and c: "count_active_admins_excluding 30 2 (database two_admins) = 1"
    and u: "get_by_id 2 (database two_admins) \<noteq> None"
    by (simp_all add: two_admins_def empty_db_def get_by_names_def count_active_admins_excluding_def
        get_by_id_def new_user_def insert_Diff_if)
  show ?thesis
    using u by (simp add: replace_user_roles_def m a c role_scopes_def ADMIN_ROLE_NAME_def
        replace_for_user_def Let_def)
qed

theorem replace_user_roles_no_escalation_witness:
  "fst (replace_user_roles sample_request 1 {''audit:read''} 2 [''auditor''] two_admins) = Inr [''auditor'']
   \<and> (case replace_user_roles sample_request 1 {''audit:read''} 2 [''auditor''] two_admins of
        (Inr granted, p') \<Rightarrow> set (resolve_scopes_for_user 2 (database p')) \<subseteq> {''audit:read''}
      | (Inl e, p') \<Rightarrow> False)"
proof -
  note two_admins_replacement
  with replace_user_roles_no_escalation [OF catalogue_ok_two_admins,
      where rq = sample_request and actor = 1 and scopes = "{''audit:read''}" and target = 2
        and names = "[''auditor'']"]
  show ?thesis by (auto split: prod.splits sum.splits)
qed

text \<open>Role replacement never removes the last active administrator, whatever the request asks for and
  whoever it targets.\<close>

lemma replace_user_roles_keeps_an_admin:
  assumes "catalogue_ok (database p)" and "active_admins (database p) \<noteq> {}"
  shows "active_admins (database (snd (replace_user_roles rq actor scopes target names p))) \<noteq> {}"
proof (cases "replace_user_roles rq actor scopes target names p")
  case (Pair res p')
  show ?thesis
  proof (cases res)
    case (Inl e)
    then have "list_role_names_for_user j (database p') = list_role_names_for_user j (database p)" for j
      using Pair replace_user_roles_failure [of rq actor scopes target names p e p']
      by (intro list_role_names_cong) auto
    with Pair Inl assms(2) replace_user_roles_failure [of rq actor scopes target names p e p']
    show ?thesis by (simp add: active_admins_def)
  next
    case (Inr granted)
    show ?thesis using keeps_admin [OF Pair [unfolded Inr] assms] Pair by simp
  qed
qed

end
