(* ===== verification/Audit_Chain.thy ===== *)
theory Audit_Chain
  imports Keyset Roles
begin

text \<open>
  \<open>app/modules/audit\<close>: the hash-chained \<open>audit_log\<close> table with its \<open>BEFORE INSERT\<close> trigger
  (\<open>migrations/versions/57a978462b74_...\<close>), the repository and service that write and list entries,
  and the chain verifier \<open>scripts/verify_audit_chain.py\<close>.
\<close>

section \<open>The hash chain\<close>

definition payload_text :: "libs \<Rightarrow> json option \<Rightarrow> string" where
  "payload_text L payload = (case payload of None \<Rightarrow> [] | Some j \<Rightarrow> jsonb_text L j)"

definition audit_log_text ::
  "libs \<Rightarrow> string \<Rightarrow> datetime \<Rightarrow> uuid option \<Rightarrow> string \<Rightarrow> uuid option \<Rightarrow> json option \<Rightarrow> string" where
  "audit_log_text L previous_hash occurred_at actor_id event target_id payload =
     previous_hash @ ''|'' @ timestamptz_text L occurred_at @ ''|''
       @ (case actor_id of None \<Rightarrow> [] | Some a \<Rightarrow> uuid_str a) @ ''|'' @ event @ ''|''
       @ (case target_id of None \<Rightarrow> [] | Some g \<Rightarrow> uuid_str g) @ ''|''
       @ payload_text L payload"

definition audit_log_row_hash ::
  "libs \<Rightarrow> string \<Rightarrow> datetime \<Rightarrow> uuid option \<Rightarrow> string \<Rightarrow> uuid option \<Rightarrow> json option \<Rightarrow> string" where
  "audit_log_row_hash L previous_hash occurred_at actor_id event target_id payload =
     sha256_hex L (audit_log_text L previous_hash occurred_at actor_id event target_id payload)"

definition audit_pos :: "audit_log \<Rightarrow> position" where
  "audit_pos r = (al_occurred_at r, al_id r)"

definition GENESIS_SENTINEL :: "libs \<Rightarrow> string" where
  "GENESIS_SENTINEL L = sha256_hex L []"

text \<open>The trigger seeds a new row from the row that is last by \<open>(occurred_at, id)\<close>; it overwrites
  whatever the two hash columns hold.\<close>

definition audit_log_hash_chain :: "libs \<Rightarrow> audit_log list \<Rightarrow> audit_log \<Rightarrow> audit_log" where
  "audit_log_hash_chain L rows new =
     (let v_prev_hash = (case order_rows True audit_pos rows of
            [] \<Rightarrow> GENESIS_SENTINEL L
          | latest # _ \<Rightarrow> al_row_hash latest)
      in new\<lparr>al_previous_hash := v_prev_hash,
             al_row_hash := audit_log_row_hash L v_prev_hash (al_occurred_at new) (al_actor_id new)
               (al_event new) (al_target_id new) (al_payload new)\<rparr>)"

definition fits :: "nat \<Rightarrow> string option \<Rightarrow> bool" where
  "fits n v = (case v of None \<Rightarrow> True | Some s \<Rightarrow> length s \<le> n)"

text \<open>The insert: the bounded columns reject longer values, \<open>(id, occurred_at)\<close> is the primary key.\<close>

definition insert_audit_log :: "libs \<Rightarrow> audit_log \<Rightarrow> db \<Rightarrow> sql_error + db" where
  "insert_audit_log L row d =
     (if length (al_category row) \<le> 32 \<and> fits 32 (al_actor_role row) \<and> length (al_event row) \<le> 64
         \<and> fits 32 (al_outcome row) \<and> fits 64 (al_request_id row) \<and> fits 45 (al_ip row) then
        (if audit_pos row \<in> audit_pos ` set (audit_logs d) then Inl IntegrityError
         else Inr (d\<lparr>audit_logs := audit_logs d @ [audit_log_hash_chain L (audit_logs d) row]\<rparr>))
      else Inl DataError)"

section \<open>Repository\<close>

definition record_self_audit ::
  "libs \<Rightarrow> request \<Rightarrow> uuid \<Rightarrow> uuid \<Rightarrow> string option \<Rightarrow> json \<Rightarrow> db \<Rightarrow> sql_error + db" where
  "record_self_audit L rq row_id actor_id actor_role payload d =
     insert_audit_log L \<lparr>al_id = row_id, al_occurred_at = rq_db_now rq, al_category = ''audit'',
       al_actor_id = Some actor_id, al_actor_role = actor_role, al_event = ''audit_log_viewed'',
       al_target_id = None, al_outcome = Some ''success'', al_request_id = Some (rq_request_id rq),
       al_ip = Some (rq_ip rq), al_user_agent = rq_user_agent rq, al_payload = Some payload,
       al_previous_hash = [], al_row_hash = []\<rparr> d"

definition repo_record_access_denied ::
  "libs \<Rightarrow> request \<Rightarrow> uuid \<Rightarrow> uuid \<Rightarrow> string option \<Rightarrow> db \<Rightarrow> sql_error + db" where
  "repo_record_access_denied L rq row_id actor_id actor_role d =
     insert_audit_log L \<lparr>al_id = row_id, al_occurred_at = rq_db_now rq, al_category = ''audit'',
       al_actor_id = Some actor_id, al_actor_role = actor_role, al_event = ''audit_log_access_denied'',
       al_target_id = None, al_outcome = Some ''denied'', al_request_id = Some (rq_request_id rq),
       al_ip = Some (rq_ip rq), al_user_agent = rq_user_agent rq, al_payload = None,
       al_previous_hash = [], al_row_hash = []\<rparr> d"

text \<open>An attribute given as \<open>None\<close> is stored by the \<open>JSONB\<close> column type as the JSON value \<open>null\<close>, an attribute
  left out (as in \<open>record_access_denied\<close>) as SQL's \<open>NULL\<close>; the trigger's text of the first is \<open>null\<close>, of the
  second empty.\<close>

definition repo_record_event ::
  "libs \<Rightarrow> request \<Rightarrow> uuid \<Rightarrow> string \<Rightarrow> uuid option \<Rightarrow> string option \<Rightarrow> string \<Rightarrow> uuid option
    \<Rightarrow> string option \<Rightarrow> string option \<Rightarrow> string option \<Rightarrow> string option \<Rightarrow> json option \<Rightarrow> db \<Rightarrow> sql_error + db" where
  "repo_record_event L rq row_id category actor_id actor_role event target_id outc request_id ip user_agent payload d =
     insert_audit_log L \<lparr>al_id = row_id, al_occurred_at = rq_db_now rq, al_category = category,
       al_actor_id = actor_id, al_actor_role = actor_role, al_event = event,
       al_target_id = target_id, al_outcome = outc, al_request_id = request_id,
       al_ip = ip, al_user_agent = user_agent,
       al_payload = Some (case payload of None \<Rightarrow> JNull | Some j \<Rightarrow> j),
       al_previous_hash = [], al_row_hash = []\<rparr> d"

text \<open>The view \<open>audit_log_history\<close>. The identifiers of the four other log tables are not part of the
  state; \<open>ids tbl k\<close> is the identifier of the \<open>k\<close>-th row of table \<open>tbl\<close>.\<close>

record history_row =
  hr_id :: uuid
  hr_occurred_at :: datetime
  hr_category :: string
  hr_actor_id :: "uuid option"
  hr_actor_role :: "string option"
  hr_event :: string
  hr_target_id :: "uuid option"
  hr_outcome :: "string option"
  hr_request_id :: "string option"
  hr_ip :: "string option"
  hr_user_agent :: "string option"
  hr_payload :: "json option"
  hr_previous_hash :: "string option"
  hr_row_hash :: "string option"

definition bare_history_row :: "uuid \<Rightarrow> datetime \<Rightarrow> string \<Rightarrow> string \<Rightarrow> history_row" where
  "bare_history_row i t category event = \<lparr>hr_id = i, hr_occurred_at = t, hr_category = category,
     hr_actor_id = None, hr_actor_role = None, hr_event = event, hr_target_id = None, hr_outcome = None,
     hr_request_id = None, hr_ip = None, hr_user_agent = None, hr_payload = None,
     hr_previous_hash = None, hr_row_hash = None\<rparr>"

definition with_ids :: "(nat \<Rightarrow> uuid) \<Rightarrow> (uuid \<Rightarrow> 'a \<Rightarrow> 'b) \<Rightarrow> 'a list \<Rightarrow> 'b list" where
  "with_ids ids f rows = map (\<lambda>k. f (ids k) (rows ! k)) [0..<length rows]"

definition audit_log_history :: "(string \<Rightarrow> nat \<Rightarrow> uuid) \<Rightarrow> db \<Rightarrow> history_row list" where
  "audit_log_history ids d =
     map (\<lambda>r. \<lparr>hr_id = al_id r, hr_occurred_at = al_occurred_at r, hr_category = al_category r,
       hr_actor_id = al_actor_id r, hr_actor_role = al_actor_role r, hr_event = al_event r,
       hr_target_id = al_target_id r, hr_outcome = al_outcome r, hr_request_id = al_request_id r,
       hr_ip = al_ip r, hr_user_agent = al_user_agent r, hr_payload = al_payload r,
       hr_previous_hash = Some (al_previous_hash r), hr_row_hash = Some (al_row_hash r)\<rparr>) (audit_logs d)
     @ with_ids (ids ''auth_audit_log'') (\<lambda>i r. (bare_history_row i (aal_occurred_at r) ''auth'' (aal_event r))
         \<lparr>hr_actor_id := aal_actor_id r, hr_request_id := Some (aal_request_id r), hr_ip := Some (aal_ip r),
          hr_user_agent := aal_user_agent r\<rparr>) (auth_audit_logs d)
     @ with_ids (ids ''admin_audit_log'') (\<lambda>i r. (bare_history_row i (aud_occurred_at r) ''admin'' (aud_event r))
         \<lparr>hr_actor_id := aud_actor_id r, hr_target_id := aud_target_id r,
          hr_request_id := Some (aud_request_id r)\<rparr>) (admin_audit_logs d)
     @ with_ids (ids ''profile_audit_log'') (\<lambda>i r. (bare_history_row i (pal_timestamp r) ''profile'' ''field_changed'')
         \<lparr>hr_actor_id := Some (pal_actor_id r), hr_request_id := Some (pal_request_id r)\<rparr>) (profile_audit_logs d)
     @ with_ids (ids ''account_lifecycle_audit_log'')
         (\<lambda>i r. (bare_history_row i (lal_occurred_at r) ''account_lifecycle'' (lal_event r))
           \<lparr>hr_target_id := Some (lal_user_id r)\<rparr>) (account_lifecycle_audit_logs d)"

definition history_pos :: "history_row \<Rightarrow> position" where
  "history_pos r = (hr_occurred_at r, hr_id r)"

definition matches :: "'a option \<Rightarrow> 'a option \<Rightarrow> bool" where
  "matches wanted v \<longleftrightarrow> wanted = None \<or> v = wanted"

definition selected_history ::
  "uuid option \<Rightarrow> string option \<Rightarrow> uuid option \<Rightarrow> datetime \<Rightarrow> datetime \<Rightarrow> history_row list \<Rightarrow> history_row list" where
  "selected_history actor_id event target_id window_from window_to rows =
     filter (\<lambda>r. window_from \<le> hr_occurred_at r \<and> hr_occurred_at r \<le> window_to
       \<and> matches actor_id (hr_actor_id r) \<and> matches event (Some (hr_event r))
       \<and> matches target_id (hr_target_id r)) rows"

definition repo_list_audit_logs ::
  "libs \<Rightarrow> (string \<Rightarrow> nat \<Rightarrow> uuid) \<Rightarrow> uuid option \<Rightarrow> string option \<Rightarrow> uuid option \<Rightarrow> parsed_datetime \<Rightarrow> parsed_datetime
    \<Rightarrow> string option \<Rightarrow> int \<Rightarrow> db \<Rightarrow> (history_row list \<times> string option) option outcome" where
  "repo_list_audit_logs L ids actor_id event target_id window_from window_to cursor limit d =
     (if (case cursor of None \<Rightarrow> False | Some c \<Rightarrow> decode_cursor L c = None) then Inr None
      else case (to_timestamptz L window_from, to_timestamptz L window_to) of
        (Some lo, Some hi) \<Rightarrow>
          keyset_page L True history_pos cursor limit
            (selected_history actor_id event target_id lo hi (audit_log_history ids d))
      | _ \<Rightarrow> Inl (DatabaseError DataError))"

section \<open>Service\<close>

definition MAX_WINDOW_DAYS :: int where "MAX_WINDOW_DAYS = 90"
definition MAX_LIMIT :: int where "MAX_LIMIT = 100"

definition resolve_actor_role :: "uuid \<Rightarrow> db \<Rightarrow> string option" where
  "resolve_actor_role actor_id d =
     (let grants = get_role_grants_for_user actor_id d in
      if grants = [] then None else Some (join_with '','' (sort (map fst grants))))"

text \<open>Subtraction of an offset-free from an offset-aware \<open>datetime\<close> raises \<open>TypeError\<close>.\<close>

definition datetime_diff :: "parsed_datetime \<Rightarrow> parsed_datetime \<Rightarrow> int option" where
  "datetime_diff a b = (case (a, b) of (Aware x, Aware y) \<Rightarrow> Some (x - y) | (Naive x, Naive y) \<Rightarrow> Some (x - y) | _ \<Rightarrow> None)"

record audit_log_entry =
  ale_occurred_at :: datetime
  ale_actor_id :: "uuid option"
  ale_actor_role :: "string option"
  ale_event :: string
  ale_target_id :: "uuid option"
  ale_request_id :: "string option"
  ale_ip :: "string option"
  ale_user_agent :: "string option"
  ale_outcome :: "string option"

definition to_entry :: "history_row \<Rightarrow> audit_log_entry" where
  "to_entry r = \<lparr>ale_occurred_at = hr_occurred_at r, ale_actor_id = hr_actor_id r,
     ale_actor_role = hr_actor_role r, ale_event = hr_event r, ale_target_id = hr_target_id r,
     ale_request_id = hr_request_id r, ale_ip = hr_ip r, ale_user_agent = hr_user_agent r,
     ale_outcome = hr_outcome r\<rparr>"

definition json_opt :: "string option \<Rightarrow> json" where
  "json_opt v = (case v of None \<Rightarrow> JNull | Some s \<Rightarrow> JStr s)"

text \<open>A window bound is the parsed query parameter with its rendering by \<open>isoformat\<close>. The first
  identifier the request draws is the one of the audit row.\<close>

definition list_audit_logs ::
  "libs \<Rightarrow> (string \<Rightarrow> nat \<Rightarrow> uuid) \<Rightarrow> request \<Rightarrow> uuid \<Rightarrow> uuid option \<Rightarrow> string option \<Rightarrow> uuid option
    \<Rightarrow> (parsed_datetime \<times> string) option \<Rightarrow> (parsed_datetime \<times> string) option \<Rightarrow> string option \<Rightarrow> int
    \<Rightarrow> portal \<Rightarrow> (audit_log_entry list \<times> string option) outcome \<times> portal" where
  "list_audit_logs L ids rq actor_id actor_id_filter event target_id window_from window_to cursor limit p =
     (case (window_from, window_to) of
        (Some (lo, lo_iso), Some (hi, hi_iso)) \<Rightarrow>
          (case datetime_diff hi lo of
             None \<Rightarrow> (Inl TypeError, p)
           | Some width \<Rightarrow>
               if width > days MAX_WINDOW_DAYS then (Inl RangeTooWideError, p)
               else if limit > MAX_LIMIT then
                 (Inl (AuditValidationFailedError [\<lparr>fe_field = ''limit'',
                    fe_message = ''limit must be at most 100.'', fe_code = ''max''\<rparr>]), p)
               else (case repo_list_audit_logs L ids actor_id_filter event target_id lo hi cursor limit (database p) of
                  Inl e \<Rightarrow> (Inl e, p)
                | Inr None \<Rightarrow> (Inl (AuditValidationFailedError [\<lparr>fe_field = ''cursor'',
                    fe_message = ''Invalid cursor.'', fe_code = ''invalid''\<rparr>]), p)
                | Inr (Some (items, next_cursor)) \<Rightarrow>
                    (case record_self_audit L rq (rq_uuid rq 0) actor_id (resolve_actor_role actor_id (database p))
                        (JObj [(''actor_id'', json_opt (map_option uuid_str actor_id_filter)),
                               (''event'', json_opt event),
                               (''target_id'', json_opt (map_option uuid_str target_id)),
                               (''from'', JStr lo_iso), (''to'', JStr hi_iso),
                               (''cursor'', json_opt cursor), (''limit'', JInt limit)]) (database p) of
                       Inl e \<Rightarrow> (Inl (DatabaseError e), p)
                     | Inr d \<Rightarrow> (Inr (map to_entry items, next_cursor), p\<lparr>database := d\<rparr>))))
      | _ \<Rightarrow> (Inl RangeTooWideError, p))"

definition record_access_denied :: "libs \<Rightarrow> request \<Rightarrow> uuid \<Rightarrow> portal \<Rightarrow> unit outcome \<times> portal" where
  "record_access_denied L rq actor_id p =
     (case repo_record_access_denied L rq (rq_uuid rq 0) actor_id (resolve_actor_role actor_id (database p)) (database p) of
        Inl e \<Rightarrow> (Inl (DatabaseError e), p)
      | Inr d \<Rightarrow> (Inr (), p\<lparr>database := d\<rparr>))"

text \<open>The service method other modules call inside their own transaction.\<close>

definition record_event ::
  "libs \<Rightarrow> request \<Rightarrow> uuid \<Rightarrow> string \<Rightarrow> string \<Rightarrow> uuid \<Rightarrow> uuid option \<Rightarrow> string option \<Rightarrow> json option \<Rightarrow> db \<Rightarrow> sql_error + db" where
  "record_event L rq row_id category event actor_id target_id outc payload d =
     repo_record_event L rq row_id category (Some actor_id) (resolve_actor_role actor_id d) event target_id
       outc None None None payload d"

text \<open>\<open>require_audit_read\<close> (\<open>dependencies.py\<close>): a denial is recorded before it is answered.\<close>

definition require_audit_read :: "libs \<Rightarrow> request \<Rightarrow> uuid \<times> string list \<Rightarrow> portal \<Rightarrow> unit outcome \<times> portal" where
  "require_audit_read L rq user p =
     (case require_scope ''audit:read'' (snd user) of
        Inr _ \<Rightarrow> (Inr (), p)
      | Inl e \<Rightarrow> (case record_access_denied L rq (fst user) p of
            (Inl e', p') \<Rightarrow> (Inl e', p')
          | (Inr _, p') \<Rightarrow> (Inl e, p')))"

section \<open>The verifier\<close>

record chain_row =
  cr_id :: uuid
  cr_occurred_at :: datetime
  cr_event :: string
  cr_previous_hash :: string
  cr_row_hash :: string
  cr_expected_row_hash :: string

record chain_break =
  cb_id :: uuid
  cb_occurred_at :: datetime
  cb_event :: string
  cb_reason :: string

definition break_at :: "chain_row \<Rightarrow> string \<Rightarrow> chain_break" where
  "break_at row reason = \<lparr>cb_id = cr_id row, cb_occurred_at = cr_occurred_at row, cb_event = cr_event row,
     cb_reason = reason\<rparr>"

fun verify_from :: "string \<Rightarrow> chain_row list \<Rightarrow> chain_break option" where
  "verify_from expected_previous_hash [] = None"
| "verify_from expected_previous_hash (row # rows) =
     (if cr_previous_hash row \<noteq> expected_previous_hash then Some (break_at row ''previous_hash_mismatch'')
      else if cr_row_hash row \<noteq> cr_expected_row_hash row then Some (break_at row ''row_hash_mismatch'')
      else verify_from (cr_row_hash row) rows)"

definition verify_chain :: "libs \<Rightarrow> chain_row list \<Rightarrow> chain_break option" where
  "verify_chain L rows = verify_from (GENESIS_SENTINEL L) rows"

definition to_chain_row :: "libs \<Rightarrow> audit_log \<Rightarrow> chain_row" where
  "to_chain_row L r = \<lparr>cr_id = al_id r, cr_occurred_at = al_occurred_at r, cr_event = al_event r,
     cr_previous_hash = al_previous_hash r, cr_row_hash = al_row_hash r,
     cr_expected_row_hash = audit_log_row_hash L (al_previous_hash r) (al_occurred_at r) (al_actor_id r)
       (al_event r) (al_target_id r) (al_payload r)\<rparr>"

definition fetch_chain :: "libs \<Rightarrow> db \<Rightarrow> chain_row list" where
  "fetch_chain L d = map (to_chain_row L) (order_rows False audit_pos (audit_logs d))"

definition verify_audit_chain :: "libs \<Rightarrow> db \<Rightarrow> int" where
  "verify_audit_chain L d = (case verify_chain L (fetch_chain L d) of None \<Rightarrow> 0 | Some _ \<Rightarrow> 1)"

section \<open>Integrity of the chain\<close>

definition tail_hash :: "string \<Rightarrow> chain_row list \<Rightarrow> string" where
  "tail_hash e rows = (if rows = [] then e else cr_row_hash (last rows))"

lemma verify_from_append:
  "verify_from e (xs @ ys) = (case verify_from e xs of None \<Rightarrow> verify_from (tail_hash e xs) ys | Some b \<Rightarrow> Some b)"
proof (induction xs arbitrary: e)
  case (Cons x xs)
  have "tail_hash e (x # xs) = tail_hash (cr_row_hash x) xs" by (simp add: tail_hash_def)
  then show ?case
    by (cases "cr_row_hash x = cr_expected_row_hash x"; cases "cr_previous_hash x = e") (simp_all add: Cons.IH split: option.splits)
qed (simp add: tail_hash_def)

text \<open>The primary key, and a chain the verifier accepts.\<close>

definition audit_intact :: "libs \<Rightarrow> db \<Rightarrow> bool" where
  "audit_intact L d \<longleftrightarrow> distinct (map audit_pos (audit_logs d)) \<and> verify_audit_chain L d = 0"

lemma verify_audit_chain_0: "verify_audit_chain L d = 0 \<longleftrightarrow> verify_chain L (fetch_chain L d) = None"
  by (simp add: verify_audit_chain_def split: option.splits)

abbreviation chain_rows :: "db \<Rightarrow> audit_log list" where
  "chain_rows d \<equiv> order_rows False audit_pos (audit_logs d)"

lemma chain_seed:
  "al_previous_hash (audit_log_hash_chain L (audit_logs d) row) = tail_hash (GENESIS_SENTINEL L) (fetch_chain L d)"
proof -
  have "order_rows True audit_pos (audit_logs d) = rev (chain_rows d)" by (simp add: order_rows_def)
  then show ?thesis
    by (cases "chain_rows d" rule: rev_cases)
      (simp_all add: audit_log_hash_chain_def Let_def tail_hash_def fetch_chain_def to_chain_row_def)
qed

lemma hashed_row:
  "cr_row_hash (to_chain_row L (audit_log_hash_chain L rows row))
    = cr_expected_row_hash (to_chain_row L (audit_log_hash_chain L rows row))"
  by (simp add: audit_log_hash_chain_def to_chain_row_def Let_def)

lemma audit_pos_hash_chain [simp]: "audit_pos (audit_log_hash_chain L rows row) = audit_pos row"
  by (simp add: audit_log_hash_chain_def audit_pos_def Let_def)

lemma hash_chain_keeps [simp]:
  "al_event (audit_log_hash_chain L rows row) = al_event row"
  "al_actor_id (audit_log_hash_chain L rows row) = al_actor_id row"
  "al_occurred_at (audit_log_hash_chain L rows row) = al_occurred_at row"
  "al_target_id (audit_log_hash_chain L rows row) = al_target_id row"
  "al_outcome (audit_log_hash_chain L rows row) = al_outcome row"
  by (simp_all add: audit_log_hash_chain_def Let_def)

lemma order_rows_insert:
  assumes "distinct (map pos (rows @ [x]))" and "order_rows False pos rows = xs @ ys"
    and "\<And>r. r \<in> set xs \<Longrightarrow> pos r < pos x" and "\<And>r. r \<in> set ys \<Longrightarrow> pos x < pos r"
  shows "order_rows False pos (rows @ [x]) = xs @ x # ys"
proof -
  have "sort_key pos (rows @ [x]) = xs @ x # ys"
  proof (rule sort_key_inj_key_eq)
    have "mset (xs @ ys) = mset rows" using assms(2) by (metis mset_sort order_rows_def)
    then show "mset (rows @ [x]) = mset (xs @ x # ys)" by simp
    show "inj_on pos (set (rows @ [x]))" using assms(1) by (metis distinct_map)
    have "sorted (map pos (xs @ ys))" using assms(2) by (metis order_rows_def sorted_sort_key)
    then show "sorted (map pos (xs @ x # ys))"
      using assms(3,4) by (auto simp: sorted_append less_imp_le)
  qed
  then show ?thesis by (simp add: order_rows_def)
qed

lemma insert_audit_log_InrD:
  assumes "insert_audit_log L row d = Inr d'"
  shows "d' = d\<lparr>audit_logs := audit_logs d @ [audit_log_hash_chain L (audit_logs d) row]\<rparr>"
    and "audit_pos row \<notin> audit_pos ` set (audit_logs d)"
  using assms by (auto simp: insert_audit_log_def split: if_splits)

lemma insert_audit_log_rowE:
  assumes "insert_audit_log L row d = Inr d'"
  obtains row' where "d' = d\<lparr>audit_logs := audit_logs d @ [row']\<rparr>" and "al_event row' = al_event row"
    and "al_actor_id row' = al_actor_id row" and "al_occurred_at row' = al_occurred_at row"
    and "al_target_id row' = al_target_id row" and "al_outcome row' = al_outcome row"
  using insert_audit_log_InrD(1) [OF assms] hash_chain_keeps by blast

lemma insert_audit_log_frame:
  "insert_audit_log L row d = Inr d' \<Longrightarrow> d' = d\<lparr>audit_logs := audit_logs d'\<rparr>"
  by (drule insert_audit_log_InrD(1)) simp

lemma insert_audit_log_order:
  assumes "insert_audit_log L row d = Inr d'" and "distinct (map audit_pos (audit_logs d))"
    and "chain_rows d = xs @ ys" and "\<And>r. r \<in> set xs \<Longrightarrow> audit_pos r < audit_pos row"
    and "\<And>r. r \<in> set ys \<Longrightarrow> audit_pos row < audit_pos r"
  shows "chain_rows d' = xs @ audit_log_hash_chain L (audit_logs d) row # ys"
    and "distinct (map audit_pos (audit_logs d'))"
proof -
  note I = insert_audit_log_InrD [OF assms(1)]
  have dist: "distinct (map audit_pos (audit_logs d @ [audit_log_hash_chain L (audit_logs d) row]))"
    using assms(2) I(2) by auto
  then show "distinct (map audit_pos (audit_logs d'))" by (simp add: I(1))
  show "chain_rows d' = xs @ audit_log_hash_chain L (audit_logs d) row # ys"
    using order_rows_insert [OF dist assms(3)] assms(4,5) by (simp add: I(1))
qed

lemma intact_insert:
  assumes "insert_audit_log L row d = Inr d'" and "audit_intact L d"
    and "\<And>r. r \<in> set (audit_logs d) \<Longrightarrow> audit_pos r < audit_pos row"
  shows "audit_intact L d'"
proof -
  let ?new = "audit_log_hash_chain L (audit_logs d) row"
  have "distinct (map audit_pos (audit_logs d))" using assms(2) by (simp add: audit_intact_def)
  note I = insert_audit_log_order [OF assms(1) this, of "chain_rows d" "[]"]
  have "fetch_chain L d' = fetch_chain L d @ [to_chain_row L ?new]"
    using I(1) assms(3) by (simp add: fetch_chain_def)
  moreover have "cr_previous_hash (to_chain_row L ?new) = tail_hash (GENESIS_SENTINEL L) (fetch_chain L d)"
    by (simp add: to_chain_row_def chain_seed)
  moreover have "verify_chain L (fetch_chain L d) = None"
    using assms(2) by (simp add: audit_intact_def verify_audit_chain_0)
  ultimately have "verify_chain L (fetch_chain L d') = None"
    by (simp add: verify_chain_def verify_from_append hashed_row)
  then show ?thesis using I(2) assms(3) by (simp add: audit_intact_def verify_audit_chain_0)
qed

lemma sorted_dropWhile:
  "sorted (map pos xs) \<Longrightarrow> r \<in> set (dropWhile (\<lambda>r. pos r < x) xs) \<Longrightarrow> x \<le> pos r"
  by (induction xs) (fastforce split: if_splits)+

lemma split_order:
  assumes "distinct (map pos rows)" and "x \<notin> pos ` set rows"
  obtains xs ys where "order_rows False pos rows = xs @ ys" and "\<And>r. r \<in> set xs \<Longrightarrow> pos r < x"
    and "\<And>r. r \<in> set ys \<Longrightarrow> x < pos r"
proof
  let ?o = "order_rows False pos rows"
  show "?o = takeWhile (\<lambda>r. pos r < x) ?o @ dropWhile (\<lambda>r. pos r < x) ?o" by simp
  show "pos r < x" if "r \<in> set (takeWhile (\<lambda>r. pos r < x) ?o)" for r using that by (blast dest: set_takeWhileD)
  have "sorted (map pos ?o)" by (simp add: order_rows_def)
  then have "x \<le> pos r" if "r \<in> set (dropWhile (\<lambda>r. pos r < x) ?o)" for r
    using that by (rule sorted_dropWhile)
  moreover have "pos r \<noteq> x" if "r \<in> set (dropWhile (\<lambda>r. pos r < x) ?o)" for r
    using that assms(2) by (metis image_eqI set_dropWhileD set_order_rows)
  ultimately show "x < pos r" if "r \<in> set (dropWhile (\<lambda>r. pos r < x) ?o)" for r using that by fastforce
qed

text \<open>The reads of an entry that do not enter its hash or its place.\<close>

lemma fetch_chain_split:
  assumes "chain_rows d = xs @ r # ys"
  shows "fetch_chain L d = map (to_chain_row L) xs @ to_chain_row L r # map (to_chain_row L) ys"
  using assms by (simp add: fetch_chain_def)

lemma order_rows_map:
  assumes "\<And>x. pos (h x) = pos x"
  shows "order_rows d pos (map h rows) = map h (order_rows d pos rows)"
proof -
  have i: "insort_key pos (h x) (map h xs) = map h (insort_key pos x xs)" for x xs
    by (induction xs) (simp_all add: assms)
  have "sort_key pos (map h rows) = map h (sort_key pos rows)"
    unfolding sort_key_def by (induction rows) (simp_all add: i)
  then show ?thesis by (simp add: order_rows_def rev_map)
qed

text \<open>Where a verified chain is cut in front of a row, the rows before it verify and the row's own
  hashes match.\<close>

lemma verified_at:
  assumes "verify_chain L (fetch_chain L d) = None" and "chain_rows d = xs @ r # ys"
  shows "verify_from (GENESIS_SENTINEL L) (map (to_chain_row L) xs) = None"
    and "al_previous_hash r = tail_hash (GENESIS_SENTINEL L) (map (to_chain_row L) xs)"
    and "cr_row_hash (to_chain_row L r) = cr_expected_row_hash (to_chain_row L r)"
    and "verify_from (al_row_hash r) (map (to_chain_row L) ys) = None"
  using assms(1) by (auto simp: verify_chain_def fetch_chain_split [OF assms(2)] verify_from_append to_chain_row_def
      split: option.splits if_splits)

text \<open>Editing a row in place: \<open>same_place f\<close> says that \<open>f\<close> keeps the identity, the instant and the
  stored hashes of a row.\<close>

definition same_place :: "(audit_log \<Rightarrow> audit_log) \<Rightarrow> bool" where
  "same_place f \<longleftrightarrow> (\<forall>r. al_id (f r) = al_id r \<and> al_occurred_at (f r) = al_occurred_at r
     \<and> al_previous_hash (f r) = al_previous_hash r \<and> al_row_hash (f r) = al_row_hash r)"

definition edit_audit_row :: "uuid \<Rightarrow> (audit_log \<Rightarrow> audit_log) \<Rightarrow> db \<Rightarrow> db" where
  "edit_audit_row i f d = d\<lparr>audit_logs := update_rows (\<lambda>r. al_id r = i) f (audit_logs d)\<rparr>"

definition delete_audit_row :: "uuid \<Rightarrow> db \<Rightarrow> db" where
  "delete_audit_row i d = d\<lparr>audit_logs := delete_rows (\<lambda>r. al_id r = i) (audit_logs d)\<rparr>"

lemma distinct_key_other:
  assumes "distinct (map key (xs @ r # ys))" and "x \<in> set xs \<union> set ys"
  shows "key x \<noteq> key r"
  using assms by auto (metis image_eqI)+

lemma update_rows_split:
  assumes "distinct (map key (xs @ r # ys))"
  shows "update_rows (\<lambda>x. key x = key r) f (xs @ r # ys) = xs @ f r # ys"
proof -
  have "key x \<noteq> key r" if "x \<in> set xs \<union> set ys" for x
    using distinct_key_other [OF assms] that by blast
  then have "update_rows (\<lambda>x. key x = key r) f xs = xs" "update_rows (\<lambda>x. key x = key r) f ys = ys"
    by (auto intro!: update_rows_no_match)
  then show ?thesis by simp
qed

lemma delete_rows_split:
  assumes "distinct (map key (xs @ r # ys))"
  shows "delete_rows (\<lambda>x. key x = key r) (xs @ r # ys) = xs @ ys"
proof -
  have "key x \<noteq> key r" if "x \<in> set xs \<union> set ys" for x
    using distinct_key_other [OF assms] that by blast
  then have "filter (\<lambda>x. key x \<noteq> key r) xs = xs" "filter (\<lambda>x. key x \<noteq> key r) ys = ys"
    by (auto simp: filter_id_conv)
  then show ?thesis by (simp add: delete_rows_def)
qed

lemma distinct_order_key: "distinct (map key (order_rows d pos rows)) \<longleftrightarrow> distinct (map key rows)"
proof -
  have "mset (order_rows d pos rows) = mset rows" by (simp add: order_rows_def)
  then have "mset (map key (order_rows d pos rows)) = mset (map key rows)" by (metis mset_map)
  then show ?thesis by (rule mset_eq_imp_distinct_iff)
qed

text \<open>A row that is written late breaks the chain without any tampering: when the position of a new
  row is not beyond all existing ones (a second row of the same transaction with a smaller random
  identifier, or a transaction that began earlier and inserts later), the verifier reports the new
  row itself.\<close>

lemma late_audit_row_breaks_chain:
  assumes "record_event L rq row_id category event actor_id target_id outc payload d = Inr d'"
    and "audit_intact L d" and "distinct (GENESIS_SENTINEL L # map al_row_hash (audit_logs d))"
    and "r \<in> set (audit_logs d)" and "(rq_db_now rq, row_id) < audit_pos r"
  shows "verify_chain L (fetch_chain L d')
    = Some \<lparr>cb_id = row_id, cb_occurred_at = rq_db_now rq, cb_event = event, cb_reason = ''previous_hash_mismatch''\<rparr>"
proof -
  obtain row where I: "insert_audit_log L row d = Inr d'" and row: "audit_pos row = (rq_db_now rq, row_id)" "al_event row = event"
    using assms(1) by (auto simp: record_event_def repo_record_event_def audit_pos_def)
  let ?new = "audit_log_hash_chain L (audit_logs d) row"
  have pk: "distinct (map audit_pos (audit_logs d))" using assms(2) by (simp add: audit_intact_def)
  obtain xs ys where s: "chain_rows d = xs @ ys" "\<And>r. r \<in> set xs \<Longrightarrow> audit_pos r < audit_pos row"
      "\<And>r. r \<in> set ys \<Longrightarrow> audit_pos row < audit_pos r"
    using split_order [OF pk insert_audit_log_InrD(2) [OF I]] by metis
  have "r \<in> set ys"
    using s assms(4,5) row(1) by (metis Un_iff order.asym set_append set_order_rows)
  then obtain y zs where ys: "ys = y # zs" by (cases ys) auto
  have v: "verify_chain L (fetch_chain L d) = None" using assms(2) by (simp add: audit_intact_def verify_audit_chain_0)
  note V = verified_at [OF v s(1) [unfolded ys]]
  have h: "distinct (GENESIS_SENTINEL L # map al_row_hash (xs @ ys))"
    using assms(3) s(1) distinct_order_key [of al_row_hash False audit_pos "audit_logs d"] set_order_rows
    by (metis distinct.simps(2) set_map)
  have last: "tail_hash (GENESIS_SENTINEL L) (fetch_chain L d) = al_row_hash (last ys)"
    using s(1) ys by (simp add: tail_hash_def fetch_chain_def last_map to_chain_row_def)
  moreover have "tail_hash (GENESIS_SENTINEL L) (map (to_chain_row L) xs) \<noteq> al_row_hash (last ys)"
    using h ys last_in_set [of ys] by (cases xs rule: rev_cases) (force simp: tail_hash_def to_chain_row_def)+
  moreover have "chain_rows d' = xs @ ?new # ys" by (rule insert_audit_log_order(1) [OF I pk s]) auto
  moreover have "al_id ?new = row_id" "al_occurred_at ?new = rq_db_now rq" "al_event ?new = event"
    using row by (simp_all add: audit_log_hash_chain_def audit_pos_def Let_def)
  ultimately show ?thesis
    using V(1) by (simp add: fetch_chain_split verify_chain_def verify_from_append to_chain_row_def chain_seed break_at_def)
qed

text \<open>C15. Which entries keep the chain intact: an entry that \<open>record_event\<close> adds to an intact table is
  accepted by the verifier exactly if its position \<open>(occurred_at, id)\<close> lies beyond every row of the
  table. Otherwise (a second row of the same transaction with a smaller random identifier, or a
  transaction that began earlier and inserts later) the verifier reports the new entry itself, although
  nobody has tampered with the table. In both cases one row is added and the old rows stay as they are.\<close>

theorem audit_append_keeps_chain:
  assumes "record_event L rq row_id category event actor_id target_id outc payload d = Inr d'"
    and "audit_intact L d" and "distinct (GENESIS_SENTINEL L # map al_row_hash (audit_logs d))"
  shows "(\<exists>row. audit_logs d' = audit_logs d @ [row] \<and> audit_pos row = (rq_db_now rq, row_id))
    \<and> verify_chain L (fetch_chain L d')
        = (if list_all (\<lambda>r. audit_pos r < (rq_db_now rq, row_id)) (audit_logs d) then None
           else Some \<lparr>cb_id = row_id, cb_occurred_at = rq_db_now rq, cb_event = event, cb_reason = ''previous_hash_mismatch''\<rparr>)"
proof -
  note I = assms(1) [unfolded record_event_def repo_record_event_def]
  have new: "\<exists>row. audit_logs d' = audit_logs d @ [row] \<and> audit_pos row = (rq_db_now rq, row_id)"
    by (simp add: insert_audit_log_InrD(1) [OF I]) (simp add: audit_pos_def)
  show ?thesis
  proof (cases "list_all (\<lambda>r. audit_pos r < (rq_db_now rq, row_id)) (audit_logs d)")
    case True
    have "audit_intact L d'" by (rule intact_insert [OF I assms(2)]) (use True in \<open>simp add: audit_pos_def list_all_iff\<close>)
    with True new show ?thesis by (simp add: audit_intact_def verify_audit_chain_0)
  next
    case False
    then obtain r where r: "r \<in> set (audit_logs d)" "\<not> audit_pos r < (rq_db_now rq, row_id)" by (auto simp: list_all_iff)
    moreover have "(rq_db_now rq, row_id) \<notin> audit_pos ` set (audit_logs d)"
      using insert_audit_log_InrD(2) [OF I] by (simp add: audit_pos_def)
    ultimately have "(rq_db_now rq, row_id) < audit_pos r" by (metis image_eqI linorder_neqE)
    from late_audit_row_breaks_chain [OF assms r(1) this] False new show ?thesis by simp
  qed
qed

definition opt_uuid_text :: "uuid option \<Rightarrow> string" where
  "opt_uuid_text v = (case v of None \<Rightarrow> [] | Some a \<Rightarrow> uuid_str a)"

lemma opt_uuid_text_inj: "opt_uuid_text v = opt_uuid_text w \<longleftrightarrow> v = w"
proof -
  have "uuid_str u \<noteq> []" for u by (metis length_uuid_str list.size(3) zero_neq_numeral)
  then show ?thesis by (auto simp: opt_uuid_text_def split: option.splits) metis
qed

lemma opt_uuid_text_bar: "CHR ''|'' \<notin> set (opt_uuid_text v)"
  using uuid_str_plain by (fastforce simp: opt_uuid_text_def split: option.splits)

text \<open>The hashed text of a row fixes its actor, event, target and payload, as long as the event names
  contain no bar.\<close>

lemma audit_log_text_fields:
  assumes "CHR ''|'' \<notin> set e" and "CHR ''|'' \<notin> set e'"
  shows "audit_log_text L h t a e g j = audit_log_text L h t a' e' g' j'
    \<longleftrightarrow> a = a' \<and> e = e' \<and> g = g' \<and> payload_text L j = payload_text L j'"
proof -
  have T: "audit_log_text L h t a e g j = h @ ''|'' @ timestamptz_text L t @ ''|''
      @ opt_uuid_text a @ CHR ''|'' # e @ CHR ''|'' # opt_uuid_text g @ CHR ''|'' # payload_text L j" for a e g j
    by (simp add: audit_log_text_def opt_uuid_text_def)
  show ?thesis
    unfolding T by (simp add: append_cut opt_uuid_text_bar opt_uuid_text_inj assms)
qed

text \<open>C16. Which edits of an entry are detected: editing an entry in place (its identity, instant and stored
  hashes stay) makes the verifier stop at exactly that entry with a row-hash mismatch if the actor, the
  event, the target or the payload has changed. An edit that changes none of the four, only the
  category, the actor's role, the outcome, the request identifier, the address or the user agent, is not
  reported: these columns are not hashed. The assumptions are that the event names contain no bar and
  that SHA-256 does not collide on the texts of the row before and after the edit.\<close>

theorem audit_edit_is_detected:
  assumes "audit_intact L d" and "distinct (map al_id (audit_logs d))" and "r \<in> set (audit_logs d)"
    and "same_place f" and "CHR ''|'' \<notin> set (al_event r) \<union> set (al_event (f r))"
    and "inj_on (sha256_hex L) ((\<lambda>x. audit_log_text L (al_previous_hash r) (al_occurred_at r) (al_actor_id x)
      (al_event x) (al_target_id x) (al_payload x)) ` {r, f r})"
  shows "verify_chain L (fetch_chain L (edit_audit_row (al_id r) f d))
    = (if al_actor_id (f r) = al_actor_id r \<and> al_event (f r) = al_event r \<and> al_target_id (f r) = al_target_id r
         \<and> payload_text L (al_payload (f r)) = payload_text L (al_payload r) then None
       else Some (break_at (to_chain_row L (f r)) ''row_hash_mismatch''))"
proof -
  obtain xs ys where o: "chain_rows d = xs @ r # ys" using assms(3) by (metis set_order_rows split_list)
  have v: "verify_chain L (fetch_chain L d) = None" using assms(1) by (simp add: audit_intact_def verify_audit_chain_0)
  note V = verified_at [OF v o]
  have place: "al_id (f x) = al_id x" "al_occurred_at (f x) = al_occurred_at x"
      "al_previous_hash (f x) = al_previous_hash x" "al_row_hash (f x) = al_row_hash x" for x
    using assms(4) by (simp_all add: same_place_def)
  have pos: "audit_pos (if al_id x = al_id r then f x else x) = audit_pos x" for x
    by (simp add: place audit_pos_def)
  have dist: "distinct (map al_id (xs @ r # ys))" using assms(2) o by (metis distinct_order_key)
  have "chain_rows (edit_audit_row (al_id r) f d) = update_rows (\<lambda>x. al_id x = al_id r) f (chain_rows d)"
    using order_rows_map [of audit_pos "\<lambda>x. if al_id x = al_id r then f x else x", OF pos]
    by (simp add: edit_audit_row_def update_rows_def)
  then have o': "chain_rows (edit_audit_row (al_id r) f d) = xs @ f r # ys"
    using update_rows_split [OF dist] o by simp
  have h: "cr_expected_row_hash (to_chain_row L (f r)) = cr_expected_row_hash (to_chain_row L r)
      \<longleftrightarrow> al_actor_id (f r) = al_actor_id r \<and> al_event (f r) = al_event r \<and> al_target_id (f r) = al_target_id r
         \<and> payload_text L (al_payload (f r)) = payload_text L (al_payload r)"
    using assms(5) audit_log_text_fields [of "al_event (f r)" "al_event r"] inj_on_eq_iff [OF assms(6)]
    by (simp add: to_chain_row_def audit_log_row_hash_def place)
  have p: "cr_previous_hash (to_chain_row L (f r)) = tail_hash (GENESIS_SENTINEL L) (map (to_chain_row L) xs)"
      "cr_row_hash (to_chain_row L (f r)) = cr_row_hash (to_chain_row L r)"
      "cr_row_hash (to_chain_row L (f r)) = al_row_hash r"
    using V(2) by (simp_all add: to_chain_row_def place)
  show ?thesis
    unfolding h [symmetric] verify_chain_def fetch_chain_split [OF o'] verify_from_append V(1) option.case verify_from.simps
    using p V(3,4) by (cases "cr_expected_row_hash (to_chain_row L (f r)) = cr_expected_row_hash (to_chain_row L r)") simp_all
qed

text \<open>C17. Deleting any entry but the last is detected at its successor, provided no two rows share a
  hash; deleting the last entry leaves a chain the verifier accepts.\<close>

theorem audit_deletion_is_detected:
  assumes "audit_intact L d" and "distinct (map al_id (audit_logs d))"
    and "distinct (GENESIS_SENTINEL L # map al_row_hash (audit_logs d))"
    and "order_rows False audit_pos (audit_logs d) = xs @ r # ys"
  shows "verify_chain L (fetch_chain L (delete_audit_row (al_id r) d))
    = (case ys of [] \<Rightarrow> None | s # _ \<Rightarrow> Some (break_at (to_chain_row L s) ''previous_hash_mismatch''))"
proof -
  have v: "verify_chain L (fetch_chain L d) = None" using assms(1) by (simp add: audit_intact_def verify_audit_chain_0)
  note V = verified_at [OF v assms(4)]
  have dist: "distinct (map al_id (xs @ r # ys))" using assms(2,4) by (metis distinct_order_key)
  have "chain_rows (delete_audit_row (al_id r) d) = delete_rows (\<lambda>x. al_id x = al_id r) (chain_rows d)"
    by (simp add: delete_audit_row_def delete_rows_def order_rows_filter)
  then have o: "chain_rows (delete_audit_row (al_id r) d) = xs @ ys"
    using delete_rows_split [OF dist] assms(4) by simp
  let ?xs = "map (to_chain_row L) xs"
  have h: "distinct (GENESIS_SENTINEL L # map al_row_hash (xs @ r # ys))"
    using assms(3,4) distinct_order_key [of al_row_hash False audit_pos "audit_logs d"] set_order_rows
    by (metis distinct.simps(2) set_map)
  have t: "tail_hash (GENESIS_SENTINEL L) ?xs \<noteq> al_row_hash r"
    using h by (cases xs rule: rev_cases) (auto simp: tail_hash_def to_chain_row_def)
  have "al_previous_hash s = al_row_hash r" if "ys = s # zs" for s zs
    using V(4) that by (auto simp: to_chain_row_def split: if_splits)
  with V(1) t show ?thesis
    by (cases ys) (auto simp: verify_chain_def fetch_chain_def o verify_from_append to_chain_row_def)
qed

section \<open>Listing and denial\<close>

text \<open>Every answer of the audit-log listing is accounted for: on success exactly one entry
  \<open>audit_log_viewed\<close> of the caller, carrying the filters, has been appended, and the page holds only
  entries of the requested window (at most ninety days wide) that match the filters; on failure the
  database is unchanged.\<close>

theorem list_audit_logs_spec:
  "case list_audit_logs L ids rq actor_id actor_filter event target_id window_from window_to cursor limit p of
     (Inl e, p') \<Rightarrow> p' = p
   | (Inr (entries, next), p') \<Rightarrow>
       (\<exists>lo lo_iso hi hi_iso a b row.
          window_from = Some (lo, lo_iso) \<and> window_to = Some (hi, hi_iso)
        \<and> to_timestamptz L lo = Some a \<and> to_timestamptz L hi = Some b
        \<and> set entries \<subseteq> to_entry ` set (selected_history actor_filter event target_id a b (audit_log_history ids (database p)))
        \<and> (\<exists>w. datetime_diff hi lo = Some w \<and> w \<le> days 90) \<and> limit \<le> 100
        \<and> p' = p\<lparr>database := (database p)\<lparr>audit_logs := audit_logs (database p) @ [row]\<rparr>\<rparr>
        \<and> al_event row = ''audit_log_viewed'' \<and> al_actor_id row = Some actor_id \<and> al_occurred_at row = rq_db_now rq)"
proof (cases "list_audit_logs L ids rq actor_id actor_filter event target_id window_from window_to cursor limit p")
  case (Pair r p')
  show ?thesis
  proof (cases r)
    case (Inl e)
    with Pair show ?thesis
      by (auto simp: list_audit_logs_def split: option.splits prod.splits if_splits sum.splits)
  next
    case (Inr res)
    obtain entries "next" where res: "res = (entries, next)" by (cases res)
    from Pair Inr res obtain lo lo_iso hi hi_iso w items payload d where
      w: "window_from = Some (lo, lo_iso)" "window_to = Some (hi, hi_iso)" "datetime_diff hi lo = Some w"
        "\<not> w > days MAX_WINDOW_DAYS" "\<not> limit > MAX_LIMIT"
      and page: "repo_list_audit_logs L ids actor_filter event target_id lo hi cursor limit (database p) = Inr (Some (items, next))"
      and rec: "record_self_audit L rq (rq_uuid rq 0) actor_id (resolve_actor_role actor_id (database p)) payload (database p) = Inr d"
      and out: "entries = map to_entry items" "p' = p\<lparr>database := d\<rparr>"
      by (auto simp: list_audit_logs_def split: option.splits prod.splits if_splits sum.splits)
    from page obtain a b where ab: "to_timestamptz L lo = Some a" "to_timestamptz L hi = Some b"
      and k: "keyset_page L True history_pos cursor limit
        (selected_history actor_filter event target_id a b (audit_log_history ids (database p))) = Inr (Some (items, next))"
      by (auto simp: repo_list_audit_logs_def split: option.splits if_splits)
    obtain row where row: "d = (database p)\<lparr>audit_logs := audit_logs (database p) @ [row]\<rparr>"
        "al_event row = ''audit_log_viewed''" "al_actor_id row = Some actor_id" "al_occurred_at row = rq_db_now rq"
      by (rule insert_audit_log_rowE [OF rec [unfolded record_self_audit_def]]) simp
    from keyset_page_items(1) [OF k] out(1)
    have "set entries \<subseteq> to_entry ` set (selected_history actor_filter event target_id a b (audit_log_history ids (database p)))"
      by auto
    moreover have "p' = p\<lparr>database := (database p)\<lparr>audit_logs := audit_logs (database p) @ [row]\<rparr>\<rparr>"
      using out(2) row(1) by simp
    moreover have "w \<le> days 90" "limit \<le> 100" using w by (simp_all add: MAX_WINDOW_DAYS_def MAX_LIMIT_def)
    ultimately show ?thesis
      unfolding Pair Inr res prod.case sum.case using w(1-3) ab row(2-4) by blast
  qed
qed

text \<open>A caller without \<open>audit:read\<close> is refused, and the refusal is on record.\<close>

lemma denied_audit_read:
  assumes "''audit:read'' \<notin> set scopes" and "require_audit_read L rq (actor_id, scopes) p = (Inl InsufficientPermissionError, p')"
  obtains row where "database p' = (database p)\<lparr>audit_logs := audit_logs (database p) @ [row]\<rparr>"
    and "al_event row = ''audit_log_access_denied''" and "al_actor_id row = Some actor_id" and "al_outcome row = Some ''denied''"
proof -
  obtain d where d: "repo_record_access_denied L rq (rq_uuid rq 0) actor_id
      (resolve_actor_role actor_id (database p)) (database p) = Inr d" and p': "p' = p\<lparr>database := d\<rparr>"
    using assms by (cases "repo_record_access_denied L rq (rq_uuid rq 0) actor_id
        (resolve_actor_role actor_id (database p)) (database p)")
      (simp_all add: require_audit_read_def require_scope_def record_access_denied_def)
  show thesis
    by (rule insert_audit_log_rowE [OF d [unfolded repo_record_access_denied_def]]) (rule that, simp_all add: p')
qed

lemma audit_read_refused:
  "''audit:read'' \<notin> set scopes \<Longrightarrow> \<exists>e. fst (require_audit_read L rq (actor_id, scopes) p) = Inl e"
  by (cases "repo_record_access_denied L rq (rq_uuid rq 0) actor_id (resolve_actor_role actor_id (database p)) (database p)")
    (simp_all add: require_audit_read_def require_scope_def record_access_denied_def)

text \<open>The comma-joined role names of an actor may not fit the column.\<close>

lemma long_actor_role_fails:
  assumes "resolve_actor_role actor_id d = Some s" and "32 < length s"
  shows "record_event L rq row_id category event actor_id target_id outc payload d = Inl DataError"
  using assms by (simp add: record_event_def repo_record_event_def insert_audit_log_def fits_def)

lemma four_roles_too_long: "32 < length (join_with '','' [''admin'', ''auditor'', ''customer'', ''support_agent''])"
  by (simp add: join_with_def)

section \<open>A small log\<close>

definition log_event :: "datetime \<Rightarrow> uuid \<Rightarrow> db \<Rightarrow> db" where
  "log_event t i d = (case record_event zero_libs (sample_request\<lparr>rq_db_now := t\<rparr>) i ''tickets'' ''ticket_closed''
     7 None None None d of Inr d' \<Rightarrow> d' | Inl _ \<Rightarrow> d)"

definition two_events :: db where
  "two_events = log_event 3 20 (log_event 1 10 empty_db)"

lemma two_events_intact: "audit_intact zero_libs two_events"
  by code_simp

lemma two_events_hashes: "distinct (GENESIS_SENTINEL zero_libs # map al_row_hash (audit_logs two_events))"
  by code_simp

theorem audit_append_keeps_chain_witness:
  "verify_chain zero_libs (fetch_chain zero_libs (log_event 4 5 two_events)) = None
   \<and> map_option cb_id (verify_chain zero_libs (fetch_chain zero_libs (log_event 3 5 two_events))) = Some 5"
proof -
  have r: "record_event zero_libs (sample_request\<lparr>rq_db_now := t\<rparr>) 5 ''tickets'' ''ticket_closed'' 7 None None None
      two_events = Inr (log_event t 5 two_events)" if "t = 3 \<or> t = 4" for t
    using that by (elim disjE) (simp only:, code_simp)+
  have b: "list_all (\<lambda>r. audit_pos r < (rq_db_now (sample_request\<lparr>rq_db_now := 4\<rparr>), 5)) (audit_logs two_events)"
    by code_simp
  have n: "\<not> list_all (\<lambda>r. audit_pos r < (rq_db_now (sample_request\<lparr>rq_db_now := 3\<rparr>), 5)) (audit_logs two_events)"
    by code_simp
  from audit_append_keeps_chain [OF r two_events_intact two_events_hashes, of 4] b
    audit_append_keeps_chain [OF r two_events_intact two_events_hashes, of 3] n
  show ?thesis by simp
qed

theorem audit_edit_is_detected_witness:
  "map_option cb_id (verify_chain zero_libs (fetch_chain zero_libs
     (edit_audit_row 10 (\<lambda>r. r\<lparr>al_event := ''ticket_reopened''\<rparr>) two_events))) = Some 10
   \<and> verify_chain zero_libs (fetch_chain zero_libs
     (edit_audit_row 10 (\<lambda>r. r\<lparr>al_outcome := Some ''denied'', al_ip := Some ''::1''\<rparr>) two_events)) = None"
proof -
  let ?f = "\<lambda>r. r\<lparr>al_event := ''ticket_reopened''\<rparr>" and ?g = "\<lambda>r. r\<lparr>al_outcome := Some ''denied'', al_ip := Some ''::1''\<rparr>"
  let ?r = "hd (audit_logs two_events)"
  have d: "distinct (map al_id (audit_logs two_events))" by code_simp
  have m: "?r \<in> set (audit_logs two_events)" by code_simp
  have i: "al_id ?r = 10" by code_simp
  have s: "same_place ?f" "same_place ?g" by (simp_all add: same_place_def)
  have e: "al_event ?r = ''ticket_closed''" by code_simp
  have b: "CHR ''|'' \<notin> set (al_event ?r) \<union> set (al_event (?f ?r))" "CHR ''|'' \<notin> set (al_event ?r) \<union> set (al_event (?g ?r))"
    by (simp_all add: e)
  have j: "inj_on (sha256_hex zero_libs) A" for A by (simp add: zero_libs_def inj_on_def)
  from audit_edit_is_detected [OF two_events_intact d m s(1) b(1) j] audit_edit_is_detected [OF two_events_intact d m s(2) b(2) j]
  show ?thesis by (simp add: i e break_at_def to_chain_row_def)
qed

theorem audit_deletion_is_detected_witness:
  "map_option cb_id (verify_chain zero_libs (fetch_chain zero_libs (delete_audit_row 10 two_events))) = Some 20"
proof -
  let ?r = "hd (audit_logs two_events)" and ?s = "last (audit_logs two_events)"
  have d: "distinct (map al_id (audit_logs two_events))" by code_simp
  have o: "order_rows False audit_pos (audit_logs two_events) = [] @ ?r # [?s]" by code_simp
  have i: "al_id ?r = 10" "al_id ?s = 20" by code_simp+
  from audit_deletion_is_detected [OF two_events_intact d two_events_hashes o] show ?thesis
    by (simp add: i break_at_def to_chain_row_def)
qed

lemma late_audit_row_breaks_chain_witness:
  "map_option cb_reason (verify_chain zero_libs (fetch_chain zero_libs (log_event 3 5 two_events))) = Some ''previous_hash_mismatch''"
proof -
  let ?s = "audit_logs two_events ! 1"
  have r: "record_event zero_libs (sample_request\<lparr>rq_db_now := 3\<rparr>) 5 ''tickets'' ''ticket_closed'' 7 None None None
      two_events = Inr (log_event 3 5 two_events)"
    by code_simp
  have m: "?s \<in> set (audit_logs two_events)" by code_simp
  have b: "(rq_db_now (sample_request\<lparr>rq_db_now := 3\<rparr>), 5) < audit_pos ?s" by code_simp
  from late_audit_row_breaks_chain [OF r two_events_intact two_events_hashes m b] show ?thesis by simp
qed

end
