(* ===== verification/Json.thy ===== *)
theory Json
  imports Keyset "HOL-Library.List_Lexorder" "HOL-Library.Char_ord"
begin

text \<open>
  \<open>json.dumps(_, sort_keys=True)\<close> as \<open>app/core/etag.py\<close> and \<open>_hash_request\<close> of
  \<open>app/modules/support/service.py\<close> use it, and the entity tags of \<open>compute_profile_etag\<close>. The lemmas show
  that the rendering determines the rendered values, so two different states have one tag only when
  SHA-256 collides on their renderings.
\<close>

section \<open>Rendering\<close>

definition json_escape :: "char \<Rightarrow> string" where
  "json_escape c =
     (if c = CHR 0x22 then [CHR 0x5C, CHR 0x22]
      else if c = CHR 0x5C then [CHR 0x5C, CHR 0x5C]
      else if c = CHR 0x08 then [CHR 0x5C, CHR ''b'']
      else if c = CHR 0x0C then [CHR 0x5C, CHR ''f'']
      else if c = CHR 0x0A then [CHR 0x5C, CHR ''n'']
      else if c = CHR 0x0D then [CHR 0x5C, CHR ''r'']
      else if c = CHR 0x09 then [CHR 0x5C, CHR ''t'']
      else if 32 \<le> (of_char c :: nat) \<and> (of_char c :: nat) \<le> 126 then [c]
      else [CHR 0x5C, CHR ''u''] @ hex_pad 4 (of_char c))"

definition json_str :: "string \<Rightarrow> string" where
  "json_str s = CHR 0x22 # concat (map json_escape s) @ [CHR 0x22]"

definition json_null_or_str :: "string option \<Rightarrow> string" where
  "json_null_or_str v = (case v of None \<Rightarrow> ''null'' | Some s \<Rightarrow> json_str s)"

fun json_items :: "string list \<Rightarrow> string" where
  "json_items [] = []"
| "json_items [x] = x"
| "json_items (x # y # xs) = x @ '', '' @ json_items (y # xs)"

definition json_str_list :: "string list \<Rightarrow> string" where
  "json_str_list xs = ''['' @ json_items (map json_str xs) @ '']''"

text \<open>A dictionary whose values are already rendered, sorted by key.\<close>

definition json_object :: "(string \<times> string) list \<Rightarrow> string" where
  "json_object kvs = ''{'' @ json_items (map (\<lambda>(k, v). json_str k @ '': '' @ v) (sort_key fst kvs)) @ ''}''"

section \<open>The rendering is injective\<close>

definition unescape :: "string \<Rightarrow> char \<times> string" where
  "unescape s =
     (if hd s \<noteq> CHR 0x5C then (hd s, tl s)
      else (let e = s ! 1 in
        if e = CHR ''u'' then (char_of (the (digits16 False 0 (take 4 (drop 2 s)))), drop 6 s)
        else (the (map_of [(CHR 0x22, CHR 0x22), (CHR 0x5C, CHR 0x5C), (CHR ''b'', CHR 0x08), (CHR ''f'', CHR 0x0C),
            (CHR ''n'', CHR 0x0A), (CHR ''r'', CHR 0x0D), (CHR ''t'', CHR 0x09)] e), drop 2 s)))"

lemma digits16_four: "digits16 False 0 (hex_pad 4 n) = Some (n mod 65536)"
proof -
  have "Suc 3 = (4::nat)" "(16::nat) ^ 4 = 65536" by simp_all
  then show ?thesis using digits16_hex_pad [of False 0 3 n] by (simp only: mult_zero_left add_0)
qed

lemma unescape_u: "unescape ([CHR 0x5C, CHR ''u''] @ hex_pad 4 (of_char c) @ r) = (c, r)"
proof -
  have "(of_char c :: nat) < 256" using of_char_mod_256 [of c, where ?'a = nat] by (metis mod_less_divisor zero_less_numeral)
  then have m: "of_char c mod 65536 = (of_char c :: nat)" by (intro mod_less) linarith
  have t: "take 4 (hex_pad 4 n @ r) = hex_pad 4 n" "drop 4 (hex_pad 4 n @ r) = r" for n :: nat
    by (simp_all del: hex_pad.simps)
  have d: "drop 2 ([CHR 0x5C, CHR ''u''] @ s) = s" "drop 6 ([CHR 0x5C, CHR ''u''] @ s) = drop 4 s" for s :: string
    by simp_all
  have hd: "hd ([CHR 0x5C, CHR ''u''] @ s) = CHR 0x5C" "([CHR 0x5C, CHR ''u''] @ s) ! 1 = CHR ''u''" for s :: string
    by simp_all
  show ?thesis
    unfolding unescape_def hd d t Let_def digits16_four m by (simp only: simp_thms if_True option.sel char_of_char t if_False)
qed

interpretation json_char: prefix_code json_escape unescape
proof
  fix c and r :: string
  let ?short = "[CHR 0x22, CHR 0x5C, CHR 0x08, CHR 0x0C, CHR 0x0A, CHR 0x0D, CHR 0x09]"
  consider "c \<in> set ?short" | "c \<notin> set ?short" "32 \<le> (of_char c :: nat) \<and> (of_char c :: nat) \<le> 126"
    | "c \<notin> set ?short" "\<not> (32 \<le> (of_char c :: nat) \<and> (of_char c :: nat) \<le> 126)" by blast
  then show "unescape (json_escape c @ r) = (c, r)"
  proof cases
    case 1 then show ?thesis by (auto simp: json_escape_def unescape_def)
  next
    case 2 then show ?thesis by (simp add: json_escape_def unescape_def)
  next
    case 3
    then have "json_escape c = [CHR 0x5C, CHR ''u''] @ hex_pad 4 (of_char c)" by (simp add: json_escape_def del: hex_pad.simps)
    then show ?thesis using unescape_u [of c r] by (simp del: hex_pad.simps)
  qed
qed

lemma json_escape_quote: "json_escape c @ r \<noteq> CHR 0x22 # r'"
  by (auto simp: json_escape_def simp del: hex_pad.simps)

lemma escaped_split:
  "concat (map json_escape a) @ CHR 0x22 # r = concat (map json_escape b) @ CHR 0x22 # r' \<Longrightarrow> a = b \<and> r = r'"
proof (induction a arbitrary: b)
  case Nil
  then show ?case using json_escape_quote by (cases b) (force dest: sym)+
next
  case (Cons c a)
  show ?case
  proof (cases b)
    case Nil
    then show ?thesis using Cons.prems json_escape_quote by force
  next
    case (Cons c' b')
    then have "json_escape c @ (concat (map json_escape a) @ CHR 0x22 # r)
        = json_escape c' @ (concat (map json_escape b') @ CHR 0x22 # r')"
      using Cons.prems by simp
    from json_char.split_put [OF this] Cons.IH Cons show ?thesis by auto
  qed
qed

interpretation json_string: prefix_free json_str
proof
  fix x y and r r' :: string
  assume "json_str x @ r = json_str y @ r'"
  then have "concat (map json_escape x) @ CHR 0x22 # r = concat (map json_escape y) @ CHR 0x22 # r'"
    by (simp only: json_str_def append.simps list.inject append_assoc simp_thms)
  then show "x = y \<and> r = r'" by (rule escaped_split)
qed

lemma json_str_quote: "json_str s @ r = CHR 0x22 # concat (map json_escape s) @ CHR 0x22 # r"
  by (simp add: json_str_def)

interpretation json_option: prefix_free json_null_or_str
proof
  fix x y r r'
  assume a: "json_null_or_str x @ r = json_null_or_str y @ r'"
  show "x = y \<and> r = r'"
  proof (cases "x = None \<or> y = None")
    case True
    with a show ?thesis by (cases x; cases y) (auto simp: json_null_or_str_def json_str_quote)
  next
    case False
    then obtain v w where "x = Some v" "y = Some w" by auto
    with a json_string.split_put [of v r w r'] show ?thesis by (simp add: json_null_or_str_def)
  qed
qed

lemma json_items_Cons: "json_items (x # xs) = (if xs = [] then x else x @ '', '' @ json_items xs)"
  by (cases xs) simp_all

lemma json_strs_split:
  "json_items (map json_str xs) @ '']'' @ r = json_items (map json_str ys) @ '']'' @ r' \<Longrightarrow> xs = ys \<and> r = r'"
proof (induction xs arbitrary: ys)
  case Nil
  then show ?case by (cases ys) (auto simp: json_items_Cons json_str_quote split: if_splits)
next
  case (Cons x xs)
  obtain y ys' where ys: "ys = y # ys'"
    using Cons.prems by (cases ys) (auto simp: json_items_Cons json_str_quote split: if_splits)
  have "json_str x @ (if xs = [] then '']'' @ r else '', '' @ json_items (map json_str xs) @ '']'' @ r)
      = json_str y @ (if ys' = [] then '']'' @ r' else '', '' @ json_items (map json_str ys') @ '']'' @ r')"
    using Cons.prems ys by (simp add: json_items_Cons split: if_splits)
  from json_string.split_put [OF this] Cons.IH ys show ?case by (auto split: if_splits)
qed

interpretation json_strings: prefix_free json_str_list
proof
  fix x y and r r' :: string
  assume "json_str_list x @ r = json_str_list y @ r'"
  then show "x = y \<and> r = r'" by (intro json_strs_split) (simp add: json_str_list_def)
qed

text \<open>Two objects with the same keys in the same order and the same rendering have the same values.\<close>

lemma json_fields_split:
  assumes "prefix_free put" and "length vs = length ks" "length ws = length ks"
    and "json_items (map2 (\<lambda>k v. json_str k @ '': '' @ put v) ks vs) @ r
      = json_items (map2 (\<lambda>k v. json_str k @ '': '' @ put v) ks ws) @ r'"
  shows "vs = ws"
  using assms(2-)
proof (induction ks arbitrary: vs ws)
  case (Cons k ks)
  then obtain v vs' w ws' where c: "vs = v # vs'" "ws = w # ws'" by (metis length_Suc_conv)
  have e: "vs' = [] \<longleftrightarrow> ws' = []" "map2 f ks vs' = [] \<longleftrightarrow> vs' = []" "map2 f ks ws' = [] \<longleftrightarrow> ws' = []" for f
    using Cons.prems(1,2) c by (cases ks; cases vs'; cases ws'; simp)+
  have "put v @ (if vs' = [] then r else '', '' @ json_items (map2 (\<lambda>k v. json_str k @ '': '' @ put v) ks vs') @ r)
      = put w @ (if ws' = [] then r' else '', '' @ json_items (map2 (\<lambda>k v. json_str k @ '': '' @ put v) ks ws') @ r')"
    using Cons.prems(3) e by (simp add: c json_items_Cons split: if_splits)
  from prefix_free.split_put [OF assms(1) this] Cons.IH [of vs' ws'] Cons.prems(1,2) e(1) c show ?case
    by (auto split: if_splits)
qed simp

section \<open>Entity tags\<close>

definition compute_profile_etag :: "libs \<Rightarrow> (string \<times> string option) list \<Rightarrow> string" where
  "compute_profile_etag L kvs =
     CHR 0x22 # sha256_hex L (json_object (map (\<lambda>(k, v). (k, json_null_or_str v)) kvs)) @ [CHR 0x22]"

text \<open>The rendered fields, and the keys and values in the order of the rendering.\<close>

abbreviation rendered :: "(string \<times> string option) list \<Rightarrow> (string \<times> string) list" where
  "rendered kvs \<equiv> map (\<lambda>(k, v). (k, json_null_or_str v)) kvs"

lemma sort_rendered: "sort_key fst (rendered kvs) = rendered (sort_key fst kvs)"
proof -
  have "insort_key fst (k, json_null_or_str v) (rendered xs) = rendered (insort_key fst (k, v) xs)" for k v xs
    by (induction xs) (auto split: prod.splits)
  then have i: "insort_key fst (case x of (k, v) \<Rightarrow> (k, json_null_or_str v)) (rendered xs) = rendered (insort_key fst x xs)" for x xs
    by (cases x) simp
  show ?thesis unfolding sort_key_def by (induction kvs) (simp_all add: i)
qed

lemma json_object_zip:
  "json_object (rendered kvs) = ''{'' @ json_items (map2 (\<lambda>k v. json_str k @ '': '' @ json_null_or_str v)
     (map fst (sort_key fst kvs)) (map snd (sort_key fst kvs))) @ ''}''"
proof -
  have "map (\<lambda>(k, v). json_str k @ '': '' @ v) (rendered xs)
      = map2 (\<lambda>k v. json_str k @ '': '' @ json_null_or_str v) (map fst xs) (map snd xs)" for xs
    by (induction xs) auto
  then show ?thesis by (simp only: json_object_def sort_rendered)
qed

lemma same_keys_same_set:
  assumes "map fst kvs = map fst kvs'" and "distinct (map fst kvs)" and "set kvs = set kvs'"
  shows "kvs = kvs'"
proof (rule nth_equalityI)
  show l: "length kvs = length kvs'" using assms(1) by (metis length_map)
  fix i assume i: "i < length kvs"
  then have "kvs ! i \<in> set kvs" and "kvs' ! i \<in> set kvs'" using l by simp_all
  then have "kvs ! i \<in> set kvs" and "kvs' ! i \<in> set kvs" using assms(3) by blast+
  moreover have "fst (kvs ! i) = fst (kvs' ! i)" using assms(1) i l by (metis nth_map)
  ultimately show "kvs ! i = kvs' ! i" using distinct_key_eqD [OF assms(2)] by blast
qed

lemma json_object_inj:
  assumes k: "map fst kvs = map fst kvs'" and d: "distinct (map fst kvs)"
    and e: "json_object (rendered kvs) = json_object (rendered kvs')"
  shows "kvs = kvs'"
proof -
  let ?s = "sort_key fst kvs" and ?s' = "sort_key fst kvs'"
  have "map fst (sort_key fst xs) = sort (map fst xs)" for xs :: "(string \<times> string option) list"
    by (rule properties_for_sort [symmetric]) (simp_all add: mset_map)
  then have m: "map fst ?s = map fst ?s'" using k by simp
  then have l: "length ?s = length ?s'" by (metis length_map)
  have "map snd ?s = map snd ?s'"
    by (rule json_fields_split [OF json_option.prefix_free_axioms, where ks = "map fst ?s" and r = "''}''" and r' = "''}''"])
      (use e l m in \<open>simp_all add: json_object_zip\<close>)
  then have "?s = ?s'" using m by (metis zip_map_fst_snd)
  then have "set kvs = set kvs'" by (metis set_sort)
  then show ?thesis by (rule same_keys_same_set [OF k d])
qed

text \<open>Tags of two field lists with the same names agree exactly when the values do, unless the hash
  collides on the two renderings.\<close>

lemma etag_eq_iff:
  assumes "map fst kvs = map fst kvs'" and "distinct (map fst kvs)"
    and "sha256_hex L (json_object (rendered kvs)) = sha256_hex L (json_object (rendered kvs'))
      \<Longrightarrow> json_object (rendered kvs) = json_object (rendered kvs')"
  shows "compute_profile_etag L kvs = compute_profile_etag L kvs' \<longleftrightarrow> kvs = kvs'"
  using assms json_object_inj by (auto simp: compute_profile_etag_def)

end
