(* ===== verification/Account.thy ===== *)
theory Account
  imports Roles
begin

text \<open>
  \<open>app/modules/account\<close>: self-service deactivation and the reactivation the login flow performs.
\<close>

section \<open>Repository\<close>

definition deactivate_if_not_already :: "datetime \<Rightarrow> uuid \<Rightarrow> db \<Rightarrow> datetime option \<times> db" where
  "deactivate_if_not_already t user_id d =
     (let (u, rows) = update_returning
            (\<lambda>u. u_id u = user_id \<and> u_email_verified u \<and> u_status u \<noteq> DEACTIVATED)
            (\<lambda>u. u\<lparr>u_status := DEACTIVATED, u_deactivated_at := Some t\<rparr>) (users d)
      in (case u of None \<Rightarrow> None | Some u \<Rightarrow> u_deactivated_at u, d\<lparr>users := rows\<rparr>))"

definition create_lifecycle_audit_log_entry :: "datetime \<Rightarrow> uuid \<Rightarrow> string \<Rightarrow> string \<Rightarrow> db \<Rightarrow> db" where
  "create_lifecycle_audit_log_entry t user_id event actor d =
     d\<lparr>account_lifecycle_audit_logs := account_lifecycle_audit_logs d @
        [\<lparr>lal_user_id = user_id, lal_event = event, lal_actor = actor, lal_occurred_at = t,
          lal_reason = None\<rparr>]\<rparr>"

definition reactivate_if_within_grace :: "uuid \<Rightarrow> datetime \<Rightarrow> db \<Rightarrow> bool \<times> db" where
  "reactivate_if_within_grace user_id grace_period_cutoff d =
     (let (u, rows) = update_returning
            (\<lambda>u. u_id u = user_id \<and> u_status u = DEACTIVATED
               \<and> (case u_deactivated_at u of None \<Rightarrow> False | Some x \<Rightarrow> grace_period_cutoff < x))
            (\<lambda>u. u\<lparr>u_status := ACTIVE, u_deactivated_at := None\<rparr>) (users d)
      in (u \<noteq> None, d\<lparr>users := rows\<rparr>))"

section \<open>Service\<close>

definition REACTIVATION_GRACE_PERIOD_DAYS :: int where "REACTIVATION_GRACE_PERIOD_DAYS = 30"

definition deactivate_account ::
  "libs \<Rightarrow> request \<Rightarrow> uuid \<Rightarrow> string option \<Rightarrow> portal \<Rightarrow> datetime outcome \<times> portal" where
  "deactivate_account L rq user_id current_password p =
     (let d = database p;
          password = (case current_password of None \<Rightarrow> '''' | Some pw \<Rightarrow> pw)
      in case get_by_id user_id d of
           None \<Rightarrow> (Inl InvalidPasswordError, p)
         | Some u \<Rightarrow>
             if \<not> verify_password L password (u_hashed_password u) then (Inl InvalidPasswordError, p)
             else case deactivate_if_not_already (rq_db_now rq) user_id d of
                    (None, _) \<Rightarrow> (Inl AlreadyDeactivatedError, p)
                  | (Some deactivated_at, d1) \<Rightarrow>
                      let d2 = create_lifecycle_audit_log_entry (rq_db_now rq) user_id ''deactivated'' ''self'' d1
                      in (Inr deactivated_at,
                          p\<lparr>database := d2,
                            cache := set_revoke_before (rq_now rq) user_id
                              (refresh_token_ttl_seconds get_settings) (cache p)\<rparr>))"

definition reactivate_account :: "request \<Rightarrow> uuid \<Rightarrow> portal \<Rightarrow> bool \<times> portal" where
  "reactivate_account rq user_id p =
     (let grace_period_cutoff = rq_now rq - days REACTIVATION_GRACE_PERIOD_DAYS;
          (reactivated, d1) = reactivate_if_within_grace user_id grace_period_cutoff (database p)
      in if reactivated
         then (True, p\<lparr>database := create_lifecycle_audit_log_entry (rq_db_now rq) user_id ''reactivated'' ''self'' d1\<rparr>)
         else (False, p))"

section \<open>Facts\<close>

lemma lifecycle_frame [simp]:
  "users (create_lifecycle_audit_log_entry t i e a d) = users d"
  "user_sessions (create_lifecycle_audit_log_entry t i e a d) = user_sessions d"
  "refresh_tokens (create_lifecycle_audit_log_entry t i e a d) = refresh_tokens d"
  "password_reset_tokens (create_lifecycle_audit_log_entry t i e a d) = password_reset_tokens d"
  "mfa_recovery_codes (create_lifecycle_audit_log_entry t i e a d) = mfa_recovery_codes d"
  "roles (create_lifecycle_audit_log_entry t i e a d) = roles d"
  "user_roles (create_lifecycle_audit_log_entry t i e a d) = user_roles d"
  by (simp_all add: create_lifecycle_audit_log_entry_def)

lemma find_in_users:
  "distinct (map u_id (users d)) \<Longrightarrow> get_by_id i d = Some u \<Longrightarrow>
   find_row (\<lambda>x. u_id x = i \<and> P x) (users d) = (if P u then Some u else None)"
proof -
  assume ds: "distinct (map u_id (users d))" and g: "get_by_id i d = Some u"
  from g have u: "u \<in> set (users d)" "u_id u = i" by (auto dest: get_by_id_SomeD)
  have uniq: "x = u" if "x \<in> set (users d)" "u_id x = i" for x
    using ds that u by (auto intro: distinct_key_eqD [of u_id])
  show ?thesis
  proof (cases "find_row (\<lambda>x. u_id x = i \<and> P x) (users d)")
    case None
    then show ?thesis using u by (auto simp: find_None_iff)
  next
    case (Some x)
    then show ?thesis using uniq by (auto dest: find_row_SomeD)
  qed
qed

text \<open>\<open>reactivate_account\<close> on a known account: it succeeds exactly on a deactivated account whose
  deactivation is less than 30 days old, and then only the account's status changes.\<close>

lemma reactivate_account_iff:
  assumes "distinct (map u_id (users (database p)))" and "get_by_id i (database p) = Some u"
  shows "fst (reactivate_account rq i p) \<longleftrightarrow> u_status u = DEACTIVATED
    \<and> (\<exists>x. u_deactivated_at u = Some x \<and> rq_now rq - days 30 < x)"
  using find_in_users [OF assms, of "\<lambda>u. u_status u = DEACTIVATED \<and> (case u_deactivated_at u of None \<Rightarrow> False
      | Some x \<Rightarrow> rq_now rq - days 30 < x)"]
  by (auto simp: reactivate_account_def reactivate_if_within_grace_def query_defs Let_def
      REACTIVATION_GRACE_PERIOD_DAYS_def split: option.splits if_splits)

lemma reactivate_account_frame:
  assumes "reactivate_account rq i p = (b, p')"
  shows "user_sessions (database p') = user_sessions (database p)"
    "refresh_tokens (database p') = refresh_tokens (database p)"
    "password_reset_tokens (database p') = password_reset_tokens (database p)"
    "mfa_recovery_codes (database p') = mfa_recovery_codes (database p)"
    "roles (database p') = roles (database p)" "user_roles (database p') = user_roles (database p)"
    "cache p' = cache p" "map u_id (users (database p')) = map u_id (users (database p))"
    "\<not> b \<Longrightarrow> p' = p"
  using assms by (auto simp: reactivate_account_def reactivate_if_within_grace_def query_defs Let_def
      split: if_splits)

section \<open>Properties\<close>

text \<open>Deactivation and reactivation. A verified account deactivated by its owner is deactivated
  (a second attempt is refused with \<open>AlreadyDeactivatedError\<close> and changes nothing), and a login can
  bring it back exactly while less than 30 days have passed; later it stays deactivated for good.\<close>

lemma deactivation_grace_period:
  assumes "distinct (map u_id (users (database p)))"
    and "deactivate_account L rq i pw p = (Inr at, p1)"
  shows "fst (deactivate_account L rq2 i pw p1) = Inl AlreadyDeactivatedError
    \<and> snd (deactivate_account L rq2 i pw p1) = p1
    \<and> (fst (reactivate_account rq3 i p1) \<longleftrightarrow> rq_now rq3 < rq_db_now rq + days 30)
    \<and> (fst (reactivate_account rq3 i p1) \<longrightarrow>
         (\<exists>u. get_by_id i (database (snd (reactivate_account rq3 i p1))) = Some u \<and> u_status u = ACTIVE
            \<and> u_deactivated_at u = None))"
proof -
  let ?f = "\<lambda>u. u\<lparr>u_status := DEACTIVATED, u_deactivated_at := Some (rq_db_now rq)\<rparr>"
  from assms(2) obtain u where u: "get_by_id i (database p) = Some u"
    and ok: "verify_password L (case pw of None \<Rightarrow> '''' | Some pw \<Rightarrow> pw) (u_hashed_password u)"
    and us: "users (database p1) = update_rows
        (\<lambda>u. u_id u = i \<and> u_email_verified u \<and> u_status u \<noteq> DEACTIVATED) ?f (users (database p))"
    and found: "find_row (\<lambda>u. u_id u = i \<and> u_email_verified u \<and> u_status u \<noteq> DEACTIVATED) (users (database p)) \<noteq> None"
    by (auto simp: deactivate_account_def deactivate_if_not_already_def query_defs Let_def
        split: option.splits if_splits prod.splits)
  have g: "u_email_verified u \<and> u_status u \<noteq> DEACTIVATED"
    using found find_in_users [OF assms(1) u, of "\<lambda>u. u_email_verified u \<and> u_status u \<noteq> DEACTIVATED"]
    by (auto split: if_splits)
  have ds: "distinct (map u_id (users (database p1)))" using assms(1) by (simp add: us)
  have u1: "get_by_id i (database p1) = Some (?f u)"
    using u g unfolding get_by_id_def us by (subst find_row_update) (auto dest: find_row_SomeD)
  note find1 = find_in_users [OF ds u1]
  have 1: "fst (deactivate_account L rq2 i pw p1) = Inl AlreadyDeactivatedError"
      "snd (deactivate_account L rq2 i pw p1) = p1"
    using ok find1 [of "\<lambda>u. u_email_verified u \<and> u_status u \<noteq> DEACTIVATED"]
    by (simp_all add: deactivate_account_def u1 deactivate_if_not_already_def query_defs Let_def)
  have 2: "fst (reactivate_account rq3 i p1) \<longleftrightarrow> rq_now rq3 < rq_db_now rq + days 30"
    using reactivate_account_iff [OF ds u1, of rq3] by auto
  have 3: "\<exists>u. get_by_id i (database (snd (reactivate_account rq3 i p1))) = Some u \<and> u_status u = ACTIVE
            \<and> u_deactivated_at u = None" if "fst (reactivate_account rq3 i p1)"
  proof -
    let ?P = "\<lambda>u. u_id u = i \<and> u_status u = DEACTIVATED
       \<and> (case u_deactivated_at u of None \<Rightarrow> False | Some x \<Rightarrow> rq_now rq3 - days 30 < x)"
    have "users (database (snd (reactivate_account rq3 i p1)))
        = update_rows ?P (\<lambda>u. u\<lparr>u_status := ACTIVE, u_deactivated_at := None\<rparr>) (users (database p1))"
      using that by (auto simp: reactivate_account_def reactivate_if_within_grace_def query_defs Let_def
          REACTIVATION_GRACE_PERIOD_DAYS_def split: if_splits)
    then have "get_by_id i (database (snd (reactivate_account rq3 i p1)))
        = map_option (\<lambda>r. if ?P r then r\<lparr>u_status := ACTIVE, u_deactivated_at := None\<rparr> else r) (get_by_id i (database p1))"
      unfolding get_by_id_def by (simp add: find_row_update)
    moreover have "?P (?f u)" using that 2 u by (auto dest: get_by_id_SomeD)
    ultimately show ?thesis by (simp add: u1)
  qed
  from 1 2 3 show ?thesis by blast
qed

text \<open>A portal with one verified account, whose password is \<open>pw\<close>.\<close>

definition one_account :: portal where
  "one_account = \<lparr>database = empty_db\<lparr>users := [(new_user 0 1 ''a@x'' ''s$pw'' ACTIVE)\<lparr>u_email_verified := True\<rparr>]\<rparr>,
     cache = empty_valkey, outbox = []\<rparr>"

lemma verify_password_pw [simp]: "verify_password zero_libs ''pw'' ''s$pw''"
  by (simp add: verify_password_def zero_libs_def)

lemma deactivation_grace_period_witness:
  "fst (reactivate_account (sample_request\<lparr>rq_now := days 29\<rparr>) 1
      (snd (deactivate_account zero_libs sample_request 1 (Some ''pw'') one_account)))
   \<and> \<not> fst (reactivate_account (sample_request\<lparr>rq_now := days 31\<rparr>) 1
      (snd (deactivate_account zero_libs sample_request 1 (Some ''pw'') one_account)))"
proof -
  have ds: "distinct (map u_id (users (database one_account)))" by (simp add: one_account_def)
  have "fst (deactivate_account zero_libs sample_request 1 (Some ''pw'') one_account) = Inr 990"
    by (simp add: deactivate_account_def one_account_def empty_db_def new_user_def get_by_id_def
        deactivate_if_not_already_def query_defs sample_request_def)
  then have "deactivate_account zero_libs sample_request 1 (Some ''pw'') one_account
      = (Inr 990, snd (deactivate_account zero_libs sample_request 1 (Some ''pw'') one_account))"
    by (metis prod.collapse)
  note W = deactivation_grace_period [OF ds this, of sample_request]
  show ?thesis
    using W [of "sample_request\<lparr>rq_now := days 29\<rparr>"] W [of "sample_request\<lparr>rq_now := days 31\<rparr>"]
    by (simp add: sample_request_def duration_defs)
qed

end
