(* ===== verification/Users_Auth.thy ===== *)
theory Users_Auth
  imports Account
begin

text \<open>
  \<open>app/modules/users/service.py\<close>, first half: issuing credentials (\<open>authenticate_user\<close> and its
  helpers) and checking them (\<open>get_authenticated_user\<close>).
\<close>

section \<open>Enrolment scoping and the session cap\<close>

definition PRIVILEGED_ROLE_NAMES :: "string set" where
  "PRIVILEGED_ROLE_NAMES = {''admin'', ''auditor'', ''support_agent''}"

definition resolve_enrollment_scoping :: "datetime \<Rightarrow> user \<Rightarrow> db \<Rightarrow> bool \<times> datetime option" where
  "resolve_enrollment_scoping now user d =
     (if u_mfa_reenrollment_required user then (True, None)
      else if u_mfa_enabled user then (False, None)
      else
        let grants = get_role_grants_for_user (u_id user) d;
            privileged_grants = filter (\<lambda>g. fst g \<in> PRIVILEGED_ROLE_NAMES) grants
        in if privileged_grants = [] then (False, None)
           else
             let grace_period = days (mfa_grace_period_days get_settings);
                 deadlines = map (\<lambda>g. snd g + grace_period) privileged_grants;
                 earliest_deadline = Min (set deadlines)
             in if earliest_deadline \<le> now then (True, None) else (False, Some earliest_deadline))"

definition evict_oldest_family_if_at_cap :: "request \<Rightarrow> uuid \<Rightarrow> db \<Rightarrow> db" where
  "evict_oldest_family_if_at_cap rq user_id d0 =
     (let t = rq_db_now rq;
          d = lock_live_refresh_tokens_for_user t user_id d0;
          family_created_at = get_family_created_at_map_for_user t user_id d
      in if max_live_sessions_per_user get_settings \<le> int (length family_created_at) then
           (let oldest_family_id = fst (first_min snd (hd family_created_at) (tl family_created_at))
            in create_auth_audit_log_entry t ''session_evicted'' None None (Some user_id) (rq_ip rq)
                 (rq_user_agent rq) (rq_request_id rq) None (Some oldest_family_id)
                 (revoke_refresh_token_family t oldest_family_id d))
         else d)"

definition encode_access_token_for_user ::
  "libs \<Rightarrow> request \<Rightarrow> user \<Rightarrow> uuid \<Rightarrow> db \<Rightarrow> string \<times> datetime option" where
  "encode_access_token_for_user L rq user jti d =
     (let scopes = resolve_scopes_for_user (u_id user) d;
          (scoped, deadline) = resolve_enrollment_scoping (rq_now rq) user d
      in (encode_access_token L (rq_now rq) (u_id user) jti scopes scoped, deadline))"

section \<open>Login\<close>

datatype login_response =
    LoginResponse (access_token: string) (expires_in: int) (mfa_enrollment_deadline: "datetime option")
      (raw_refresh_token: string)
  | MfaRequiredResponse (mfa_token: string)

definition auth_log :: "request \<Rightarrow> string \<Rightarrow> string option \<Rightarrow> string option \<Rightarrow> uuid option \<Rightarrow> db \<Rightarrow> db" where
  "auth_log rq event reason scope actor_id =
     create_auth_audit_log_entry (rq_db_now rq) event reason scope actor_id (rq_ip rq) (rq_user_agent rq)
       (rq_request_id rq) None None"

text \<open>The block from the creation of the session to the commit, which \<open>authenticate_user\<close> and
  \<open>_complete_mfa_login\<close> share up to the \<open>scope\<close> of the audit row.\<close>

definition mint_session :: "libs \<Rightarrow> request \<Rightarrow> user \<Rightarrow> string option \<Rightarrow> db \<Rightarrow> sql_error + db" where
  "mint_session L rq user scope d =
     (let t = rq_db_now rq;
          jti = rq_uuid rq 0;
          session_expires_at = rq_now rq + seconds (access_token_ttl_seconds get_settings);
          refresh_expires_at = rq_now rq + seconds (refresh_token_ttl_seconds get_settings);
          (raw_refresh_token, token_hash) = generate_refresh_token L (rq_token rq 0)
      in case create_session t (u_id user) jti session_expires_at d of
           Inl e \<Rightarrow> Inl e
         | Inr d1 \<Rightarrow>
             (case create_refresh_token t token_hash (rq_uuid rq 1) (u_id user) refresh_expires_at
                     (Some (rq_ip rq)) (rq_user_agent rq) None
                     (evict_oldest_family_if_at_cap rq (u_id user) d1) of
                Inl e \<Rightarrow> Inl e
              | Inr d2 \<Rightarrow>
                  Inr (auth_log rq ''login_succeeded'' None scope (Some (u_id user))
                         (update_last_login_at t (u_id user) d2))))"

definition complete_login :: "libs \<Rightarrow> request \<Rightarrow> user \<Rightarrow> portal \<Rightarrow> login_response outcome \<times> portal" where
  "complete_login L rq user p =
     (case mint_session L rq user None (database p) of
        Inl e \<Rightarrow> (Inl (DatabaseError e), p)
      | Inr d \<Rightarrow>
          let p1 = p\<lparr>database := d, cache := reset_account_failures (u_id user) (cache p)\<rparr>;
              (tok, deadline) = encode_access_token_for_user L rq user (rq_uuid rq 0) d
          in (Inr (LoginResponse tok (access_token_ttl_seconds get_settings) deadline
                    (fst (generate_refresh_token L (rq_token rq 0)))), p1))"

text \<open>The success path below the password, status and verification gates.\<close>

definition login_verified :: "libs \<Rightarrow> request \<Rightarrow> user \<Rightarrow> portal \<Rightarrow> login_response outcome \<times> portal" where
  "login_verified L rq user p =
     (if u_mfa_enabled user then
        (let (raw_mfa_token, token_hash) = generate_mfa_token L (rq_token rq 0)
         in (Inr (MfaRequiredResponse raw_mfa_token),
             p\<lparr>cache := mfa_issue (rq_now rq) token_hash (u_id user) (mfa_token_ttl_seconds get_settings)
                 (cache p)\<rparr>))
      else complete_login L rq user p)"

definition authenticate_user ::
  "libs \<Rightarrow> request \<Rightarrow> string \<Rightarrow> string \<Rightarrow> portal \<Rightarrow> login_response outcome \<times> portal" where
  "authenticate_user L rq email password p =
     (let now = rq_now rq; ip = rq_ip rq; window = login_throttle_window_seconds get_settings;
          d = database p; c = cache p
      in if login_failure_threshold_ip get_settings \<le> get_ip_failure_count now ip c then
           (Inl (TooManyAttemptsError (get_ip_retry_after_seconds now ip c)), p)
         else case get_by_email email d of
           Inl e \<Rightarrow> (Inl (DatabaseError e), p)
         | Inr None \<Rightarrow>
             (Inl InvalidCredentialsError,
              p\<lparr>database := auth_log rq ''login_failed'' (Some ''unknown_email'') None None d,
                cache := snd (record_ip_failure now ip window c)\<rparr>)
         | Inr (Some user) \<Rightarrow>
             if login_failure_threshold_account get_settings \<le> get_account_failure_count now (u_id user) c then
               (Inl (TooManyAttemptsError (get_account_retry_after_seconds now (u_id user) c)), p)
             else if \<not> verify_password L password (u_hashed_password user) then
               (Inl InvalidCredentialsError,
                p\<lparr>database := auth_log rq ''login_failed'' (Some ''bad_password'') None (Some (u_id user)) d,
                  cache := snd (record_ip_failure now ip window
                             (snd (record_account_failure now (u_id user) window c)))\<rparr>)
             else if u_status user = DEACTIVATED then
               (case reactivate_account rq (u_id user) p of
                  (False, _) \<Rightarrow>
                    (Inl AccountDeactivatedError,
                     p\<lparr>database := auth_log rq ''login_failed'' (Some ''account_deactivated'') None
                         (Some (u_id user)) d\<rparr>)
                | (True, p1) \<Rightarrow> login_verified L rq user p1)
             else if \<not> u_email_verified user then
               (Inl EmailNotVerifiedError,
                p\<lparr>database := auth_log rq ''login_failed'' (Some ''email_not_verified'') None
                    (Some (u_id user)) d\<rparr>)
             else login_verified L rq user p)"

section \<open>Reads for other modules\<close>

definition get_email_for_user :: "uuid \<Rightarrow> db \<Rightarrow> string option" where
  "get_email_for_user user_id d = map_option u_email (get_by_id user_id d)"

definition get_account_status_for_user :: "uuid \<Rightarrow> db \<Rightarrow> user_status option" where
  "get_account_status_for_user user_id d = map_option u_status (get_by_id user_id d)"

section \<open>Checking an access token\<close>

record authenticated_user =
  au_user_id :: uuid
  au_jti :: uuid
  au_scopes :: "string list"
  au_mfa_enrollment_required :: bool

text \<open>\<open>None\<close> is every failure the caller turns into \<open>UnauthenticatedError\<close>; a denylist read that
  fails rejects the token.\<close>

definition get_authenticated_user ::
  "libs \<Rightarrow> request \<Rightarrow> string \<Rightarrow> bool \<Rightarrow> bool \<Rightarrow> portal \<Rightarrow> authenticated_user option outcome" where
  "get_authenticated_user L rq token allow_revoked allow_enrollment_scoped p =
     (let now = rq_now rq in
      case decode_access_token L now token of
        None \<Rightarrow> Inr None
      | Some claims \<Rightarrow>
          (case get_session_by_jti (ac_jti claims) (database p) of
             None \<Rightarrow> Inr None
           | Some session \<Rightarrow>
               if us_revoked_at session \<noteq> None \<and> \<not> allow_revoked then Inr None
               else if us_user_id session \<noteq> ac_user_id claims then Inr None
               else if \<not> rq_valkey_up rq then Inr None
               else if (case get_revoke_before now (ac_user_id claims) (cache p) of
                          None \<Rightarrow> False | Some rb \<Rightarrow> us_issued_at session \<le> rb) then Inr None
               else if (case get_perm_epoch now (ac_user_id claims) (cache p) of
                          None \<Rightarrow> False | Some pe \<Rightarrow> us_issued_at session \<le> pe) then Inl TokenStaleError
               else if ac_mfa_enrollment_required claims \<and> \<not> allow_enrollment_scoped then
                 Inl MfaEnrollmentRequiredError
               else Inr (Some \<lparr>au_user_id = ac_user_id claims, au_jti = ac_jti claims,
                      au_scopes = ac_scopes claims,
                      au_mfa_enrollment_required = ac_mfa_enrollment_required claims\<rparr>)))"

text \<open>The three dependencies of \<open>users/dependencies.py\<close>.\<close>

definition require_authenticated :: "authenticated_user option outcome \<Rightarrow> authenticated_user outcome" where
  "require_authenticated r = (case r of Inl e \<Rightarrow> Inl e | Inr None \<Rightarrow> Inl UnauthenticatedError | Inr (Some u) \<Rightarrow> Inr u)"

definition get_current_user :: "libs \<Rightarrow> request \<Rightarrow> string \<Rightarrow> portal \<Rightarrow> authenticated_user outcome" where
  "get_current_user L rq token p = require_authenticated (get_authenticated_user L rq token False False p)"

definition get_current_user_allow_revoked :: "libs \<Rightarrow> request \<Rightarrow> string \<Rightarrow> portal \<Rightarrow> authenticated_user outcome" where
  "get_current_user_allow_revoked L rq token p = require_authenticated (get_authenticated_user L rq token True False p)"

definition get_current_user_allow_enrollment_scoped ::
  "libs \<Rightarrow> request \<Rightarrow> string \<Rightarrow> portal \<Rightarrow> authenticated_user outcome" where
  "get_current_user_allow_enrollment_scoped L rq token p =
     require_authenticated (get_authenticated_user L rq token False True p)"

end
