(* ===== verification/Users_Sessions.thy ===== *)
theory Users_Sessions
  imports Users_Auth
begin

text \<open>
  \<open>app/modules/users/service.py\<close>, second part: logout, session management and the rotation of
  refresh tokens.

  \<open>rotate_refresh_token\<close> is split where another request can run in between: \<open>rotate_checks\<close> is
  everything up to the atomic check-and-consume, \<open>rotate_consume\<close> the statement and what follows.
  \<open>rotate_refresh_token\<close> runs the two in sequence; the interleaving results use the parts.
\<close>

section \<open>Logout\<close>

text \<open>A cookie that is not ASCII makes \<open>hash_refresh_token\<close> raise before the commit.\<close>

definition logout :: "libs \<Rightarrow> request \<Rightarrow> uuid \<Rightarrow> uuid \<Rightarrow> string option \<Rightarrow> portal \<Rightarrow> unit outcome \<times> portal" where
  "logout L rq jti user_id refresh_cookie p =
     (let t = rq_db_now rq;
          d1 = repo_revoke_session t jti (database p);
          finish = (\<lambda>d. (Inr (), p\<lparr>database := auth_log rq ''logout'' None (Some ''session'') (Some user_id) d\<rparr>))
      in case refresh_cookie of
           None \<Rightarrow> finish d1
         | Some raw \<Rightarrow>
             (case hash_refresh_token L raw of
                None \<Rightarrow> (Inl UnicodeEncodeError, p)
              | Some token_hash \<Rightarrow>
                  (case get_refresh_token_by_hash token_hash d1 of
                     None \<Rightarrow> finish d1
                   | Some existing \<Rightarrow>
                       if rt_user_id existing = user_id
                       then finish (revoke_refresh_token_family t (rt_family_id existing) d1)
                       else finish d1)))"

definition logout_all :: "request \<Rightarrow> uuid \<Rightarrow> portal \<Rightarrow> unit outcome \<times> portal" where
  "logout_all rq user_id p =
     (Inr (), p\<lparr>database := auth_log rq ''logout'' None (Some ''all_sessions'') (Some user_id) (database p),
        cache := set_revoke_before (rq_now rq) user_id (refresh_token_ttl_seconds get_settings) (cache p)\<rparr>)"

definition revoke_other_sessions :: "request \<Rightarrow> uuid \<Rightarrow> uuid option \<Rightarrow> portal \<Rightarrow> portal" where
  "revoke_other_sessions rq user_id except_jti p =
     p\<lparr>database := revoke_sessions_except (rq_db_now rq) user_id except_jti (database p)\<rparr>"

section \<open>Listing and revoking sessions\<close>

definition resolve_current_family_id ::
  "libs \<Rightarrow> uuid \<Rightarrow> string option \<Rightarrow> db \<Rightarrow> uuid option outcome" where
  "resolve_current_family_id L user_id refresh_cookie d =
     (case refresh_cookie of
        None \<Rightarrow> Inr None
      | Some raw \<Rightarrow>
          (case hash_refresh_token L raw of
             None \<Rightarrow> Inl UnicodeEncodeError
           | Some token_hash \<Rightarrow>
               (case get_refresh_token_by_hash token_hash d of
                  None \<Rightarrow> Inr None
                | Some existing \<Rightarrow> if rt_user_id existing \<noteq> user_id then Inr None else Inr (Some (rt_family_id existing)))))"

record session_entry =
  se_family_id :: uuid
  se_created_at :: datetime
  se_last_used_at :: "datetime option"
  se_location :: "(string option \<times> string option) option"
  se_device_label :: string
  se_is_current :: bool

definition list_sessions :: "libs \<Rightarrow> request \<Rightarrow> uuid \<Rightarrow> string option \<Rightarrow> portal \<Rightarrow> session_entry list outcome" where
  "list_sessions L rq user_id refresh_cookie p =
     (let d = database p in
      case resolve_current_family_id L user_id refresh_cookie d of
        Inl e \<Rightarrow> Inl e
      | Inr current_family_id \<Rightarrow>
          (let live_rows = list_live_families_for_user (rq_db_now rq) user_id d;
               family_created_at = get_family_created_at_map_for_user (rq_db_now rq) user_id d
           in Inr (map (\<lambda>row.
                \<lparr>se_family_id = rt_family_id row,
                 se_created_at = the (map_of family_created_at (rt_family_id row)),
                 se_last_used_at = rt_last_used_at row,
                 se_location = (case rt_ip row of None \<Rightarrow> None | Some ip \<Rightarrow> if ip = [] then None else geoip_city L ip),
                 se_device_label = resolve_device_label L (rt_user_agent row),
                 se_is_current = (Some (rt_family_id row) = current_family_id)\<rparr>) live_rows)))"

definition revoke_session ::
  "libs \<Rightarrow> request \<Rightarrow> uuid \<Rightarrow> uuid \<Rightarrow> string option \<Rightarrow> portal \<Rightarrow> unit outcome \<times> portal" where
  "revoke_session L rq user_id family_id refresh_cookie p =
     (let d = database p; t = rq_db_now rq in
      case resolve_current_family_id L user_id refresh_cookie d of
        Inl e \<Rightarrow> (Inl e, p)
      | Inr current_family_id \<Rightarrow>
          if current_family_id = Some family_id then (Inl CurrentSessionError, p)
          else case get_any_refresh_token_for_family family_id user_id d of
                 None \<Rightarrow> (Inl SessionNotFoundError, p)
               | Some owned \<Rightarrow>
                   let was_live = (rt_revoked_at owned = None \<and> rq_now rq < rt_expires_at owned);
                       d1 = revoke_refresh_token_family t family_id d;
                       d2 = (if was_live
                             then create_auth_audit_log_entry t ''session_revoked'' None None (Some user_id)
                                    (rq_ip rq) (rq_user_agent rq) (rq_request_id rq) None (Some family_id) d1
                             else d1)
                   in (Inr (), p\<lparr>database := d2\<rparr>))"

section \<open>Rotation\<close>

definition REFRESH_IDLE_TIMEOUT :: int where "REFRESH_IDLE_TIMEOUT = days 14"
definition REFRESH_CONCURRENT_GRACE_WINDOW :: int where "REFRESH_CONCURRENT_GRACE_WINDOW = seconds 10"
definition REFRESH_RATE_LIMIT_MAX_REQUESTS :: int where "REFRESH_RATE_LIMIT_MAX_REQUESTS = 60"
definition REFRESH_RATE_LIMIT_WINDOW_SECONDS :: int where "REFRESH_RATE_LIMIT_WINDOW_SECONDS = 3600"

text \<open>The part of \<open>_handle_reuse_or_race\<close> after the grace-window test.\<close>

definition reuse_detected :: "request \<Rightarrow> refresh_token \<Rightarrow> portal \<Rightarrow> portal" where
  "reuse_detected rq token p =
     (let t = rq_db_now rq;
          d1 = revoke_refresh_token_family t (rt_family_id token) (database p);
          d2 = create_auth_audit_log_entry t ''refresh_reuse_detected'' None None (Some (rt_user_id token))
                 (rq_ip rq) (rq_user_agent rq) (rq_request_id rq) (Some ''high'') None d1;
          p1 = p\<lparr>database := d2\<rparr>
      in case get_by_id (rt_user_id token) d2 of
           None \<Rightarrow> p1
         | Some user \<Rightarrow> send_email rq (RefreshReuseAlert (u_email user)) p1)"

definition handle_reuse_or_race :: "request \<Rightarrow> refresh_token \<Rightarrow> portal \<Rightarrow> portal" where
  "handle_reuse_or_race rq token p =
     (if (case rt_consumed_at token of
            None \<Rightarrow> False
          | Some consumed_at \<Rightarrow> rq_now rq - consumed_at \<le> REFRESH_CONCURRENT_GRACE_WINDOW)
      then p else reuse_detected rq token p)"

datatype refresh_response =
  RefreshResponse (rr_access_token: string) (rr_expires_in: int)
    (rr_mfa_enrollment_deadline: "datetime option") (rr_raw_refresh_token: string)

text \<open>What the checks conclude: an exception, a token that was consumed before, or a token to rotate
  together with the account it was found for.\<close>

datatype rotate_verdict = Reject portal_error | Reused refresh_token | Proceed string user

definition rotate_checks :: "libs \<Rightarrow> request \<Rightarrow> string option \<Rightarrow> portal \<Rightarrow> rotate_verdict \<times> portal" where
  "rotate_checks L rq raw_token p =
     (case raw_token of
        None \<Rightarrow> (Reject TokenInvalidError, p)
      | Some raw \<Rightarrow>
          (case hash_refresh_token L raw of
             None \<Rightarrow> (Reject UnicodeEncodeError, p)
           | Some token_hash \<Rightarrow>
               (case get_refresh_token_by_hash token_hash (database p) of
                  None \<Rightarrow> (Reject TokenInvalidError, p)
                | Some existing \<Rightarrow>
                    let now = rq_now rq;
                        (request_count, c1) = record_request now (rt_family_id existing)
                          REFRESH_RATE_LIMIT_WINDOW_SECONDS (cache p);
                        p1 = p\<lparr>cache := c1\<rparr>
                    in if REFRESH_RATE_LIMIT_MAX_REQUESTS < request_count then
                         (Reject (TooManyAttemptsError (get_refresh_retry_after_seconds now (rt_family_id existing) c1)), p1)
                       else if rt_expires_at existing \<le> now then (Reject TokenInvalidError, p1)
                       else if rt_revoked_at existing \<noteq> None then (Reject TokenInvalidError, p1)
                       else if rt_consumed_at existing \<noteq> None then (Reused existing, p1)
                       else case get_by_id (rt_user_id existing) (database p) of
                              None \<Rightarrow> (Reject TokenInvalidError, p1)
                            | Some user \<Rightarrow>
                                if u_status user = DEACTIVATED then (Reject TokenInvalidError, p1)
                                else if (case get_revoke_before now (rt_user_id existing) c1 of
                                           None \<Rightarrow> False | Some rb \<Rightarrow> rt_issued_at existing \<le> rb)
                                then (Reject TokenInvalidError, p1)
                                else if REFRESH_IDLE_TIMEOUT < now -
                                       (case rt_last_used_at existing of None \<Rightarrow> rt_issued_at existing | Some x \<Rightarrow> x)
                                then (Reject TokenInvalidError, p1)
                                else (Proceed token_hash user, p1))))"

definition rotate_consume ::
  "libs \<Rightarrow> request \<Rightarrow> string \<Rightarrow> user \<Rightarrow> portal \<Rightarrow> refresh_response outcome \<times> portal" where
  "rotate_consume L rq token_hash user p =
     (let t = rq_db_now rq in
      case consume_refresh_token t token_hash (database p) of
        (None, _) \<Rightarrow>
          (Inl TokenInvalidError,
           case get_refresh_token_by_hash token_hash (database p) of
             None \<Rightarrow> p
           | Some raced \<Rightarrow> handle_reuse_or_race rq raced p)
      | (Some consumed, d1) \<Rightarrow>
          let (new_raw_token, new_token_hash) = generate_refresh_token L (rq_token rq 0);
              jti = rq_uuid rq 0;
              session_expires_at = rq_now rq + seconds (access_token_ttl_seconds get_settings)
          in case create_refresh_token t new_token_hash (rt_family_id consumed) (rt_user_id consumed)
                    (rt_expires_at consumed) (Some (rq_ip rq)) (rq_user_agent rq) (Some (rq_now rq)) d1 of
               Inl e \<Rightarrow> (Inl (DatabaseError e), p)
             | Inr d2 \<Rightarrow>
                 (case create_session t (rt_user_id consumed) jti session_expires_at d2 of
                    Inl e \<Rightarrow> (Inl (DatabaseError e), p)
                  | Inr d3 \<Rightarrow>
                      let (tok, deadline) = encode_access_token_for_user L rq user jti d3
                      in (Inr (RefreshResponse tok (access_token_ttl_seconds get_settings) deadline new_raw_token),
                          p\<lparr>database := d3\<rparr>)))"

definition rotate_refresh_token ::
  "libs \<Rightarrow> request \<Rightarrow> string option \<Rightarrow> portal \<Rightarrow> refresh_response outcome \<times> portal" where
  "rotate_refresh_token L rq raw_token p =
     (case rotate_checks L rq raw_token p of
        (Reject e, p1) \<Rightarrow> (Inl e, p1)
      | (Reused existing, p1) \<Rightarrow> (Inl TokenInvalidError, handle_reuse_or_race rq existing p1)
      | (Proceed token_hash user, p1) \<Rightarrow> rotate_consume L rq token_hash user p1)"

end
