(* ===== verification/Sample_Library.thy ===== *)
theory Sample_Library
  imports Security
begin

text \<open>
  A concrete library that satisfies the hypotheses on the third-party primitives: tokens are payloads
  written with a prefix code, so that they decode to what was encoded. The witnesses of the
  properties that assume \<open>jwt_sound\<close> run on it.

  Codes for options, lists and products are built from codes for their parts, as instances of the locale
  \<open>prefix_code\<close>.
\<close>

definition put_nat :: "nat \<Rightarrow> string" where
  "put_nat n = replicate n (CHR ''1'') @ ''0''"

fun get_nat :: "string \<Rightarrow> nat \<times> string" where
  "get_nat [] = (0, [])"
| "get_nat (c # s) = (if c = CHR ''1'' then map_prod Suc id (get_nat s) else (0, s))"

interpretation nat_code: prefix_code put_nat get_nat
proof
  show "get_nat (put_nat n @ rest) = (n, rest)" for n rest
    by (induction n) (simp_all add: put_nat_def)
qed

definition put_int :: "int \<Rightarrow> string" where
  "put_int i = (if i < 0 then CHR ''-'' # put_nat (nat (- i)) else CHR ''+'' # put_nat (nat i))"

definition get_int :: "string \<Rightarrow> int \<times> string" where
  "get_int s = map_prod (\<lambda>n. if hd s = CHR ''-'' then - int n else int n) id (get_nat (tl s))"

interpretation int_code: prefix_code put_int get_int
  by unfold_locales (simp add: put_int_def get_int_def nat_code.get_put)

definition put_string :: "string \<Rightarrow> string" where
  "put_string s = put_nat (length s) @ s"

definition get_string :: "string \<Rightarrow> string \<times> string" where
  "get_string s = (let (n, r) = get_nat s in (take n r, drop n r))"

interpretation string_code: prefix_code put_string get_string
  by unfold_locales (simp add: put_string_def get_string_def nat_code.get_put)

definition put_option :: "('a \<Rightarrow> string) \<Rightarrow> 'a option \<Rightarrow> string" where
  "put_option p x = (case x of None \<Rightarrow> ''n'' | Some y \<Rightarrow> CHR ''s'' # p y)"

definition get_option :: "(string \<Rightarrow> 'a \<times> string) \<Rightarrow> string \<Rightarrow> 'a option \<times> string" where
  "get_option g s = (if hd s = CHR ''n'' then (None, tl s) else map_prod Some id (g (tl s)))"

fun get_items :: "(string \<Rightarrow> 'a \<times> string) \<Rightarrow> nat \<Rightarrow> string \<Rightarrow> 'a list \<times> string" where
  "get_items g 0 s = ([], s)"
| "get_items g (Suc n) s = (let (x, r) = g s; (xs, r') = get_items g n r in (x # xs, r'))"

definition put_list :: "('a \<Rightarrow> string) \<Rightarrow> 'a list \<Rightarrow> string" where
  "put_list p xs = put_nat (length xs) @ concat (map p xs)"

definition get_list :: "(string \<Rightarrow> 'a \<times> string) \<Rightarrow> string \<Rightarrow> 'a list \<times> string" where
  "get_list g s = (let (n, r) = get_nat s in get_items g n r)"

context prefix_code
begin

lemma option_code: "prefix_code (put_option put) (get_option get)"
  by unfold_locales (auto simp: put_option_def get_option_def get_put split: option.splits)

lemma get_items_put: "get_items get (length xs) (concat (map put xs) @ rest) = (xs, rest)"
  by (induction xs) (simp_all add: get_put)

lemma list_code: "prefix_code (put_list put) (get_list get)"
  by unfold_locales (simp add: put_list_def get_list_def nat_code.get_put get_items_put)

end

definition put_uuid :: "uuid \<Rightarrow> string" where
  "put_uuid u = put_nat (unat u)"

definition get_uuid :: "string \<Rightarrow> uuid \<times> string" where
  "get_uuid s = map_prod of_nat id (get_nat s)"

interpretation uuid_code: prefix_code put_uuid get_uuid
  by unfold_locales (simp add: put_uuid_def get_uuid_def nat_code.get_put)

definition put_bool :: "bool \<Rightarrow> string" where
  "put_bool b = (if b then ''t'' else ''f'')"

definition get_bool :: "string \<Rightarrow> bool \<times> string" where
  "get_bool s = (hd s = CHR ''t'', tl s)"

interpretation bool_code: prefix_code put_bool get_bool
  by unfold_locales (simp add: put_bool_def get_bool_def)

definition put_payload :: "jwt_payload \<Rightarrow> string" where
  "put_payload p = put_option put_uuid (jp_sub p) @ put_option put_uuid (jp_jti p) @ put_option put_int (jp_exp p)
     @ put_option (put_list put_string) (jp_scopes p) @ put_option put_bool (jp_mfa_enrollment_required p)"

definition get_payload :: "string \<Rightarrow> jwt_payload \<times> string" where
  "get_payload s =
     (let (sub, s1) = get_option get_uuid s; (jti, s2) = get_option get_uuid s1; (e, s3) = get_option get_int s2;
          (scopes, s4) = get_option (get_list get_string) s3; (mfa, s5) = get_option get_bool s4
      in (\<lparr>jp_sub = sub, jp_jti = jti, jp_exp = e, jp_scopes = scopes, jp_mfa_enrollment_required = mfa\<rparr>, s5))"

lemmas payload_parts = prefix_code.get_put [OF uuid_code.option_code] prefix_code.get_put [OF int_code.option_code]
  prefix_code.get_put [OF prefix_code.option_code [OF string_code.list_code]] prefix_code.get_put [OF bool_code.option_code]

interpretation payload_code: prefix_code put_payload get_payload
  by unfold_locales (simp add: put_payload_def get_payload_def payload_parts)

definition sample_libs :: libs where
  "sample_libs = zero_libs\<lparr>jwt_encode := (\<lambda>k p. put_payload p),
     jwt_decode := (\<lambda>k t s. let p = fst (get_payload s) in
       case jp_exp p of None \<Rightarrow> Some p | Some e \<Rightarrow> if seconds e \<le> t then None else Some p)\<rparr>"

lemma sample_libs_jwt: "jwt_sound sample_libs"
  by (simp add: jwt_sound_def sample_libs_def payload_code.get_put_whole Let_def split: option.splits)

end
