(* ===== verification/Profile.thy ===== *)
theory Profile
  imports Audit_Chain Json Users_Sessions Sample_Library
begin

text \<open>
  \<open>app/modules/profile\<close>: the self-service profile with its optimistic concurrency control, and the
  e-mail change that a token sent to the new address confirms.

  A request body is the list of its members in order; its names are distinct, as in a Python
  dictionary. The messages Pydantic words itself are the parameter \<open>pydantic_msg\<close>.

  \<open>UPDATE\<close> statements issued through the ORM also update the row the session has loaded, so the values
  the service reads from \<open>user\<close> after them are the new ones; \<open>synced\<close> below is that object.
\<close>

section \<open>Request bodies\<close>

type_synonym body = "(string \<times> json) list"

definition pydantic_error :: "libs \<Rightarrow> string \<Rightarrow> string \<Rightarrow> json \<Rightarrow> field_error" where
  "pydantic_error L name code v = \<lparr>fe_field = name, fe_message = pydantic_msg L code v, fe_code = code\<rparr>"

text \<open>A member of type \<open>str | None\<close>.\<close>

definition check_str :: "libs \<Rightarrow> body \<Rightarrow> string \<Rightarrow> field_error list" where
  "check_str L b name =
     (case map_of b name of
        None \<Rightarrow> [] | Some JNull \<Rightarrow> [] | Some (JStr s) \<Rightarrow> []
      | Some v \<Rightarrow> [pydantic_error L name ''string_type'' v])"

definition SUPPORTED_LOCALES :: "string list" where
  "SUPPORTED_LOCALES = [''en-US'', ''en-GB'']"

definition check_locale :: "libs \<Rightarrow> body \<Rightarrow> field_error list" where
  "check_locale L b =
     (case map_of b ''locale'' of
        None \<Rightarrow> [] | Some JNull \<Rightarrow> []
      | Some (JStr s) \<Rightarrow> if s \<in> set SUPPORTED_LOCALES then [] else [pydantic_error L ''locale'' ''enum'' (JStr s)]
      | Some v \<Rightarrow> [pydantic_error L ''locale'' ''enum'' v])"

definition check_timezone :: "libs \<Rightarrow> body \<Rightarrow> field_error list" where
  "check_timezone L b =
     (case map_of b ''timezone'' of
        Some (JStr s) \<Rightarrow>
          if s \<in> set (available_timezones L) then [] else [pydantic_error L ''timezone'' ''value_error'' (JStr s)]
      | _ \<Rightarrow> check_str L b ''timezone'')"

definition check_extra :: "libs \<Rightarrow> body \<Rightarrow> string list \<Rightarrow> field_error list" where
  "check_extra L b declared =
     map (\<lambda>(k, v). pydantic_error L k ''extra_forbidden'' v) (filter (\<lambda>(k, v). k \<notin> set declared) b)"

definition str_member :: "body \<Rightarrow> string \<Rightarrow> string option" where
  "str_member b name = (case map_of b name of Some (JStr s) \<Rightarrow> Some s | _ \<Rightarrow> None)"

text \<open>\<open>ProfileUpdate\<close>: the validated payload. A member that is absent and one that is \<open>null\<close> are both
  \<open>None\<close>; the service treats them alike.\<close>

record profile_update =
  pu_display_name :: "string option"
  pu_locale :: "string option"
  pu_timezone :: "string option"
  pu_avatar_url :: "string option"
  pu_email :: "string option"
  pu_current_password :: "string option"

definition validate_profile_update :: "libs \<Rightarrow> body \<Rightarrow> field_error list + profile_update" where
  "validate_profile_update L b =
     (let errors = check_str L b ''display_name'' @ check_locale L b @ check_timezone L b
            @ check_str L b ''avatar_url'' @ check_str L b ''email'' @ check_str L b ''current_password''
            @ check_extra L b [''display_name'', ''locale'', ''timezone'', ''avatar_url'', ''email'', ''current_password'']
      in if errors \<noteq> [] then Inl errors
         else Inr \<lparr>pu_display_name = str_member b ''display_name'', pu_locale = str_member b ''locale'',
           pu_timezone = str_member b ''timezone'', pu_avatar_url = str_member b ''avatar_url'',
           pu_email = str_member b ''email'', pu_current_password = str_member b ''current_password''\<rparr>)"

section \<open>Repository\<close>

definition get_by_email_ci :: "string \<Rightarrow> db \<Rightarrow> sql_error + user option" where
  "get_by_email_ci email d = scalar_one_or_none (filter (\<lambda>u. lower (u_email u) = lower email) (users d))"

text \<open>The columns a profile update may name, with their lengths.\<close>

definition set_column :: "string \<Rightarrow> string option \<Rightarrow> user \<Rightarrow> user" where
  "set_column c v u =
     (if c = ''display_name'' then u\<lparr>u_display_name := v\<rparr>
      else if c = ''locale'' then u\<lparr>u_locale := v\<rparr>
      else if c = ''timezone'' then u\<lparr>u_timezone := v\<rparr>
      else if c = ''avatar_url'' then u\<lparr>u_avatar_url := v\<rparr>
      else u)"

definition get_column :: "string \<Rightarrow> user \<Rightarrow> string option" where
  "get_column c u =
     (if c = ''display_name'' then u_display_name u
      else if c = ''locale'' then u_locale u
      else if c = ''timezone'' then u_timezone u
      else if c = ''avatar_url'' then u_avatar_url u
      else None)"

definition column_length :: "string \<Rightarrow> nat" where
  "column_length c =
     (if c = ''display_name'' then 255 else if c = ''locale'' then 35 else if c = ''timezone'' then 64 else 2048)"

definition set_columns :: "(string \<times> string option) list \<Rightarrow> user \<Rightarrow> user" where
  "set_columns fs u = fold (\<lambda>(c, v). set_column c v) fs u"

definition update_fields :: "uuid \<Rightarrow> (string \<times> string option) list \<Rightarrow> db \<Rightarrow> sql_error + db" where
  "update_fields user_id fs d =
     (if fs = [] then Inr d
      else if get_by_id user_id d \<noteq> None \<and> list_ex (\<lambda>(c, v). \<not> fits (column_length c) v) fs then Inl DataError
      else Inr (update_user user_id (set_columns fs) d))"

definition set_pending_email :: "uuid \<Rightarrow> string \<Rightarrow> db \<Rightarrow> sql_error + db" where
  "set_pending_email user_id pending_email d =
     (if get_by_id user_id d \<noteq> None \<and> 320 < length pending_email then Inl DataError
      else Inr (update_user user_id (\<lambda>u. u\<lparr>u_pending_email := Some pending_email\<rparr>) d))"

text \<open>\<open>None\<close> where the unique constraint on \<open>users.email\<close> fires and the transaction is rolled back.\<close>

definition apply_email_change :: "uuid \<Rightarrow> string \<Rightarrow> db \<Rightarrow> db option" where
  "apply_email_change user_id new_email d =
     (if get_by_id user_id d \<noteq> None \<and> list_ex (\<lambda>u. u_id u \<noteq> user_id \<and> u_email u = new_email) (users d) then None
      else Some (update_user user_id (\<lambda>u. u\<lparr>u_email := new_email, u_pending_email := None\<rparr>) d))"

definition create_email_change_token :: "datetime \<Rightarrow> uuid \<Rightarrow> uuid \<Rightarrow> string \<Rightarrow> datetime \<Rightarrow> db \<Rightarrow> sql_error + db" where
  "create_email_change_token t tid user_id token_hash expires_at d =
     (let k = \<lparr>ect_id = tid, ect_user_id = user_id, ect_token_hash = token_hash, ect_issued_at = t,
                ect_expires_at = expires_at, ect_consumed_at = None\<rparr> in
      if tid \<in> ect_id ` set (email_change_tokens d) then Inl IntegrityError
      else map_sum id (\<lambda>rows. d\<lparr>email_change_tokens := rows\<rparr>)
        (insert_unique ect_token_hash k (email_change_tokens d)))"

definition get_email_change_token_by_hash :: "string \<Rightarrow> db \<Rightarrow> email_change_token option" where
  "get_email_change_token_by_hash token_hash d =
     find_row (\<lambda>k. ect_token_hash k = token_hash) (email_change_tokens d)"

definition consume_change_rows ::
  "datetime \<Rightarrow> uuid \<Rightarrow> email_change_token list \<Rightarrow> email_change_token option \<times> email_change_token list" where
  "consume_change_rows t i = update_returning (\<lambda>k. ect_id k = i \<and> ect_consumed_at k = None)
     (\<lambda>k. k\<lparr>ect_consumed_at := Some t\<rparr>)"

definition consume_email_change_token :: "datetime \<Rightarrow> uuid \<Rightarrow> db \<Rightarrow> bool \<times> db" where
  "consume_email_change_token t token_id d =
     (let (k, rows) = consume_change_rows t token_id (email_change_tokens d)
      in (k \<noteq> None, d\<lparr>email_change_tokens := rows\<rparr>))"

interpretation change_consume: consumable consume_change_rows ect_id
  "\<lambda>k. ect_consumed_at k \<noteq> None" "\<lambda>t k. k\<lparr>ect_consumed_at := Some t\<rparr>"
  by unfold_locales (simp_all add: consume_change_rows_def query_defs)

text \<open>The audit rows of one request, which the commit inserts.\<close>

definition insert_profile_audit :: "profile_audit_log list \<Rightarrow> db \<Rightarrow> sql_error + db" where
  "insert_profile_audit rows d =
     (if list_ex (\<lambda>r. 64 < length (pal_request_id r)) rows then Inl DataError
      else Inr (d\<lparr>profile_audit_logs := profile_audit_logs d @ rows\<rparr>))"

section \<open>Service: partial update\<close>

definition etag_fields :: "user \<Rightarrow> (string \<times> string option) list" where
  "etag_fields u = [(''display_name'', u_display_name u), (''locale'', u_locale u), (''timezone'', u_timezone u),
     (''avatar_url'', u_avatar_url u), (''email'', Some (u_email u)), (''pending_email'', u_pending_email u)]"

definition IMMUTABLE_FIELD_NAMES :: "string list" where
  "IMMUTABLE_FIELD_NAMES = [''id'', ''created_at'', ''role'', ''email_verified'', ''pending_email'']"

record profile_read =
  prf_id :: uuid
  prf_email :: string
  prf_pending_email :: "string option"
  prf_display_name :: "string option"
  prf_locale :: "string option"
  prf_timezone :: "string option"
  prf_avatar_url :: "string option"
  prf_email_verified :: bool
  prf_created_at :: datetime

definition field_updates_of :: "profile_update \<Rightarrow> (string \<times> string option) list" where
  "field_updates_of pu = filter (\<lambda>(c, v). v \<noteq> None)
     [(''display_name'', pu_display_name pu), (''locale'', pu_locale pu), (''timezone'', pu_timezone pu),
      (''avatar_url'', pu_avatar_url pu)]"

definition issue_email_change_token :: "libs \<Rightarrow> request \<Rightarrow> uuid \<Rightarrow> db \<Rightarrow> sql_error + string \<times> db" where
  "issue_email_change_token L rq user_id d =
     (let raw_token = rq_token rq 0;
          expires_at = rq_now rq + hours (email_change_token_ttl_hours get_settings)
      in map_sum id (Pair raw_token)
           (create_email_change_token (rq_db_now rq) (rq_uuid rq 0) user_id (sha256_hex L raw_token) expires_at d))"

definition profile_audit :: "request \<Rightarrow> uuid \<Rightarrow> string \<Rightarrow> string option \<Rightarrow> string option \<Rightarrow> profile_audit_log" where
  "profile_audit rq actor_id field old_value new_value =
     \<lparr>pal_actor_id = actor_id, pal_field = field, pal_old_value = old_value, pal_new_value = new_value,
      pal_request_id = rq_request_id rq, pal_timestamp = rq_db_now rq\<rparr>"

text \<open>The statements between the checks and the commit.\<close>

definition profile_update_tx ::
  "libs \<Rightarrow> request \<Rightarrow> user \<Rightarrow> (string \<times> string option) list \<Rightarrow> string option \<Rightarrow> db \<Rightarrow> sql_error + db" where
  "profile_update_tx L rq user field_updates new_email d =
     (let uid = u_id user; synced = (\<lambda>u. case new_email of None \<Rightarrow> u | Some e \<Rightarrow> u\<lparr>u_pending_email := Some e\<rparr>)
            (set_columns field_updates user)
      in case update_fields uid field_updates d of
           Inl e \<Rightarrow> Inl e
         | Inr d1 \<Rightarrow>
             (case (case new_email of
                      None \<Rightarrow> Inr d1
                    | Some email \<Rightarrow>
                        (case set_pending_email uid email d1 of
                           Inl e \<Rightarrow> Inl e
                         | Inr d2 \<Rightarrow> map_sum id snd (issue_email_change_token L rq uid d2))) of
                Inl e \<Rightarrow> Inl e
              | Inr d3 \<Rightarrow>
                  insert_profile_audit
                    (map (\<lambda>(c, v). profile_audit rq uid c (get_column c user) v) field_updates
                     @ (if new_email = None then []
                        else [profile_audit rq uid ''pending_email'' (u_pending_email synced) new_email])) d3))"

definition only_with_email_error :: field_error where
  "only_with_email_error = \<lparr>fe_field = ''current_password'',
     fe_message = ''current_password may only be submitted together with email.'', fe_code = ''unknown_field''\<rparr>"

text \<open>The checks of an e-mail change: the current password, and that no other account has the address.\<close>

definition check_email_change :: "libs \<Rightarrow> user \<Rightarrow> profile_update \<Rightarrow> db \<Rightarrow> portal_error option" where
  "check_email_change L user payload d =
     (case pu_email payload of
        None \<Rightarrow> None
      | Some email \<Rightarrow>
          let password = (case pu_current_password payload of None \<Rightarrow> '''' | Some s \<Rightarrow> s) in
          if \<not> verify_password L password (u_hashed_password user) then Some (ProfileError ReauthenticationRequiredError)
          else case get_by_email_ci email d of
                 Inl e \<Rightarrow> Some (DatabaseError e)
               | Inr None \<Rightarrow> None
               | Inr (Some existing) \<Rightarrow>
                   if u_id existing \<noteq> u_id user then Some (ProfileError ProfileDuplicateEmailError) else None)"

text \<open>The value after a change: \<open>field_updates.get(c, user.c)\<close>.\<close>

definition updated :: "string option \<Rightarrow> string option \<Rightarrow> string option" where
  "updated new old = (case new of None \<Rightarrow> old | Some v \<Rightarrow> Some v)"

definition apply_partial_update ::
  "libs \<Rightarrow> request \<Rightarrow> uuid \<Rightarrow> body \<Rightarrow> string option \<Rightarrow> portal \<Rightarrow> (profile_read \<times> string \<times> bool) outcome \<times> portal" where
  "apply_partial_update L rq user_id raw_body if_match p =
     (case get_by_id user_id (database p) of
        None \<Rightarrow> (Inl (RuntimeError ''authenticated session references a user that no longer exists''), p)
      | Some user \<Rightarrow>
          if if_match = None then (Inl (ProfileError ProfilePreconditionRequiredError), p)
          else if if_match \<noteq> Some ''*'' \<and> if_match \<noteq> Some (compute_profile_etag L (etag_fields user)) then
            (Inl (ProfileError ProfilePreconditionFailedError), p)
          else if list_ex (\<lambda>(k, v). k \<in> set IMMUTABLE_FIELD_NAMES) raw_body then
            (Inl (ProfileError ProfileImmutableFieldError), p)
          else case validate_profile_update L raw_body of
            Inl errors \<Rightarrow> (Inl (ProfileError (ProfileValidationFailedError errors)), p)
          | Inr payload \<Rightarrow>
              if pu_current_password payload \<noteq> None \<and> pu_email payload = None then
                (Inl (ProfileError (ProfileValidationFailedError [only_with_email_error])), p)
              else case check_email_change L user payload (database p) of
                Some e \<Rightarrow> (Inl e, p)
              | None \<Rightarrow>
                  (case profile_update_tx L rq user (field_updates_of payload) (pu_email payload) (database p) of
                     Inl e \<Rightarrow> (Inl (DatabaseError e), p)
                   | Inr d \<Rightarrow>
                       let final_fields = [(''display_name'', updated (pu_display_name payload) (u_display_name user)),
                             (''locale'', updated (pu_locale payload) (u_locale user)),
                             (''timezone'', updated (pu_timezone payload) (u_timezone user)),
                             (''avatar_url'', updated (pu_avatar_url payload) (u_avatar_url user)),
                             (''email'', Some (u_email user)),
                             (''pending_email'', updated (pu_email payload) (u_pending_email user))];
                           profile = \<lparr>prf_id = u_id user, prf_email = u_email user,
                             prf_pending_email = updated (pu_email payload) (u_pending_email user),
                             prf_display_name = updated (pu_display_name payload) (u_display_name user),
                             prf_locale = updated (pu_locale payload) (u_locale user),
                             prf_timezone = updated (pu_timezone payload) (u_timezone user),
                             prf_avatar_url = updated (pu_avatar_url payload) (u_avatar_url user),
                             prf_email_verified = u_email_verified user, prf_created_at = u_created_at user\<rparr>;
                           p1 = p\<lparr>database := d\<rparr>
                       in (Inr (profile, compute_profile_etag L final_fields, pu_email payload \<noteq> None),
                           case pu_email payload of
                             None \<Rightarrow> p1
                           | Some email \<Rightarrow> send_email rq (EmailChangeNotice (u_email user))
                               (send_email rq (EmailChangeConfirmation email (rq_token rq 0)) p1))))"

text \<open>The route: 202 without a tag when an e-mail change was initiated, else 200 with the new tag.\<close>

definition update_profile ::
  "libs \<Rightarrow> request \<Rightarrow> authenticated_user \<Rightarrow> body \<Rightarrow> string option \<Rightarrow> portal
    \<Rightarrow> (nat \<times> profile_read \<times> string option) outcome \<times> portal" where
  "update_profile L rq current_user raw_body if_match p =
     (case apply_partial_update L rq (au_user_id current_user) raw_body if_match p of
        (Inl e, p1) \<Rightarrow> (Inl e, p1)
      | (Inr (profile, etag, initiated), p1) \<Rightarrow>
          (Inr (if initiated then (202, profile, None) else (200, profile, Some etag)), p1))"

section \<open>Service: confirmation\<close>

text \<open>\<open>str.partition\<close> at the first blank.\<close>

definition partition_blank :: "string \<Rightarrow> string \<times> string" where
  "partition_blank s = (takeWhile (\<lambda>c. c \<noteq> CHR '' '') s, tl (dropWhile (\<lambda>c. c \<noteq> CHR '' '') s))"

definition resolve_exempt_jti :: "libs \<Rightarrow> request \<Rightarrow> string option \<Rightarrow> uuid option" where
  "resolve_exempt_jti L rq authorization =
     (case authorization of
        None \<Rightarrow> None
      | Some header \<Rightarrow>
          let (scheme, token) = partition_blank header in
          if lower scheme \<noteq> ''bearer'' \<or> token = [] then None
          else map_option ac_jti (decode_access_token L (rq_now rq) token))"

definition confirm_email_change ::
  "libs \<Rightarrow> request \<Rightarrow> string option \<Rightarrow> string option \<Rightarrow> portal \<Rightarrow> string outcome \<times> portal" where
  "confirm_email_change L rq raw_token authorization p =
     (let d = database p; t = rq_db_now rq; invalid = (Inl (ProfileError EmailChangeTokenInvalidError), p) in
      case raw_token of
        None \<Rightarrow> invalid
      | Some raw \<Rightarrow>
          if raw = [] then invalid
          else case get_email_change_token_by_hash (sha256_hex L raw) d of
            None \<Rightarrow> invalid
          | Some token \<Rightarrow>
              if ect_consumed_at token \<noteq> None then invalid
              else if ect_expires_at token \<le> rq_now rq then (Inl (ProfileError EmailChangeTokenExpiredError), p)
              else case consume_email_change_token t (ect_id token) d of
                (False, _) \<Rightarrow> invalid
              | (True, d1) \<Rightarrow>
                  (case get_by_id (ect_user_id token) d1 of
                     None \<Rightarrow> invalid
                   | Some user \<Rightarrow>
                       (case u_pending_email user of
                          None \<Rightarrow> invalid
                        | Some new_email \<Rightarrow>
                            (case apply_email_change (ect_user_id token) new_email d1 of
                               None \<Rightarrow> (Inl (ProfileError ProfileDuplicateEmailError), p)
                             | Some d2 \<Rightarrow>
                                 (case insert_profile_audit
                                         [profile_audit rq (ect_user_id token) ''email'' (Some (u_email user)) (Some new_email)] d2 of
                                    Inl e \<Rightarrow> (Inl (DatabaseError e), p)
                                  | Inr d3 \<Rightarrow>
                                      (Inr new_email,
                                       revoke_other_sessions rq (ect_user_id token)
                                         (resolve_exempt_jti L rq authorization) (p\<lparr>database := d3\<rparr>)))))))"

section \<open>Facts\<close>

lemma set_columns_Nil [simp]: "set_columns [] u = u"
  by (simp add: set_columns_def)

lemma set_columns_Cons [simp]: "set_columns ((c, v) # fs) u = set_columns fs (set_column c v u)"
  by (simp add: set_columns_def)

lemma set_column_id [simp]: "u_id (set_column c v u) = u_id u"
  by (simp add: set_column_def)

lemma set_columns_id [simp]: "u_id (set_columns fs u) = u_id u"
  by (induction fs arbitrary: u) auto

text \<open>The row after the columns of a validated payload were set.\<close>

definition profile_row :: "profile_update \<Rightarrow> user \<Rightarrow> user" where
  "profile_row pu u = u\<lparr>u_display_name := updated (pu_display_name pu) (u_display_name u),
     u_locale := updated (pu_locale pu) (u_locale u), u_timezone := updated (pu_timezone pu) (u_timezone u),
     u_avatar_url := updated (pu_avatar_url pu) (u_avatar_url u),
     u_pending_email := updated (pu_email pu) (u_pending_email u)\<rparr>"

lemma set_columns_updates:
  "set_columns (field_updates_of pu) u = u\<lparr>u_display_name := updated (pu_display_name pu) (u_display_name u),
     u_locale := updated (pu_locale pu) (u_locale u), u_timezone := updated (pu_timezone pu) (u_timezone u),
     u_avatar_url := updated (pu_avatar_url pu) (u_avatar_url u)\<rparr>"
  by (cases "pu_display_name pu"; cases "pu_locale pu"; cases "pu_timezone pu"; cases "pu_avatar_url pu")
    (simp_all add: field_updates_of_def updated_def set_column_def)

lemma etag_fields_profile_row:
  "etag_fields (profile_row pu u) = [(''display_name'', updated (pu_display_name pu) (u_display_name u)),
     (''locale'', updated (pu_locale pu) (u_locale u)), (''timezone'', updated (pu_timezone pu) (u_timezone u)),
     (''avatar_url'', updated (pu_avatar_url pu) (u_avatar_url u)), (''email'', Some (u_email u)),
     (''pending_email'', updated (pu_email pu) (u_pending_email u))]"
  by (simp add: etag_fields_def profile_row_def)

lemma update_fields_Inr:
  "update_fields i fs d = Inr d' \<Longrightarrow> d' = update_user i (set_columns fs) d"
  by (auto simp: update_fields_def update_user_def update_rows_def map_idI split: if_splits)

lemma update_user_twice: "update_user i g (update_user i f d) = update_user i (\<lambda>u. g (f u)) d" if "\<And>u. u_id (f u) = u_id u"
  using that by (simp add: update_user_def update_rows_def)

text \<open>The transaction writes the columns of the account's own row, its token and its audit rows.\<close>

lemma profile_update_tx_Inr:
  assumes "profile_update_tx L rq user (field_updates_of pu) (pu_email pu) d = Inr d'"
  shows "\<exists>ts ls. d' = (update_user (u_id user) (profile_row pu) d)\<lparr>email_change_tokens := ts, profile_audit_logs := ls\<rparr>"
proof (cases "pu_email pu")
  case None
  then have "profile_row pu = set_columns (field_updates_of pu)"
    by (simp add: fun_eq_iff set_columns_updates profile_row_def updated_def)
  with None assms obtain ls where "d' = (update_user (u_id user) (profile_row pu) d)\<lparr>profile_audit_logs := ls\<rparr>"
    by (auto simp: profile_update_tx_def insert_profile_audit_def Let_def split: sum.splits if_splits
        dest!: update_fields_Inr)
  then show ?thesis by (intro exI [of _ "email_change_tokens d"] exI [of _ ls]) (simp add: update_user_def)
next
  case (Some e)
  then have r: "profile_row pu = (\<lambda>u. (set_columns (field_updates_of pu) u)\<lparr>u_pending_email := Some e\<rparr>)"
    by (simp add: fun_eq_iff set_columns_updates profile_row_def updated_def)
  from Some assms obtain d1 d2 d3 where "update_fields (u_id user) (field_updates_of pu) d = Inr d1"
      "set_pending_email (u_id user) e d1 = Inr d2" "map_sum id snd (issue_email_change_token L rq (u_id user) d2) = Inr d3"
      and ls: "\<exists>ls. d' = d3\<lparr>profile_audit_logs := ls\<rparr>"
    by (auto simp: profile_update_tx_def insert_profile_audit_def Let_def split: sum.splits if_splits)
  moreover from this(3) have ts: "\<exists>ts. d3 = d2\<lparr>email_change_tokens := ts\<rparr>"
    by (auto simp: issue_email_change_token_def create_email_change_token_def Let_def insert_unique_def split: if_splits)
  moreover from calculation(2) have "d2 = update_user (u_id user) (\<lambda>u. u\<lparr>u_pending_email := Some e\<rparr>) d1"
    by (auto simp: set_pending_email_def split: if_splits)
  ultimately have "d2 = update_user (u_id user) (profile_row pu) d" by (simp add: r update_fields_Inr [where d' = d1] update_user_twice)
  with ls ts show ?thesis by metis
qed

lemma get_by_id_profile_row:
  assumes "get_by_id uid d = Some u"
  shows "get_by_id i ((update_user uid (profile_row pu) d)\<lparr>email_change_tokens := ts, profile_audit_logs := ls\<rparr>)
    = (if i = uid then Some (profile_row pu u) else get_by_id i d)"
proof -
  have "get_by_id i (update_user uid (profile_row pu) d)
      = (if i = uid then map_option (profile_row pu) (get_by_id i d) else get_by_id i d)"
    by (rule get_by_id_update_user) (simp add: profile_row_def)
  moreover have "get_by_id i (d'\<lparr>email_change_tokens := ts, profile_audit_logs := ls\<rparr>) = get_by_id i d'" for d'
    by (simp add: get_by_id_def)
  ultimately show ?thesis by (simp add: assms)
qed

lemma validate_profile_update_Inr:
  "validate_profile_update L b = Inr pu \<Longrightarrow> pu = \<lparr>pu_display_name = str_member b ''display_name'',
     pu_locale = str_member b ''locale'', pu_timezone = str_member b ''timezone'',
     pu_avatar_url = str_member b ''avatar_url'', pu_email = str_member b ''email'',
     pu_current_password = str_member b ''current_password''\<rparr>"
  by (auto simp: validate_profile_update_def Let_def split: if_splits)

text \<open>The only successful path.\<close>

lemma apply_partial_update_Inr:
  assumes "apply_partial_update L rq uid b im p = (Inr (prof, tag, initiated), p')"
  obtains u pu where "get_by_id uid (database p) = Some u"
    "im = Some ''*'' \<or> im = Some (compute_profile_etag L (etag_fields u))"
    "validate_profile_update L b = Inr pu" "check_email_change L u pu (database p) = None"
    "profile_update_tx L rq u (field_updates_of pu) (pu_email pu) (database p) = Inr (database p')"
    "tag = compute_profile_etag L (etag_fields (profile_row pu u))" "initiated \<longleftrightarrow> pu_email pu \<noteq> None"
    "cache p' = cache p" "\<not> list_ex (\<lambda>(k, v). k \<in> set IMMUTABLE_FIELD_NAMES) b"
proof -
  from assms obtain u where u: "get_by_id uid (database p) = Some u"
    by (auto simp: apply_partial_update_def split: option.splits)
  with assms obtain pu where pu: "validate_profile_update L b = Inr pu" "check_email_change L u pu (database p) = None"
    by (auto simp: apply_partial_update_def split: if_splits sum.splits option.splits)
  with assms u obtain d where "profile_update_tx L rq u (field_updates_of pu) (pu_email pu) (database p) = Inr d"
    by (auto simp: apply_partial_update_def split: if_splits sum.splits)
  with assms u pu that [of u pu] show thesis
    by (cases "pu_email pu") (auto simp: apply_partial_update_def etag_fields_profile_row split: if_splits)
qed

lemma apply_partial_update_Inl: "apply_partial_update L rq uid b im p = (Inl e, p') \<Longrightarrow> p' = p"
  by (auto simp: apply_partial_update_def Let_def split: if_splits sum.splits option.splits)

section \<open>Optimistic concurrency\<close>

text \<open>
  A write that carries the tag of the version it was computed from. \<open>run\<close> is the operation as a
  function of its \<open>If-Match\<close> header, \<open>version\<close> what the tag of the current state covers. This
  contract is shared with the administrative update (\<^verbatim>\<open>Admin_Users\<close>).
\<close>

locale conditional_write =
  fixes run :: "libs \<Rightarrow> string option \<Rightarrow> portal \<Rightarrow> 'r outcome \<times> portal"
    and version :: "db \<Rightarrow> (string \<times> string option) list option"
    and refused :: portal_error
  assumes version_names: "version d = Some f \<Longrightarrow> version d' = Some f' \<Longrightarrow> map fst f = map fst f'"
    and version_distinct: "version d = Some f \<Longrightarrow> distinct (map fst f)"
    and gate: "version (database p) = Some f \<Longrightarrow> tag \<noteq> ''*'' \<Longrightarrow> tag \<noteq> compute_profile_etag L f
      \<Longrightarrow> run L (Some tag) p = (Inl refused, p)"
begin

lemma stale_write_refused:
  assumes "version (database p) = Some f" and "version (database p') = Some f'" and "f \<noteq> f'"
    and "sha256_hex L (json_object (rendered f)) = sha256_hex L (json_object (rendered f'))
      \<Longrightarrow> json_object (rendered f) = json_object (rendered f')"
  shows "run L (Some (compute_profile_etag L f)) p' = (Inl refused, p')"
proof (rule gate [OF assms(2)])
  show "compute_profile_etag L f \<noteq> ''*''" by (simp add: compute_profile_etag_def)
  show "compute_profile_etag L f \<noteq> compute_profile_etag L f'"
    using etag_eq_iff [OF version_names [OF assms(1,2)] version_distinct [OF assms(1)] assms(4)] assms(3) by simp
qed

end

interpretation profile_write: conditional_write "\<lambda>L. apply_partial_update L rq uid b"
  "\<lambda>d. map_option etag_fields (get_by_id uid d)" "ProfileError ProfilePreconditionFailedError" for rq uid b
  by unfold_locales (auto simp: etag_fields_def apply_partial_update_def)

section \<open>Properties\<close>

text \<open>C25. A profile update touches the caller's own row and only whitelisted columns. Either the request
  is refused and nothing changes, or the caller presented the current tag (or \<open>*\<close>), each of the four
  editable columns has the submitted string or its old value, an e-mail in the body (accepted only with the
  current password) becomes the pending address while the address itself stays, every other row and table
  except the token and profile audit tables is as before, and the returned tag is the tag of the row as
  stored.\<close>

theorem profile_update_spec:
  "case apply_partial_update L rq uid b im p of
     (Inl e, p') \<Rightarrow> p' = p
   | (Inr (prof, tag, initiated), p') \<Rightarrow>
       (\<exists>u pw ts ls. get_by_id uid (database p) = Some u
          \<and> (im = Some ''*'' \<or> im = Some (compute_profile_etag L (etag_fields u)))
          \<and> pw = (case str_member b ''current_password'' of None \<Rightarrow> [] | Some s \<Rightarrow> s)
          \<and> (if initiated then str_member b ''email'' \<noteq> None \<and> verify_password L pw (u_hashed_password u)
             else str_member b ''email'' = None)
          \<and> (let u' = u\<lparr>u_display_name := updated (str_member b ''display_name'') (u_display_name u),
                  u_locale := updated (str_member b ''locale'') (u_locale u),
                  u_timezone := updated (str_member b ''timezone'') (u_timezone u),
                  u_avatar_url := updated (str_member b ''avatar_url'') (u_avatar_url u),
                  u_pending_email := updated (str_member b ''email'') (u_pending_email u)\<rparr>
             in tag = compute_profile_etag L (etag_fields u')
                \<and> (\<forall>i. get_by_id i (database p') = (if i = uid then Some u' else get_by_id i (database p))))
          \<and> database p' = (database p)\<lparr>users := users (database p'), email_change_tokens := ts, profile_audit_logs := ls\<rparr>
          \<and> cache p' = cache p)"
proof (cases "apply_partial_update L rq uid b im p")
  case (Pair res p')
  show ?thesis
  proof (cases res)
    case (Inl e)
    then show ?thesis using Pair apply_partial_update_Inl by simp
  next
    case (Inr r)
    obtain prof tag initiated where r: "r = (prof, tag, initiated)" by (cases r)
    obtain u pu where h: "get_by_id uid (database p) = Some u"
        "im = Some ''*'' \<or> im = Some (compute_profile_etag L (etag_fields u))"
        "validate_profile_update L b = Inr pu" "check_email_change L u pu (database p) = None"
        "profile_update_tx L rq u (field_updates_of pu) (pu_email pu) (database p) = Inr (database p')"
        "tag = compute_profile_etag L (etag_fields (profile_row pu u))" "initiated \<longleftrightarrow> pu_email pu \<noteq> None"
        "cache p' = cache p"
      using apply_partial_update_Inr Pair Inr r by metis
    have pu: "pu = \<lparr>pu_display_name = str_member b ''display_name'', pu_locale = str_member b ''locale'',
        pu_timezone = str_member b ''timezone'', pu_avatar_url = str_member b ''avatar_url'',
        pu_email = str_member b ''email'', pu_current_password = str_member b ''current_password''\<rparr>"
      using h(3) by (rule validate_profile_update_Inr)
    have uid: "u_id u = uid" using h(1) by (auto dest: get_by_id_SomeD)
    from profile_update_tx_Inr [OF h(5)] obtain ts ls where d': "database p' =
        (update_user uid (profile_row pu) (database p))\<lparr>email_change_tokens := ts, profile_audit_logs := ls\<rparr>"
      by (auto simp: uid)
    have rows: "get_by_id i (database p') = (if i = uid then Some (profile_row pu u) else get_by_id i (database p))" for i
      using h(1) by (simp add: d' get_by_id_profile_row)
    have pw: "initiated \<Longrightarrow> verify_password L (case str_member b ''current_password'' of None \<Rightarrow> [] | Some s \<Rightarrow> s) (u_hashed_password u)"
      using h(4,7) by (auto simp: check_email_change_def pu Let_def split: if_splits option.splits)
    have "database p' = (database p)\<lparr>users := users (database p'), email_change_tokens := ts, profile_audit_logs := ls\<rparr>"
      by (simp add: d' update_user_def)
    then show ?thesis using h(1,2,6,7,8) rows pw unfolding Pair Inr r
      by (auto simp: Let_def profile_row_def pu)
  qed
qed

text \<open>Consuming a token of the table wins exactly if the token is unused.\<close>

lemma consume_change_own:
  assumes "distinct (map ect_id (email_change_tokens d))" and "k \<in> set (email_change_tokens d)"
  shows "consume_email_change_token t (ect_id k) d = (ect_consumed_at k = None,
    d\<lparr>email_change_tokens := snd (consume_change_rows t (ect_id k) (email_change_tokens d))\<rparr>)"
proof -
  have "find_row (\<lambda>x. ect_id x = ect_id k \<and> ect_consumed_at x = None) (email_change_tokens d) = None
      \<longleftrightarrow> ect_consumed_at k \<noteq> None"
    using assms by (auto simp: find_None_iff dest: distinct_key_eqD [of ect_id])
  then show ?thesis
    by (auto simp: consume_email_change_token_def change_consume.consume_eq)
qed

definition confirmable :: "request \<Rightarrow> email_change_token \<Rightarrow> db \<Rightarrow> bool" where
  "confirmable rq k d \<longleftrightarrow> ect_consumed_at k = None \<and> rq_now rq < ect_expires_at k \<and> length (rq_request_id rq) \<le> 64
     \<and> (case get_by_id (ect_user_id k) d of
          None \<Rightarrow> False
        | Some u \<Rightarrow> (case u_pending_email u of
            None \<Rightarrow> False
          | Some a \<Rightarrow> \<not> list_ex (\<lambda>x. u_id x \<noteq> ect_user_id k \<and> u_email x = a) (users d)))"

lemma confirm_email_change_iff:
  assumes "distinct (map ect_id (email_change_tokens (database p)))"
    and "get_email_change_token_by_hash (sha256_hex L raw) (database p) = Some k" and "raw \<noteq> []"
  shows "(\<exists>a. fst (confirm_email_change L rq (Some raw) auth p) = Inr a) \<longleftrightarrow> confirmable rq k (database p)"
proof -
  have k: "k \<in> set (email_change_tokens (database p))"
    using assms(2) by (auto simp: get_email_change_token_by_hash_def dest: find_row_SomeD)
  define rows where "rows = snd (consume_change_rows (rq_db_now rq) (ect_id k) (email_change_tokens (database p)))"
  have "get_by_id i (database p\<lparr>email_change_tokens := rows\<rparr>) = get_by_id i (database p)" for i
    by (simp add: get_by_id_def)
  then show ?thesis
    using assms(2,3) consume_change_own [OF assms(1) k, of "rq_db_now rq", folded rows_def]
    by (auto simp: confirm_email_change_def Let_def confirmable_def apply_email_change_def insert_profile_audit_def
        profile_audit_def split: option.splits)
qed

lemma confirm_used_change_token:
  "get_email_change_token_by_hash (sha256_hex L raw) (database p) = Some k \<Longrightarrow> ect_consumed_at k \<noteq> None \<Longrightarrow> raw \<noteq> []
   \<Longrightarrow> confirm_email_change L rq (Some raw) auth p = (Inl (ProfileError EmailChangeTokenInvalidError), p)"
  by (simp add: confirm_email_change_def)

lemma confirm_email_change_Inl: "confirm_email_change L rq raw auth p = (Inl e, p') \<Longrightarrow> p' = p"
  by (auto simp: confirm_email_change_def Let_def split: option.splits if_splits prod.splits bool.splits sum.splits)

text \<open>What a successful confirmation does.\<close>

lemma confirm_email_change_Inr:
  assumes "distinct (map ect_id (email_change_tokens (database p)))"
    and "get_email_change_token_by_hash (sha256_hex L raw) (database p) = Some k" and "raw \<noteq> []"
    and "confirm_email_change L rq (Some raw) auth p = (Inr addr, p')"
  obtains u ls where "get_by_id (ect_user_id k) (database p) = Some u" "u_pending_email u = Some addr"
    "get_email_change_token_by_hash (sha256_hex L raw) (database p') = Some (k\<lparr>ect_consumed_at := Some (rq_db_now rq)\<rparr>)"
    "\<And>i. get_by_id i (database p') = (if i = ect_user_id k then Some (u\<lparr>u_email := addr, u_pending_email := None\<rparr>)
       else get_by_id i (database p))"
    "user_sessions (database p') = user_sessions (revoke_sessions_except (rq_db_now rq) (ect_user_id k)
       (resolve_exempt_jti L rq auth) (database p))"
    "refresh_tokens (database p') = refresh_tokens (database p)" "cache p' = cache p"
proof -
  let ?d = "database p" and ?i = "ect_user_id k"
  have k: "k \<in> set (email_change_tokens ?d)" "ect_token_hash k = sha256_hex L raw"
    using assms(2) by (auto simp: get_email_change_token_by_hash_def dest: find_row_SomeD)
  define rows where "rows = snd (consume_change_rows (rq_db_now rq) (ect_id k) (email_change_tokens ?d))"
  have lookup: "get_by_id i (?d\<lparr>email_change_tokens := rows\<rparr>) = get_by_id i ?d" for i by (simp add: get_by_id_def)
  from assms(2-4) consume_change_own [OF assms(1) k(1), of "rq_db_now rq", folded rows_def]
  obtain u ls where live: "ect_consumed_at k = None" and u: "get_by_id ?i ?d = Some u" "u_pending_email u = Some addr"
    and p': "p' = revoke_other_sessions rq ?i (resolve_exempt_jti L rq auth)
      (p\<lparr>database := (update_user ?i (\<lambda>u. u\<lparr>u_email := addr, u_pending_email := None\<rparr>)
          (?d\<lparr>email_change_tokens := rows\<rparr>))\<lparr>profile_audit_logs := ls\<rparr>\<rparr>)"
    by (auto simp: confirm_email_change_def Let_def lookup apply_email_change_def insert_profile_audit_def
        split: if_splits option.splits)
  have rows': "get_by_id i (database p') = get_by_id i (update_user ?i (\<lambda>u. u\<lparr>u_email := addr, u_pending_email := None\<rparr>)
      (?d\<lparr>email_change_tokens := rows\<rparr>))" for i
    by (simp add: p' revoke_other_sessions_def revoke_sessions_except_def get_by_id_def)
  have "email_change_tokens (database p') = rows"
    by (simp add: p' revoke_other_sessions_def revoke_sessions_except_def update_user_def)
  then have "get_email_change_token_by_hash (sha256_hex L raw) (database p') = Some (k\<lparr>ect_consumed_at := Some (rq_db_now rq)\<rparr>)"
    using assms(2) live(1) by (simp add: get_email_change_token_by_hash_def rows_def change_consume.consume_eq find_row_update)
  moreover have "user_sessions (database p') = user_sessions (revoke_sessions_except (rq_db_now rq) ?i
      (resolve_exempt_jti L rq auth) ?d)"
    "refresh_tokens (database p') = refresh_tokens ?d" "cache p' = cache p"
    by (simp_all add: p' revoke_other_sessions_def revoke_sessions_except_def)
  ultimately show thesis using u that by (simp add: rows' get_by_id_update_user lookup)
qed

text \<open>C26. An address changes only through a token issued to its account. Confirming with a known token
  succeeds exactly if the token is unused and unexpired, its owner has a pending address, no other account
  holds that address and the request id fits its column (\<open>confirmable\<close>); then the owner's address becomes the
  pending one, all other accounts stay, and the token cannot be used again. Of the owner's sign-ins the code
  ends exactly the rows of \<open>user_sessions\<close> (the sessions behind access tokens) except the one named by the
  Authorization header: refresh tokens and the denylists stay as they are, so another device need not log
  in again. On failure nothing changes, so the token stays usable.\<close>

theorem confirm_email_change_once:
  assumes "distinct (map ect_id (email_change_tokens (database p)))"
    and "get_email_change_token_by_hash (sha256_hex L raw) (database p) = Some k" and "raw \<noteq> []"
    and "confirm_email_change L rq (Some raw) auth p = (res, p')"
  shows "(\<exists>a. res = Inr a) = confirmable rq k (database p)
    \<and> (case res of
         Inl e \<Rightarrow> p' = p
       | Inr addr \<Rightarrow>
           (\<exists>u. get_by_id (ect_user_id k) (database p) = Some u \<and> u_pending_email u = Some addr
              \<and> (\<forall>i. get_by_id i (database p') = (if i = ect_user_id k then Some (u\<lparr>u_email := addr, u_pending_email := None\<rparr>)
                   else get_by_id i (database p))))
           \<and> user_sessions (database p') = user_sessions (revoke_sessions_except (rq_db_now rq) (ect_user_id k)
                (resolve_exempt_jti L rq auth) (database p))
           \<and> refresh_tokens (database p') = refresh_tokens (database p) \<and> cache p' = cache p
           \<and> confirm_email_change L rq' (Some raw) auth' p' = (Inl (ProfileError EmailChangeTokenInvalidError), p'))"
proof (cases res)
  case (Inl e)
  then show ?thesis
    using confirm_email_change_iff [OF assms(1-3), of rq auth] assms(4) confirm_email_change_Inl by simp
next
  case (Inr addr)
  with assms(4) have run: "confirm_email_change L rq (Some raw) auth p = (Inr addr, p')" by simp
  obtain u where "get_by_id (ect_user_id k) (database p) = Some u" "u_pending_email u = Some addr"
    "get_email_change_token_by_hash (sha256_hex L raw) (database p') = Some (k\<lparr>ect_consumed_at := Some (rq_db_now rq)\<rparr>)"
    "\<And>i. get_by_id i (database p') = (if i = ect_user_id k then Some (u\<lparr>u_email := addr, u_pending_email := None\<rparr>)
       else get_by_id i (database p))"
    "user_sessions (database p') = user_sessions (revoke_sessions_except (rq_db_now rq) (ect_user_id k)
       (resolve_exempt_jti L rq auth) (database p))"
    "refresh_tokens (database p') = refresh_tokens (database p)" "cache p' = cache p"
    using confirm_email_change_Inr [OF assms(1-3) run] by metis
  moreover from this(3) have "confirm_email_change L rq' (Some raw) auth' p' = (Inl (ProfileError EmailChangeTokenInvalidError), p')"
    by (rule confirm_used_change_token) (simp_all add: assms(3))
  ultimately show ?thesis
    using confirm_email_change_iff [OF assms(1-3), of rq auth] run by (simp add: Inr)
qed

section \<open>Runs\<close>

text \<open>An account with a password, and a second request of the same user.\<close>

definition profile_account :: portal where
  "profile_account = \<lparr>database = empty_db\<lparr>users := [new_user 0 1 ''a@x'' ''s$pw'' ACTIVE, new_user 0 2 ''b@x'' ''s$pw'' ACTIVE],
       user_sessions := [\<lparr>us_jti = 7, us_user_id = 1, us_issued_at = 0, us_expires_at = 9000, us_revoked_at = None\<rparr>]\<rparr>,
     cache = empty_valkey, outbox = []\<rparr>"

definition second_request :: request where
  "second_request = sample_request\<lparr>rq_uuid := (\<lambda>n. of_nat (200 + n)), rq_token := (\<lambda>n. replicate (n + 5) (CHR ''s''))\<rparr>"

definition change_to :: "string \<Rightarrow> body" where
  "change_to a = [(''email'', JStr a), (''current_password'', JStr ''pw'')]"

definition after_first_change :: portal where
  "after_first_change = snd (apply_partial_update zero_libs sample_request 1 (change_to ''A@y'') (Some ''*'') profile_account)"

theorem confirm_email_change_once_witness:
  "confirm_email_change zero_libs second_request (Some ''ttttt'') None
     (snd (confirm_email_change zero_libs sample_request (Some ''ttttt'') None after_first_change))
   = (Inl (ProfileError EmailChangeTokenInvalidError),
      snd (confirm_email_change zero_libs sample_request (Some ''ttttt'') None after_first_change))"
proof -
  have r: "fst (confirm_email_change zero_libs sample_request (Some ''ttttt'') None after_first_change) = Inr ''A@y''"
    by code_simp
  have "distinct (map ect_id (email_change_tokens (database after_first_change)))" by code_simp
  moreover have "get_email_change_token_by_hash (sha256_hex zero_libs ''ttttt'') (database after_first_change)
      = Some \<lparr>ect_id = 100, ect_user_id = 1, ect_token_hash = ''h:ttttt'', ect_issued_at = 990,
          ect_expires_at = 86400001000, ect_consumed_at = None\<rparr>" by code_simp
  ultimately show ?thesis
    using confirm_email_change_once [of after_first_change zero_libs "''ttttt''" _ sample_request None "Inr ''A@y''"
      "snd (confirm_email_change zero_libs sample_request (Some ''ttttt'') None after_first_change)" second_request None] r
    by (simp add: prod_eq_iff)
qed

text \<open>The token mailed to a first address also confirms a second one that was requested later: the token
  names the account, not the address.\<close>

lemma first_token_confirms_second_address:
  "fst (confirm_email_change zero_libs sample_request (Some ''ttttt'') None
     (snd (apply_partial_update zero_libs second_request 1 (change_to ''B@y'') (Some ''*'') after_first_change)))
   = Inr ''B@y''"
  by code_simp

text \<open>A device that holds a refresh token of the account outlives the change of the address.\<close>

definition other_device :: portal where
  "other_device = after_first_change\<lparr>database := (database after_first_change)\<lparr>refresh_tokens := [\<lparr>rt_token_hash = ''h:r1'',
     rt_family_id = 5, rt_user_id = 1, rt_issued_at = 0, rt_expires_at = days 30, rt_revoked_at = None, rt_consumed_at = None,
     rt_last_used_at = None, rt_ip = None, rt_user_agent = None\<rparr>]\<rparr>\<rparr>"

lemma other_device_survives_email_change:
  "let (r, q) = confirm_email_change zero_libs sample_request (Some ''ttttt'') None other_device
   in r = Inr ''A@y'' \<and> map us_revoked_at (user_sessions (database q)) = [Some 990]
      \<and> (case fst (rotate_refresh_token zero_libs second_request (Some ''r1'') q) of Inl _ \<Rightarrow> False | Inr _ \<Rightarrow> True)"
  by code_simp

text \<open>The audit row of a change request records the new address as the old value.\<close>

lemma pending_email_audit_old_value:
  "map (\<lambda>r. (pal_field r, pal_old_value r, pal_new_value r)) (profile_audit_logs (database after_first_change))
   = [(''pending_email'', Some ''A@y'', Some ''A@y'')]"
  by code_simp

text \<open>Addresses that differ only in case can be confirmed for two accounts; the case-insensitive lookup of
  the login then finds two rows and fails.\<close>

lemma case_variant_address_breaks_login:
  "let q = (\<lambda>q. snd (confirm_email_change zero_libs sample_request (Some ''ttttt'') None q))
       (snd (apply_partial_update zero_libs second_request 2 (change_to ''a@Y'') (Some ''*'') after_first_change))
   in fst (confirm_email_change zero_libs second_request (Some ''sssss'') None q) = Inr ''a@Y''
      \<and> fst (authenticate_user zero_libs sample_request ''a@y'' ''pw''
          (snd (confirm_email_change zero_libs second_request (Some ''sssss'') None q)))
        = Inl (DatabaseError MultipleResultsFound)"
  by code_simp

end
