(* ===== verification/Admin_Users.thy ===== *)
theory Admin_Users
  imports Profile Account
begin

text \<open>
  \<open>app/modules/admin_users\<close>: listing, creating, editing and deactivating accounts, and their
  invitations.

  \<open>_issue_invitation\<close> commits on its own before it sends the mail. In \<open>create_user\<close> a failure there is
  swallowed, in \<open>resend_invite\<close> it reaches the caller after the token was committed. A failed flush leaves
  the SQLAlchemy session unusable until a rollback, so in \<open>create_user\<close> the read that follows a swallowed
  token collision fails (\<open>PendingRollbackError\<close>).
\<close>

section \<open>Repository\<close>

text \<open>PostgreSQL's \<open>ILIKE\<close> with the backslash as escape character.\<close>

fun ilike :: "string \<Rightarrow> string \<Rightarrow> bool" where
  "ilike [] s = (s = [])"
| "ilike (q # qs) s =
     (if q = CHR ''%'' then ilike qs s \<or> (case s of [] \<Rightarrow> False | c # cs \<Rightarrow> ilike (q # qs) cs)
      else if q = CHR 0x5C then
        (case qs of
           [] \<Rightarrow> False
         | e # es \<Rightarrow> (case s of [] \<Rightarrow> False | c # cs \<Rightarrow> lower_char c = lower_char e \<and> ilike es cs))
      else (case s of
              [] \<Rightarrow> False
            | c # cs \<Rightarrow> (q = CHR ''_'' \<or> lower_char c = lower_char q) \<and> ilike qs cs))"

definition role_names_for_user :: "uuid \<Rightarrow> db \<Rightarrow> string list" where
  "role_names_for_user user_id d =
     concat (map (\<lambda>ur. map ro_name (filter (\<lambda>r. ro_id r = ur_role_id ur) (roles d)))
       (filter (\<lambda>ur. ur_user_id ur = user_id) (user_roles d)))"

definition user_pos :: "user \<Rightarrow> position" where
  "user_pos u = (u_created_at u, u_id u)"

definition matches_q :: "string option \<Rightarrow> user \<Rightarrow> bool" where
  "matches_q q u =
     (case q of
        None \<Rightarrow> True
      | Some s \<Rightarrow> let pattern = ''%'' @ s @ ''%'' in
          ilike pattern (u_email u) \<or> (case u_display_name u of None \<Rightarrow> False | Some n \<Rightarrow> ilike pattern n))"

text \<open>\<open>None\<close> for an unknown role name or a malformed cursor.\<close>

definition repo_list_users ::
  "libs \<Rightarrow> string option \<Rightarrow> string option \<Rightarrow> string option \<Rightarrow> string option \<Rightarrow> int \<Rightarrow> db
    \<Rightarrow> ((user \<times> string list) list \<times> string option) option outcome" where
  "repo_list_users L q st role cursor limit d =
     (let by_status = filter (\<lambda>u. case st of None \<Rightarrow> True | Some s \<Rightarrow> user_status_str (u_status u) = s) (users d);
          by_q = filter (matches_q q) by_status;
          page = (\<lambda>rows. map_sum id (map_option (\<lambda>(items, next_cursor).
              (map (\<lambda>u. (u, role_names_for_user (u_id u) d)) items, next_cursor)))
            (keyset_page L True user_pos cursor limit rows))
      in case role of
           None \<Rightarrow> page by_q
         | Some name \<Rightarrow>
             (case find_row (\<lambda>r. ro_name r = name) (roles d) of
                None \<Rightarrow> Inr None
              | Some r \<Rightarrow> page (filter (\<lambda>u. list_ex (\<lambda>ur. ur_role_id ur = ro_id r \<and> ur_user_id ur = u_id u) (user_roles d)) by_q)))"

definition get_with_roles :: "uuid \<Rightarrow> db \<Rightarrow> (user \<times> string list) option" where
  "get_with_roles user_id d = map_option (\<lambda>u. (u, role_names_for_user user_id d)) (get_by_id user_id d)"

text \<open>\<open>Inr None\<close> on a duplicate address (or primary key): the insert is rolled back.\<close>

definition repo_create :: "datetime \<Rightarrow> uuid \<Rightarrow> string \<Rightarrow> string \<Rightarrow> uuid list \<Rightarrow> db \<Rightarrow> sql_error + (user \<times> db) option" where
  "repo_create t uid email display_name role_ids d =
     (let u = (new_user t uid email '''' INVITED)\<lparr>u_display_name := Some display_name\<rparr> in
      if 320 < length email \<or> 255 < length display_name then Inl DataError
      else if uid \<in> u_id ` set (users d) \<or> email \<in> u_email ` set (users d) then Inr None
      else if \<not> distinct role_ids then Inl IntegrityError
      else Inr (Some (u, d\<lparr>users := users d @ [u],
             user_roles := user_roles d @ map (\<lambda>r. \<lparr>ur_user_id = uid, ur_role_id = r, ur_granted_at = t\<rparr>) role_ids\<rparr>)))"

text \<open>\<open>UPDATE ... RETURNING\<close>: the updated row.\<close>

definition repo_update_fields :: "uuid \<Rightarrow> (string \<times> string option) list \<Rightarrow> db \<Rightarrow> sql_error + user option \<times> db" where
  "repo_update_fields user_id fs d =
     (case update_fields user_id fs d of
        Inl e \<Rightarrow> Inl e
      | Inr d1 \<Rightarrow> Inr (get_by_id user_id d1, d1))"

definition deactivate_if_active :: "datetime \<Rightarrow> uuid \<Rightarrow> db \<Rightarrow> datetime option \<times> db" where
  "deactivate_if_active t user_id d =
     (let (u, rows) = update_returning (\<lambda>u. u_id u = user_id \<and> u_status u = ACTIVE)
            (\<lambda>u. u\<lparr>u_status := DEACTIVATED, u_deactivated_at := Some t\<rparr>) (users d)
      in (case u of None \<Rightarrow> None | Some u \<Rightarrow> u_deactivated_at u, d\<lparr>users := rows\<rparr>))"

definition create_admin_audit_log_event :: "datetime \<Rightarrow> string \<Rightarrow> uuid \<Rightarrow> uuid option \<Rightarrow> string \<Rightarrow> db \<Rightarrow> db" where
  "create_admin_audit_log_event t event actor_id target_id request_id d =
     create_admin_audit_log_entry t event actor_id target_id None None None request_id d"

definition create_admin_audit_log_field_change ::
  "datetime \<Rightarrow> uuid \<Rightarrow> uuid \<Rightarrow> string \<Rightarrow> string option \<Rightarrow> string option \<Rightarrow> string \<Rightarrow> string \<Rightarrow> db \<Rightarrow> db" where
  "create_admin_audit_log_field_change t actor_id target_id field old_value new_value reason request_id d =
     d\<lparr>admin_audit_logs := admin_audit_logs d @
        [\<lparr>aud_event = ''user_field_updated'', aud_actor_id = Some actor_id, aud_target_id = Some target_id,
          aud_old_roles = None, aud_new_roles = None, aud_severity = None, aud_request_id = request_id,
          aud_occurred_at = t, aud_field = Some field, aud_old_value = old_value, aud_new_value = new_value,
          aud_reason = Some reason\<rparr>]\<rparr>"

definition create_account_lifecycle_audit_log_entry ::
  "datetime \<Rightarrow> uuid \<Rightarrow> string \<Rightarrow> string \<Rightarrow> string option \<Rightarrow> db \<Rightarrow> db" where
  "create_account_lifecycle_audit_log_entry t user_id event actor reason d =
     d\<lparr>account_lifecycle_audit_logs := account_lifecycle_audit_logs d @
        [\<lparr>lal_user_id = user_id, lal_event = event, lal_actor = actor, lal_occurred_at = t, lal_reason = reason\<rparr>]\<rparr>"

text \<open>\<open>ORDER BY issued_at DESC LIMIT 1\<close>; among rows of one instant, some row, here the first of the table.\<close>

definition latest_token :: "invitation_token list \<Rightarrow> invitation_token option" where
  "latest_token ks = (case ks of [] \<Rightarrow> None | k # ks \<Rightarrow> Some (first_min (\<lambda>k. - it_issued_at k) k ks))"

definition get_latest_unconsumed_invitation_token :: "uuid \<Rightarrow> db \<Rightarrow> invitation_token option" where
  "get_latest_unconsumed_invitation_token user_id d =
     latest_token (filter (\<lambda>k. it_user_id k = user_id \<and> it_consumed_at k = None) (invitation_tokens d))"

definition get_latest_invitation_token :: "uuid \<Rightarrow> db \<Rightarrow> invitation_token option" where
  "get_latest_invitation_token user_id d =
     latest_token (filter (\<lambda>k. it_user_id k = user_id) (invitation_tokens d))"

definition count_invitation_tokens_issued_since :: "uuid \<Rightarrow> datetime \<Rightarrow> db \<Rightarrow> int" where
  "count_invitation_tokens_issued_since user_id since d =
     int (length (filter (\<lambda>k. it_user_id k = user_id \<and> since \<le> it_issued_at k) (invitation_tokens d)))"

definition invalidate_invitation_token :: "datetime \<Rightarrow> uuid \<Rightarrow> db \<Rightarrow> db" where
  "invalidate_invitation_token t token_id d =
     d\<lparr>invitation_tokens := update_rows (\<lambda>k. it_id k = token_id) (\<lambda>k. k\<lparr>it_consumed_at := Some t\<rparr>) (invitation_tokens d)\<rparr>"

definition create_invitation_token :: "datetime \<Rightarrow> uuid \<Rightarrow> uuid \<Rightarrow> string \<Rightarrow> datetime \<Rightarrow> db \<Rightarrow> sql_error + db" where
  "create_invitation_token t tid user_id token_hash expires_at d =
     (let k = \<lparr>it_id = tid, it_user_id = user_id, it_token_hash = token_hash, it_issued_at = t,
                it_expires_at = expires_at, it_consumed_at = None\<rparr> in
      if tid \<in> it_id ` set (invitation_tokens d) then Inl IntegrityError
      else map_sum id (\<lambda>rows. d\<lparr>invitation_tokens := rows\<rparr>)
        (insert_unique it_token_hash k (invitation_tokens d)))"

section \<open>Service\<close>

definition HOURLY_CAP_RETRY_AFTER_SECONDS :: int where "HOURLY_CAP_RETRY_AFTER_SECONDS = 3600"

definition admin_etag_fields :: "user \<Rightarrow> (string \<times> string option) list" where
  "admin_etag_fields u = [(''display_name'', u_display_name u), (''locale'', u_locale u),
     (''timezone'', u_timezone u), (''avatar_url'', u_avatar_url u)]"

record user_read =
  urd_id :: uuid
  urd_email :: string
  urd_display_name :: "string option"
  urd_status :: string
  urd_roles :: "string list"
  urd_created_at :: datetime
  urd_last_login_at :: "datetime option"

definition to_user_read :: "user \<Rightarrow> string list \<Rightarrow> user_read" where
  "to_user_read u rs = \<lparr>urd_id = u_id u, urd_email = u_email u, urd_display_name = u_display_name u,
     urd_status = user_status_str (u_status u), urd_roles = sort rs, urd_created_at = u_created_at u,
     urd_last_login_at = u_last_login_at u\<rparr>"

definition admin_invalid :: "string \<Rightarrow> string \<Rightarrow> string \<Rightarrow> portal_error" where
  "admin_invalid field message code = AdminUsersError (AdminValidationFailedError
     [\<lparr>fe_field = field, fe_message = message, fe_code = code\<rparr>])"

definition list_users ::
  "libs \<Rightarrow> string option \<Rightarrow> string option \<Rightarrow> string option \<Rightarrow> string option \<Rightarrow> int \<Rightarrow> portal
    \<Rightarrow> (user_read list \<times> string option) outcome" where
  "list_users L q st role cursor limit p =
     (if limit > 100 then Inl (admin_invalid ''limit'' ''limit must be at most 100.'' ''max'')
      else if (case st of None \<Rightarrow> False | Some s \<Rightarrow> s \<notin> set [''invited'', ''active'', ''deactivated'']) then
        Inl (admin_invalid ''status'' ''Unknown status value.'' ''unknown_status'')
      else case repo_list_users L q st role cursor limit (database p) of
        Inl e \<Rightarrow> Inl e
      | Inr None \<Rightarrow> (let field = (if cursor \<noteq> None then ''cursor'' else ''role'') in
          Inl (admin_invalid field (''Invalid '' @ field @ ''.'') ''invalid''))
      | Inr (Some (items, next_cursor)) \<Rightarrow> Inr (map (\<lambda>(u, rs). to_user_read u rs) items, next_cursor))"

definition get_user :: "libs \<Rightarrow> uuid \<Rightarrow> portal \<Rightarrow> (user_read \<times> string) outcome" where
  "get_user L user_id p =
     (case get_with_roles user_id (database p) of
        None \<Rightarrow> Inl (AdminUsersError UserNotFoundError)
      | Some (user, rs) \<Rightarrow> Inr (to_user_read user rs, compute_profile_etag L (admin_etag_fields user)))"

text \<open>Up to and including the commit; the mail follows it.\<close>

definition issue_invitation :: "libs \<Rightarrow> request \<Rightarrow> uuid \<Rightarrow> db \<Rightarrow> sql_error + string \<times> db" where
  "issue_invitation L rq user_id d =
     (let raw_token = rq_token rq 0;
          expires_at = rq_now rq + hours (invitation_token_ttl_hours get_settings)
      in map_sum id (Pair raw_token)
           (create_invitation_token (rq_db_now rq) (rq_uuid rq 1) user_id (sha256_hex L raw_token) expires_at d))"

record create_user_request =
  cur_email :: string
  cur_display_name :: string
  cur_roles :: "string list"

definition admin_create_user ::
  "libs \<Rightarrow> request \<Rightarrow> uuid \<Rightarrow> string set \<Rightarrow> create_user_request \<Rightarrow> portal \<Rightarrow> (user_read \<times> string) outcome \<times> portal" where
  "admin_create_user L rq actor_id actor_scopes payload p =
     (case resolve_role_ids_for_grant rq actor_id actor_scopes (cur_roles payload) p of
        (Inl e, p1) \<Rightarrow> (Inl e, p1)
      | (Inr role_ids, p1) \<Rightarrow>
          let normalized_email = lower (py_strip (cur_email payload)) in
          (case repo_create (rq_db_now rq) (rq_uuid rq 0) normalized_email (cur_display_name payload) role_ids (database p1) of
             Inl e \<Rightarrow> (Inl (DatabaseError e), p1)
           | Inr None \<Rightarrow> (Inl (AdminUsersError AdminEmailAlreadyRegisteredError), p1)
           | Inr (Some (user, d1)) \<Rightarrow>
               let d2 = create_admin_audit_log_event (rq_db_now rq) ''user_created'' actor_id (Some (u_id user))
                          (rq_request_id rq) d1
               in case issue_invitation L rq (u_id user) d2 of
                    Inl e \<Rightarrow> (Inl (DatabaseError PendingRollbackError), p1\<lparr>database := d2\<rparr>)
                  | Inr (raw_token, d3) \<Rightarrow>
                      let p3 = send_email rq (InvitationEmail (u_email user) raw_token) (p1\<lparr>database := d3\<rparr>) in
                      case get_with_roles (u_id user) d3 of
                        None \<Rightarrow> (Inl (RuntimeError ''user row vanished immediately after its own creation''), p3)
                      | Some (created_user, rs) \<Rightarrow>
                          (Inr (to_user_read created_user rs, compute_profile_etag L (admin_etag_fields created_user)), p3)))"

definition ADMIN_USER_IMMUTABLE_FIELD_NAMES :: "string list" where
  "ADMIN_USER_IMMUTABLE_FIELD_NAMES = [''id'', ''created_at'', ''email_verified'', ''roles'']"

definition ADMIN_USER_EDITABLE_FIELD_NAMES :: "string list" where
  "ADMIN_USER_EDITABLE_FIELD_NAMES = [''display_name'', ''locale'', ''timezone'', ''avatar_url'']"

text \<open>The required member \<open>reason: str = Field(min_length=1)\<close>.\<close>

definition check_reason :: "libs \<Rightarrow> body \<Rightarrow> field_error list" where
  "check_reason L b =
     (case map_of b ''reason'' of
        None \<Rightarrow> [pydantic_error L ''reason'' ''missing'' JNull]
      | Some (JStr s) \<Rightarrow> if s = [] then [pydantic_error L ''reason'' ''string_too_short'' (JStr s)] else []
      | Some v \<Rightarrow> [pydantic_error L ''reason'' ''string_type'' v])"

text \<open>\<open>UpdateUserRequest\<close>: the submitted columns, a \<open>null\<close> clearing its column, and the reason.\<close>

definition validate_update_user :: "libs \<Rightarrow> body \<Rightarrow> field_error list + (string \<times> string option) list \<times> string" where
  "validate_update_user L b =
     (let errors = check_str L b ''display_name'' @ check_str L b ''locale'' @ check_str L b ''timezone''
            @ check_str L b ''avatar_url'' @ check_reason L b
            @ check_extra L b (ADMIN_USER_EDITABLE_FIELD_NAMES @ [''reason''])
      in if errors \<noteq> [] then Inl errors
         else Inr (map (\<lambda>c. (c, str_member b c)) (filter (\<lambda>c. map_of b c \<noteq> None) ADMIN_USER_EDITABLE_FIELD_NAMES),
           case str_member b ''reason'' of None \<Rightarrow> '''' | Some s \<Rightarrow> s))"

definition log_changes ::
  "request \<Rightarrow> uuid \<Rightarrow> uuid \<Rightarrow> user \<Rightarrow> string \<Rightarrow> (string \<times> string option) list \<Rightarrow> db \<Rightarrow> db" where
  "log_changes rq actor_id target_id old reason changes d =
     fold (\<lambda>(c, v). create_admin_audit_log_field_change (rq_db_now rq) actor_id target_id c (get_column c old) v reason
        (rq_request_id rq)) changes d"

definition admin_update_user ::
  "libs \<Rightarrow> request \<Rightarrow> uuid \<Rightarrow> uuid \<Rightarrow> body \<Rightarrow> string option \<Rightarrow> portal \<Rightarrow> (user_read \<times> string) outcome \<times> portal" where
  "admin_update_user L rq actor_id target_id raw_body if_match p =
     (case get_with_roles target_id (database p) of
        None \<Rightarrow> (Inl (AdminUsersError UserNotFoundError), p)
      | Some (user, rs) \<Rightarrow>
          if if_match = None then (Inl (AdminUsersError AdminPreconditionRequiredError), p)
          else if if_match \<noteq> Some ''*'' \<and> if_match \<noteq> Some (compute_profile_etag L (admin_etag_fields user)) then
            (Inl (AdminUsersError AdminPreconditionFailedError), p)
          else if list_ex (\<lambda>(k, v). k \<in> set ADMIN_USER_IMMUTABLE_FIELD_NAMES) raw_body then
            (Inl (AdminUsersError AdminImmutableFieldError), p)
          else case validate_update_user L raw_body of
            Inl errors \<Rightarrow> (Inl (AdminUsersError (AdminValidationFailedError errors)), p)
          | Inr (changes, reason) \<Rightarrow>
              if changes = [] then
                (Inr (to_user_read user rs, compute_profile_etag L (admin_etag_fields user)), p)
              else case repo_update_fields target_id changes (database p) of
                Inl e \<Rightarrow> (Inl (DatabaseError e), p)
              | Inr (None, _) \<Rightarrow> (Inl (AdminUsersError UserNotFoundError), p)
              | Inr (Some updated_user, d1) \<Rightarrow>
                  (Inr (to_user_read updated_user rs, compute_profile_etag L (admin_etag_fields updated_user)),
                   p\<lparr>database := log_changes rq actor_id target_id user reason changes d1\<rparr>))"

definition deactivate_user ::
  "request \<Rightarrow> uuid \<Rightarrow> uuid \<Rightarrow> string \<Rightarrow> portal \<Rightarrow> user_read outcome \<times> portal" where
  "deactivate_user rq actor_id target_id reason p =
     (if target_id = actor_id then (Inl (AdminUsersError AdminCannotTargetSelfError), p)
      else case get_with_roles target_id (database p) of
        None \<Rightarrow> (Inl (AdminUsersError UserNotFoundError), p)
      | Some (user, rs) \<Rightarrow>
          if raise_if_last_admin target_id (database p) then (Inl LastAdminError, p)
          else case deactivate_if_active (rq_db_now rq) target_id (database p) of
            (None, _) \<Rightarrow> (Inl (AdminUsersError AdminAlreadyDeactivatedError), p)
          | (Some deactivated_at, d1) \<Rightarrow>
              let d2 = create_account_lifecycle_audit_log_entry (rq_db_now rq) target_id ''deactivated''
                         (''admin:'' @ uuid_str actor_id) (Some reason) d1
              in (Inr (to_user_read (user\<lparr>u_status := DEACTIVATED, u_deactivated_at := Some deactivated_at\<rparr>) rs),
                  p\<lparr>database := d2,
                    cache := set_revoke_before (rq_now rq) target_id (refresh_token_ttl_seconds get_settings) (cache p)\<rparr>))"

definition resend_invite :: "libs \<Rightarrow> request \<Rightarrow> uuid \<Rightarrow> uuid \<Rightarrow> portal \<Rightarrow> unit outcome \<times> portal" where
  "resend_invite L rq actor_id target_id p =
     (let d = database p; t = rq_db_now rq; cooldown = seconds (resend_cooldown_seconds get_settings) in
      case get_with_roles target_id d of
        None \<Rightarrow> (Inl (AdminUsersError UserNotFoundError), p)
      | Some (user, rs) \<Rightarrow>
          if u_status user \<noteq> INVITED then (Inl (AdminUsersError AdminInvalidStateTransitionError), p)
          else let elapsed = (case get_latest_invitation_token target_id d of
                   None \<Rightarrow> cooldown | Some latest \<Rightarrow> rq_now rq - it_issued_at latest)
          in if elapsed < cooldown then
               (Inl (AdminUsersError (AdminTooManyAttemptsError ((cooldown - elapsed) div 1000000))), p)
             else if invitation_resend_hourly_limit get_settings
                 \<le> count_invitation_tokens_issued_since target_id (rq_now rq - hours 1) d then
               (Inl (AdminUsersError (AdminTooManyAttemptsError HOURLY_CAP_RETRY_AFTER_SECONDS)), p)
             else
               let d1 = (case get_latest_unconsumed_invitation_token target_id d of
                           None \<Rightarrow> d
                         | Some prior \<Rightarrow> invalidate_invitation_token t (it_id prior) d)
               in case issue_invitation L rq (u_id user) d1 of
                    Inl e \<Rightarrow> (Inl (DatabaseError e), p)
                  | Inr (raw_token, d2) \<Rightarrow>
                      if rq_mail_ok rq then
                        (Inr (), send_email rq (InvitationEmail (u_email user) raw_token)
                          (p\<lparr>database := create_admin_audit_log_event t ''invitation_resent'' actor_id (Some target_id)
                              (rq_request_id rq) d2\<rparr>))
                      else (Inl (RuntimeError ''mail provider''), p\<lparr>database := d2\<rparr>))"

section \<open>The search pattern\<close>

lemma ilike_percent: "ilike (CHR ''%'' # qs) s \<longleftrightarrow> (\<exists>a b. s = a @ b \<and> ilike qs b)"
proof (induction s)
  case Nil
  then show ?case by simp
next
  case (Cons c s)
  have "ilike (CHR ''%'' # qs) (c # s) \<longleftrightarrow> ilike qs (c # s) \<or> (\<exists>a b. s = a @ b \<and> ilike qs b)"
    by (subst ilike.simps(2)) (simp only: Cons.IH list.case simp_thms if_True)
  also have "\<dots> \<longleftrightarrow> (\<exists>a b. c # s = a @ b \<and> ilike qs b)"
    by (auto simp: Cons_eq_append_conv)
  finally show ?case .
qed

definition plain_pattern :: "string \<Rightarrow> bool" where
  "plain_pattern q \<longleftrightarrow> list_all (\<lambda>c. c \<noteq> CHR ''%'' \<and> c \<noteq> CHR ''_'' \<and> c \<noteq> CHR 0x5C) q"

lemma ilike_plain:
  "plain_pattern q \<Longrightarrow> ilike (q @ ''%'') s \<longleftrightarrow> prefix (lower q) (lower s)"
proof (induction q arbitrary: s)
  case Nil
  show ?case by (simp add: lower_def ilike_percent del: ilike.simps(2))
next
  case (Cons c q)
  then show ?case
    by (cases s) (auto simp: plain_pattern_def lower_def)
qed

lemma lower_append: "lower s = x @ y \<longleftrightarrow> (\<exists>a b. s = a @ b \<and> x = lower a \<and> y = lower b)"
  by (auto simp: lower_def map_eq_append_conv)

lemma ilike_contains:
  assumes "plain_pattern q"
  shows "ilike (''%'' @ q @ ''%'') s \<longleftrightarrow> sublist (lower q) (lower s)"
proof -
  have "ilike (''%'' @ q @ ''%'') s \<longleftrightarrow> (\<exists>a b. s = a @ b \<and> prefix (lower q) (lower b))"
    using ilike_percent [of "q @ ''%''" s] ilike_plain [OF assms] by simp
  also have "\<dots> \<longleftrightarrow> sublist (lower q) (lower s)"
    by (auto simp: sublist_def prefix_def lower_append) (metis lower_append)+
  finally show ?thesis .
qed

text \<open>For a search text without the wildcard characters \<open>%\<close>, \<open>_\<close> and backslash the pattern match of the
  user list is the case-insensitive substring test on the address or the display name; the code does not
  escape the wildcards of a search text.\<close>

lemma plain_search_is_substring:
  assumes "plain_pattern q"
  shows "matches_q (Some q) u \<longleftrightarrow> sublist (lower q) (lower (u_email u))
    \<or> (case u_display_name u of None \<Rightarrow> False | Some n \<Rightarrow> sublist (lower q) (lower n))"
  using ilike_contains [OF assms] by (simp add: matches_q_def Let_def split: option.splits)

lemma search_wildcards_match:
  "matches_q (Some ''j_anna'') (new_user 0 1 ''joanna@x'' '''' INVITED)
   \<and> matches_q (Some ''%'') (new_user 0 1 ''joanna@x'' '''' INVITED)"
  by code_simp

section \<open>Administrators\<close>

lemma active_admins_mono:
  assumes "set (roles d) \<subseteq> set (roles d')" and "set (user_roles d) \<subseteq> set (user_roles d')"
    and "\<And>u. u \<in> set (users d) \<Longrightarrow> u_status u = ACTIVE \<Longrightarrow>
      \<exists>v \<in> set (users d'). u_id v = u_id u \<and> u_status v = ACTIVE"
  shows "active_admins d \<subseteq> active_admins d'"
  using assms by (auto simp: active_admins_def role_names_iff subset_iff)

text \<open>The guard of \<open>deactivate_user\<close> leaves another administrator.\<close>

lemma not_last_admin:
  assumes "catalogue_ok d" and "\<not> raise_if_last_admin i d" and "active_admins d \<noteq> {}"
  shows "active_admins d - {i} \<noteq> {}"
proof (cases "i \<in> active_admins d")
  case True
  then have adm: "ADMIN_ROLE_NAME \<in> set (list_role_names_for_user i d)" by (simp add: active_admins_def)
  then obtain a rest where a: "get_by_names [ADMIN_ROLE_NAME] d = a # rest"
    by (cases "get_by_names [ADMIN_ROLE_NAME] d") (auto simp: role_names_iff get_by_names_def filter_empty_conv)
  then have "a \<in> set (get_by_names [ADMIN_ROLE_NAME] d)" by simp
  then have "a \<in> set (roles d)" "ro_name a = ADMIN_ROLE_NAME" by (auto simp: set_get_by_names)
  moreover have "count_active_admins_excluding (ro_id a) i d \<noteq> 0"
    using assms(2) adm a by (auto simp: raise_if_last_admin_def split: if_splits)
  ultimately show ?thesis by (metis count_active_admins_witness Diff_iff empty_iff singletonD)
qed (use assms(3) in auto)

lemma deactivate_user_Inr:
  assumes "deactivate_user rq a i reason p = (Inr r, p')"
  shows "i \<noteq> a" "\<not> raise_if_last_admin i (database p)"
    "roles (database p') = roles (database p)" "user_roles (database p') = user_roles (database p)"
    "invitation_tokens (database p') = invitation_tokens (database p)"
    "users (database p') = update_rows (\<lambda>u. u_id u = i \<and> u_status u = ACTIVE)
       (\<lambda>u. u\<lparr>u_status := DEACTIVATED, u_deactivated_at := Some (rq_db_now rq)\<rparr>) (users (database p))"
    "\<exists>u \<in> set (users (database p)). u_id u = i \<and> u_status u = ACTIVE"
    "cache p' = set_revoke_before (rq_now rq) i (refresh_token_ttl_seconds get_settings) (cache p)"
  using assms by (auto simp: deactivate_user_def get_with_roles_def deactivate_if_active_def query_defs Let_def
      create_account_lifecycle_audit_log_entry_def split: if_splits option.splits dest: find_row_SomeD)

lemma deactivate_user_Inl: "deactivate_user rq a i reason p = (Inl e, p') \<Longrightarrow> p' = p"
  by (auto simp: deactivate_user_def Let_def split: if_splits option.splits prod.splits)

lemma deactivate_user_admins:
  assumes "deactivate_user rq a i reason p = (Inr r, p')"
  shows "active_admins (database p') = active_admins (database p) - {i}"
proof -
  note D = deactivate_user_Inr [OF assms]
  have "(\<exists>u \<in> set (users (database p')). u_id u = j \<and> u_status u = ACTIVE)
      \<longleftrightarrow> j \<noteq> i \<and> (\<exists>u \<in> set (users (database p)). u_id u = j \<and> u_status u = ACTIVE)" for j
    by (auto simp: D(6) update_rows_def)
  then show ?thesis by (auto simp: active_admins_def list_role_names_cong [OF D(3,4)])
qed

text \<open>What \<open>admin_create_user\<close> can do to the tables of users and grants.\<close>

lemma repo_create_Some:
  "repo_create t uid e n ids d = Inr (Some (u, d1)) \<Longrightarrow> u_id u = uid \<and> u_status u = INVITED \<and> uid \<notin> u_id ` set (users d)
    \<and> (\<exists>grants. d1 = d\<lparr>users := users d @ [u], user_roles := user_roles d @ grants\<rparr>)"
  by (auto simp: repo_create_def Let_def new_user_def split: if_splits)

definition new_invitation :: "libs \<Rightarrow> request \<Rightarrow> uuid \<Rightarrow> invitation_token" where
  "new_invitation L rq i = \<lparr>it_id = rq_uuid rq 1, it_user_id = i, it_token_hash = sha256_hex L (rq_token rq 0),
     it_issued_at = rq_db_now rq, it_expires_at = rq_now rq + hours 24, it_consumed_at = None\<rparr>"

lemma new_invitation_simps [simp]:
  "it_id (new_invitation L rq i) = rq_uuid rq 1" "it_user_id (new_invitation L rq i) = i"
  "it_consumed_at (new_invitation L rq i) = None"
  by (simp_all add: new_invitation_def)

lemma issue_invitation_Inr:
  "issue_invitation L rq i d = Inr (raw, d') \<Longrightarrow> raw = rq_token rq 0 \<and> rq_uuid rq 1 \<notin> it_id ` set (invitation_tokens d)
    \<and> d' = d\<lparr>invitation_tokens := invitation_tokens d @ [new_invitation L rq i]\<rparr>"
  by (auto simp: issue_invitation_def create_invitation_token_def insert_unique_def new_invitation_def Let_def
      split: if_splits)

lemma log_changes_frame [simp]:
  "users (log_changes rq a i u r cs d) = users d" "roles (log_changes rq a i u r cs d) = roles d"
  "user_roles (log_changes rq a i u r cs d) = user_roles d"
  "invitation_tokens (log_changes rq a i u r cs d) = invitation_tokens d"
  by (induction cs arbitrary: d) (auto simp: log_changes_def create_admin_audit_log_field_change_def)

lemma set_columns_status [simp]: "u_status (set_columns fs u) = u_status u"
  by (induction fs arbitrary: u) (auto simp: set_column_def)

text \<open>The successful path of an administrative update that changes something.\<close>

lemma admin_update_user_cases:
  obtains "snd (admin_update_user L rq a i b im p) = p"
  | u cs reason d1 where "get_by_id i (database p) = Some u" "validate_update_user L b = Inr (cs, reason)"
      "im = Some ''*'' \<or> im = Some (compute_profile_etag L (admin_etag_fields u))"
      "d1 = update_user i (set_columns cs) (database p)"
      "snd (admin_update_user L rq a i b im p) = p\<lparr>database := log_changes rq a i u reason cs d1\<rparr>"
      "fst (admin_update_user L rq a i b im p) = Inr (to_user_read (set_columns cs u) (role_names_for_user i (database p)),
         compute_profile_etag L (admin_etag_fields (set_columns cs u)))"
proof (cases "snd (admin_update_user L rq a i b im p) = p")
  case False
  then obtain u where u: "get_by_id i (database p) = Some u"
      "im = Some ''*'' \<or> im = Some (compute_profile_etag L (admin_etag_fields u))"
    by (auto simp: admin_update_user_def get_with_roles_def split: option.splits if_splits)
  with False obtain cs reason d1 where v: "validate_update_user L b = Inr (cs, reason)"
      "update_fields i cs (database p) = Inr d1" "snd (admin_update_user L rq a i b im p) \<noteq> p" "cs \<noteq> []"
      "\<not> list_ex (\<lambda>(k, v). k \<in> set ADMIN_USER_IMMUTABLE_FIELD_NAMES) b"
    by (auto simp: admin_update_user_def get_with_roles_def repo_update_fields_def
        split: if_splits sum.splits prod.splits option.splits)
  from update_fields_Inr [OF v(2)] have d1: "d1 = update_user i (set_columns cs) (database p)" .
  then have "get_by_id i d1 = Some (set_columns cs u)" by (simp add: get_by_id_update_user u(1))
  with u v that(2) [of u cs reason d1] d1 show ?thesis
    by (auto simp: admin_update_user_def get_with_roles_def repo_update_fields_def)
qed (rule that(1))

section \<open>Histories of administrative requests\<close>

text \<open>Every administrative request that can write, with whatever arguments and outcome.\<close>

inductive admin_step :: "libs \<Rightarrow> portal \<Rightarrow> portal \<Rightarrow> bool" for L where
  roles: "admin_step L p (snd (replace_user_roles rq a sc i ns p))"
| create: "admin_step L p (snd (admin_create_user L rq a sc payload p))"
| update: "admin_step L p (snd (admin_update_user L rq a i b im p))"
| deactivate: "admin_step L p (snd (deactivate_user rq a i reason p))"
| resend: "admin_step L p (snd (resend_invite L rq a i p))"

text \<open>A property of the database that every step of a system keeps holds after every history.\<close>

locale kept_by_steps =
  fixes step :: "portal \<Rightarrow> portal \<Rightarrow> bool" and inv :: "db \<Rightarrow> bool"
  assumes step_keeps: "step p q \<Longrightarrow> inv (database p) \<Longrightarrow> inv (database q)"
begin

lemma history_keeps: "step\<^sup>*\<^sup>* p q \<Longrightarrow> inv (database p) \<Longrightarrow> inv (database q)"
  by (induction rule: rtranclp_induct) (auto intro: step_keeps)

end

definition administered :: "db \<Rightarrow> bool" where
  "administered d \<longleftrightarrow> catalogue_ok d \<and> active_admins d \<noteq> {}"

lemma admin_audit_invitations [simp]:
  "invitation_tokens (create_admin_audit_log_entry t ev a tg ol nw sev rid d) = invitation_tokens d"
  by (simp add: create_admin_audit_log_entry_def)

lemma admin_create_user_tables:
  obtains (refused) "roles (database (snd (admin_create_user L rq a sc payload p))) = roles (database p)"
      "user_roles (database (snd (admin_create_user L rq a sc payload p))) = user_roles (database p)"
      "users (database (snd (admin_create_user L rq a sc payload p))) = users (database p)"
      "invitation_tokens (database (snd (admin_create_user L rq a sc payload p))) = invitation_tokens (database p)"
  | (created) u grants ks where "u_status u = INVITED" "u_id u \<notin> u_id ` set (users (database p))"
      "roles (database (snd (admin_create_user L rq a sc payload p))) = roles (database p)"
      "user_roles (database (snd (admin_create_user L rq a sc payload p))) = user_roles (database p) @ grants"
      "users (database (snd (admin_create_user L rq a sc payload p))) = users (database p) @ [u]"
      "invitation_tokens (database (snd (admin_create_user L rq a sc payload p))) = invitation_tokens (database p) @ ks"
      "ks = [] \<or> (\<exists>k. ks = [k] \<and> it_user_id k = u_id u \<and> it_id k \<notin> it_id ` set (invitation_tokens (database p)))"
proof (cases "\<exists>ids. fst (resolve_role_ids_for_grant rq a sc (cur_roles payload) p) = Inr ids
    \<and> (\<exists>r. repo_create (rq_db_now rq) (rq_uuid rq 0) (lower (py_strip (cur_email payload))) (cur_display_name payload) ids (database p) = Inr (Some r))")
  case False
  then show ?thesis
    using refused by (auto simp: admin_create_user_def resolve_role_ids_for_grant_def Let_def split: sum.splits option.splits if_splits)
next
  case True
  then obtain ids u d1 where r: "resolve_role_ids_for_grant rq a sc (cur_roles payload) p = (Inr ids, p)"
      "repo_create (rq_db_now rq) (rq_uuid rq 0) (lower (py_strip (cur_email payload))) (cur_display_name payload) ids (database p) = Inr (Some (u, d1))"
    by (auto simp: resolve_role_ids_for_grant_def Let_def split: if_splits)
  let ?d2 = "create_admin_audit_log_event (rq_db_now rq) ''user_created'' a (Some (u_id u)) (rq_request_id rq) d1"
  from repo_create_Some [OF r(2)] obtain grants where u: "u_status u = INVITED" "u_id u \<notin> u_id ` set (users (database p))"
      "d1 = database p\<lparr>users := users (database p) @ [u], user_roles := user_roles (database p) @ grants\<rparr>" by auto
  have d2: "users ?d2 = users (database p) @ [u]" "user_roles ?d2 = user_roles (database p) @ grants"
      "roles ?d2 = roles (database p)" "invitation_tokens ?d2 = invitation_tokens (database p)"
    by (simp_all add: u(3) create_admin_audit_log_event_def create_admin_audit_log_entry_def)
  show ?thesis
  proof (cases "issue_invitation L rq (u_id u) ?d2")
    case (Inl e)
    show ?thesis by (rule created [of u grants "[]"]) (simp_all add: u(1,2) d2 admin_create_user_def r Inl)
  next
    case (Inr x)
    obtain raw d3 where x: "x = (raw, d3)" by (cases x)
    note I = issue_invitation_Inr [OF Inr [unfolded x], unfolded d2(4)]
    have "database (snd (admin_create_user L rq a sc payload p)) = d3"
      by (simp add: admin_create_user_def r Inr x Let_def split: option.splits)
    then show ?thesis using created [of u grants "[new_invitation L rq (u_id u)]"] u(1,2) I d2 by simp
  qed
qed

lemma resend_invite_tables:
  assumes "q = snd (resend_invite L rq a i p)"
  shows "roles (database q) = roles (database p)" "user_roles (database q) = user_roles (database p)"
    "users (database q) = users (database p)"
  unfolding assms
  by (auto simp: resend_invite_def Let_def create_admin_audit_log_event_def create_admin_audit_log_entry_def invalidate_invitation_token_def
      split: prod.splits option.splits sum.splits dest!: issue_invitation_Inr)

lemma administered_grows:
  assumes "administered d" and "roles d' = roles d" and "set (user_roles d) \<subseteq> set (user_roles d')"
    and "\<And>u. u \<in> set (users d) \<Longrightarrow> u_status u = ACTIVE \<Longrightarrow> \<exists>v \<in> set (users d'). u_id v = u_id u \<and> u_status v = ACTIVE"
  shows "administered d'"
proof -
  have "active_admins d \<subseteq> active_admins d'" by (rule active_admins_mono) (use assms in auto)
  with assms(1,2) show ?thesis by (auto simp: administered_def catalogue_ok_def)
qed

lemma admin_step_administered:
  assumes "admin_step L p q" and "administered (database p)"
  shows "administered (database q)"
  using assms
proof (cases rule: admin_step.cases)
  case (roles rq a sc i ns)
  have "catalogue_ok (database q)"
    using replace_user_roles_success(8) replace_user_roles_failure(3) assms(2) roles
    by (cases "replace_user_roles rq a sc i ns p"; cases "fst (replace_user_roles rq a sc i ns p)")
      (auto simp: administered_def catalogue_ok_def)
  then show ?thesis using assms(2) roles replace_user_roles_keeps_an_admin by (simp add: administered_def)
next
  case (create rq a sc payload)
  show ?thesis
    by (cases rule: admin_create_user_tables [of L rq a sc payload p]; rule administered_grows [OF assms(2)])
      (auto simp: create)
next
  case (update rq a i b im)
  show ?thesis
  proof (cases rule: admin_update_user_cases [of L rq a i b im p])
    case (2 u cs reason d1)
    have "\<exists>v \<in> set (users (database q)). u_id v = u_id x \<and> u_status v = ACTIVE"
      if "x \<in> set (users (database p))" "u_status x = ACTIVE" for x
      using that in_update_rowsI [of x "users (database p)" "\<lambda>u. u_id u = i" "set_columns cs"]
      by (auto simp: update 2(4,5) update_user_def split: if_splits intro: bexI [of _ x] bexI [of _ "set_columns cs x"])
    then show ?thesis by (intro administered_grows [OF assms(2)]) (auto simp: update 2(4,5))
  qed (use update assms(2) in simp)
next
  case (deactivate rq a i reason)
  show ?thesis
  proof (cases "fst (deactivate_user rq a i reason p)")
    case (Inl e)
    then show ?thesis using deactivate assms(2) deactivate_user_Inl by (metis prod.collapse)
  next
    case (Inr r)
    then have run: "deactivate_user rq a i reason p = (Inr r, q)" using deactivate by (metis prod.collapse)
    show ?thesis
      using deactivate_user_admins [OF run] deactivate_user_Inr(2,3) [OF run] not_last_admin assms(2)
      by (simp add: administered_def catalogue_ok_def)
  qed
next
  case (resend rq a i)
  show ?thesis by (rule administered_grows [OF assms(2)]) (use resend_invite_tables [OF resend] in auto)
qed

interpretation administration: kept_by_steps "admin_step L" administered for L
  by unfold_locales (rule admin_step_administered)

section \<open>Invitations\<close>

definition pending_invitations :: "uuid \<Rightarrow> db \<Rightarrow> invitation_token list" where
  "pending_invitations i d = filter (\<lambda>k. it_user_id k = i \<and> it_consumed_at k = None) (invitation_tokens d)"

text \<open>The constraints of the table, and at most one usable token per account.\<close>

definition invitations_ok :: "db \<Rightarrow> bool" where
  "invitations_ok d \<longleftrightarrow> distinct (map it_id (invitation_tokens d))
     \<and> it_user_id ` set (invitation_tokens d) \<subseteq> u_id ` set (users d)
     \<and> (\<forall>i. length (pending_invitations i d) \<le> 1)"

lemma latest_token_in: "latest_token ks = Some k \<Longrightarrow> k \<in> set ks"
  by (auto simp: latest_token_def split: list.splits) (metis first_min_in)

lemma latest_token_max: "latest_token ks = Some k \<Longrightarrow> x \<in> set ks \<Longrightarrow> it_issued_at x \<le> it_issued_at k"
proof (cases ks)
  case (Cons y ys)
  moreover assume "latest_token ks = Some k" "x \<in> set ks"
  ultimately show ?thesis using first_min_le [of "\<lambda>k. - it_issued_at k" y ys] by (auto simp: latest_token_def)
qed simp

lemma latest_token_None: "latest_token ks = None \<longleftrightarrow> ks = []"
  by (simp add: latest_token_def split: list.splits)

text \<open>After the invalidation of the latest usable token there is none left.\<close>

definition invalidated :: "datetime \<Rightarrow> uuid \<Rightarrow> db \<Rightarrow> db" where
  "invalidated t i d = (case get_latest_unconsumed_invitation_token i d of
     None \<Rightarrow> d | Some prior \<Rightarrow> invalidate_invitation_token t (it_id prior) d)"

lemma invalidated_pending:
  assumes "invitations_ok d"
  shows "pending_invitations i (invalidated t i d) = []"
    and "j \<noteq> i \<Longrightarrow> pending_invitations j (invalidated t i d) = pending_invitations j d"
    and "map it_id (invitation_tokens (invalidated t i d)) = map it_id (invitation_tokens d)"
    and "map it_user_id (invitation_tokens (invalidated t i d)) = map it_user_id (invitation_tokens d)"
    and "map it_issued_at (invitation_tokens (invalidated t i d)) = map it_issued_at (invitation_tokens d)"
    and "users (invalidated t i d) = users d"
proof -
  have "length (pending_invitations i d) \<le> 1" using assms by (simp add: invitations_ok_def)
  then consider "pending_invitations i d = []" | k where "pending_invitations i d = [k]"
    by (metis One_nat_def le_Suc_eq le_zero_eq length_0_conv length_Suc_conv)
  then consider (none) "pending_invitations i d = []" "invalidated t i d = d"
    | (one) k where "pending_invitations i d = [k]" "invalidated t i d = invalidate_invitation_token t (it_id k) d"
    by cases (simp_all add: invalidated_def get_latest_unconsumed_invitation_token_def latest_token_def
        flip: pending_invitations_def)
  then have "pending_invitations i (invalidated t i d) = []
    \<and> (j \<noteq> i \<longrightarrow> pending_invitations j (invalidated t i d) = pending_invitations j d)"
  proof cases
    case (one k)
    then have k: "k \<in> set (invitation_tokens d)" "it_user_id k = i" "it_consumed_at k = None"
      by (auto simp: pending_invitations_def filter_eq_Cons_iff)
    have same: "x = k" if "x \<in> set (invitation_tokens d)" "it_id x = it_id k" for x
      using assms that k(1) by (auto simp: invitations_ok_def dest: distinct_key_eqD)
    have only: "x = k" if "x \<in> set (invitation_tokens d)" "it_user_id x = i" "it_consumed_at x = None" for x
    proof -
      from that have "x \<in> set (pending_invitations i d)" by (simp add: pending_invitations_def)
      then show ?thesis by (simp add: one(1))
    qed
    have "filter (\<lambda>x. it_user_id x = j' \<and> it_consumed_at x = None) (update_rows (\<lambda>x. it_id x = it_id k) (\<lambda>x. x\<lparr>it_consumed_at := Some t\<rparr>) rows)
        = filter (\<lambda>x. it_user_id x = j' \<and> it_consumed_at x = None \<and> j' \<noteq> i) rows" if "set rows \<subseteq> set (invitation_tokens d)" for j' rows
      using that
    proof (induction rows)
      case (Cons x rows)
      then show ?case using only [of x] same [of x] k(2) by auto
    qed simp
    from this [of "invitation_tokens d"] show ?thesis
      by (auto simp: one(2) invalidate_invitation_token_def pending_invitations_def)
  qed simp
  then show "pending_invitations i (invalidated t i d) = []"
    and "j \<noteq> i \<Longrightarrow> pending_invitations j (invalidated t i d) = pending_invitations j d" by simp_all
qed (simp_all add: invalidated_def invalidate_invitation_token_def split: option.splits)

lemma invitations_ok_same:
  assumes "invitations_ok d" and "invitation_tokens d' = invitation_tokens d"
    and "u_id ` set (users d) \<subseteq> u_id ` set (users d')"
  shows "invitations_ok d'"
proof -
  have "it_user_id ` set (invitation_tokens d) \<subseteq> u_id ` set (users d')"
    using assms(1,3) unfolding invitations_ok_def by (meson order_trans)
  then show ?thesis using assms(1,2) by (simp add: invitations_ok_def pending_invitations_def)
qed

lemma invitations_ok_issue:
  assumes "invitations_ok d" and "invitation_tokens d' = invitation_tokens (invalidated t i d) @ [k]"
    and "it_user_id k = i" "it_consumed_at k = None" "it_id k \<notin> it_id ` set (invitation_tokens d)"
    and "users d' = users d" "i \<in> u_id ` set (users d)"
  shows "invitations_ok d' \<and> pending_invitations i d' = [k]"
proof -
  note I = invalidated_pending [OF assms(1), where i = i and t = t]
  have p: "pending_invitations j d' = pending_invitations j (invalidated t i d) @ (if j = i then [k] else [])" for j
    using assms(2-4) by (simp add: pending_invitations_def)
  have "length (pending_invitations j d') \<le> 1" for j
    using I(1) I(2) [where j = j] assms(1) by (cases "j = i") (simp_all add: p invitations_ok_def)
  moreover have "distinct (map it_id (invitation_tokens d'))"
    using assms(1,5) by (simp add: assms(2) I(3) invitations_ok_def flip: set_map)
  moreover have "it_user_id ` set (invitation_tokens d') \<subseteq> u_id ` set (users d')"
  proof -
    have "it_user_id ` set (invitation_tokens (invalidated t i d)) = it_user_id ` set (invitation_tokens d)"
      using I(4) by (metis set_map)
    then show ?thesis using assms(1,3,6,7) by (simp add: assms(2) invitations_ok_def)
  qed
  ultimately show ?thesis by (simp add: invitations_ok_def p I(1))
qed

lemma resend_invite_cases:
  obtains (refused) e where "resend_invite L rq a i p = (Inl e, p)"
  | (issued) u where "get_by_id i (database p) = Some u" "u_status u = INVITED"
      "\<forall>k \<in> set (invitation_tokens (database p)). it_user_id k = i \<longrightarrow> it_issued_at k + seconds 60 \<le> rq_now rq"
      "count_invitation_tokens_issued_since i (rq_now rq - hours 1) (database p) < 5"
      "rq_uuid rq 1 \<notin> it_id ` set (invitation_tokens (invalidated (rq_db_now rq) i (database p)))"
      "invitation_tokens (database (snd (resend_invite L rq a i p)))
         = invitation_tokens (invalidated (rq_db_now rq) i (database p)) @ [new_invitation L rq i]"
      "users (database (snd (resend_invite L rq a i p))) = users (database p)"
proof (cases "\<exists>e. resend_invite L rq a i p = (Inl e, p)")
  case False
  then obtain u where u: "get_by_id i (database p) = Some u" "u_status u = INVITED"
    by (auto simp: resend_invite_def get_with_roles_def Let_def split: option.splits if_splits)
  then have ui: "u_id u = i" by (auto dest: get_by_id_SomeD)
  let ?cool = "case get_latest_invitation_token i (database p) of None \<Rightarrow> seconds 60 | Some k \<Rightarrow> rq_now rq - it_issued_at k"
  from False u have c: "seconds 60 \<le> ?cool" "count_invitation_tokens_issued_since i (rq_now rq - hours 1) (database p) < 5"
    by (auto simp: resend_invite_def get_with_roles_def Let_def not_le split: if_splits)
  have cool: "\<forall>k \<in> set (invitation_tokens (database p)). it_user_id k = i \<longrightarrow> it_issued_at k + seconds 60 \<le> rq_now rq"
  proof (intro ballI impI)
    fix k assume k: "k \<in> set (invitation_tokens (database p))" "it_user_id k = i"
    then obtain l where l: "get_latest_invitation_token i (database p) = Some l"
      by (cases "get_latest_invitation_token i (database p)") (auto simp: get_latest_invitation_token_def latest_token_None filter_empty_conv)
    then have "it_issued_at k \<le> it_issued_at l" using k by (auto simp: get_latest_invitation_token_def intro: latest_token_max)
    then show "it_issued_at k + seconds 60 \<le> rq_now rq" using c(1) l by simp
  qed
  from False u ui c obtain d2 where d2: "issue_invitation L rq i (invalidated (rq_db_now rq) i (database p)) = Inr (rq_token rq 0, d2)"
    and r: "users (database (snd (resend_invite L rq a i p))) = users d2"
      "invitation_tokens (database (snd (resend_invite L rq a i p))) = invitation_tokens d2"
    by (cases "issue_invitation L rq i (invalidated (rq_db_now rq) i (database p))")
      (auto simp: resend_invite_def get_with_roles_def Let_def create_admin_audit_log_event_def invalidated_def
        dest!: issue_invitation_Inr split: if_splits)
  note I = issue_invitation_Inr [OF d2]
  show ?thesis
    by (rule issued [OF u cool c(2)]) (use I in \<open>simp_all add: r\<close>,
      simp add: invalidated_def invalidate_invitation_token_def split: option.splits)
qed (use refused in blast)

lemma admin_step_invitations:
  assumes "admin_step L p q" and "invitations_ok (database p)"
  shows "invitations_ok (database q)"
  using assms(1)
proof (cases rule: admin_step.cases)
  case (roles rq a sc i ns)
  show ?thesis
    by (rule invitations_ok_same [OF assms(2)])
      (auto simp: roles replace_user_roles_def Let_def replace_for_user_def split: sum.splits if_splits)
next
  case (create rq a sc payload)
  show ?thesis
  proof (cases rule: admin_create_user_tables [of L rq a sc payload p])
    case refused
    then show ?thesis by (intro invitations_ok_same [OF assms(2)]) (simp_all add: create)
  next
    case (created u grants ks)
    have none: "pending_invitations (u_id u) (database p) = []"
    proof -
      have "it_user_id k \<noteq> u_id u" if "k \<in> set (invitation_tokens (database p))" for k
        using assms(2) created(2) that unfolding invitations_ok_def by (metis image_eqI subsetD)
      then show ?thesis by (auto simp: pending_invitations_def filter_empty_conv)
    qed
    from created(7) consider "ks = []" | k where "ks = [k]" "it_user_id k = u_id u"
        "it_id k \<notin> it_id ` set (invitation_tokens (database p))" by blast
    then show ?thesis
    proof cases
      case 2
      have "pending_invitations j (database q) = (if j = u_id u then filter (\<lambda>k. it_consumed_at k = None) [k]
          else pending_invitations j (database p))" for j
        using none by (simp add: pending_invitations_def create created(6) 2(1,2))
      then have "length (pending_invitations j (database q)) \<le> 1" for j
        using assms(2) by (simp add: invitations_ok_def)
      then show ?thesis using assms(2) 2 created(5,6)
        by (auto simp: invitations_ok_def create)
    qed (use created in \<open>auto simp: create intro!: invitations_ok_same [OF assms(2)]\<close>)
  qed
next
  case (update rq a i b im)
  show ?thesis
  proof (cases rule: admin_update_user_cases [of L rq a i b im p])
    case (2 u cs reason d1)
    show ?thesis
      by (rule invitations_ok_same [OF assms(2)]) (simp_all add: update 2(4,5) update_user_def flip: set_map)
  qed (use update assms(2) in simp)
next
  case (deactivate rq a i reason)
  show ?thesis
  proof (cases "fst (deactivate_user rq a i reason p)")
    case (Inl e)
    then show ?thesis using deactivate assms(2) deactivate_user_Inl by (metis prod.collapse)
  next
    case (Inr r)
    then have run: "deactivate_user rq a i reason p = (Inr r, q)" using deactivate by (metis prod.collapse)
    show ?thesis
      by (rule invitations_ok_same [OF assms(2)]) (simp_all add: deactivate_user_Inr(5,6) [OF run] flip: set_map)
  qed
next
  case (resend rq a i)
  show ?thesis
  proof (cases rule: resend_invite_cases [of L rq a i p])
    case (issued u)
    have "it_id ` set (invitation_tokens (invalidated (rq_db_now rq) i (database p))) = it_id ` set (invitation_tokens (database p))"
      using invalidated_pending(3) [OF assms(2)] by (metis set_map)
    with issued show ?thesis
      using invitations_ok_issue [OF assms(2) issued(6)] get_by_id_SomeD [OF issued(1)] by (auto simp: resend)
  qed (use resend assms(2) in simp)
qed

interpretation inviting: kept_by_steps "admin_step L" invitations_ok for L
  by unfold_locales (rule admin_step_invitations)

section \<open>Properties\<close>

text \<open>C13. The portal never loses its last administrator through administrative requests: after any sequence of
  role replacements, account creations, updates, deactivations and invitations, whoever sends them and
  whatever they ask for, some active account still holds the \<open>admin\<close> role if one did before.\<close>

theorem administration_keeps_an_admin:
  assumes "(admin_step L)\<^sup>*\<^sup>* p q" and "catalogue_ok (database p)" and "active_admins (database p) \<noteq> {}"
  shows "active_admins (database q) \<noteq> {}"
proof -
  have "administered (database p)" using assms(2,3) by (simp add: administered_def)
  from administration.history_keeps [OF assms(1) this] show ?thesis by (simp add: administered_def)
qed

text \<open>The first of two administrators deactivates the second one, who is then refused as a target again,
  and a third account cannot deactivate the last one.\<close>

definition one_admin_left :: portal where
  "one_admin_left = snd (deactivate_user sample_request 1 2 ''left'' two_admins)"

lemma last_admin_refused:
  "map u_status (users (database one_admin_left)) = [ACTIVE, DEACTIVATED]"
  "fst (deactivate_user sample_request 9 1 ''x'' one_admin_left) = Inl LastAdminError"
  by code_simp+

theorem administration_keeps_an_admin_witness:
  "active_admins (database (snd (deactivate_user sample_request 9 1 ''x'' one_admin_left))) \<noteq> {}"
proof (rule administration_keeps_an_admin [OF _ catalogue_ok_two_admins])
  have "admin_step zero_libs two_admins one_admin_left"
    unfolding one_admin_left_def by (rule admin_step.deactivate)
  moreover have "admin_step zero_libs one_admin_left (snd (deactivate_user sample_request 9 1 ''x'' one_admin_left))"
    by (rule admin_step.deactivate)
  ultimately show "(admin_step zero_libs)\<^sup>*\<^sup>* two_admins (snd (deactivate_user sample_request 9 1 ''x'' one_admin_left))"
    by (rule rtranclp.rtrancl_into_rtrancl [OF r_into_rtranclp])
  have "1 \<in> active_admins (database two_admins)"
    by (simp add: active_admins_def two_admins_def empty_db_def list_role_names_for_user_def
        join_user_roles_def ADMIN_ROLE_NAME_def new_user_def)
  then show "active_admins (database two_admins) \<noteq> {}" by blast
qed

text \<open>Self-service deactivation has no such guard: the last administrator can deactivate itself.\<close>

lemma last_admin_deactivates_itself:
  "let p = two_admins\<lparr>database := (database two_admins)\<lparr>users := [(new_user 0 1 ''a@x'' ''s$pw'' ACTIVE)\<lparr>u_email_verified := True\<rparr>]\<rparr>\<rparr>;
       q = deactivate_account zero_libs sample_request 1 (Some ''pw'') p
   in fst q = Inr 990 \<and> map u_status (users (database (snd q))) = [DEACTIVATED]"
  by code_simp

text \<open>C27. Invitations. In a portal whose history of administrative requests started with at most one usable
  invitation per account, a successful resend leaves exactly one usable invitation for its target, the
  one just mailed, which is valid for 24 hours; at most one for every other account; it happens only for
  an invited account, at least 60 seconds after every earlier invitation of the account, and no more than five
  of the account's invitations were issued within the last hour.\<close>

theorem resend_invite_limits:
  assumes "(admin_step L)\<^sup>*\<^sup>* start p" and "invitations_ok (database start)"
    and "resend_invite L rq a i p = (Inr r, p')"
  shows "pending_invitations i (database p') = [new_invitation L rq i]
    \<and> (\<forall>j. length (pending_invitations j (database p')) \<le> 1)
    \<and> (\<exists>u. get_by_id i (database p) = Some u \<and> u_status u = INVITED)
    \<and> (\<forall>k \<in> set (invitation_tokens (database p)). it_user_id k = i \<longrightarrow> it_issued_at k + seconds 60 \<le> rq_now rq)
    \<and> count_invitation_tokens_issued_since i (rq_now rq - hours 1) (database p') \<le> 5"
proof (cases rule: resend_invite_cases [of L rq a i p])
  case (issued u)
  have ok: "invitations_ok (database p)" using inviting.history_keeps assms(1,2) by blast
  note I = invalidated_pending [OF ok, where i = i and t = "rq_db_now rq"]
  have p': "invitation_tokens (database p') = invitation_tokens (invalidated (rq_db_now rq) i (database p)) @ [new_invitation L rq i]"
      "users (database p') = users (database p)" using issued(6,7) assms(3) by simp_all
  have "rq_uuid rq 1 \<notin> it_id ` set (invitation_tokens (database p))" using issued(5) I(3) by (metis set_map)
  then have "invitations_ok (database p') \<and> pending_invitations i (database p') = [new_invitation L rq i]"
    using p' get_by_id_SomeD [OF issued(1)] by (intro invitations_ok_issue [OF ok]) auto
  moreover have "count_invitation_tokens_issued_since i s (invalidated t i d) = count_invitation_tokens_issued_since i s d" for s t d
    by (simp add: count_invitation_tokens_issued_since_def invalidated_def invalidate_invitation_token_def
        update_rows_def filter_map o_def if_distrib cong: if_cong split: option.splits)
  then have "count_invitation_tokens_issued_since i (rq_now rq - hours 1) (database p') \<le> 5"
    using issued(4) by (simp add: count_invitation_tokens_issued_since_def p'(1))
  ultimately show ?thesis using issued(1-3) by (auto simp: invitations_ok_def)
qed (use assms(3) in simp)

text \<open>An invited account and its second invitation, a minute after the first.\<close>

definition invited_portal :: portal where
  "invited_portal = snd (admin_create_user zero_libs sample_request 1 {}
     \<lparr>cur_email = '' New@X '', cur_display_name = ''n'', cur_roles = []\<rparr> two_admins)"

definition minute_later :: request where
  "minute_later = sample_request\<lparr>rq_now := 990 + seconds 60, rq_db_now := 980 + seconds 60,
     rq_uuid := (\<lambda>n. of_nat (300 + n)), rq_token := (\<lambda>n. replicate (n + 5) (CHR ''s''))\<rparr>"

theorem resend_invite_limits_witness:
  "pending_invitations 100 (database invited_portal) = [new_invitation zero_libs sample_request 100]
   \<and> pending_invitations 100 (database (snd (resend_invite zero_libs minute_later 1 100 invited_portal)))
     = [new_invitation zero_libs minute_later 100]"
proof -
  have "admin_step zero_libs two_admins invited_portal"
    unfolding invited_portal_def by (rule admin_step.create)
  then have "(admin_step zero_libs)\<^sup>*\<^sup>* two_admins invited_portal" by blast
  moreover have "invitations_ok (database two_admins)"
    by (simp add: invitations_ok_def pending_invitations_def two_admins_def empty_db_def)
  moreover have "fst (resend_invite zero_libs minute_later 1 100 invited_portal) = Inr ()" by code_simp
  then have "resend_invite zero_libs minute_later 1 100 invited_portal
      = (Inr (), snd (resend_invite zero_libs minute_later 1 100 invited_portal))" by (metis prod.collapse)
  ultimately have "pending_invitations 100 (database (snd (resend_invite zero_libs minute_later 1 100 invited_portal)))
     = [new_invitation zero_libs minute_later 100]" using resend_invite_limits by blast
  moreover have "pending_invitations 100 (database invited_portal) = [new_invitation zero_libs sample_request 100]" by code_simp
  ultimately show ?thesis by blast
qed

text \<open>The administrative update shares the contract of conditional writes.\<close>

interpretation admin_write: conditional_write "\<lambda>L. admin_update_user L rq a i b"
  "\<lambda>d. map_option admin_etag_fields (get_by_id i d)" "AdminUsersError AdminPreconditionFailedError" for rq a i b
  by unfold_locales (auto simp: admin_etag_fields_def admin_update_user_def get_with_roles_def)

text \<open>An unknown role name together with a cursor is reported as an invalid cursor.\<close>

lemma unknown_role_blames_cursor:
  assumes "find_row (\<lambda>r. ro_name r = name) (roles (database p)) = None" and "limit \<le> 100"
  shows "list_users L q None (Some name) (Some c) limit p = Inl (admin_invalid ''cursor'' ''Invalid cursor.'' ''invalid'')"
  using assms by (simp add: list_users_def repo_list_users_def Let_def)

end
