(* ===== verification/Support_Repository.thy ===== *)
theory Support_Repository
  imports Audit_Chain Json Users_Auth
begin

text \<open>
  The tables and repositories of the support module (\<open>app/modules/support/models.py\<close>,
  \<open>repository.py\<close>) with their constraints: ticket numbers drawn from a sequence, the two CHECK
  constraints on tickets, the CHECK constraint and the row level security policies on replies, and the
  conditional updates by which status changes, assignments and attachment bindings are made atomic.

  A repository method that updates a ticket returns the updated row, \<open>None\<close> when no row matched, or the
  database error of a violated constraint.
\<close>

section \<open>Tickets\<close>

definition RESOLUTION_WINDOW_DAYS :: int where "RESOLUTION_WINDOW_DAYS = 7"

text \<open>\<open>lpad(s, n, '0')\<close> pads on the left and cuts off what does not fit.\<close>

definition lpad0 :: "nat \<Rightarrow> string \<Rightarrow> string" where
  "lpad0 n s = take n (replicate (n - length s) (CHR ''0'') @ s)"

definition ticket_number :: "libs \<Rightarrow> datetime \<Rightarrow> nat \<Rightarrow> string" where
  "ticket_number L t n = ''CP-'' @ extract_year L t @ ''-'' @ lpad0 7 (nat_digits n)"

text \<open>\<open>ck_tickets_closed_requires_closed_fields\<close> and \<open>ck_tickets_resolved_requires_resolution_fields\<close>.\<close>

definition ticket_checks :: "ticket \<Rightarrow> bool" where
  "ticket_checks k \<longleftrightarrow>
     ((tk_status k = Closed) = (tk_closed_at k \<noteq> None \<and> tk_closed_by k \<noteq> None))
   \<and> (tk_status k \<noteq> Resolved \<or> tk_resolved_at k \<noteq> None \<and> tk_resolution_note k \<noteq> None)"

definition ticket_violation :: "ticket \<Rightarrow> sql_error option" where
  "ticket_violation k =
     (if length (tk_ticket_number k) > 20 \<or> length (tk_subject k) > 150 \<or> length (tk_body k) > 5000
         \<or> length (tk_category k) > 50 \<or> \<not> fits 5000 (tk_resolution_note k) then Some DataError
      else if \<not> ticket_checks k then Some IntegrityError else None)"

text \<open>The insert. The sequence keeps its advance when the transaction is rolled back.\<close>

definition advance_ticket_seq :: "db \<Rightarrow> db" where
  "advance_ticket_seq d = d\<lparr>ticket_number_seq := Suc (ticket_number_seq d)\<rparr>"

definition ticket_create ::
  "libs \<Rightarrow> datetime \<Rightarrow> uuid \<Rightarrow> uuid \<Rightarrow> string \<Rightarrow> string \<Rightarrow> string \<Rightarrow> db \<Rightarrow> sql_error + ticket \<times> db" where
  "ticket_create L t i requester_id subject body category d =
     (let k = \<lparr>tk_id = i, tk_ticket_number = ticket_number L t (ticket_number_seq d), tk_requester_id = requester_id,
            tk_subject = subject, tk_body = body, tk_category = category, tk_status = Open,
            tk_created_at = t, tk_updated_at = t, tk_first_response_at = None, tk_resolved_at = None,
            tk_resolution_note = None, tk_closed_at = None, tk_closed_by = None, tk_assignee_id = None\<rparr>
      in case ticket_violation k of
           Some e \<Rightarrow> Inl e
         | None \<Rightarrow>
             if i \<in> tk_id ` set (tickets d) \<or> tk_ticket_number k \<in> tk_ticket_number ` set (tickets d)
                \<or> get_by_id requester_id d = None then Inl IntegrityError
             else Inr (k, (advance_ticket_seq d)\<lparr>tickets := tickets d @ [k]\<rparr>))"

definition ticket_get_by_id :: "uuid \<Rightarrow> db \<Rightarrow> ticket option" where
  "ticket_get_by_id ticket_id d = find_row (\<lambda>k. tk_id k = ticket_id) (tickets d)"

definition created_pos :: "ticket \<Rightarrow> position" where
  "created_pos k = (tk_created_at k, tk_id k)"

definition updated_pos :: "ticket \<Rightarrow> position" where
  "updated_pos k = (tk_updated_at k, tk_id k)"

definition list_for_requester ::
  "libs \<Rightarrow> uuid \<Rightarrow> string option \<Rightarrow> int \<Rightarrow> db \<Rightarrow> (ticket list \<times> string option) option outcome" where
  "list_for_requester L requester_id cursor limit d =
     keyset_page L True created_pos cursor limit (filter (\<lambda>k. tk_requester_id k = requester_id) (tickets d))"

datatype assignee_filter = AnyAssignee | Unassigned | AssignedTo uuid

definition agent_queue :: "ticket_status option \<Rightarrow> string option \<Rightarrow> assignee_filter \<Rightarrow> ticket list \<Rightarrow> ticket list" where
  "agent_queue status category assignee rows =
     filter (\<lambda>k. (case status of None \<Rightarrow> tk_status k \<noteq> Closed | Some s \<Rightarrow> tk_status k = s)
       \<and> (case category of None \<Rightarrow> True | Some c \<Rightarrow> tk_category k = c)
       \<and> (case assignee of AnyAssignee \<Rightarrow> True | Unassigned \<Rightarrow> tk_assignee_id k = None
            | AssignedTo a \<Rightarrow> tk_assignee_id k = Some a)) rows"

definition list_for_agent_queue ::
  "libs \<Rightarrow> string option \<Rightarrow> int \<Rightarrow> ticket_status option \<Rightarrow> string option \<Rightarrow> assignee_filter \<Rightarrow> db
    \<Rightarrow> (ticket list \<times> string option) option outcome" where
  "list_for_agent_queue L cursor limit status category assignee d =
     keyset_page L False updated_pos cursor limit (agent_queue status category assignee (tickets d))"

text \<open>\<open>UPDATE tickets ... RETURNING\<close> for one ticket.\<close>

definition update_ticket ::
  "(ticket \<Rightarrow> bool) \<Rightarrow> (ticket \<Rightarrow> ticket) \<Rightarrow> db \<Rightarrow> sql_error + ticket option \<times> db" where
  "update_ticket p f d =
     (case find_row p (tickets d) of
        None \<Rightarrow> Inr (None, d)
      | Some k \<Rightarrow> (case ticket_violation (f k) of
            Some e \<Rightarrow> Inl e
          | None \<Rightarrow> Inr (Some (f k), d\<lparr>tickets := update_rows p f (tickets d)\<rparr>)))"

definition override :: "'a option \<Rightarrow> 'a option \<Rightarrow> 'a option" where
  "override new old = (case new of None \<Rightarrow> old | Some v \<Rightarrow> Some v)"

definition ticket_set ::
  "datetime \<times> uuid \<times> ticket_status option \<times> datetime option \<Rightarrow> db \<Rightarrow> sql_error + ticket option \<times> db" where
  "ticket_set = (\<lambda>(t, ticket_id, status, first_response_at). update_ticket (\<lambda>k. tk_id k = ticket_id)
     (\<lambda>k. k\<lparr>tk_status := (case status of None \<Rightarrow> tk_status k | Some s \<Rightarrow> s),
            tk_first_response_at := override first_response_at (tk_first_response_at k),
            tk_updated_at := t\<rparr>))"

definition ticket_update ::
  "datetime \<Rightarrow> uuid \<Rightarrow> ticket_status option \<Rightarrow> datetime option \<Rightarrow> db \<Rightarrow> sql_error + ticket option \<times> db" where
  "ticket_update t ticket_id status first_response_at d =
     (if status = None \<and> first_response_at = None then Inr (ticket_get_by_id ticket_id d, d)
      else ticket_set (t, ticket_id, status, first_response_at) d)"

text \<open>The window is inclusive; a ticket without \<open>resolved_at\<close> is outside it.\<close>

definition within_window :: "datetime \<Rightarrow> ticket \<Rightarrow> bool" where
  "within_window t k = (case tk_resolved_at k of None \<Rightarrow> False | Some r \<Rightarrow> t - days RESOLUTION_WINDOW_DAYS \<le> r)"

definition transition_status ::
  "datetime \<Rightarrow> uuid \<Rightarrow> ticket_status list \<Rightarrow> ticket_status \<Rightarrow> datetime option \<Rightarrow> bool \<Rightarrow> string option
    \<Rightarrow> datetime option \<Rightarrow> uuid option \<Rightarrow> bool \<Rightarrow> db \<Rightarrow> sql_error + ticket option \<times> db" where
  "transition_status t ticket_id expected_statuses new_status resolved_at clear_resolved_at resolution_note
       closed_at closed_by require_resolved_within_window d =
     update_ticket
       (\<lambda>k. tk_id k = ticket_id \<and> tk_status k \<in> set expected_statuses
          \<and> (require_resolved_within_window \<longrightarrow> within_window t k))
       (\<lambda>k. k\<lparr>tk_status := new_status,
              tk_resolved_at := (if clear_resolved_at then None else override resolved_at (tk_resolved_at k)),
              tk_resolution_note := override resolution_note (tk_resolution_note k),
              tk_closed_at := override closed_at (tk_closed_at k),
              tk_closed_by := override closed_by (tk_closed_by k),
              tk_updated_at := t\<rparr>) d"

text \<open>The foreign key of \<open>assignee_id\<close> rejects an unknown user.\<close>

definition repo_assign_ticket :: "uuid \<Rightarrow> uuid \<Rightarrow> uuid option \<Rightarrow> db \<Rightarrow> sql_error + ticket option \<times> db" where
  "repo_assign_ticket ticket_id new_assignee_id expected_assignee_id d =
     (case update_ticket (\<lambda>k. tk_id k = ticket_id \<and> tk_status k \<noteq> Closed \<and> tk_assignee_id k = expected_assignee_id)
         (\<lambda>k. k\<lparr>tk_assignee_id := Some new_assignee_id\<rparr>) d of
        Inr (Some k, d') \<Rightarrow> if get_by_id new_assignee_id d = None then Inl IntegrityError else Inr (Some k, d')
      | r \<Rightarrow> r)"

definition repo_unassign_ticket :: "uuid \<Rightarrow> db \<Rightarrow> sql_error + ticket option \<times> db" where
  "repo_unassign_ticket ticket_id d =
     update_ticket (\<lambda>k. tk_id k = ticket_id \<and> tk_status k \<noteq> Closed) (\<lambda>k. k\<lparr>tk_assignee_id := None\<rparr>) d"

definition past_window :: "datetime \<Rightarrow> ticket \<Rightarrow> bool" where
  "past_window t k = (tk_status k = Resolved
     \<and> (case tk_resolved_at k of None \<Rightarrow> False | Some r \<Rightarrow> r < t - days RESOLUTION_WINDOW_DAYS))"

definition auto_close_resolved_past_window :: "datetime \<Rightarrow> datetime \<Rightarrow> uuid \<Rightarrow> db \<Rightarrow> uuid list \<times> db" where
  "auto_close_resolved_past_window t closed_at closed_by d =
     (map tk_id (filter (past_window t) (tickets d)),
      d\<lparr>tickets := update_rows (past_window t)
          (\<lambda>k. k\<lparr>tk_status := Closed, tk_closed_at := Some closed_at, tk_closed_by := Some closed_by,
                 tk_updated_at := t\<rparr>) (tickets d)\<rparr>)"

section \<open>Attachments\<close>

definition attachment_get_by_id :: "uuid \<Rightarrow> db \<Rightarrow> attachment option" where
  "attachment_get_by_id attachment_id d = find_row (\<lambda>a. at_id a = attachment_id) (attachments d)"

definition bind_to_ticket :: "uuid \<Rightarrow> uuid \<Rightarrow> db \<Rightarrow> attachment option \<times> db" where
  "bind_to_ticket ticket_id attachment_id d =
     (let (r, rows) = update_returning (\<lambda>a. at_id a = attachment_id \<and> at_ticket_id a = None)
        (\<lambda>a. a\<lparr>at_ticket_id := Some ticket_id\<rparr>) (attachments d)
      in (r, d\<lparr>attachments := rows\<rparr>))"

definition bind_to_reply :: "uuid \<Rightarrow> uuid \<Rightarrow> db \<Rightarrow> attachment option \<times> db" where
  "bind_to_reply ticket_reply_id attachment_id d =
     (let (r, rows) = update_returning (\<lambda>a. at_id a = attachment_id \<and> at_ticket_reply_id a = None)
        (\<lambda>a. a\<lparr>at_ticket_reply_id := Some ticket_reply_id\<rparr>) (attachments d)
      in (r, d\<lparr>attachments := rows\<rparr>))"

definition find_unbound_older_than :: "datetime \<Rightarrow> db \<Rightarrow> attachment list" where
  "find_unbound_older_than cutoff d = filter (\<lambda>a. at_ticket_id a = None \<and> at_created_at a < cutoff) (attachments d)"

definition purge_attachments :: "uuid list \<Rightarrow> db \<Rightarrow> nat \<times> db" where
  "purge_attachments attachment_ids d =
     (length (filter (\<lambda>a. at_id a \<in> set attachment_ids) (attachments d)),
      d\<lparr>attachments := delete_rows (\<lambda>a. at_id a \<in> set attachment_ids) (attachments d)\<rparr>)"

section \<open>Replies\<close>

text \<open>The policies \<open>ticket_replies_read\<close> and \<open>ticket_replies_write\<close>, for the setting
  \<open>app.actor_kind\<close> that \<open>get_rls_session\<close> makes for the transaction. A refused insert is an error of the
  database like a violated constraint.\<close>

definition rls_visible :: "actor_kind \<Rightarrow> ticket_reply \<Rightarrow> bool" where
  "rls_visible setting r \<longleftrightarrow> tr_visibility r = Public \<or> setting = Agent"

definition reply_create ::
  "actor_kind \<Rightarrow> datetime \<Rightarrow> uuid \<Rightarrow> uuid \<Rightarrow> uuid \<Rightarrow> actor_kind \<Rightarrow> string \<Rightarrow> visibility \<Rightarrow> db
    \<Rightarrow> sql_error + ticket_reply \<times> db" where
  "reply_create setting t i ticket_id author_id author_kind body vis d =
     (let r = \<lparr>tr_id = i, tr_ticket_id = ticket_id, tr_author_id = author_id, tr_author_kind = author_kind,
            tr_body = body, tr_visibility = vis, tr_created_at = t\<rparr>
      in if length body > 5000 then Inl DataError
         else if \<not> rls_visible setting r \<or> \<not> (vis = Public \<or> author_kind = Agent)
           \<or> i \<in> tr_id ` set (ticket_replies d) \<or> ticket_get_by_id ticket_id d = None
           \<or> get_by_id author_id d = None then Inl IntegrityError
         else Inr (r, d\<lparr>ticket_replies := ticket_replies d @ [r]\<rparr>))"

definition reply_pos :: "ticket_reply \<Rightarrow> position" where
  "reply_pos r = (tr_created_at r, tr_id r)"

definition list_for_ticket ::
  "libs \<Rightarrow> actor_kind \<Rightarrow> uuid \<Rightarrow> string option \<Rightarrow> int \<Rightarrow> db \<Rightarrow> (ticket_reply list \<times> string option) option outcome" where
  "list_for_ticket L setting ticket_id cursor limit d =
     keyset_page L False reply_pos cursor limit
       (filter (\<lambda>r. rls_visible setting r \<and> tr_ticket_id r = ticket_id) (ticket_replies d))"

end
