(* ===== verification/Support_Tickets.thy ===== *)
theory Support_Tickets
  imports Support_Repository
begin

text \<open>
  \<open>TicketService\<close> (\<open>app/modules/support/service.py\<close>): creation with idempotency keys and a rate limit, the
  two listings, assignment, and the transitions resolve, close and reopen; and the two cron scripts.

  Requests of different users interleave. A method that looks a ticket up and then issues a conditional
  update takes the database the lookup read as the argument \<open>seen\<close>; the update runs on the current
  database. Running alone is the case \<open>seen = database p\<close>. The polls of an idempotent replay take the
  portal as each poll finds it as the argument \<open>later\<close>.
\<close>

section \<open>Constants\<close>

definition IDEMPOTENCY_TTL_SECONDS :: int where "IDEMPOTENCY_TTL_SECONDS = 86400"
definition RATE_LIMIT_WINDOW_SECONDS :: int where "RATE_LIMIT_WINDOW_SECONDS = 3600"
definition RATE_LIMIT_MAX_CREATES :: int where "RATE_LIMIT_MAX_CREATES = 5"
definition POLL_INTERVAL :: int where "POLL_INTERVAL = 100000"
definition POLL_MAX_ATTEMPTS :: nat where "POLL_MAX_ATTEMPTS = 5"
definition MAX_LIST_LIMIT :: int where "MAX_LIST_LIMIT = 100"

fun ALLOWED_EVENTS_BY_STATUS :: "ticket_status \<Rightarrow> string list" where
  "ALLOWED_EVENTS_BY_STATUS Open = [''resolve'', ''close'']"
| "ALLOWED_EVENTS_BY_STATUS WaitingOnSupport = [''resolve'', ''close'']"
| "ALLOWED_EVENTS_BY_STATUS WaitingOnCustomer = [''resolve'', ''close'']"
| "ALLOWED_EVENTS_BY_STATUS Resolved = [''close'', ''reopen'']"
| "ALLOWED_EVENTS_BY_STATUS Closed = []"

definition RESOLVE_ELIGIBLE_STATUSES :: "ticket_status list" where
  "RESOLVE_ELIGIBLE_STATUSES = [Open, WaitingOnSupport, WaitingOnCustomer]"

definition CLOSE_ELIGIBLE_STATUSES :: "ticket_status list" where
  "CLOSE_ELIGIBLE_STATUSES = [Open, WaitingOnSupport, WaitingOnCustomer, Resolved]"

definition REOPEN_ELIGIBLE_STATUSES :: "ticket_status list" where
  "REOPEN_ELIGIBLE_STATUSES = [Resolved]"

section \<open>Responses\<close>

record ticket_read =
  tkr_id :: uuid
  tkr_ticket_number :: string
  tkr_status :: string
  tkr_requester_id :: uuid
  tkr_subject :: string
  tkr_body :: string
  tkr_category :: string
  tkr_created_at :: datetime
  tkr_updated_at :: datetime

definition to_ticket_read :: "ticket \<Rightarrow> ticket_read" where
  "to_ticket_read k = \<lparr>tkr_id = tk_id k, tkr_ticket_number = tk_ticket_number k,
     tkr_status = ticket_status_str (tk_status k), tkr_requester_id = tk_requester_id k,
     tkr_subject = tk_subject k, tkr_body = tk_body k, tkr_category = tk_category k,
     tkr_created_at = tk_created_at k, tkr_updated_at = tk_updated_at k\<rparr>"

record agent_ticket_read = ticket_read +
  tkr_assignee_id :: "uuid option"

definition to_agent_ticket_read :: "ticket \<Rightarrow> agent_ticket_read" where
  "to_agent_ticket_read k = ticket_read.extend (to_ticket_read k) \<lparr>tkr_assignee_id = tk_assignee_id k\<rparr>"

record ticket_state_read =
  tsr_id :: uuid
  tsr_ticket_number :: string
  tsr_status :: string
  tsr_resolved_at :: "datetime option"
  tsr_closed_at :: "datetime option"
  tsr_updated_at :: datetime

definition to_ticket_state_read :: "ticket \<Rightarrow> ticket_state_read" where
  "to_ticket_state_read k = \<lparr>tsr_id = tk_id k, tsr_ticket_number = tk_ticket_number k,
     tsr_status = ticket_status_str (tk_status k), tsr_resolved_at = tk_resolved_at k,
     tsr_closed_at = tk_closed_at k, tsr_updated_at = tk_updated_at k\<rparr>"

record agent_ticket_state_read = ticket_state_read +
  tsr_assignee_id :: "uuid option"

definition to_agent_ticket_state_read :: "ticket \<Rightarrow> agent_ticket_state_read" where
  "to_agent_ticket_state_read k = ticket_state_read.extend (to_ticket_state_read k) \<lparr>tsr_assignee_id = tk_assignee_id k\<rparr>"

definition support_validation :: "string \<Rightarrow> string \<Rightarrow> string \<Rightarrow> portal_error" where
  "support_validation field message code =
     SupportError (SupportValidationFailedError [\<lparr>fe_field = field, fe_message = message, fe_code = code\<rparr>])"

section \<open>Creating a ticket\<close>

definition canonical_request :: "string \<Rightarrow> string \<Rightarrow> string \<Rightarrow> uuid list \<Rightarrow> string" where
  "canonical_request subject body category attachment_ids =
     json_object [(''subject'', json_str subject), (''body'', json_str body),
       (''category'', json_str category), (''attachment_ids'', json_str_list (sort (map uuid_str attachment_ids)))]"

definition hash_request :: "libs \<Rightarrow> string \<Rightarrow> string \<Rightarrow> string \<Rightarrow> uuid list \<Rightarrow> string" where
  "hash_request L subject body category attachment_ids =
     sha256_hex L (canonical_request subject body category attachment_ids)"

text \<open>\<open>_resolve_idempotency_replay\<close>: at most five reads of the envelope; the result carries the number
  of sleeps made.\<close>

fun poll_replay :: "nat \<Rightarrow> nat \<Rightarrow> (nat \<Rightarrow> idempotency_envelope option) \<Rightarrow> string \<Rightarrow> uuid outcome \<times> nat" where
  "poll_replay 0 k reads request_hash =
     (Inl (RuntimeError ''idempotency poll exhausted: in-flight request did not resolve''), k)"
| "poll_replay (Suc n) k reads request_hash =
     (case reads k of
        None \<Rightarrow> (Inl (RuntimeError ''idempotency poll exhausted: in-flight request did not resolve''), k)
      | Some envelope \<Rightarrow>
          if env_request_hash envelope \<noteq> request_hash then (Inl (SupportError IdempotencyKeyReuseError), k)
          else (case env_ticket_id envelope of
                  Some ticket_id \<Rightarrow> (Inr ticket_id, k)
                | None \<Rightarrow> poll_replay n (Suc k) reads request_hash))"

definition resolve_idempotency_replay ::
  "request \<Rightarrow> uuid \<Rightarrow> string \<Rightarrow> string \<Rightarrow> (nat \<Rightarrow> portal) \<Rightarrow> uuid outcome \<times> nat" where
  "resolve_idempotency_replay rq requester_id idem_key request_hash later =
     poll_replay POLL_MAX_ATTEMPTS 0
       (\<lambda>k. idem_get_envelope (rq_now rq + int k * POLL_INTERVAL) requester_id idem_key (cache (later k)))
       request_hash"

definition attachments_bindable :: "uuid \<Rightarrow> (attachment \<Rightarrow> uuid option) \<Rightarrow> uuid list \<Rightarrow> db \<Rightarrow> bool" where
  "attachments_bindable owner binding attachment_ids d =
     list_all (\<lambda>i. case attachment_get_by_id i d of
        None \<Rightarrow> False | Some a \<Rightarrow> at_uploaded_by a = owner \<and> binding a = None) attachment_ids"

fun bind_all :: "(uuid \<Rightarrow> db \<Rightarrow> attachment option \<times> db) \<Rightarrow> uuid list \<Rightarrow> db \<Rightarrow> db option" where
  "bind_all bind [] d = Some d"
| "bind_all bind (i # ids) d =
     (case bind i d of (None, d') \<Rightarrow> None | (Some a, d') \<Rightarrow> bind_all bind ids d')"

text \<open>The transaction of \<open>create_ticket\<close>: the result and the committed database. A rolled back insert
  leaves the sequence advanced.\<close>

definition create_ticket_tx ::
  "libs \<Rightarrow> request \<Rightarrow> uuid \<Rightarrow> string \<Rightarrow> string \<Rightarrow> string \<Rightarrow> uuid list \<Rightarrow> db \<Rightarrow> ticket outcome \<times> db" where
  "create_ticket_tx L rq requester_id subject body category attachment_ids d =
     (if \<not> attachments_bindable requester_id at_ticket_id attachment_ids d then
        (Inl (SupportError AttachmentNotOwnedError), d)
      else case ticket_create L (rq_db_now rq) (rq_uuid rq 0) requester_id subject body category d of
        Inl e \<Rightarrow> (Inl (DatabaseError e), advance_ticket_seq d)
      | Inr (k, d1) \<Rightarrow>
          (case bind_all (bind_to_ticket (tk_id k)) attachment_ids d1 of
             None \<Rightarrow> (Inl (SupportError AttachmentNotOwnedError), advance_ticket_seq d)
           | Some d2 \<Rightarrow>
               (case record_event L rq (rq_uuid rq 1) ''tickets'' ''ticket_created'' requester_id (Some (tk_id k))
                    (Some ''success'') (Some (JObj [(''ticket_number'', JStr (tk_ticket_number k)),
                       (''category'', JStr category)])) d2 of
                  Inl e \<Rightarrow> (Inl (DatabaseError e), advance_ticket_seq d)
                | Inr d3 \<Rightarrow> (Inr k, d3))))"

definition create_ticket ::
  "libs \<Rightarrow> request \<Rightarrow> (nat \<Rightarrow> portal) \<Rightarrow> uuid \<Rightarrow> string \<Rightarrow> string \<Rightarrow> string \<Rightarrow> string \<Rightarrow> uuid list \<Rightarrow> portal
    \<Rightarrow> ticket_read outcome \<times> portal" where
  "create_ticket L rq later requester_id idem_key subject body category attachment_ids p =
     (if get_account_status_for_user requester_id (database p) = Some DEACTIVATED then
        (Inl (SupportError SupportAccountDeactivatedError), p)
      else
        let now = rq_now rq;
            request_hash = hash_request L subject body category attachment_ids;
            (claimed, c1) = idem_claim now requester_id idem_key request_hash IDEMPOTENCY_TTL_SECONDS (cache p)
        in if \<not> claimed then
          (case resolve_idempotency_replay rq requester_id idem_key request_hash later of
             (Inl e, k) \<Rightarrow> (Inl e, later k)
           | (Inr ticket_id, k) \<Rightarrow>
               (case ticket_get_by_id ticket_id (database (later k)) of
                  None \<Rightarrow> (Inl (RuntimeError ''idempotency envelope referenced a missing ticket''), later k)
                | Some ticket \<Rightarrow> (Inr (to_ticket_read ticket), later k)))
        else
          let (n, c2) = ticket_create_record_and_check now requester_id RATE_LIMIT_WINDOW_SECONDS c1 in
          if n > RATE_LIMIT_MAX_CREATES then
            (Inl (SupportError (TicketCreationRateLimitError (ticket_create_retry_after_seconds now requester_id c2))),
             p\<lparr>cache := idem_release requester_id idem_key c2\<rparr>)
          else (case create_ticket_tx L rq requester_id subject body category attachment_ids (database p) of
             (Inl e, d) \<Rightarrow> (Inl e, p\<lparr>database := d, cache := idem_release requester_id idem_key c2\<rparr>)
           | (Inr ticket, d) \<Rightarrow>
               let p1 = p\<lparr>database := d,
                     cache := idem_resolve now requester_id idem_key request_hash (tk_id ticket)
                       IDEMPOTENCY_TTL_SECONDS c2\<rparr>;
                   p2 = (case get_email_for_user requester_id d of
                           None \<Rightarrow> p1
                         | Some email \<Rightarrow> send_email rq (TicketCreatedEmail email (tk_ticket_number ticket)) p1)
               in (Inr (to_ticket_read ticket), p2)))"

section \<open>Listings\<close>

definition list_own_tickets ::
  "libs \<Rightarrow> uuid \<Rightarrow> ticket_status option \<Rightarrow> string option \<Rightarrow> int \<Rightarrow> db \<Rightarrow> (ticket_read list \<times> string option) outcome" where
  "list_own_tickets L requester_id status cursor limit d =
     (if \<not> (1 \<le> limit \<and> limit \<le> MAX_LIST_LIMIT) then
        Inl (support_validation ''limit'' ''limit must be between 1 and 100.'' ''max'')
      else if status \<noteq> None \<and> status \<noteq> Some Open then Inr ([], None)
      else (case list_for_requester L requester_id cursor limit d of
          Inl e \<Rightarrow> Inl e
        | Inr None \<Rightarrow> Inl (support_validation ''cursor'' ''Invalid cursor.'' ''invalid'')
        | Inr (Some (items, next_cursor)) \<Rightarrow> Inr (map to_ticket_read items, next_cursor)))"

definition resolve_assignee_filter :: "uuid \<Rightarrow> string option \<Rightarrow> assignee_filter option" where
  "resolve_assignee_filter agent_id assignee_id =
     (case assignee_id of
        None \<Rightarrow> Some AnyAssignee
      | Some s \<Rightarrow> if s = ''me'' then Some (AssignedTo agent_id)
          else if s = ''none'' then Some Unassigned
          else map_option AssignedTo (parse_uuid s))"

definition list_agent_queue ::
  "libs \<Rightarrow> uuid \<Rightarrow> ticket_status option \<Rightarrow> string option \<Rightarrow> string option \<Rightarrow> string option \<Rightarrow> int \<Rightarrow> db
    \<Rightarrow> (agent_ticket_read list \<times> string option) outcome" where
  "list_agent_queue L agent_id status category assignee_id cursor limit d =
     (if \<not> (1 \<le> limit \<and> limit \<le> MAX_LIST_LIMIT) then
        Inl (support_validation ''limit'' ''limit must be between 1 and 100.'' ''max'')
      else (case resolve_assignee_filter agent_id assignee_id of
          None \<Rightarrow> Inl (support_validation ''assignee_id''
            (''assignee_id must be a UUID, '' @ [CHR 0x22] @ ''me'' @ [CHR 0x22] @ '', or '' @ [CHR 0x22] @ ''none'' @ [CHR 0x22] @ ''.'')
            ''invalid'')
        | Some resolved \<Rightarrow>
            (case list_for_agent_queue L cursor limit status category resolved d of
               Inl e \<Rightarrow> Inl e
             | Inr None \<Rightarrow> Inl (support_validation ''cursor'' ''Invalid cursor.'' ''invalid'')
             | Inr (Some (items, next_cursor)) \<Rightarrow> Inr (map to_agent_ticket_read items, next_cursor))))"

text \<open>The route \<open>GET /support/tickets\<close> (\<open>router.py\<close>): the scope \<open>tickets:read\<close> selects the branch.\<close>

definition list_tickets_route ::
  "libs \<Rightarrow> uuid \<Rightarrow> string list \<Rightarrow> ticket_status option \<Rightarrow> string option \<Rightarrow> string option \<Rightarrow> string option \<Rightarrow> int \<Rightarrow> db
    \<Rightarrow> (agent_ticket_read list \<times> string option) outcome + (ticket_read list \<times> string option) outcome" where
  "list_tickets_route L user_id scopes status category assignee_id cursor limit d =
     (if ''tickets:read'' \<in> set scopes
      then Inl (list_agent_queue L user_id status category assignee_id cursor limit d)
      else Inr (list_own_tickets L user_id status cursor limit d))"

section \<open>Assignment\<close>

definition no_ticket :: portal_error where "no_ticket = SupportError TicketNotFoundError"

text \<open>The audit entry of a change to a ticket, and the commit of both.\<close>

definition audited :: "libs \<Rightarrow> request \<Rightarrow> string \<Rightarrow> uuid \<Rightarrow> ticket \<Rightarrow> db \<Rightarrow> portal \<Rightarrow> ticket outcome \<times> portal" where
  "audited L rq event actor_id updated d p =
     (case record_event L rq (rq_uuid rq 0) ''tickets'' event actor_id (Some (tk_id updated)) (Some ''success'') None d of
        Inl e \<Rightarrow> (Inl (DatabaseError e), p)
      | Inr d' \<Rightarrow> (Inr updated, p\<lparr>database := d'\<rparr>))"

definition assign_ticket ::
  "libs \<Rightarrow> request \<Rightarrow> db \<Rightarrow> uuid \<Rightarrow> uuid \<Rightarrow> string list \<Rightarrow> uuid \<Rightarrow> portal \<Rightarrow> agent_ticket_state_read outcome \<times> portal" where
  "assign_ticket L rq seen ticket_id actor_id actor_scopes assignee_id p =
     (if ''tickets:write'' \<notin> set actor_scopes then
        (Inl (if ''tickets:read'' \<in> set actor_scopes then SupportError SupportInsufficientPermissionError else no_ticket), p)
      else case ticket_get_by_id ticket_id seen of
        None \<Rightarrow> (Inl no_ticket, p)
      | Some ticket \<Rightarrow>
          if tk_status ticket = Closed then (Inl (SupportError (InvalidStateTransitionError [])), p)
          else if ''tickets:write'' \<notin> set (resolve_scopes_for_user assignee_id seen) then
            (Inl (support_validation ''assignee_id'' ''assignee_id does not hold tickets:write.'' ''invalid''), p)
          else if get_account_status_for_user assignee_id seen = Some DEACTIVATED then
            (Inl (support_validation ''assignee_id'' ''assignee_id's account is deactivated.'' ''invalid''), p)
          else (case repo_assign_ticket ticket_id assignee_id (tk_assignee_id ticket) (database p) of
              Inl e \<Rightarrow> (Inl (DatabaseError e), p)
            | Inr (None, _) \<Rightarrow> (Inl (SupportError AssignmentConflictError), p)
            | Inr (Some updated, d1) \<Rightarrow>
                apfst (map_sum id to_agent_ticket_state_read)
                  (audited L rq ''ticket_assigned'' actor_id updated d1 p)))"

definition unassign_ticket ::
  "libs \<Rightarrow> request \<Rightarrow> db \<Rightarrow> uuid \<Rightarrow> uuid \<Rightarrow> string list \<Rightarrow> portal \<Rightarrow> agent_ticket_state_read outcome \<times> portal" where
  "unassign_ticket L rq seen ticket_id actor_id actor_scopes p =
     (if ''tickets:write'' \<notin> set actor_scopes then
        (Inl (if ''tickets:read'' \<in> set actor_scopes then SupportError SupportInsufficientPermissionError else no_ticket), p)
      else case ticket_get_by_id ticket_id seen of
        None \<Rightarrow> (Inl no_ticket, p)
      | Some ticket \<Rightarrow>
          if tk_status ticket = Closed then (Inl (SupportError (InvalidStateTransitionError [])), p)
          else (case repo_unassign_ticket ticket_id (database p) of
              Inl e \<Rightarrow> (Inl (DatabaseError e), p)
            | Inr (None, _) \<Rightarrow> (Inl (SupportError (InvalidStateTransitionError [])), p)
            | Inr (Some updated, d1) \<Rightarrow>
                apfst (map_sum id to_agent_ticket_state_read)
                  (audited L rq ''ticket_unassigned'' actor_id updated d1 p)))"

section \<open>Transitions\<close>

definition invalid_transition :: "ticket \<Rightarrow> portal_error" where
  "invalid_transition ticket = SupportError (InvalidStateTransitionError (ALLOWED_EVENTS_BY_STATUS (tk_status ticket)))"

definition foreign_ticket :: "uuid \<Rightarrow> actor_kind \<Rightarrow> ticket \<Rightarrow> bool" where
  "foreign_ticket actor_id kind ticket \<longleftrightarrow> kind = Customer \<and> tk_requester_id ticket \<noteq> actor_id"

definition resolve_ticket ::
  "libs \<Rightarrow> request \<Rightarrow> db \<Rightarrow> uuid \<Rightarrow> uuid \<Rightarrow> actor_kind \<Rightarrow> string \<Rightarrow> portal \<Rightarrow> ticket_state_read outcome \<times> portal" where
  "resolve_ticket L rq seen ticket_id actor_id kind resolution_note p =
     (case ticket_get_by_id ticket_id seen of
        None \<Rightarrow> (Inl no_ticket, p)
      | Some ticket \<Rightarrow>
          if foreign_ticket actor_id kind ticket then (Inl no_ticket, p)
          else if tk_status ticket \<notin> set RESOLVE_ELIGIBLE_STATUSES then (Inl (invalid_transition ticket), p)
          else if kind \<noteq> Agent then (Inl (SupportError SupportInsufficientPermissionError), p)
          else (case transition_status (rq_db_now rq) ticket_id RESOLVE_ELIGIBLE_STATUSES Resolved (Some (rq_now rq))
                  False (Some resolution_note) None None False (database p) of
              Inl e \<Rightarrow> (Inl (DatabaseError e), p)
            | Inr (None, _) \<Rightarrow> (Inl (invalid_transition ticket), p)
            | Inr (Some transitioned, d1) \<Rightarrow>
                (case audited L rq ''ticket_resolved'' actor_id transitioned d1 p of
                   (Inl e, p') \<Rightarrow> (Inl e, p')
                 | (Inr k, p') \<Rightarrow>
                     (Inr (to_ticket_state_read k),
                      (case get_email_for_user (tk_requester_id k) (database p') of
                         None \<Rightarrow> p'
                       | Some email \<Rightarrow> send_email rq (TicketResolvedEmail email (tk_ticket_number k) resolution_note) p')))))"

definition close_ticket ::
  "libs \<Rightarrow> request \<Rightarrow> db \<Rightarrow> uuid \<Rightarrow> uuid \<Rightarrow> actor_kind \<Rightarrow> portal \<Rightarrow> ticket_state_read outcome \<times> portal" where
  "close_ticket L rq seen ticket_id actor_id kind p =
     (case ticket_get_by_id ticket_id seen of
        None \<Rightarrow> (Inl no_ticket, p)
      | Some ticket \<Rightarrow>
          if foreign_ticket actor_id kind ticket then (Inl no_ticket, p)
          else if tk_status ticket \<notin> set CLOSE_ELIGIBLE_STATUSES then (Inl (invalid_transition ticket), p)
          else (case transition_status (rq_db_now rq) ticket_id CLOSE_ELIGIBLE_STATUSES Closed None False None
                  (Some (rq_now rq)) (Some actor_id) False (database p) of
              Inl e \<Rightarrow> (Inl (DatabaseError e), p)
            | Inr (None, _) \<Rightarrow> (Inl (invalid_transition ticket), p)
            | Inr (Some transitioned, d1) \<Rightarrow>
                apfst (map_sum id to_ticket_state_read) (audited L rq ''ticket_closed'' actor_id transitioned d1 p)))"

definition reopen_ticket ::
  "libs \<Rightarrow> request \<Rightarrow> db \<Rightarrow> uuid \<Rightarrow> uuid \<Rightarrow> actor_kind \<Rightarrow> portal \<Rightarrow> ticket_state_read outcome \<times> portal" where
  "reopen_ticket L rq seen ticket_id actor_id kind p =
     (case ticket_get_by_id ticket_id seen of
        None \<Rightarrow> (Inl no_ticket, p)
      | Some ticket \<Rightarrow>
          if foreign_ticket actor_id kind ticket then (Inl no_ticket, p)
          else if tk_status ticket \<notin> set REOPEN_ELIGIBLE_STATUSES then (Inl (invalid_transition ticket), p)
          else (case transition_status (rq_db_now rq) ticket_id REOPEN_ELIGIBLE_STATUSES WaitingOnSupport None True None
                  None None True (database p) of
              Inl e \<Rightarrow> (Inl (DatabaseError e), p)
            | Inr (None, _) \<Rightarrow> (Inl (invalid_transition ticket), p)
            | Inr (Some transitioned, d1) \<Rightarrow>
                apfst (map_sum id to_ticket_state_read) (audited L rq ''ticket_reopened'' actor_id transitioned d1 p)))"

section \<open>Scripts\<close>

text \<open>\<open>scripts/auto_close_resolved_tickets.py\<close>: one transaction, one audit row per closed ticket.\<close>

fun audit_auto_closed :: "libs \<Rightarrow> request \<Rightarrow> nat \<Rightarrow> uuid list \<Rightarrow> db \<Rightarrow> sql_error + db" where
  "audit_auto_closed L rq n [] d = Inr d"
| "audit_auto_closed L rq n (i # ids) d =
     (case record_event L rq (rq_uuid rq n) ''tickets'' ''ticket_auto_closed'' SYSTEM_ACTOR_ID (Some i)
         (Some ''success'') None d of
        Inl e \<Rightarrow> Inl e
      | Inr d' \<Rightarrow> audit_auto_closed L rq (Suc n) ids d')"

definition auto_close_resolved_tickets :: "libs \<Rightarrow> request \<Rightarrow> portal \<Rightarrow> nat outcome \<times> portal" where
  "auto_close_resolved_tickets L rq p =
     (let (closed_ids, d1) = auto_close_resolved_past_window (rq_db_now rq) (rq_now rq) SYSTEM_ACTOR_ID (database p)
      in case audit_auto_closed L rq 0 closed_ids d1 of
           Inl e \<Rightarrow> (Inl (DatabaseError e), p)
         | Inr d2 \<Rightarrow> (Inr (length closed_ids), p\<lparr>database := d2\<rparr>))"

definition UNBOUND_ATTACHMENT_PURGE_AFTER_HOURS :: int where "UNBOUND_ATTACHMENT_PURGE_AFTER_HOURS = 24"

text \<open>\<open>scripts/purge_unbound_attachments.py\<close>: a \<open>SELECT\<close> that takes no lock, answered by the database
  \<open>seen\<close>, and then a \<open>DELETE\<close> of the rows with the identifiers it found, whatever has become of them.\<close>

definition purge_unbound_attachments :: "request \<Rightarrow> db \<Rightarrow> portal \<Rightarrow> nat \<times> portal" where
  "purge_unbound_attachments rq seen p =
     (let cutoff = rq_now rq - hours UNBOUND_ATTACHMENT_PURGE_AFTER_HOURS;
          candidates = find_unbound_older_than cutoff seen;
          (n, d) = purge_attachments (map at_id candidates) (database p)
      in (n, p\<lparr>database := d\<rparr>))"

end
