(* ===== verification/Support_Replies.thy ===== *)
theory Support_Replies
  imports Support_Tickets
begin

text \<open>
  \<open>TicketReplyService\<close> (\<open>app/modules/support/service.py\<close>): replies with their effect on the status of the
  ticket, and the thread a caller sees. The session of both routes carries the setting
  \<open>app.actor_kind\<close> (\<open>get_rls_session\<close> in \<open>dependencies.py\<close>).
\<close>

definition REPLY_RATE_LIMIT_WINDOW_SECONDS :: int where "REPLY_RATE_LIMIT_WINDOW_SECONDS = 3600"
definition REPLY_RATE_LIMIT_MAX_REPLIES :: int where "REPLY_RATE_LIMIT_MAX_REPLIES = 30"

definition resolve_actor_kind :: "string list \<Rightarrow> actor_kind" where
  "resolve_actor_kind scopes = (if ''tickets:write'' \<in> set scopes then Agent else Customer)"

definition resolve_requester_email :: "uuid \<Rightarrow> db \<Rightarrow> string" where
  "resolve_requester_email requester_id d =
     (case get_email_for_user requester_id d of Some email \<Rightarrow> email | None \<Rightarrow> uuid_str requester_id)"

text \<open>The status write of a reply: the new status, the first-response stamp, and whether the reply
  tries to reopen.\<close>

definition reply_effect :: "datetime \<Rightarrow> actor_kind \<Rightarrow> visibility \<Rightarrow> ticket \<Rightarrow> ticket_status option \<times> datetime option \<times> bool" where
  "reply_effect now kind vis ticket =
     (if kind = Agent then
        (if vis = Public then
           (if tk_status ticket \<noteq> Resolved then Some WaitingOnCustomer else None,
            if tk_first_response_at ticket = None then Some now else None, False)
         else (None, None, False))
      else if tk_status ticket = WaitingOnCustomer then (Some WaitingOnSupport, None, False)
      else if tk_status ticket = Resolved then (None, None, True)
      else (None, None, False))"

definition reopen_by_reply :: "libs \<Rightarrow> request \<Rightarrow> uuid \<Rightarrow> uuid \<Rightarrow> db \<Rightarrow> sql_error + db" where
  "reopen_by_reply L rq ticket_id actor_id d =
     (case transition_status (rq_db_now rq) ticket_id [Resolved] WaitingOnSupport None True None None None True d of
        Inl e \<Rightarrow> Inl e
      | Inr (None, d1) \<Rightarrow> Inr d1
      | Inr (Some _, d1) \<Rightarrow> record_event L rq (rq_uuid rq 1) ''tickets'' ''ticket_reopened'' actor_id (Some ticket_id)
          (Some ''success'') None d1)"

definition reply_tx ::
  "libs \<Rightarrow> request \<Rightarrow> ticket \<Rightarrow> uuid \<Rightarrow> actor_kind \<Rightarrow> string \<Rightarrow> visibility \<Rightarrow> uuid list \<Rightarrow> db \<Rightarrow> (ticket_reply \<times> db) outcome" where
  "reply_tx L rq ticket actor_id kind body vis attachment_ids d =
     (case reply_create kind (rq_db_now rq) (rq_uuid rq 0) (tk_id ticket) actor_id kind body vis d of
        Inl e \<Rightarrow> Inl (DatabaseError e)
      | Inr (reply, d1) \<Rightarrow>
          (case bind_all (bind_to_reply (tr_id reply)) attachment_ids d1 of
             None \<Rightarrow> Inl (SupportError AttachmentNotOwnedError)
           | Some d2 \<Rightarrow>
               (let (status, first_response_at, reopens) = reply_effect (rq_now rq) kind vis ticket in
                case (if reopens then reopen_by_reply L rq (tk_id ticket) actor_id d2 else Inr d2) of
                  Inl e \<Rightarrow> Inl (DatabaseError e)
                | Inr d3 \<Rightarrow>
                    (if status = None \<and> first_response_at = None then Inr (reply, d3)
                     else case ticket_update (rq_db_now rq) (tk_id ticket) status first_response_at d3 of
                       Inl e \<Rightarrow> Inl (DatabaseError e)
                     | Inr (_, d4) \<Rightarrow> Inr (reply, d4)))))"

definition create_reply ::
  "libs \<Rightarrow> request \<Rightarrow> db \<Rightarrow> uuid \<Rightarrow> uuid \<Rightarrow> actor_kind \<Rightarrow> string \<Rightarrow> visibility option \<Rightarrow> uuid list \<Rightarrow> portal
    \<Rightarrow> ticket_reply outcome \<times> portal" where
  "create_reply L rq seen ticket_id actor_id kind body visibility_opt attachment_ids p =
     (case ticket_get_by_id ticket_id seen of
        None \<Rightarrow> (Inl no_ticket, p)
      | Some ticket \<Rightarrow>
          if foreign_ticket actor_id kind ticket then (Inl no_ticket, p)
          else if tk_status ticket = Closed then (Inl (SupportError TicketClosedError), p)
          else
            let vis = (case visibility_opt of None \<Rightarrow> Public | Some v \<Rightarrow> v) in
            if vis = Internal \<and> kind \<noteq> Agent then (Inl (SupportError SupportInsufficientPermissionError), p)
            else
              let (n, c1) = ticket_reply_record_and_check (rq_now rq) actor_id REPLY_RATE_LIMIT_WINDOW_SECONDS (cache p);
                  p1 = p\<lparr>cache := c1\<rparr>
              in if n > REPLY_RATE_LIMIT_MAX_REPLIES then
                (Inl (SupportError (TicketReplyRateLimitError (ticket_reply_retry_after_seconds (rq_now rq) actor_id c1))), p1)
              else if \<not> attachments_bindable actor_id at_ticket_reply_id attachment_ids (database p) then
                (Inl (SupportError AttachmentNotOwnedError), p1)
              else (case reply_tx L rq ticket actor_id kind body vis attachment_ids (database p) of
                  Inl e \<Rightarrow> (Inl e, p1)
                | Inr (reply, d) \<Rightarrow>
                    let p2 = p1\<lparr>database := d\<rparr> in
                    (Inr reply,
                     send_email rq (if kind = Agent
                       then TicketReplyNotification (resolve_requester_email (tk_requester_id ticket) d) (tk_ticket_number ticket)
                       else TicketReplyQueueNotification (tk_ticket_number ticket)) p2)))"

record ticket_detail_read =
  tdr_id :: uuid
  tdr_ticket_number :: string
  tdr_status :: string
  tdr_requester_id :: uuid
  tdr_subject :: string
  tdr_body :: string
  tdr_category :: string
  tdr_first_response_at :: "datetime option"
  tdr_created_at :: datetime
  tdr_updated_at :: datetime
  tdr_replies :: "ticket_reply list \<times> string option"

definition to_ticket_detail_read :: "ticket \<Rightarrow> ticket_reply list \<times> string option \<Rightarrow> ticket_detail_read" where
  "to_ticket_detail_read k page = \<lparr>tdr_id = tk_id k, tdr_ticket_number = tk_ticket_number k,
     tdr_status = ticket_status_str (tk_status k), tdr_requester_id = tk_requester_id k,
     tdr_subject = tk_subject k, tdr_body = tk_body k, tdr_category = tk_category k,
     tdr_first_response_at = tk_first_response_at k, tdr_created_at = tk_created_at k,
     tdr_updated_at = tk_updated_at k, tdr_replies = page\<rparr>"

definition get_ticket_detail ::
  "libs \<Rightarrow> uuid \<Rightarrow> uuid \<Rightarrow> actor_kind \<Rightarrow> string option \<Rightarrow> int \<Rightarrow> db \<Rightarrow> ticket_detail_read outcome" where
  "get_ticket_detail L ticket_id actor_id kind cursor limit d =
     (case ticket_get_by_id ticket_id d of
        None \<Rightarrow> Inl no_ticket
      | Some ticket \<Rightarrow>
          if foreign_ticket actor_id kind ticket then Inl no_ticket
          else (case list_for_ticket L kind ticket_id cursor limit d of
              Inl e \<Rightarrow> Inl e
            | Inr None \<Rightarrow> Inl (support_validation ''cursor'' ''Invalid cursor.'' ''invalid'')
            | Inr (Some page) \<Rightarrow> Inr (to_ticket_detail_read ticket page)))"

end
