(* ===== verification/Refresh_Families.thy ===== *)
theory Refresh_Families
  imports Users_Sessions
begin

text \<open>
  Refresh-token families: the abstract machine the session code implements, its invariants, and the
  properties of rotation, reuse detection and the session cap.

  A family is started by a login with one unconsumed token, a rotation replaces the unconsumed token
  by a successor with the same owner and expiry, and a revocation marks every token of the family.
  \<open>family_step\<close> is this machine on the rows of the table; \<open>family_step False\<close> rotates only tokens that are
  not revoked, \<open>family_step True\<close> also revoked ones, which happens when a revocation runs between the two
  halves of a rotation. The simulation lemmas show that the service
  methods only take its steps, also when rotations interleave with other requests.
\<close>

section \<open>The abstract machine\<close>

definition families :: "refresh_token list \<Rightarrow> uuid set" where
  "families rows = rt_family_id ` set rows"

definition successor :: "refresh_token \<Rightarrow> refresh_token \<Rightarrow> bool" where
  "successor r s \<longleftrightarrow> rt_family_id s = rt_family_id r \<and> rt_user_id s = rt_user_id r
     \<and> rt_expires_at s = rt_expires_at r \<and> rt_revoked_at s = None \<and> rt_consumed_at s = None"

inductive family_step :: "bool \<Rightarrow> refresh_token list \<Rightarrow> refresh_token list \<Rightarrow> bool" for late where
  start: "rt_token_hash r \<notin> rt_token_hash ` set rows \<Longrightarrow> rt_family_id r \<notin> families rows \<Longrightarrow>
    rt_revoked_at r = None \<Longrightarrow> rt_consumed_at r = None \<Longrightarrow> family_step late rows (rows @ [r])"
| revoke: "family_step late rows (update_rows (\<lambda>r. rt_family_id r = f) (\<lambda>r. r\<lparr>rt_revoked_at := Some t\<rparr>) rows)"
| rotate: "r \<in> set rows \<Longrightarrow> rt_token_hash r = h \<Longrightarrow> rt_consumed_at r = None \<Longrightarrow> late \<or> rt_revoked_at r = None \<Longrightarrow>
    successor r s \<Longrightarrow>
    rt_token_hash s \<notin> rt_token_hash ` set rows \<Longrightarrow>
    family_step late rows (snd (consume_refresh_rows t h rows) @ [s])"

inductive_cases family_stepE: "family_step late rows rows'"

abbreviation family_steps :: "bool \<Rightarrow> refresh_token list \<Rightarrow> refresh_token list \<Rightarrow> bool" where
  "family_steps late \<equiv> (family_step late)\<^sup>*\<^sup>*"

section \<open>Invariants\<close>

definition coherent :: "refresh_token \<Rightarrow> refresh_token \<Rightarrow> bool" where
  "coherent a b \<longleftrightarrow> (rt_family_id a = rt_family_id b \<longrightarrow> rt_user_id a = rt_user_id b
     \<and> rt_expires_at a = rt_expires_at b \<and> (rt_consumed_at a = None \<and> rt_consumed_at b = None \<longrightarrow> a = b))"

definition family_inv :: "refresh_token list \<Rightarrow> bool" where
  "family_inv rows \<longleftrightarrow> distinct (map rt_token_hash rows) \<and> (\<forall>a \<in> set rows. \<forall>b \<in> set rows. coherent a b)"

lemma coherent_refl [simp]: "coherent a a"
  by (simp add: coherent_def)

lemma coherent_other_family: "rt_family_id a \<noteq> rt_family_id b \<Longrightarrow> coherent a b"
  by (simp add: coherent_def)

lemma family_inv_coherent: "family_inv rows \<Longrightarrow> a \<in> set rows \<Longrightarrow> b \<in> set rows \<Longrightarrow> coherent a b"
  by (simp add: family_inv_def)

lemma family_invD:
  assumes "family_inv rows" "a \<in> set rows" "b \<in> set rows" "rt_family_id a = rt_family_id b"
  shows "rt_user_id a = rt_user_id b" "rt_expires_at a = rt_expires_at b"
    and "rt_consumed_at a = None \<Longrightarrow> rt_consumed_at b = None \<Longrightarrow> a = b"
  using family_inv_coherent [OF assms(1-3)] assms(4) by (simp_all add: coherent_def)

lemma family_inv_hash: "family_inv rows \<Longrightarrow> a \<in> set rows \<Longrightarrow> b \<in> set rows \<Longrightarrow>
   rt_token_hash a = rt_token_hash b \<Longrightarrow> a = b"
  unfolding family_inv_def by (blast intro: distinct_key_eqD [of rt_token_hash])

lemma family_inv_Nil [simp]: "family_inv []"
  by (simp add: family_inv_def)

lemma family_inv_append_row:
  assumes "family_inv rows" "rt_token_hash r \<notin> rt_token_hash ` set rows"
    and "\<And>a. a \<in> set rows \<Longrightarrow> coherent a r \<and> coherent r a"
  shows "family_inv (rows @ [r])"
proof -
  have "coherent a b" if "a \<in> set (rows @ [r])" "b \<in> set (rows @ [r])" for a b
    using that assms(3) family_inv_coherent [OF assms(1)] by (cases "a = r"; cases "b = r") auto
  moreover have "distinct (map rt_token_hash (rows @ [r]))"
    using assms(1,2) by (simp add: family_inv_def)
  ultimately show ?thesis unfolding family_inv_def by blast
qed

lemma family_inv_start:
  assumes "family_inv rows" "rt_token_hash r \<notin> rt_token_hash ` set rows" "rt_family_id r \<notin> families rows"
  shows "family_inv (rows @ [r])"
proof (rule family_inv_append_row [OF assms(1,2)])
  fix a assume "a \<in> set rows"
  then have "rt_family_id a \<noteq> rt_family_id r" using assms(3) by (metis families_def imageI)
  then show "coherent a r \<and> coherent r a" by (simp add: coherent_other_family)
qed

text \<open>An update that keeps hash, family, owner and expiry, and never makes a consumed row unconsumed.\<close>

definition tame :: "(refresh_token \<Rightarrow> refresh_token) \<Rightarrow> bool" where
  "tame f \<longleftrightarrow> (\<forall>r. rt_token_hash (f r) = rt_token_hash r \<and> rt_family_id (f r) = rt_family_id r
     \<and> rt_user_id (f r) = rt_user_id r \<and> rt_expires_at (f r) = rt_expires_at r
     \<and> (rt_consumed_at (f r) = None \<longrightarrow> rt_consumed_at r = None))"

lemma family_inv_map:
  assumes inv: "family_inv rows" and t: "tame f"
  shows "family_inv (map f rows)"
proof -
  have eq: "rt_token_hash (f r) = rt_token_hash r" "rt_family_id (f r) = rt_family_id r"
      "rt_user_id (f r) = rt_user_id r" "rt_expires_at (f r) = rt_expires_at r"
      "rt_consumed_at (f r) = None \<Longrightarrow> rt_consumed_at r = None" for r
    using t by (auto simp: tame_def)
  have "distinct (map rt_token_hash (map f rows))"
    using inv by (simp add: family_inv_def comp_def eq(1))
  moreover have "coherent a b" if ab: "a \<in> set (map f rows)" "b \<in> set (map f rows)" for a b
  proof -
    from ab obtain a' b' where r: "a' \<in> set rows" "b' \<in> set rows" "a = f a'" "b = f b'" by auto
    show ?thesis using family_inv_coherent [OF inv r(1,2)] eq(5) [of a'] eq(5) [of b']
      by (auto simp: coherent_def r(3,4) eq(2-4))
  qed
  ultimately show ?thesis unfolding family_inv_def by blast
qed

lemma tame_revoke: "tame (\<lambda>r. if p r then r\<lparr>rt_revoked_at := Some t\<rparr> else r)"
  by (simp add: tame_def)

lemma tame_consume: "tame (\<lambda>r. if p r then r\<lparr>rt_consumed_at := Some t\<rparr> else r)"
  by (simp add: tame_def)

lemma consume_refresh_rows_map:
  "snd (consume_refresh_rows t h rows)
     = map (\<lambda>r. if rt_token_hash r = h \<and> rt_consumed_at r = None then r\<lparr>rt_consumed_at := Some t\<rparr> else r) rows"
  by (simp add: consume_refresh_rows_def update_returning_def update_rows_def)

text \<open>After a rotation, the successor is the only unconsumed token of the family.\<close>

lemma family_inv_rotate:
  assumes inv: "family_inv rows" and r: "r \<in> set rows" "rt_token_hash r = h" "rt_consumed_at r = None"
    and s: "successor r s" "rt_token_hash s \<notin> rt_token_hash ` set rows"
  shows "family_inv (snd (consume_refresh_rows t h rows) @ [s])"
    and "\<forall>x \<in> set (snd (consume_refresh_rows t h rows)). rt_family_id x = rt_family_id r \<longrightarrow> rt_consumed_at x \<noteq> None"
proof -
  let ?rows = "snd (consume_refresh_rows t h rows)"
  have inv': "family_inv ?rows"
    unfolding consume_refresh_rows_map by (rule family_inv_map [OF inv tame_consume])
  have all: "rt_consumed_at x \<noteq> None \<and> rt_user_id x = rt_user_id r \<and> rt_expires_at x = rt_expires_at r"
    if x: "x \<in> set ?rows" "rt_family_id x = rt_family_id r" for x
  proof -
    from x(1) obtain x' where x': "x' \<in> set rows"
      "x = (if rt_token_hash x' = h \<and> rt_consumed_at x' = None then x'\<lparr>rt_consumed_at := Some t\<rparr> else x')"
      by (auto simp: consume_refresh_rows_map)
    then have "rt_family_id x' = rt_family_id r" using x(2) by (auto split: if_splits)
    note I = family_invD [OF inv x'(1) r(1) this]
    show ?thesis
    proof (cases "rt_consumed_at x' = None")
      case True
      with I(3) r(3) have "x' = r" by blast
      with x' r show ?thesis by simp
    next
      case False
      with x' I(1,2) show ?thesis by simp
    qed
  qed
  then show "\<forall>x \<in> set ?rows. rt_family_id x = rt_family_id r \<longrightarrow> rt_consumed_at x \<noteq> None" by blast
  have hash: "rt_token_hash ` set ?rows = rt_token_hash ` set rows"
    using refresh_consume.consume_keeps_keys [of t h rows] by (metis set_map)
  show "family_inv (?rows @ [s])"
  proof (rule family_inv_append_row [OF inv'])
    show "rt_token_hash s \<notin> rt_token_hash ` set ?rows" using s(2) hash by simp
    show "coherent a s \<and> coherent s a" if "a \<in> set ?rows" for a
      using all [OF that] s(1) by (auto simp: coherent_def successor_def)
  qed
qed

lemma family_step_inv: "family_step late rows rows' \<Longrightarrow> family_inv rows \<Longrightarrow> family_inv rows'"
proof (induction rule: family_step.induct)
  case (start r rows)
  then show ?case by (simp add: family_inv_start)
next
  case (revoke rows f t)
  then show ?case unfolding update_rows_def by (intro family_inv_map tame_revoke)
next
  case (rotate r rows h s t)
  then show ?case by (intro family_inv_rotate(1))
qed

lemma family_steps_inv: "family_steps late rows rows' \<Longrightarrow> family_inv rows \<Longrightarrow> family_inv rows'"
  by (induction rule: rtranclp_induct) (auto intro: family_step_inv)

section \<open>What a step can never undo\<close>

text \<open>Rows keep their hash, family, owner and expiry, stay in the table, stay revoked and stay
  consumed.\<close>

definition later_row :: "refresh_token \<Rightarrow> refresh_token \<Rightarrow> bool" where
  "later_row r r' \<longleftrightarrow> rt_token_hash r' = rt_token_hash r \<and> rt_family_id r' = rt_family_id r
     \<and> rt_user_id r' = rt_user_id r \<and> rt_expires_at r' = rt_expires_at r \<and> rt_issued_at r' = rt_issued_at r
     \<and> (rt_revoked_at r \<noteq> None \<longrightarrow> rt_revoked_at r' \<noteq> None) \<and> (rt_consumed_at r \<noteq> None \<longrightarrow> rt_consumed_at r' \<noteq> None)"

lemma later_row_refl [simp]: "later_row r r"
  by (simp add: later_row_def)

lemma later_row_trans: "later_row a b \<Longrightarrow> later_row b c \<Longrightarrow> later_row a c"
  by (simp add: later_row_def)

lemma family_step_later:
  "family_step late rows rows' \<Longrightarrow> r \<in> set rows \<Longrightarrow> \<exists>r' \<in> set rows'. later_row r r'"
proof (induction rule: family_step.induct)
  case (start s rows)
  then show ?case by (auto intro: bexI [of _ r])
next
  case (revoke rows f t)
  let ?r = "if rt_family_id r = f then r\<lparr>rt_revoked_at := Some t\<rparr> else r"
  have "later_row r ?r" by (simp add: later_row_def)
  moreover have "?r \<in> set (update_rows (\<lambda>r. rt_family_id r = f) (\<lambda>r. r\<lparr>rt_revoked_at := Some t\<rparr>) rows)"
    using revoke.prems by (rule in_update_rowsI)
  ultimately show ?case by blast
next
  case (rotate x rows h s t)
  let ?r = "if rt_token_hash r = h \<and> rt_consumed_at r = None then r\<lparr>rt_consumed_at := Some t\<rparr> else r"
  have "later_row r ?r" by (simp add: later_row_def)
  moreover have "?r \<in> set (snd (consume_refresh_rows t h rows) @ [s])"
    using rotate.prems by (auto simp: consume_refresh_rows_map image_iff)
  ultimately show ?case by blast
qed

lemma family_steps_later:
  assumes "family_steps late rows rows'" and "r \<in> set rows"
  shows "\<exists>r' \<in> set rows'. later_row r r'"
  using assms(1)
proof (induction rule: rtranclp_induct)
  case base
  then show ?case using assms(2) later_row_refl by blast
next
  case (step y z)
  then obtain r1 where "r1 \<in> set y" "later_row r r1" by blast
  with family_step_later [OF step.hyps(2)] show ?case by (meson later_row_trans)
qed

section \<open>Revoked families\<close>

lemma family_step_mono: "family_step False rows rows' \<Longrightarrow> family_step late rows rows'"
  by (induction rule: family_step.induct) (auto intro: family_step.intros)

lemma family_steps_mono: "family_steps False rows rows' \<Longrightarrow> family_steps late rows rows'"
  by (induction rule: rtranclp_induct) (auto intro: family_step_mono rtranclp.rtrancl_into_rtrancl)

definition dead_family :: "uuid \<Rightarrow> refresh_token list \<Rightarrow> bool" where
  "dead_family f rows \<longleftrightarrow> f \<in> families rows \<and> (\<forall>r \<in> set rows. rt_family_id r = f \<longrightarrow> rt_revoked_at r \<noteq> None)"

lemma families_update [simp]:
  "(\<And>r. rt_family_id (g r) = rt_family_id r) \<Longrightarrow> families (update_rows q g rows) = families rows"
  unfolding families_def by (metis list.set_map map_update_rows_same)

lemma dead_family_step: "family_step False rows rows' \<Longrightarrow> dead_family f rows \<Longrightarrow> dead_family f rows'"
proof (induction rule: family_step.induct)
  case (start r rows)
  then show ?case by (auto simp: dead_family_def families_def)
next
  case (revoke rows g t)
  then show ?case by (auto simp: dead_family_def set_update_rows)
next
  case (rotate r rows h s t)
  then have "rt_family_id s \<noteq> f" by (auto simp: dead_family_def successor_def)
  moreover have "families (snd (consume_refresh_rows t h rows)) = families rows"
    by (simp add: consume_refresh_rows_def update_returning_def)
  ultimately show ?case using rotate.prems
    by (auto simp: dead_family_def families_def consume_refresh_rows_map)
qed

lemma dead_family_steps: "family_steps False rows rows' \<Longrightarrow> dead_family f rows \<Longrightarrow> dead_family f rows'"
  by (induction rule: rtranclp_induct) (auto intro: dead_family_step)

lemma dead_family_revoke:
  "f \<in> families (refresh_tokens d) \<Longrightarrow> dead_family f (refresh_tokens (revoke_refresh_token_family t f d))"
  by (simp add: dead_family_def revoke_refresh_token_family_def) (auto elim!: in_update_rowsE)

section \<open>The services take only these steps\<close>

lemma auth_log_frame [simp]:
  "users (auth_log rq e r s a d) = users d"
  "user_sessions (auth_log rq e r s a d) = user_sessions d"
  "refresh_tokens (auth_log rq e r s a d) = refresh_tokens d"
  "password_reset_tokens (auth_log rq e r s a d) = password_reset_tokens d"
  "mfa_recovery_codes (auth_log rq e r s a d) = mfa_recovery_codes d"
  "roles (auth_log rq e r s a d) = roles d" "user_roles (auth_log rq e r s a d) = user_roles d"
  by (simp_all add: auth_log_def)

lemma update_last_login_frame [simp]:
  "user_sessions (update_last_login_at t i d) = user_sessions d"
  "refresh_tokens (update_last_login_at t i d) = refresh_tokens d"
  "mfa_recovery_codes (update_last_login_at t i d) = mfa_recovery_codes d"
  "password_reset_tokens (update_last_login_at t i d) = password_reset_tokens d"
  "roles (update_last_login_at t i d) = roles d" "user_roles (update_last_login_at t i d) = user_roles d"
  by (simp_all add: update_last_login_at_def)

lemma repo_revoke_session_frame [simp]:
  "refresh_tokens (repo_revoke_session t j d) = refresh_tokens d"
  "users (repo_revoke_session t j d) = users d"
  "password_reset_tokens (repo_revoke_session t j d) = password_reset_tokens d"
  "mfa_recovery_codes (repo_revoke_session t j d) = mfa_recovery_codes d"
  "roles (repo_revoke_session t j d) = roles d" "user_roles (repo_revoke_session t j d) = user_roles d"
  by (simp_all add: repo_revoke_session_def)

lemma revoke_family_steps:
  "family_steps late (refresh_tokens d) (refresh_tokens (revoke_refresh_token_family t f d))"
  by (simp add: revoke_refresh_token_family_def family_step.revoke r_into_rtranclp)

lemma evict_cases:
  obtains (kept) "evict_oldest_family_if_at_cap rq i d = d"
  | (evicted) f where "f \<in> set (map fst (get_family_created_at_map_for_user (rq_db_now rq) i d))"
      "evict_oldest_family_if_at_cap rq i d = create_auth_audit_log_entry (rq_db_now rq) ''session_evicted'' None None
         (Some i) (rq_ip rq) (rq_user_agent rq) (rq_request_id rq) None (Some f)
         (revoke_refresh_token_family (rq_db_now rq) f d)"
      "20 \<le> length (get_family_created_at_map_for_user (rq_db_now rq) i d)"
proof (cases "20 \<le> length (get_family_created_at_map_for_user (rq_db_now rq) i d)")
  case False
  then show thesis
    using kept by (simp add: evict_oldest_family_if_at_cap_def lock_live_refresh_tokens_for_user_def)
next
  case True
  let ?m = "get_family_created_at_map_for_user (rq_db_now rq) i d"
  from True have "?m \<noteq> []" by auto
  then have "first_min snd (hd ?m) (tl ?m) \<in> set ?m"
    using first_min_in [of snd "hd ?m" "tl ?m"] by (metis hd_in_set list.set_sel(2))
  then show thesis
    using True by (intro evicted [of "fst (first_min snd (hd ?m) (tl ?m))"])
      (simp_all add: evict_oldest_family_if_at_cap_def lock_live_refresh_tokens_for_user_def Let_def)
qed

lemma evict_steps: "family_steps late (refresh_tokens d) (refresh_tokens (evict_oldest_family_if_at_cap rq i d))"
  by (cases rule: evict_cases [of rq i d]) (simp_all add: revoke_family_steps)

lemma map_eq_image_eq: "map k xs = map k ys \<Longrightarrow> k ` set xs = k ` set ys"
  by (metis list.set_map)

lemma revoke_family_keys [simp]:
  "families (refresh_tokens (revoke_refresh_token_family t f d)) = families (refresh_tokens d)"
  "rt_token_hash ` set (refresh_tokens (revoke_refresh_token_family t f d)) = rt_token_hash ` set (refresh_tokens d)"
  unfolding families_def by (rule map_eq_image_eq, simp add: revoke_refresh_token_family_def)+

lemma evict_frame [simp]:
  "users (evict_oldest_family_if_at_cap rq i d) = users d"
  "user_sessions (evict_oldest_family_if_at_cap rq i d) = user_sessions d"
  "families (refresh_tokens (evict_oldest_family_if_at_cap rq i d)) = families (refresh_tokens d)"
  "rt_token_hash ` set (refresh_tokens (evict_oldest_family_if_at_cap rq i d)) = rt_token_hash ` set (refresh_tokens d)"
  "password_reset_tokens (evict_oldest_family_if_at_cap rq i d) = password_reset_tokens d"
  "mfa_recovery_codes (evict_oldest_family_if_at_cap rq i d) = mfa_recovery_codes d"
  "roles (evict_oldest_family_if_at_cap rq i d) = roles d"
  "user_roles (evict_oldest_family_if_at_cap rq i d) = user_roles d"
  by (cases rule: evict_cases [of rq i d]; simp)+

definition minted_token :: "libs \<Rightarrow> request \<Rightarrow> user \<Rightarrow> refresh_token" where
  "minted_token L rq user = \<lparr>rt_token_hash = sha256_hex L (rq_token rq 0), rt_family_id = rq_uuid rq 1,
     rt_user_id = u_id user, rt_issued_at = rq_db_now rq, rt_expires_at = rq_now rq + seconds 2592000,
     rt_revoked_at = None, rt_consumed_at = None, rt_last_used_at = None, rt_ip = Some (rq_ip rq),
     rt_user_agent = rq_user_agent rq\<rparr>"

lemma mint_session_Inr:
  assumes "mint_session L rq user scope d = Inr d'"
  shows "refresh_tokens d' = refresh_tokens (evict_oldest_family_if_at_cap rq (u_id user)
      (d\<lparr>user_sessions := user_sessions d @ [\<lparr>us_jti = rq_uuid rq 0, us_user_id = u_id user,
        us_issued_at = rq_db_now rq, us_expires_at = rq_now rq + seconds 900, us_revoked_at = None\<rparr>]\<rparr>))
      @ [minted_token L rq user]"
    and "user_sessions d' = user_sessions d @ [\<lparr>us_jti = rq_uuid rq 0, us_user_id = u_id user,
        us_issued_at = rq_db_now rq, us_expires_at = rq_now rq + seconds 900, us_revoked_at = None\<rparr>]"
    and "sha256_hex L (rq_token rq 0) \<notin> rt_token_hash ` set (refresh_tokens d)"
    and "rq_uuid rq 0 \<notin> us_jti ` set (user_sessions d)"
    and "password_reset_tokens d' = password_reset_tokens d" "mfa_recovery_codes d' = mfa_recovery_codes d"
    and "roles d' = roles d" "user_roles d' = user_roles d"
    and "users d' = update_rows (\<lambda>u. u_id u = u_id user) (\<lambda>u. u\<lparr>u_last_login_at := Some (rq_db_now rq)\<rparr>) (users d)"
  using assms by (auto simp: mint_session_def generate_refresh_token_def Let_def create_session_Inr
      create_refresh_token_Inr minted_token_def update_last_login_at_def update_user_def
      split: sum.splits)

lemma mint_session_steps:
  assumes "mint_session L rq user scope d = Inr d'" and "rq_uuid rq 1 \<notin> families (refresh_tokens d)"
  shows "family_steps late (refresh_tokens d) (refresh_tokens d')"
proof -
  note M = mint_session_Inr [OF assms(1)]
  let ?d = "d\<lparr>user_sessions := user_sessions d @ [\<lparr>us_jti = rq_uuid rq 0, us_user_id = u_id user,
        us_issued_at = rq_db_now rq, us_expires_at = rq_now rq + seconds 900, us_revoked_at = None\<rparr>]\<rparr>"
  let ?e = "refresh_tokens (evict_oldest_family_if_at_cap rq (u_id user) ?d)"
  have "family_steps late (refresh_tokens d) ?e" using evict_steps [of late ?d rq "u_id user"] by simp
  moreover have "family_step late ?e (?e @ [minted_token L rq user])"
    using M(3) assms(2) by (intro family_step.start) (simp_all add: minted_token_def)
  ultimately show ?thesis by (simp add: M(1))
qed

lemma reuse_detected_tokens:
  "refresh_tokens (database (reuse_detected rq r p))
     = refresh_tokens (revoke_refresh_token_family (rq_db_now rq) (rt_family_id r) (database p))"
  by (simp add: reuse_detected_def Let_def split: option.splits)

lemma handle_reuse_steps:
  "family_steps late (refresh_tokens (database p)) (refresh_tokens (database (handle_reuse_or_race rq r p)))"
  by (simp add: handle_reuse_or_race_def reuse_detected_tokens revoke_family_steps)

lemma rotate_checks_database [simp]: "database (snd (rotate_checks L rq raw p)) = database p"
  by (auto simp: rotate_checks_def Let_def split: option.splits prod.splits)

text \<open>A successful \<open>rotate_consume\<close>: the presented token was unconsumed, it is consumed now, and its
  successor is appended.\<close>

lemma rotate_consume_Inr:
  assumes "rotate_consume L rq h user p = (Inr resp, p')"
  obtains r s where "r \<in> set (refresh_tokens (database p))" "rt_token_hash r = h" "rt_consumed_at r = None"
    "successor r s" "rt_token_hash s = sha256_hex L (rq_token rq 0)"
    "rt_token_hash s \<notin> rt_token_hash ` set (refresh_tokens (database p))"
    "rt_issued_at s = rq_db_now rq" "rt_last_used_at s = Some (rq_now rq)"
    "refresh_tokens (database p') = snd (consume_refresh_rows (rq_db_now rq) h (refresh_tokens (database p))) @ [s]"
    "user_sessions (database p') = user_sessions (database p) @ [\<lparr>us_jti = rq_uuid rq 0, us_user_id = rt_user_id r,
       us_issued_at = rq_db_now rq, us_expires_at = rq_now rq + seconds 900, us_revoked_at = None\<rparr>]"
    "rr_raw_refresh_token resp = rq_token rq 0" "users (database p') = users (database p)" "cache p' = cache p"
proof -
  let ?rows = "refresh_tokens (database p)" and ?t = "rq_db_now rq"
  obtain x where x: "fst (consume_refresh_rows ?t h ?rows) = Some x"
    using assms by (auto simp: rotate_consume_def consume_refresh_token_rows Let_def split: option.splits)
  then obtain r where r: "r \<in> set ?rows" "rt_token_hash r = h" "rt_consumed_at r = None"
      "x = r\<lparr>rt_consumed_at := Some ?t\<rparr>"
    using refresh_consume.consumed_row [of ?t h ?rows x "snd (consume_refresh_rows ?t h ?rows)"]
    by (metis prod.collapse)
  have keys: "rt_token_hash ` set (snd (consume_refresh_rows ?t h ?rows)) = rt_token_hash ` set ?rows"
    by (rule map_eq_image_eq) (rule refresh_consume.consume_keeps_keys)
  let ?s = "\<lparr>rt_token_hash = sha256_hex L (rq_token rq 0), rt_family_id = rt_family_id r, rt_user_id = rt_user_id r,
     rt_issued_at = ?t, rt_expires_at = rt_expires_at r, rt_revoked_at = None, rt_consumed_at = None,
     rt_last_used_at = Some (rq_now rq), rt_ip = Some (rq_ip rq), rt_user_agent = rq_user_agent rq\<rparr>"
  from assms x r(4) have "rt_token_hash ?s \<notin> rt_token_hash ` set (snd (consume_refresh_rows ?t h ?rows))"
    and "refresh_tokens (database p') = snd (consume_refresh_rows ?t h ?rows) @ [?s]"
    and "user_sessions (database p') = user_sessions (database p) @ [\<lparr>us_jti = rq_uuid rq 0, us_user_id = rt_user_id r,
       us_issued_at = ?t, us_expires_at = rq_now rq + seconds 900, us_revoked_at = None\<rparr>]"
    and "rr_raw_refresh_token resp = rq_token rq 0" and "users (database p') = users (database p)" "cache p' = cache p"
    by (auto simp: rotate_consume_def consume_refresh_token_rows Let_def generate_refresh_token_def
        create_refresh_token_Inr create_session_Inr split: sum.splits prod.splits)
  with r keys show thesis by (intro that [of r ?s]) (simp_all add: successor_def)
qed

lemma rotate_consume_Inl:
  assumes "rotate_consume L rq h user p = (Inl e, p')"
  shows "p' = p \<or> (\<exists>r. get_refresh_token_by_hash h (database p) = Some r \<and> p' = handle_reuse_or_race rq r p)"
  using assms by (auto simp: rotate_consume_def Let_def split: option.splits sum.splits prod.splits)

lemma rotate_consume_steps:
  assumes "late \<or> (\<forall>r \<in> set (refresh_tokens (database p)). rt_token_hash r = h \<longrightarrow> rt_revoked_at r = None)"
  shows "family_steps late (refresh_tokens (database p))
    (refresh_tokens (database (snd (rotate_consume L rq h user p))))"
proof (cases "rotate_consume L rq h user p")
  case (Pair res p')
  show ?thesis
  proof (cases res)
    case (Inl e)
    then show ?thesis using rotate_consume_Inl [of L rq h user p e p'] Pair handle_reuse_steps by auto
  next
    case (Inr resp)
    with Pair have eq: "rotate_consume L rq h user p = (Inr resp, p')" by simp
    show ?thesis
    proof (rule rotate_consume_Inr [OF eq])
      fix r s
      assume r: "r \<in> set (refresh_tokens (database p))" "rt_token_hash r = h" "rt_consumed_at r = None"
        "successor r s" "rt_token_hash s \<notin> rt_token_hash ` set (refresh_tokens (database p))"
        "refresh_tokens (database p') = snd (consume_refresh_rows (rq_db_now rq) h (refresh_tokens (database p))) @ [s]"
      have "late \<or> rt_revoked_at r = None" using assms r(1,2) by (cases late) simp_all
      then have "family_step late (refresh_tokens (database p)) (refresh_tokens (database p'))"
        unfolding r(6) by (intro family_step.rotate [OF r(1-3) _ r(4,5)])
      then show ?thesis by (simp add: eq r_into_rtranclp)
    qed
  qed
qed

lemma login_verified_steps:
  assumes "rq_uuid rq 1 \<notin> families (refresh_tokens (database p))"
  shows "family_steps late (refresh_tokens (database p)) (refresh_tokens (database (snd (login_verified L rq user p))))"
  using assms mint_session_steps [of L rq user None "database p" _ late]
  by (auto simp: login_verified_def complete_login_def Let_def generate_mfa_token_def split: sum.splits prod.splits)

lemma authenticate_user_steps:
  assumes "rq_uuid rq 1 \<notin> families (refresh_tokens (database p))"
  shows "family_steps late (refresh_tokens (database p)) (refresh_tokens (database (snd (authenticate_user L rq email pw p))))"
proof -
  have re: "family_steps late (refresh_tokens (database p)) (refresh_tokens (database (snd (login_verified L rq user p'))))"
    if "reactivate_account rq i p = (b, p')" for b p' i user
    using login_verified_steps [of rq p' late L user] reactivate_account_frame(2) [OF that] assms by simp
  show ?thesis
    using re login_verified_steps [OF assms]
    by (auto simp: authenticate_user_def Let_def split: sum.splits option.splits prod.splits bool.splits)
qed

lemma logout_steps:
  "family_steps late (refresh_tokens (database p)) (refresh_tokens (database (snd (logout L rq j u ck p))))"
proof -
  have "family_steps late (refresh_tokens (database p))
      (refresh_tokens (revoke_refresh_token_family t f (repo_revoke_session t j (database p))))" for t f
    using revoke_family_steps [of late "repo_revoke_session t j (database p)" t f] by simp
  then show ?thesis by (auto simp: logout_def Let_def split: option.splits)
qed

lemma revoke_session_steps:
  "family_steps late (refresh_tokens (database p)) (refresh_tokens (database (snd (revoke_session L rq u f ck p))))"
  by (auto simp: revoke_session_def Let_def revoke_family_steps split: option.splits sum.splits)

end
