(* ===== verification/Otpauth.thy ===== *)
theory Otpauth
  imports Security
begin

text \<open>
  \<open>app/core/security.py\<close>, the provisioning of an authenticator app: the secret in base32 and the
  \<open>otpauth\<close> URI the client renders as a QR code, with the parts of Python's \<open>base64\<close> and \<open>urllib.parse\<close>
  they use. \<open>b32decode\<close> and \<open>unquote\<close> model no code: they are inverses that show that the encodings lose
  nothing, used in proofs only.
\<close>

section \<open>Digits of an alphabet\<close>

definition digit_value :: "string \<Rightarrow> char \<Rightarrow> nat" where
  "digit_value alphabet c = length (takeWhile (\<lambda>a. a \<noteq> c) alphabet)"

lemma digit_value_nth: "distinct alphabet \<Longrightarrow> n < length alphabet \<Longrightarrow> digit_value alphabet (alphabet ! n) = n"
proof (induction alphabet arbitrary: n)
  case (Cons a alphabet)
  then show ?case by (cases n) (auto simp: digit_value_def)
qed simp

fun to_bits :: "nat \<Rightarrow> nat \<Rightarrow> bool list" where
  "to_bits 0 n = []"
| "to_bits (Suc k) n = to_bits k (n div 2) @ [odd n]"

definition of_bits :: "bool list \<Rightarrow> nat" where
  "of_bits bs = foldl (\<lambda>n b. 2 * n + of_bool b) 0 bs"

lemma length_to_bits [simp]: "length (to_bits k n) = k"
  by (induction k arbitrary: n) auto

lemma of_bits_snoc [simp]: "of_bits (bs @ [b]) = 2 * of_bits bs + of_bool b"
  by (simp add: of_bits_def)

lemma of_bits_to_bits: "n < 2 ^ k \<Longrightarrow> of_bits (to_bits k n) = n"
proof (induction k arbitrary: n)
  case 0
  then show ?case by (simp add: of_bits_def)
next
  case (Suc k)
  then have "n div 2 < 2 ^ k" by (simp add: less_mult_imp_div_less mult.commute)
  with Suc.IH show ?case by (cases "odd n") (auto elim: evenE oddE)
qed

lemma of_bits_less: "of_bits bs < 2 ^ length bs"
  by (induction bs rule: rev_induct) (auto simp: of_bits_def)

lemma to_bits_of_bits: "to_bits (length bs) (of_bits bs) = bs"
  by (induction bs rule: rev_induct) (auto simp: of_bits_def)

section \<open>Base32\<close>

definition B32_ALPHABET :: string where "B32_ALPHABET = ''ABCDEFGHIJKLMNOPQRSTUVWXYZ234567''"

fun quintets :: "bool list \<Rightarrow> bool list list" where
  "quintets [] = []"
| "quintets (a # b # c # d # e # bs) = [a, b, c, d, e] # quintets bs"
| "quintets bs = [take 5 (bs @ replicate 4 False)]"

definition b32encode :: "bytes \<Rightarrow> string" where
  "b32encode s =
     (let cs = map (\<lambda>g. B32_ALPHABET ! of_bits g) (quintets (concat (map (\<lambda>b. to_bits 8 (unat b)) s)))
      in cs @ replicate (nat (- int (length cs) mod 8)) (CHR ''=''))"

definition rstrip :: "char \<Rightarrow> string \<Rightarrow> string" where
  "rstrip c s = rev (dropWhile (\<lambda>x. x = c) (rev s))"

definition encode_totp_secret :: "bytes \<Rightarrow> string" where
  "encode_totp_secret secret = rstrip (CHR ''='') (b32encode secret)"

fun octets :: "bool list \<Rightarrow> bool list list" where
  "octets (a # b # c # d # e # f # g # h # bs) = [a, b, c, d, e, f, g, h] # octets bs"
| "octets bs = []"

definition b32decode :: "string \<Rightarrow> bytes" where
  "b32decode s = map (\<lambda>o8. of_nat (of_bits o8)) (octets (concat (map (\<lambda>c. to_bits 5 (digit_value B32_ALPHABET c)) s)))"

lemma concat_quintets: "\<exists>k < 5. concat (quintets bs) = bs @ replicate k False"
proof (induction bs rule: quintets.induct)
  case (2 a b c d e bs)
  then show ?case by auto
qed (auto intro: exI [of _ "0::nat"] exI [of _ "1::nat"] exI [of _ "2::nat"] exI [of _ "3::nat"] exI [of _ "4::nat"]
  simp: numeral_eq_Suc)

lemma length_quintet: "g \<in> set (quintets bs) \<Longrightarrow> length g = 5"
  by (induction bs rule: quintets.induct) auto

lemma to_bits_eight: "\<exists>a b c d e f g h. to_bits 8 n = [a, b, c, d, e, f, g, h]"
  by (simp add: numeral_eq_Suc)

lemma octets_short: "k < 5 \<Longrightarrow> octets (replicate k False) = []"
  by (auto simp: numeral_eq_Suc less_Suc_eq)

lemma octets_concat: "k < 5 \<Longrightarrow> octets (concat (map (to_bits 8) ns) @ replicate k False) = map (to_bits 8) ns"
proof (induction ns)
  case (Cons n ns)
  obtain a b c d e f g h where "to_bits 8 n = [a, b, c, d, e, f, g, h]" using to_bits_eight by blast
  with Cons show ?case by simp
qed (simp add: octets_short)

lemma b32_char: "n < 32 \<Longrightarrow> digit_value B32_ALPHABET (B32_ALPHABET ! n) = n \<and> B32_ALPHABET ! n \<in> set B32_ALPHABET"
  by (intro conjI digit_value_nth nth_mem) (simp_all add: B32_ALPHABET_def)

lemma dropWhile_replicate: "dropWhile (\<lambda>x. x = c) (replicate k c @ t) = dropWhile (\<lambda>x. x = c) t"
  by (induction k) auto

lemma rstrip_append_replicate: "c \<notin> set s \<Longrightarrow> rstrip c (s @ replicate k c) = s"
  by (cases s rule: rev_cases) (auto simp: rstrip_def dropWhile_replicate)

definition secret_quintets :: "bytes \<Rightarrow> bool list list" where
  "secret_quintets s = quintets (concat (map (\<lambda>b. to_bits 8 (unat b)) s))"

lemma quintet_less: "g \<in> set (secret_quintets s) \<Longrightarrow> of_bits g < 32"
  using of_bits_less [of g] by (simp add: secret_quintets_def length_quintet)

lemma encode_totp_secret_chars:
  "encode_totp_secret s = map (\<lambda>g. B32_ALPHABET ! of_bits g) (secret_quintets s)"
proof -
  have "CHR ''='' \<notin> set (map (\<lambda>g. B32_ALPHABET ! of_bits g) (secret_quintets s))"
  proof
    assume "CHR ''='' \<in> set (map (\<lambda>g. B32_ALPHABET ! of_bits g) (secret_quintets s))"
    then have "CHR ''='' \<in> set B32_ALPHABET" using b32_char quintet_less by fastforce
    then show False by (simp add: B32_ALPHABET_def)
  qed
  then show ?thesis
    by (simp add: encode_totp_secret_def b32encode_def secret_quintets_def Let_def rstrip_append_replicate)
qed

lemma b32_roundtrip: "b32decode (encode_totp_secret s) = s"
proof -
  have "map (\<lambda>g. to_bits 5 (digit_value B32_ALPHABET (B32_ALPHABET ! of_bits g))) (secret_quintets s) = secret_quintets s"
  proof (rule map_idI)
    fix g assume g: "g \<in> set (secret_quintets s)"
    then have "length g = 5" by (simp add: secret_quintets_def length_quintet)
    with quintet_less [OF g] show "to_bits 5 (digit_value B32_ALPHABET (B32_ALPHABET ! of_bits g)) = g"
      using b32_char to_bits_of_bits [of g] by simp
  qed
  moreover obtain k where "k < 5"
      "concat (secret_quintets s) = concat (map (to_bits 8) (map unat s)) @ replicate k False"
    using concat_quintets [of "concat (map (to_bits 8) (map unat s))"] by (auto simp: secret_quintets_def comp_def)
  moreover have "of_nat (of_bits (to_bits 8 (unat b))) = b" for b :: "8 word"
    using unsigned_less [of b, where ?'a = nat] by (simp add: of_bits_to_bits)
  ultimately show ?thesis
    using octets_concat [of k "map unat s"] by (simp add: b32decode_def encode_totp_secret_chars comp_def map_idI)
qed

section \<open>Percent encoding\<close>

text \<open>\<open>urllib.parse.quote\<close> works on the UTF-8 bytes; \<open>quote_plus\<close>, which \<open>urlencode\<close> applies to names and
  values, writes a blank as a plus sign.\<close>

fun utf8 :: "char \<Rightarrow> bytes" where
  "utf8 c = (let n = of_char c :: nat in
     if n < 128 then [of_nat n] else [of_nat (192 + n div 64), of_nat (128 + n mod 64)])"

definition ALWAYS_SAFE :: string where
  "ALWAYS_SAFE = ''ABCDEFGHIJKLMNOPQRSTUVWXYZabcdefghijklmnopqrstuvwxyz0123456789_.-~''"

definition HEX_UPPER :: string where "HEX_UPPER = ''0123456789ABCDEF''"

definition quote_byte :: "string \<Rightarrow> 8 word \<Rightarrow> string" where
  "quote_byte safe b =
     (let c = char_of (unat b) in
      if c \<in> set ALWAYS_SAFE \<or> c \<in> set safe \<and> unat b < 128 then [c]
      else [CHR ''%'', HEX_UPPER ! (unat b div 16), HEX_UPPER ! (unat b mod 16)])"

definition quote :: "string \<Rightarrow> string \<Rightarrow> string" where
  "quote safe s = concat (map (quote_byte safe) (concat (map utf8 s)))"

definition quote_plus :: "string \<Rightarrow> string" where
  "quote_plus s = map (\<lambda>c. if c = CHR '' '' then CHR ''+'' else c) (quote '' '' s)"

definition urlencode :: "(string \<times> string) list \<Rightarrow> string" where
  "urlencode kvs = join_with ''&'' (map (\<lambda>(k, v). quote_plus k @ ''='' @ quote_plus v) kvs)"

definition TOTP_ISSUER :: string where "TOTP_ISSUER = ''Customer Portal''"

definition build_otpauth_uri :: "bytes \<Rightarrow> string \<Rightarrow> string" where
  "build_otpauth_uri secret account_email =
     (let encoded_secret = encode_totp_secret secret;
          label = quote ''/'' (TOTP_ISSUER @ '':'' @ account_email);
          query = urlencode
            [(''secret'', encoded_secret), (''issuer'', TOTP_ISSUER), (''algorithm'', ''SHA1''),
             (''digits'', nat_digits TOTP_DIGITS), (''period'', nat_digits (nat TOTP_STEP_SECONDS))]
      in ''otpauth://totp/'' @ label @ ''?'' @ query)"

section \<open>Inverses\<close>

fun unquote_bytes :: "string \<Rightarrow> bytes" where
  "unquote_bytes [] = []"
| "unquote_bytes (c # s) =
     (if c = CHR ''%'' then
        (case s of
           a # b # t \<Rightarrow> of_nat (16 * digit_value HEX_UPPER a + digit_value HEX_UPPER b) # unquote_bytes t
         | _ \<Rightarrow> [])
      else of_nat (of_char c) # unquote_bytes s)"

fun utf8_decode :: "bytes \<Rightarrow> string" where
  "utf8_decode [] = []"
| "utf8_decode [b] = [char_of (unat b)]"
| "utf8_decode (b # b' # bs) =
     (if unat b < 128 then char_of (unat b) # utf8_decode (b' # bs)
      else char_of (64 * (unat b - 192) + (unat b' - 128)) # utf8_decode bs)"

definition unquote :: "string \<Rightarrow> string" where
  "unquote s = utf8_decode (unquote_bytes s)"

section \<open>The encodings lose nothing\<close>

lemma hex_upper: "n < 16 \<Longrightarrow> digit_value HEX_UPPER (HEX_UPPER ! n) = n"
  by (rule digit_value_nth) (simp_all add: HEX_UPPER_def)

lemma unat_byte: "unat (b :: 8 word) < 256"
  using unsigned_less [of b, where ?'a = nat] by simp

lemma hex_pair: "of_nat (16 * digit_value HEX_UPPER (HEX_UPPER ! (unat b div 16))
    + digit_value HEX_UPPER (HEX_UPPER ! (unat b mod 16))) = (b :: 8 word)"
proof -
  have "unat b div 16 < 16" using unat_byte [of b] by simp
  then have "16 * digit_value HEX_UPPER (HEX_UPPER ! (unat b div 16)) + digit_value HEX_UPPER (HEX_UPPER ! (unat b mod 16))
      = unat b" by (simp only: hex_upper mod_less_divisor zero_less_numeral mult_div_mod_eq)
  then show ?thesis by (simp del: of_nat_add of_nat_mult)
qed

lemma unquote_byte:
  assumes "CHR ''%'' \<notin> set safe"
  shows "unquote_bytes (quote_byte safe b @ s) = b # unquote_bytes s"
proof -
  obtain c :: char where c: "char_of (unat b) = c" "of_nat (of_char c) = b"
    using unat_byte [of b] by simp
  have "CHR ''%'' \<notin> set ALWAYS_SAFE" by (simp add: ALWAYS_SAFE_def)
  then show ?thesis
    using assms c(2) unfolding quote_byte_def Let_def c(1) by (auto simp: hex_pair simp del: of_nat_add of_nat_mult)
qed

lemma unquote_bytes_concat:
  "CHR ''%'' \<notin> set safe \<Longrightarrow> unquote_bytes (concat (map (quote_byte safe) bs)) = bs"
  by (induction bs) (simp_all add: unquote_byte del: unquote_bytes.simps(2))

lemma code_of_char: "(of_char c :: nat) < 256"
  using of_char_mod_256 [of c, where ?'a = nat] by (metis mod_less_divisor zero_less_numeral)

lemma unat_small: "n < 256 \<Longrightarrow> unat (of_nat n :: 8 word) = n"
  by (simp add: unat_of_nat)

lemma utf8_decode_char: "utf8_decode (utf8 c @ bs) = c # utf8_decode bs"
proof (cases "(of_char c :: nat) < 128")
  case True
  then have "unat (of_nat (of_char c) :: 8 word) = of_char c" by (simp add: unat_of_nat)
  with True show ?thesis by (cases bs) (simp_all add: Let_def)
next
  case False
  let ?n = "of_char c :: nat"
  have "unat (of_nat (192 + ?n div 64) :: 8 word) = 192 + ?n div 64"
    "unat (of_nat (128 + ?n mod 64) :: 8 word) = 128 + ?n mod 64"
    using code_of_char [of c] by (intro unat_small; linarith)+
  with False show ?thesis by (simp add: Let_def del: of_nat_add)
qed

lemma utf8_roundtrip: "utf8_decode (concat (map utf8 s)) = s"
  by (induction s) (simp_all add: utf8_decode_char del: utf8.simps)

lemma unquote_quote: "CHR ''%'' \<notin> set safe \<Longrightarrow> unquote (quote safe s) = s"
  by (simp add: unquote_def quote_def unquote_bytes_concat utf8_roundtrip)


lemma quote_byte_chars:
  "set (quote_byte safe b) \<subseteq> set ALWAYS_SAFE \<union> set safe \<union> {CHR ''%''} \<union> set HEX_UPPER"
proof -
  have "HEX_UPPER ! n \<in> set HEX_UPPER" if "n < 16" for n
    using that by (intro nth_mem) (simp add: HEX_UPPER_def)
  then show ?thesis using unat_byte [of b] by (auto simp: quote_byte_def Let_def)
qed

lemma quote_chars: "set (quote safe s) \<subseteq> set ALWAYS_SAFE \<union> set safe \<union> {CHR ''%''} \<union> set HEX_UPPER"
  unfolding quote_def using quote_byte_chars by fastforce

lemma quote_no: "c \<notin> set safe \<Longrightarrow> c \<in> set ''?&=+'' \<Longrightarrow> c \<notin> set (quote safe s)"
  using quote_chars [of safe s] by (auto simp: ALWAYS_SAFE_def HEX_UPPER_def)

lemma quote_append: "quote safe (a @ b) = quote safe a @ quote safe b"
  by (simp add: quote_def)

lemma quote_inj: "CHR ''%'' \<notin> set safe \<Longrightarrow> quote safe s = quote safe t \<longleftrightarrow> s = t"
  by (metis unquote_quote)

lemma safe_ascii: "list_all (\<lambda>c. (of_char c :: nat) < 128) ALWAYS_SAFE"
  by code_simp

lemma quote_safe:
  assumes "set s \<subseteq> set ALWAYS_SAFE"
  shows "quote safe s = s"
  using assms
proof (induction s)
  case (Cons c s)
  then have c: "c \<in> set ALWAYS_SAFE" "(of_char c :: nat) < 128"
    using safe_ascii by (auto simp: list_all_iff)
  then have "unat (of_nat (of_char c) :: 8 word) = of_char c" by (simp add: unat_of_nat)
  with c have "concat (map (quote_byte safe) (utf8 c)) = [c]" by (simp add: quote_byte_def Let_def)
  with Cons show ?case by (simp add: quote_def del: utf8.simps)
qed (simp add: quote_def)

lemma encode_totp_secret_inj: "encode_totp_secret s = encode_totp_secret t \<longleftrightarrow> s = t"
  by (metis b32_roundtrip)

lemma encode_totp_secret_alphabet: "set (encode_totp_secret s) \<subseteq> set B32_ALPHABET"
  using b32_char quintet_less by (auto simp: encode_totp_secret_chars)

lemma quote_plus_base32: "quote_plus (encode_totp_secret s) = encode_totp_secret s"
proof -
  have "set B32_ALPHABET \<subseteq> set ALWAYS_SAFE" "CHR '' '' \<notin> set B32_ALPHABET"
    by (simp_all add: B32_ALPHABET_def ALWAYS_SAFE_def)
  with encode_totp_secret_alphabet [of s] have "set (encode_totp_secret s) \<subseteq> set ALWAYS_SAFE"
      "CHR '' '' \<notin> set (encode_totp_secret s)" by auto
  then show ?thesis by (auto simp: quote_plus_def quote_safe intro!: map_idI)
qed

lemma otpauth_label: "quote ''/'' (TOTP_ISSUER @ '':'') = ''Customer%20Portal%3A''"
  by code_simp

lemma otpauth_query:
  "urlencode [(''secret'', encode_totp_secret secret), (''issuer'', TOTP_ISSUER), (''algorithm'', ''SHA1''),
     (''digits'', nat_digits TOTP_DIGITS), (''period'', nat_digits (nat TOTP_STEP_SECONDS))]
   = ''secret='' @ encode_totp_secret secret @ ''&issuer=Customer+Portal&algorithm=SHA1&digits=6&period=30''"
proof -
  have k: "quote_plus ''secret'' = ''secret''" by code_simp
  have c: "join_with ''&'' (map (\<lambda>(k, v). quote_plus k @ ''='' @ quote_plus v) [(''issuer'', TOTP_ISSUER), (''algorithm'', ''SHA1''),
     (''digits'', nat_digits TOTP_DIGITS), (''period'', nat_digits (nat TOTP_STEP_SECONDS))])
      = ''issuer=Customer+Portal&algorithm=SHA1&digits=6&period=30''"
    by code_simp
  have j: "join_with sep (x # y # ys) = x @ sep @ join_with sep (y # ys)" for sep x y and ys :: "string list"
    by (simp add: join_with_def)
  show ?thesis
    unfolding urlencode_def list.map prod.case j
    using c [unfolded list.map prod.case j] by (simp add: k quote_plus_base32)
qed

text \<open>C35. The provisioning URI, character for character: the label is the issuer and the percent-encoded
  e-mail address, the query gives the secret in base32 and the parameters the server itself uses to check
  codes (SHA-1, six digits, steps of 30 seconds). No address can break out of the label, nor a secret out
  of its parameter, and two enrolments with different secrets or addresses never get the same URI. The
  issuer parameter is form-encoded, with a plus sign for its blank.\<close>

theorem otpauth_uri_exact:
  "build_otpauth_uri secret email = ''otpauth://totp/Customer%20Portal%3A'' @ quote ''/'' email
     @ ''?secret='' @ encode_totp_secret secret @ ''&issuer=Customer+Portal&algorithm=SHA1&digits=6&period=30''
   \<and> set (quote ''/'' email) \<inter> set ''?&=+ #'' = {} \<and> set (encode_totp_secret secret) \<subseteq> set B32_ALPHABET
   \<and> (build_otpauth_uri secret email = build_otpauth_uri secret' email' \<longleftrightarrow> secret = secret' \<and> email = email')"
proof (intro conjI)
  have form: "build_otpauth_uri s m = ''otpauth://totp/Customer%20Portal%3A'' @ quote ''/'' m
     @ ''?secret='' @ encode_totp_secret s @ ''&issuer=Customer+Portal&algorithm=SHA1&digits=6&period=30''" for s m
  proof -
    have "quote ''/'' (TOTP_ISSUER @ '':'' @ m) = ''Customer%20Portal%3A'' @ quote ''/'' m"
      using quote_append [of "''/''" "TOTP_ISSUER @ '':''" m] by (simp only: otpauth_label append_assoc)
    then show ?thesis unfolding build_otpauth_uri_def Let_def otpauth_query by simp
  qed
  then show "build_otpauth_uri secret email = ''otpauth://totp/Customer%20Portal%3A'' @ quote ''/'' email
     @ ''?secret='' @ encode_totp_secret secret @ ''&issuer=Customer+Portal&algorithm=SHA1&digits=6&period=30''" .
  have q: "CHR ''?'' \<notin> set (quote ''/'' m)" for m by (rule quote_no) simp_all
  have "build_otpauth_uri secret email = build_otpauth_uri secret' email'
      \<longleftrightarrow> quote ''/'' email = quote ''/'' email' \<and> encode_totp_secret secret = encode_totp_secret secret'"
    unfolding form using append_cut [OF q q] by simp
  also have "\<dots> \<longleftrightarrow> secret = secret' \<and> email = email'"
    using quote_inj [of "''/''" email email'] by (auto simp: encode_totp_secret_inj)
  finally show "build_otpauth_uri secret email = build_otpauth_uri secret' email' \<longleftrightarrow> secret = secret' \<and> email = email'" .
  show "set (quote ''/'' email) \<inter> set ''?&=+ #'' = {}"
    using quote_chars [of "''/''" email] by (auto simp: ALWAYS_SAFE_def HEX_UPPER_def)
  show "set (encode_totp_secret secret) \<subseteq> set B32_ALPHABET" by (rule encode_totp_secret_alphabet)
qed

end
