(* ===== verification/Users_Mfa.thy ===== *)
theory Users_Mfa
  imports Refresh_Families Otpauth
begin

text \<open>
  \<open>app/modules/users/service.py\<close>, multi-factor authentication: enrolment, activation, the second step
  of a login (TOTP or recovery code) and disabling.

  Random draws: the secret and the nonce of an enrolment are the byte draws 0 and 1; the recovery codes
  of an activation are the token draws 0 to 9, their salts the draws 10 to 19, their row ids the uuid
  draws 0 to 9.
\<close>

section \<open>Enrolment and activation\<close>

text \<open>The response (\<open>MfaEnrollResponse\<close>) carries the secret twice, in base32 and inside an \<open>otpauth\<close> URI.\<close>

definition enroll_mfa ::
  "libs \<Rightarrow> request \<Rightarrow> uuid \<Rightarrow> string \<Rightarrow> portal \<Rightarrow> (string \<times> string) outcome \<times> portal" where
  "enroll_mfa L rq user_id current_password p =
     (case get_by_id user_id (database p) of
        None \<Rightarrow> (Inl InvalidCredentialsError, p)
      | Some user \<Rightarrow>
          if \<not> verify_password L current_password (u_hashed_password user) then (Inl InvalidCredentialsError, p)
          else
            let secret = rq_bytes rq 0
            in (Inr (encode_totp_secret secret, build_otpauth_uri secret (u_email user)),
                p\<lparr>database := update_mfa_pending_secret user_id (encrypt_mfa_secret L (rq_bytes rq 1) secret)
                    (database p)\<rparr>))"

definition RECOVERY_CODE_COUNT :: nat where "RECOVERY_CODE_COUNT = 10"

definition recovery_codes_drawn :: "request \<Rightarrow> string list" where
  "recovery_codes_drawn rq = map (rq_token rq) [0..<RECOVERY_CODE_COUNT]"

definition recovery_code_rows :: "libs \<Rightarrow> request \<Rightarrow> (uuid \<times> string) list" where
  "recovery_code_rows L rq =
     map (\<lambda>i. (rq_uuid rq i, hash_password L (rq_token rq (RECOVERY_CODE_COUNT + i)) (rq_token rq i)))
       [0..<RECOVERY_CODE_COUNT]"

definition activate_mfa ::
  "libs \<Rightarrow> request \<Rightarrow> uuid \<Rightarrow> string \<Rightarrow> portal \<Rightarrow> string list outcome \<times> portal" where
  "activate_mfa L rq user_id code p =
     (let d = database p; t = rq_db_now rq in
      case get_by_id user_id d of
        None \<Rightarrow> (Inl MfaInvalidCodeError, p)
      | Some user \<Rightarrow>
          (case u_mfa_secret_encrypted user of
             None \<Rightarrow> (Inl MfaInvalidCodeError, p)
           | Some enc \<Rightarrow>
               (case decrypt_mfa_secret L enc of
                  None \<Rightarrow> (Inl InvalidTag, p)
                | Some secret \<Rightarrow>
                    (case verify_totp_code L secret code (rq_now rq) of
                       None \<Rightarrow> (Inl TypeError, p)
                     | Some None \<Rightarrow> (Inl MfaInvalidCodeError, p)
                     | Some (Some step) \<Rightarrow>
                         let was_scoped = fst (resolve_enrollment_scoping (rq_now rq) user d) in
                         case create_recovery_codes t user_id (recovery_code_rows L rq) d of
                           Inl e \<Rightarrow> (Inl (DatabaseError e), p)
                         | Inr d1 \<Rightarrow>
                             let d2 = auth_log rq ''mfa_enabled'' None None (Some user_id)
                                        (repo_activate_mfa t user_id d1);
                                 c1 = (if was_scoped
                                       then set_perm_epoch (rq_now rq) user_id (perm_epoch_ttl_seconds get_settings) (cache p)
                                       else cache p)
                             in (Inr (recovery_codes_drawn rq), p\<lparr>database := d2, cache := c1\<rparr>)))))"

section \<open>The second step of a login\<close>

fun try_candidates :: "libs \<Rightarrow> datetime \<Rightarrow> string \<Rightarrow> mfa_recovery_code list \<Rightarrow> db \<Rightarrow> bool \<times> db" where
  "try_candidates L t code [] d = (False, d)"
| "try_candidates L t code (candidate # candidates) d =
     (if verify_password L code (mrc_code_hash candidate)
      then (let (consumed, d1) = consume_recovery_code t (mrc_id candidate) d in (consumed \<noteq> None, d1))
      else try_candidates L t code candidates d)"

definition try_consume_recovery_code :: "libs \<Rightarrow> request \<Rightarrow> uuid \<Rightarrow> string \<Rightarrow> db \<Rightarrow> bool \<times> db" where
  "try_consume_recovery_code L rq user_id code d =
     try_candidates L (rq_db_now rq) code (list_unconsumed_recovery_codes user_id d) d"

datatype mfa_verify_response =
  MfaVerifyResponse (mv_access_token: string) (mv_expires_in: int) (mv_raw_refresh_token: string)

definition complete_mfa_login ::
  "libs \<Rightarrow> request \<Rightarrow> user \<Rightarrow> portal \<Rightarrow> mfa_verify_response outcome \<times> portal" where
  "complete_mfa_login L rq user p =
     (case mint_session L rq user (Some ''mfa'') (database p) of
        Inl e \<Rightarrow> (Inl (DatabaseError e), p)
      | Inr d \<Rightarrow>
          (Inr (MfaVerifyResponse (fst (encode_access_token_for_user L rq user (rq_uuid rq 0) d))
                 (access_token_ttl_seconds get_settings) (fst (generate_refresh_token L (rq_token rq 0)))),
           p\<lparr>database := d\<rparr>))"

text \<open>The TOTP branch of \<open>verify_mfa\<close>: whether the code is the code of a step not used before.\<close>

definition mfa_totp_matched :: "libs \<Rightarrow> request \<Rightarrow> user \<Rightarrow> string \<Rightarrow> valkey \<Rightarrow> bool outcome \<times> valkey" where
  "mfa_totp_matched L rq user code c =
     (case u_mfa_secret_encrypted user of
        None \<Rightarrow> (Inr False, c)
      | Some enc \<Rightarrow>
          (case decrypt_mfa_secret L enc of
             None \<Rightarrow> (Inl InvalidTag, c)
           | Some secret \<Rightarrow>
               (case verify_totp_code L secret code (rq_now rq) of
                  None \<Rightarrow> (Inl TypeError, c)
                | Some None \<Rightarrow> (Inr False, c)
                | Some (Some step) \<Rightarrow>
                    (let (fresh, c1) = mark_step_used (rq_now rq) (u_id user) step
                           (mfa_token_ttl_seconds get_settings) c
                     in (Inr fresh, c1)))))"

definition verify_mfa ::
  "libs \<Rightarrow> request \<Rightarrow> string \<Rightarrow> string \<Rightarrow> portal \<Rightarrow> mfa_verify_response outcome \<times> portal" where
  "verify_mfa L rq raw_mfa_token code p =
     (let now = rq_now rq; d = database p; c = cache p; ttl = mfa_token_ttl_seconds get_settings in
      case hash_mfa_token L raw_mfa_token of
        None \<Rightarrow> (Inl UnicodeEncodeError, p)
      | Some token_hash \<Rightarrow>
          (case mfa_get_user_id now token_hash c of
             None \<Rightarrow> (Inl MfaInvalidCodeError, p)
           | Some user_id \<Rightarrow>
               (case get_by_id user_id d of
                  None \<Rightarrow> (Inl MfaInvalidCodeError, p)
                | Some user \<Rightarrow>
                    (case try_consume_recovery_code L rq user_id code d of
                       (True, d1) \<Rightarrow>
                         let d2 = auth_log rq ''mfa_recovery_used'' None None (Some user_id)
                                    (set_mfa_reenrollment_required user_id d1);
                             p1 = send_email rq (MfaRecoveryUsedNotice (u_email user))
                                    (p\<lparr>database := d2, cache := snd (mfa_consume now token_hash c)\<rparr>)
                         in complete_mfa_login L rq (user\<lparr>u_mfa_reenrollment_required := True\<rparr>) p1
                     | (False, d1) \<Rightarrow>
                         (case mfa_totp_matched L rq user code c of
                            (Inl e, c1) \<Rightarrow> (Inl e, p\<lparr>cache := c1\<rparr>)
                          | (Inr True, c1) \<Rightarrow>
                              complete_mfa_login L rq user
                                (p\<lparr>database := d1, cache := snd (mfa_consume now token_hash c1)\<rparr>)
                          | (Inr False, c1) \<Rightarrow>
                              let (attempt_count, c2) = mfa_record_failed_attempt now token_hash ttl c1;
                                  d2 = auth_log rq ''mfa_verify_failed'' None None (Some user_id) d1
                              in if mfa_verify_lockout_threshold get_settings \<le> attempt_count
                                 then (Inl (TooManyAttemptsError 0),
                                       p\<lparr>database := d2, cache := mfa_invalidate token_hash c2\<rparr>)
                                 else (Inl MfaInvalidCodeError, p\<lparr>database := d2, cache := c2\<rparr>))))))"

section \<open>Disabling\<close>

definition disable_mfa ::
  "libs \<Rightarrow> request \<Rightarrow> uuid \<Rightarrow> string \<Rightarrow> string \<Rightarrow> portal \<Rightarrow> unit outcome \<times> portal" where
  "disable_mfa L rq user_id current_password code p =
     (let d = database p in
      case get_by_id user_id d of
        None \<Rightarrow> (Inl InvalidCredentialsError, p)
      | Some user \<Rightarrow>
          let password_ok = verify_password L current_password (u_hashed_password user);
              code_ok = (case u_mfa_secret_encrypted user of
                           None \<Rightarrow> Inr False
                         | Some enc \<Rightarrow>
                             (case decrypt_mfa_secret L enc of
                                None \<Rightarrow> Inl InvalidTag
                              | Some secret \<Rightarrow>
                                  (case verify_totp_code L secret code (rq_now rq) of
                                     None \<Rightarrow> Inl TypeError
                                   | Some r \<Rightarrow> Inr (r \<noteq> None))))
          in case code_ok of
               Inl e \<Rightarrow> (Inl e, p)
             | Inr ok \<Rightarrow>
                 if \<not> (password_ok \<and> ok) then (Inl InvalidCredentialsError, p)
                 else if list_ex (\<lambda>g. fst g \<in> PRIVILEGED_ROLE_NAMES) (get_role_grants_for_user user_id d)
                 then (Inl MfaRequiredForRoleError, p)
                 else (Inr (),
                       p\<lparr>database := auth_log rq ''mfa_disabled'' None None (Some user_id)
                           (delete_recovery_codes_for_user user_id (repo_disable_mfa user_id d)),
                         cache := set_revoke_before (rq_now rq) user_id
                           (refresh_token_ttl_seconds get_settings) (cache p)\<rparr>))"

section \<open>Facts\<close>

lemma try_candidates_True:
  "try_candidates L t code cs d = (True, d') \<Longrightarrow>
   \<exists>c \<in> set cs. verify_password L code (mrc_code_hash c) \<and> d' = snd (consume_recovery_code t (mrc_id c) d)"
  by (induction cs) (auto split: if_splits prod.splits)

lemma try_candidates_False_db:
  assumes "try_candidates L t code cs d = (False, d')"
    and "\<And>c. c \<in> set cs \<Longrightarrow> c \<in> set (mfa_recovery_codes d) \<and> mrc_consumed_at c = None"
  shows "d' = d"
  using assms
proof (induction cs)
  case (Cons c cs)
  have "find_row (\<lambda>x. mrc_id x = mrc_id c \<and> mrc_consumed_at x = None) (mfa_recovery_codes d) \<noteq> None"
    using Cons.prems(2) [of c] by (auto simp: find_None_iff)
  then have "fst (consume_recovery_code t (mrc_id c) d) \<noteq> None"
    by (simp add: consume_recovery_code_def query_defs)
  with Cons show ?case by (auto split: if_splits prod.splits)
qed simp

lemma try_consume_recovery_code_False:
  "try_consume_recovery_code L rq u code d = (False, d') \<Longrightarrow> d' = d"
  unfolding try_consume_recovery_code_def
  by (erule try_candidates_False_db) (auto simp: list_unconsumed_recovery_codes_def)

lemma complete_mfa_login_steps:
  assumes "rq_uuid rq 1 \<notin> families (refresh_tokens (database p))"
  shows "family_steps late (refresh_tokens (database p)) (refresh_tokens (database (snd (complete_mfa_login L rq user p))))"
  using assms mint_session_steps [of L rq user "Some ''mfa''" "database p" _ late]
  by (auto simp: complete_mfa_login_def split: sum.splits)

lemma recovery_frame [simp]:
  "refresh_tokens (snd (consume_recovery_code t i d)) = refresh_tokens d"
  "users (snd (consume_recovery_code t i d)) = users d"
  "user_sessions (snd (consume_recovery_code t i d)) = user_sessions d"
  "refresh_tokens (delete_recovery_codes_for_user i d) = refresh_tokens d"
  "users (delete_recovery_codes_for_user i d) = users d"
  by (simp_all add: consume_recovery_code_rows delete_recovery_codes_for_user_def)

lemma set_mfa_reenrollment_frame [simp]:
  "refresh_tokens (set_mfa_reenrollment_required i d) = refresh_tokens d"
  "mfa_recovery_codes (set_mfa_reenrollment_required i d) = mfa_recovery_codes d"
  by (simp_all add: set_mfa_reenrollment_required_def)

lemma mfa_totp_matched_frame:
  assumes "mfa_totp_matched L rq user code c = (r, c1)"
  shows "vk_mfa_token c1 = vk_mfa_token c" "vk_mfa_verify_attempts c1 = vk_mfa_verify_attempts c"
    "vk_revoke_before c1 = vk_revoke_before c" "vk_perm_epoch c1 = vk_perm_epoch c"
  using assms by (auto simp: mfa_totp_matched_def mark_step_used_def Let_def split: option.splits prod.splits)

lemma psubset_singleton: "A \<subset> B \<Longrightarrow> B \<subseteq> {x} \<Longrightarrow> A = {}"
  by (auto simp: psubset_eq)

lemma unconsumed_after_consume:
  "filter (\<lambda>c. mrc_user_id c = u \<and> mrc_consumed_at c = None) (snd (consume_recovery_rows t k rows))
     = filter (\<lambda>c. mrc_user_id c = u \<and> mrc_consumed_at c = None \<and> mrc_id c \<noteq> k) rows"
  by (induction rows) (auto simp: consume_recovery_rows_def update_returning_def)

lemma complete_mfa_login_frame:
  assumes "complete_mfa_login L rq user p = (res, p')"
  shows "mfa_recovery_codes (database p') = mfa_recovery_codes (database p)"
    and "cache p' = cache p"
    and "get_by_id (u_id user) (database p') = get_by_id (u_id user) (database p)
      \<or> get_by_id (u_id user) (database p')
          = map_option (\<lambda>u. u\<lparr>u_last_login_at := Some (rq_db_now rq)\<rparr>) (get_by_id (u_id user) (database p))"
proof -
  have "p' = p \<or> (\<exists>d. mint_session L rq user (Some ''mfa'') (database p) = Inr d \<and> p' = p\<lparr>database := d\<rparr>)"
    using assms by (auto simp: complete_mfa_login_def split: sum.splits)
  then show "mfa_recovery_codes (database p') = mfa_recovery_codes (database p)" "cache p' = cache p"
    "get_by_id (u_id user) (database p') = get_by_id (u_id user) (database p)
      \<or> get_by_id (u_id user) (database p')
          = map_option (\<lambda>u. u\<lparr>u_last_login_at := Some (rq_db_now rq)\<rparr>) (get_by_id (u_id user) (database p))"
    by (auto dest: mint_session_Inr(6) mint_session_Inr(9) simp: get_by_id_def find_row_update_same)
qed

section \<open>Properties\<close>

text \<open>C38. The second login step locks out after five wrong codes. For a live MFA token of a known account
  and a code that is neither a recovery code nor an unused TOTP code, no session and no refresh token
  is created; the first four failures answer \<open>mfa-invalid-code\<close>, leave the token usable and count up;
  the fifth answers 429 and destroys the token and its counter, so the password step must be repeated.\<close>

theorem verify_mfa_lockout:
  assumes "hash_mfa_token L tok = Some h"
    and "mfa_get_user_id (rq_now rq) h (cache p) = Some i" and "get_by_id i (database p) = Some u"
    and "fst (try_consume_recovery_code L rq i code (database p)) = False"
    and "fst (mfa_totp_matched L rq u code (cache p)) = Inr False"
    and "count_of (rq_now rq) h (vk_mfa_verify_attempts (cache p)) = n"
    and "verify_mfa L rq tok code p = (res, p')"
  shows "user_sessions (database p') = user_sessions (database p)
    \<and> refresh_tokens (database p') = refresh_tokens (database p)
    \<and> (if n < 4
       then res = Inl MfaInvalidCodeError
          \<and> mfa_get_user_id t h (cache p') = mfa_get_user_id t h (cache p)
          \<and> count_of (rq_now rq) h (vk_mfa_verify_attempts (cache p')) = n + 1
       else res = Inl (TooManyAttemptsError 0)
          \<and> mfa_get_user_id t h (cache p') = None
          \<and> count_of t h (vk_mfa_verify_attempts (cache p')) = 0)"
proof -
  obtain c1 where m: "mfa_totp_matched L rq u code (cache p) = (Inr False, c1)"
    using assms(5) by (metis prod.collapse)
  note F = mfa_totp_matched_frame [OF m]
  have d: "try_consume_recovery_code L rq i code (database p) = (False, database p)"
    using assms(4) try_consume_recovery_code_False by (metis prod.collapse)
  let ?m = "vk_set_ex (rq_now rq) h (n + 1) 300 (vk_mfa_verify_attempts (cache p))"
  have r: "mfa_record_failed_attempt (rq_now rq) h 300 c1 = (n + 1, c1\<lparr>vk_mfa_verify_attempts := ?m\<rparr>)"
    using assms(6) by (simp add: mfa_record_failed_attempt_def vk_incr_expire_def count_of_def Let_def F(2))
  have "verify_mfa L rq tok code p =
      (let d2 = auth_log rq ''mfa_verify_failed'' None None (Some i) (database p);
           c2 = c1\<lparr>vk_mfa_verify_attempts := ?m\<rparr>
       in if 5 \<le> n + 1 then (Inl (TooManyAttemptsError 0), p\<lparr>database := d2, cache := mfa_invalidate h c2\<rparr>)
          else (Inl MfaInvalidCodeError, p\<lparr>database := d2, cache := c2\<rparr>))"
    by (simp add: verify_mfa_def assms(1-3) d m r Let_def)
  with assms(7) show ?thesis
    by (auto simp: Let_def F mfa_invalidate_def mfa_get_user_id_def count_of_def seconds_def split: if_splits)
qed

text \<open>An account with MFA enabled, a recovery code \<open>rc\<close>, and a pending MFA token \<open>mt\<close>.\<close>

definition mfa_account :: portal where
  "mfa_account = \<lparr>database = empty_db\<lparr>
       users := [(new_user 0 1 ''a@x'' ''s$pw'' ACTIVE)\<lparr>u_email_verified := True, u_mfa_enabled := True\<rparr>],
       mfa_recovery_codes := [\<lparr>mrc_id = 5, mrc_user_id = 1, mrc_code_hash = ''s$rc'', mrc_created_at = 0,
         mrc_consumed_at = None\<rparr>]\<rparr>,
     cache = mfa_issue 0 ''h:mt'' 1 300 empty_valkey, outbox = []\<rparr>"

lemma mfa_account_facts:
  "hash_mfa_token zero_libs ''mt'' = Some ''h:mt''"
  "mfa_get_user_id (rq_now sample_request) ''h:mt'' (cache mfa_account) = Some 1"
  "get_by_id 1 (database mfa_account)
     = Some ((new_user 0 1 ''a@x'' ''s$pw'' ACTIVE)\<lparr>u_email_verified := True, u_mfa_enabled := True\<rparr>)"
  "fst (try_consume_recovery_code zero_libs sample_request 1 ''xx'' (database mfa_account)) = False"
  "fst (try_consume_recovery_code zero_libs sample_request 1 ''rc'' (database mfa_account)) = True"
  by (simp_all add: hash_mfa_token_def is_ascii_def zero_libs_def mfa_account_def cache_defs sample_request_def
      duration_defs get_by_id_def new_user_def try_consume_recovery_code_def list_unconsumed_recovery_codes_def
      empty_db_def verify_password_def consume_recovery_code_def query_defs)

theorem verify_mfa_lockout_witness:
  "fst (verify_mfa zero_libs sample_request ''mt'' ''xx'' mfa_account) = Inl MfaInvalidCodeError
   \<and> refresh_tokens (database (snd (verify_mfa zero_libs sample_request ''mt'' ''xx'' mfa_account))) = []"
proof -
  have m: "fst (mfa_totp_matched zero_libs sample_request
      ((new_user 0 1 ''a@x'' ''s$pw'' ACTIVE)\<lparr>u_email_verified := True, u_mfa_enabled := True\<rparr>) ''xx''
      (cache mfa_account)) = Inr False"
    by (simp add: mfa_totp_matched_def new_user_def)
  have n: "count_of (rq_now sample_request) ''h:mt'' (vk_mfa_verify_attempts (cache mfa_account)) = 0"
    by (simp add: count_of_def mfa_account_def mfa_issue_def empty_valkey_def vk_get_def)
  have r: "refresh_tokens (database mfa_account) = []" by (simp add: mfa_account_def empty_db_def)
  show ?thesis
    using verify_mfa_lockout [OF mfa_account_facts(1-4) m n surjective_pairing] r by simp
qed

text \<open>What a login with a recovery code leaves behind.\<close>

lemma recovery_login_frame:
  assumes "hash_mfa_token L tok = Some h"
    and "mfa_get_user_id (rq_now rq) h (cache p) = Some i" and "get_by_id i (database p) = Some u"
    and "try_consume_recovery_code L rq i code (database p) = (True, d1)"
    and "verify_mfa L rq tok code p = (res, p')"
  defines "d2 \<equiv> auth_log rq ''mfa_recovery_used'' None None (Some i) (set_mfa_reenrollment_required i d1)"
  shows "mfa_recovery_codes (database p') = mfa_recovery_codes d2"
    and "get_by_id i (database p') = get_by_id i d2
        \<or> get_by_id i (database p') = map_option (\<lambda>u. u\<lparr>u_last_login_at := Some (rq_db_now rq)\<rparr>) (get_by_id i d2)"
    and "vk_mfa_token (cache p') = vk_del h (vk_mfa_token (cache p))"
proof -
  let ?u = "u\<lparr>u_mfa_reenrollment_required := True\<rparr>"
  have "u_id ?u = i" using assms(3) by (auto dest: get_by_id_SomeD)
  have eq: "(res, p') = complete_mfa_login L rq ?u (send_email rq (MfaRecoveryUsedNotice (u_email u))
      (p\<lparr>database := d2, cache := snd (mfa_consume (rq_now rq) h (cache p))\<rparr>))"
    using assms(5) by (simp add: verify_mfa_def assms(1-4) d2_def Let_def)
  note C = complete_mfa_login_frame [OF eq [symmetric]]
  show "mfa_recovery_codes (database p') = mfa_recovery_codes d2" using C(1) by simp
  show "get_by_id i (database p') = get_by_id i d2
      \<or> get_by_id i (database p') = map_option (\<lambda>u. u\<lparr>u_last_login_at := Some (rq_db_now rq)\<rparr>) (get_by_id i d2)"
    using C(3) \<open>u_id ?u = i\<close> by (simp only: send_email_simps) simp
  show "vk_mfa_token (cache p') = vk_del h (vk_mfa_token (cache p))"
    by (simp add: C(2) mfa_consume_def vk_getdel_def)
qed

text \<open>C39. A recovery code opens one login only. When the submitted code matches an unconsumed recovery
  code of the account, a matching row is consumed (the account has fewer unconsumed codes than before,
  none reappear), the MFA token is spent, and the account is marked for re-enrolment, so that the
  access token issued here and every later one is restricted to the enrolment endpoints until MFA is
  activated again.\<close>

theorem recovery_code_single_use:
  assumes "hash_mfa_token L tok = Some h"
    and "mfa_get_user_id (rq_now rq) h (cache p) = Some i" and "get_by_id i (database p) = Some u"
    and "fst (try_consume_recovery_code L rq i code (database p)) = True"
    and "verify_mfa L rq tok code p = (res, p')"
  shows "\<exists>c \<in> set (mfa_recovery_codes (database p)).
       mrc_user_id c = i \<and> mrc_consumed_at c = None \<and> verify_password L code (mrc_code_hash c)
     \<and> c \<notin> set (list_unconsumed_recovery_codes i (database p'))
     \<and> set (list_unconsumed_recovery_codes i (database p')) \<subset> set (list_unconsumed_recovery_codes i (database p))
     \<and> mfa_get_user_id t h (cache p') = None
     \<and> (\<exists>u'. get_by_id i (database p') = Some u' \<and> fst (resolve_enrollment_scoping now u' (database p')))"
proof -
  let ?d = "database p" and ?t = "rq_db_now rq"
  obtain d1 where d1: "try_consume_recovery_code L rq i code ?d = (True, d1)"
    using assms(4) by (metis prod.collapse)
  then obtain c where c: "c \<in> set (list_unconsumed_recovery_codes i ?d)" "verify_password L code (mrc_code_hash c)"
    and d1': "d1 = snd (consume_recovery_code ?t (mrc_id c) ?d)"
    unfolding try_consume_recovery_code_def by (auto dest: try_candidates_True)
  let ?d2 = "auth_log rq ''mfa_recovery_used'' None None (Some i) (set_mfa_reenrollment_required i d1)"
  note after = recovery_login_frame [OF assms(1-3) d1 assms(5)]
  have "mfa_recovery_codes (database p') = snd (consume_recovery_rows ?t (mrc_id c) (mfa_recovery_codes ?d))"
    by (simp add: after(1) d1' consume_recovery_code_rows)
  then have rows: "set (list_unconsumed_recovery_codes i (database p'))
      = {r \<in> set (list_unconsumed_recovery_codes i ?d). mrc_id r \<noteq> mrc_id c}"
    by (auto simp: list_unconsumed_recovery_codes_def unconsumed_after_consume)
  have "get_by_id i ?d2 = map_option (\<lambda>u. u\<lparr>u_mfa_reenrollment_required := True\<rparr>) (get_by_id i ?d)"
  proof -
    have "get_by_id i ?d2 = get_by_id i (set_mfa_reenrollment_required i d1)" by (simp add: get_by_id_def)
    also have "\<dots> = map_option (\<lambda>u. u\<lparr>u_mfa_reenrollment_required := True\<rparr>) (get_by_id i d1)"
      by (simp add: set_mfa_reenrollment_required_def get_by_id_update_user)
    also have "get_by_id i d1 = get_by_id i ?d" by (simp add: d1' get_by_id_def)
    finally show ?thesis .
  qed
  then have "\<exists>u'. get_by_id i (database p') = Some u' \<and> fst (resolve_enrollment_scoping now u' (database p'))"
    using after(2) assms(3) by (auto simp: resolve_enrollment_scoping_def)
  with c rows after(3) show ?thesis
    by (intro bexI [of _ c]) (auto simp: list_unconsumed_recovery_codes_def mfa_get_user_id_def)
qed

theorem recovery_code_single_use_witness:
  "list_unconsumed_recovery_codes 1 (database (snd (verify_mfa zero_libs sample_request ''mt'' ''rc'' mfa_account))) = []"
proof -
  have "set (list_unconsumed_recovery_codes 1 (database mfa_account)) \<subseteq> {\<lparr>mrc_id = 5, mrc_user_id = 1,
      mrc_code_hash = ''s$rc'', mrc_created_at = 0, mrc_consumed_at = None\<rparr>}"
    by (auto simp: list_unconsumed_recovery_codes_def mfa_account_def)
  moreover have "set (list_unconsumed_recovery_codes 1
      (database (snd (verify_mfa zero_libs sample_request ''mt'' ''rc'' mfa_account))))
    \<subset> set (list_unconsumed_recovery_codes 1 (database mfa_account))"
    using recovery_code_single_use [OF mfa_account_facts(1-3,5) surjective_pairing] by blast
  ultimately show ?thesis using psubset_singleton by (metis set_empty)
qed

text \<open>Multi-factor authentication is only ever disabled by someone who proves both factors, and never
  on a privileged account. \<open>disable_mfa\<close> succeeds exactly when the password matches, the submitted code
  is the code of an accepted TOTP step of the stored secret, and the account holds none of the roles
  \<open>admin\<close>, \<open>auditor\<close> and \<open>support_agent\<close>. Success purges the secret, the enabled flag and every recovery
  code and revokes the account's tokens; every other outcome leaves the whole portal unchanged.\<close>

theorem disable_mfa_requires_both_factors:
  assumes "get_by_id i (database p) = Some u" and "disable_mfa L rq i pw code p = (res, p')"
  shows "(res = Inr () \<longleftrightarrow>
       verify_password L pw (u_hashed_password u)
     \<and> (\<exists>enc secret step. u_mfa_secret_encrypted u = Some enc \<and> decrypt_mfa_secret L enc = Some secret
          \<and> verify_totp_code L secret code (rq_now rq) = Some (Some step))
     \<and> set (list_role_names_for_user i (database p)) \<inter> PRIVILEGED_ROLE_NAMES = {})
   \<and> (res \<noteq> Inr () \<longrightarrow> p' = p)
   \<and> (res = Inr () \<longrightarrow> list_unconsumed_recovery_codes i (database p') = []
        \<and> (\<exists>u'. get_by_id i (database p') = Some u' \<and> \<not> u_mfa_enabled u' \<and> u_mfa_secret_encrypted u' = None)
        \<and> get_revoke_before (rq_now rq) i (cache p') = Some (rq_now rq))"
proof -
  let ?d = "database p"
  define ok where "ok \<longleftrightarrow> verify_password L pw (u_hashed_password u)
     \<and> (\<exists>enc secret step. u_mfa_secret_encrypted u = Some enc \<and> decrypt_mfa_secret L enc = Some secret
          \<and> verify_totp_code L secret code (rq_now rq) = Some (Some step))
     \<and> set (list_role_names_for_user i ?d) \<inter> PRIVILEGED_ROLE_NAMES = {}"
  have priv: "list_ex (\<lambda>g. fst g \<in> PRIVILEGED_ROLE_NAMES) (get_role_grants_for_user i ?d) \<longleftrightarrow>
      set (list_role_names_for_user i ?d) \<inter> PRIVILEGED_ROLE_NAMES \<noteq> {}"
    by (auto simp: list_ex_iff get_role_grants_for_user_def role_grants_names [symmetric])
  let ?p = "p\<lparr>database := auth_log rq ''mfa_disabled'' None None (Some i)
      (delete_recovery_codes_for_user i (repo_disable_mfa i ?d)),
      cache := set_revoke_before (rq_now rq) i 2592000 (cache p)\<rparr>"
  have "(res, p') = (if ok then (Inr (), ?p) else (res, p)) \<and> (res = Inr () \<longrightarrow> ok)"
    using assms(2) by (auto simp: disable_mfa_def assms(1) priv ok_def Let_def split: option.splits if_splits)
  then have res: "res = Inr () \<longleftrightarrow> ok" "res \<noteq> Inr () \<longrightarrow> p' = p" "res = Inr () \<longrightarrow> p' = ?p"
    by (auto split: if_splits)
  have u': "get_by_id i (database ?p) = Some (u\<lparr>u_mfa_enabled := False, u_mfa_secret_encrypted := None,
      u_mfa_activated_at := None, u_mfa_reenrollment_required := False\<rparr>)"
    using assms(1) get_by_id_update_user [where i = i and j = i and d = ?d and f = "\<lambda>u. u\<lparr>u_mfa_enabled := False,
      u_mfa_secret_encrypted := None, u_mfa_activated_at := None, u_mfa_reenrollment_required := False\<rparr>"]
    by (simp add: get_by_id_def repo_disable_mfa_def)
  have "list_unconsumed_recovery_codes i (database ?p) = []"
    by (simp add: list_unconsumed_recovery_codes_def delete_recovery_codes_for_user_def delete_rows_def filter_empty_conv)
  moreover have "get_revoke_before (rq_now rq) i (cache ?p) = Some (rq_now rq)" by (simp add: duration_defs)
  ultimately show ?thesis using res u' unfolding ok_def by auto
qed

theorem disable_mfa_requires_both_factors_witness:
  "fst (disable_mfa zero_libs sample_request 1 ''pw'' ''000000'' mfa_account) \<noteq> Inr ()
   \<and> snd (disable_mfa zero_libs sample_request 1 ''pw'' ''000000'' mfa_account) = mfa_account"
  using disable_mfa_requires_both_factors [OF mfa_account_facts(3) surjective_pairing]
  by (auto simp: new_user_def)

end
