(* ===== verification/Email_Verification.thy ===== *)
theory Email_Verification
  imports Users_Mfa
begin

text \<open>
  \<open>app/modules/email_verification\<close>: verification tokens, the resend endpoint and the purge of accounts
  that were never verified. The foreign keys of the schema decide what \<open>DELETE FROM users\<close> does: rows
  of the authentication tables go with the user, tickets, replies and attachments block the deletion.
\<close>

section \<open>Repository\<close>

definition get_latest_token_for_user :: "uuid \<Rightarrow> db \<Rightarrow> email_verification_token option" where
  "get_latest_token_for_user user_id d =
     (case filter (\<lambda>k. evt_user_id k = user_id) (email_verification_tokens d) of
        [] \<Rightarrow> None
      | k # ks \<Rightarrow> Some (first_min (\<lambda>k. - evt_issued_at k) k ks))"

definition get_token_by_hash :: "string \<Rightarrow> db \<Rightarrow> email_verification_token option" where
  "get_token_by_hash token_hash d = find_row (\<lambda>k. evt_token_hash k = token_hash) (email_verification_tokens d)"

definition create_token :: "datetime \<Rightarrow> uuid \<Rightarrow> uuid \<Rightarrow> string \<Rightarrow> datetime \<Rightarrow> db \<Rightarrow> sql_error + db" where
  "create_token t tid user_id token_hash expires_at d =
     (let k = \<lparr>evt_id = tid, evt_user_id = user_id, evt_token_hash = token_hash, evt_issued_at = t,
                evt_expires_at = expires_at, evt_consumed_at = None\<rparr> in
      if tid \<in> evt_id ` set (email_verification_tokens d) then Inl IntegrityError
      else map_sum id (\<lambda>rows. d\<lparr>email_verification_tokens := rows\<rparr>)
        (insert_unique evt_token_hash k (email_verification_tokens d)))"

definition consume_token :: "datetime \<Rightarrow> uuid \<Rightarrow> db \<Rightarrow> bool \<times> db" where
  "consume_token t token_id d =
     (let (k, rows) = update_returning (\<lambda>k. evt_id k = token_id \<and> evt_consumed_at k = None)
            (\<lambda>k. k\<lparr>evt_consumed_at := Some t\<rparr>) (email_verification_tokens d)
      in (k \<noteq> None, d\<lparr>email_verification_tokens := rows\<rparr>))"

definition mark_user_verified :: "uuid \<Rightarrow> db \<Rightarrow> db" where
  "mark_user_verified user_id = update_user user_id (\<lambda>u. u\<lparr>u_email_verified := True\<rparr>)"

definition find_purge_candidates :: "datetime \<Rightarrow> db \<Rightarrow> user list" where
  "find_purge_candidates cutoff d = filter (\<lambda>u. \<not> u_email_verified u \<and> u_created_at u < cutoff) (users d)"

definition user_referenced :: "uuid \<Rightarrow> db \<Rightarrow> bool" where
  "user_referenced i d \<longleftrightarrow>
     list_ex (\<lambda>k. tk_requester_id k = i \<or> tk_assignee_id k = Some i) (tickets d)
     \<or> list_ex (\<lambda>r. tr_author_id r = i) (ticket_replies d)
     \<or> list_ex (\<lambda>a. at_uploaded_by a = i) (attachments d)"

definition delete_user :: "uuid \<Rightarrow> db \<Rightarrow> sql_error + db" where
  "delete_user i d =
     (if user_referenced i d then Inl IntegrityError
      else Inr (d\<lparr>users := delete_rows (\<lambda>u. u_id u = i) (users d),
        user_sessions := delete_rows (\<lambda>s. us_user_id s = i) (user_sessions d),
        password_reset_tokens := delete_rows (\<lambda>k. prt_user_id k = i) (password_reset_tokens d),
        refresh_tokens := delete_rows (\<lambda>r. rt_user_id r = i) (refresh_tokens d),
        mfa_recovery_codes := delete_rows (\<lambda>c. mrc_user_id c = i) (mfa_recovery_codes d),
        user_roles := delete_rows (\<lambda>r. ur_user_id r = i) (user_roles d),
        email_verification_tokens := delete_rows (\<lambda>k. evt_user_id k = i) (email_verification_tokens d),
        invitation_tokens := delete_rows (\<lambda>k. it_user_id k = i) (invitation_tokens d),
        email_change_tokens := delete_rows (\<lambda>k. ect_user_id k = i) (email_change_tokens d)\<rparr>))"

definition create_purge_log :: "datetime \<Rightarrow> string \<Rightarrow> uuid \<Rightarrow> string \<Rightarrow> db \<Rightarrow> db" where
  "create_purge_log t event subject_user_id detail d =
     d\<lparr>unverified_account_purge_logs := unverified_account_purge_logs d @
        [\<lparr>upl_event = event, upl_subject_user_id = Some subject_user_id, upl_detail = detail,
          upl_occurred_at = t\<rparr>]\<rparr>"

section \<open>Service\<close>

definition verify_email :: "libs \<Rightarrow> request \<Rightarrow> string option \<Rightarrow> portal \<Rightarrow> unit outcome \<times> portal" where
  "verify_email L rq raw_token p =
     (case raw_token of
        None \<Rightarrow> (Inl VerificationTokenInvalidError, p)
      | Some raw \<Rightarrow>
          if raw = [] then (Inl VerificationTokenInvalidError, p)
          else case get_token_by_hash (sha256_hex L raw) (database p) of
                 None \<Rightarrow> (Inl VerificationTokenInvalidError, p)
               | Some token \<Rightarrow>
                   if evt_consumed_at token \<noteq> None then (Inl VerificationTokenInvalidError, p)
                   else if evt_expires_at token \<le> rq_now rq then (Inl VerificationTokenExpiredError, p)
                   else case consume_token (rq_db_now rq) (evt_id token) (database p) of
                          (False, _) \<Rightarrow> (Inl VerificationTokenInvalidError, p)
                        | (True, d1) \<Rightarrow> (Inr (), p\<lparr>database := mark_user_verified (evt_user_id token) d1\<rparr>))"

definition issue_token :: "libs \<Rightarrow> request \<Rightarrow> uuid \<Rightarrow> db \<Rightarrow> sql_error + string \<times> db" where
  "issue_token L rq user_id d =
     (let raw_token = rq_token rq 1;
          expires_at = rq_now rq + hours (verification_token_ttl_hours get_settings)
      in map_sum id (Pair raw_token)
           (create_token (rq_db_now rq) (rq_uuid rq 1) user_id (sha256_hex L raw_token) expires_at d))"

definition issue_pending_token :: "libs \<Rightarrow> request \<Rightarrow> uuid \<Rightarrow> portal \<Rightarrow> string outcome \<times> portal" where
  "issue_pending_token L rq user_id p =
     (case issue_token L rq user_id (database p) of
        Inl e \<Rightarrow> (Inl (DatabaseError e), p)
      | Inr (raw_token, d1) \<Rightarrow> (Inr raw_token, p\<lparr>database := d1\<rparr>))"

text \<open>The response of every accepted resend is one constant message. A mail provider that refuses the
  message makes this endpoint fail after its commit.\<close>

definition resend_verification :: "libs \<Rightarrow> request \<Rightarrow> string option \<Rightarrow> portal \<Rightarrow> unit outcome \<times> portal" where
  "resend_verification L rq email p =
     (let normalized = py_strip (case email of None \<Rightarrow> '''' | Some e \<Rightarrow> e) in
      if normalized = [] \<or> CHR ''@'' \<notin> set normalized then (Inl InvalidRequestError, p)
      else case get_by_email normalized (database p) of
             Inl e \<Rightarrow> (Inl (DatabaseError e), p)
           | Inr None \<Rightarrow> (Inr (), p)
           | Inr (Some user) \<Rightarrow>
               if u_email_verified user then (Inr (), p)
               else
                 let cooldown = seconds (resend_cooldown_seconds get_settings);
                     elapsed = (case get_latest_token_for_user (u_id user) (database p) of
                                  None \<Rightarrow> cooldown
                                | Some latest \<Rightarrow> rq_now rq - evt_issued_at latest)
                 in if elapsed < cooldown then
                      (Inl (VerificationTooManyAttemptsError ((cooldown - elapsed) div 1000000)), p)
                    else case issue_token L rq (u_id user) (database p) of
                           Inl e \<Rightarrow> (Inl (DatabaseError e), p)
                         | Inr (raw_token, d1) \<Rightarrow>
                             let p1 = p\<lparr>database := d1\<rparr> in
                             if rq_mail_ok rq
                             then (Inr (), send_email rq (VerificationEmail (u_email user) raw_token) p1)
                             else (Inl (RuntimeError ''mail provider''), p1))"

fun purge_each :: "libs \<Rightarrow> datetime \<Rightarrow> user list \<Rightarrow> db \<Rightarrow> sql_error + db" where
  "purge_each L t [] d = Inr d"
| "purge_each L t (user # us) d =
     (let detail = ''Automatic purge: account created '' @ isoformat L (u_created_at user)
            @ '' exceeded the '' @ int_str (unverified_account_purge_after_days get_settings)
            @ ''-day unverified window.''
      in case delete_user (u_id user)
             (create_purge_log t ''unverified_account_purged'' (u_id user) detail d) of
           Inl e \<Rightarrow> Inl e
         | Inr d1 \<Rightarrow> purge_each L t us d1)"

definition purge_unverified_accounts :: "libs \<Rightarrow> request \<Rightarrow> portal \<Rightarrow> nat outcome \<times> portal" where
  "purge_unverified_accounts L rq p =
     (let cutoff = rq_now rq - days (unverified_account_purge_after_days get_settings);
          candidates = find_purge_candidates cutoff (database p)
      in case purge_each L (rq_db_now rq) candidates (database p) of
           Inl e \<Rightarrow> (Inl (DatabaseError e), p)
         | Inr d1 \<Rightarrow> (Inr (length candidates), p\<lparr>database := d1\<rparr>))"

section \<open>Facts\<close>

lemma purge_each_users:
  "purge_each L t us d = Inr d' \<Longrightarrow> users d' = filter (\<lambda>u. u_id u \<notin> u_id ` set us) (users d)"
proof (induction us arbitrary: d)
  case (Cons x us)
  from Cons.prems obtain d1 where "purge_each L t us d1 = Inr d'"
    and d1: "users d1 = filter (\<lambda>u. u_id u \<noteq> u_id x) (users d)"
    by (auto simp: Let_def delete_user_def create_purge_log_def delete_rows_def split: sum.splits if_splits)
  then show ?case using Cons.IH by (simp add: conj_commute)
qed simp

lemma purge_each_refresh:
  "purge_each L t us d = Inr d' \<Longrightarrow> refresh_tokens d' = filter (\<lambda>r. rt_user_id r \<notin> u_id ` set us) (refresh_tokens d)"
proof (induction us arbitrary: d)
  case (Cons x us)
  from Cons.prems obtain d1 where "purge_each L t us d1 = Inr d'"
    and d1: "refresh_tokens d1 = filter (\<lambda>r. rt_user_id r \<noteq> u_id x) (refresh_tokens d)"
    by (auto simp: Let_def delete_user_def create_purge_log_def delete_rows_def split: sum.splits if_splits)
  then show ?case using Cons.IH by (simp add: conj_commute)
qed simp

lemma consume_token_of_row:
  assumes "distinct (map evt_id (email_verification_tokens d))" and "k \<in> set (email_verification_tokens d)"
  shows "consume_token t (evt_id k) d = (evt_consumed_at k = None,
    d\<lparr>email_verification_tokens := update_rows (\<lambda>x. evt_id x = evt_id k \<and> evt_consumed_at x = None)
      (\<lambda>x. x\<lparr>evt_consumed_at := Some t\<rparr>) (email_verification_tokens d)\<rparr>)"
proof -
  have "find_row (\<lambda>x. evt_id x = evt_id k \<and> evt_consumed_at x = None) (email_verification_tokens d) = None
      \<longleftrightarrow> evt_consumed_at k \<noteq> None"
    using assms by (auto simp: find_None_iff dest: distinct_key_eqD [of evt_id])
  then show ?thesis by (auto simp: consume_token_def query_defs)
qed

section \<open>Properties\<close>

text \<open>C40. A verification token works exactly once. On a known token \<open>verify_email\<close> succeeds exactly if it
  was never consumed and has not expired; success marks precisely the token's owner as verified, and
  presenting the same token again is refused and changes nothing.\<close>

theorem verify_email_once:
  assumes "distinct (map evt_id (email_verification_tokens (database p)))"
    and "get_token_by_hash (sha256_hex L raw) (database p) = Some k" and "raw \<noteq> []"
    and "verify_email L rq (Some raw) p = (res, p')"
  shows "(res = Inr () \<longleftrightarrow> evt_consumed_at k = None \<and> rq_now rq < evt_expires_at k)
    \<and> (if res = Inr ()
       then (\<forall>i. get_by_id i (database p') = map_option (\<lambda>u. if i = evt_user_id k then u\<lparr>u_email_verified := True\<rparr> else u)
              (get_by_id i (database p)))
         \<and> verify_email L rq' (Some raw) p' = (Inl VerificationTokenInvalidError, p')
       else p' = p)"
proof -
  let ?d = "database p" and ?t = "rq_db_now rq"
  have k: "k \<in> set (email_verification_tokens ?d)" "evt_token_hash k = sha256_hex L raw"
    using assms(2) by (auto simp: get_token_by_hash_def dest: find_row_SomeD)
  let ?d1 = "?d\<lparr>email_verification_tokens := update_rows (\<lambda>x. evt_id x = evt_id k \<and> evt_consumed_at x = None)
      (\<lambda>x. x\<lparr>evt_consumed_at := Some ?t\<rparr>) (email_verification_tokens ?d)\<rparr>"
  note consumed = consume_token_of_row [OF assms(1) k(1), of ?t]
  show ?thesis
  proof (cases "evt_consumed_at k = None \<and> rq_now rq < evt_expires_at k")
    case False
    then show ?thesis using assms(2,3,4)
      by (auto simp: verify_email_def consumed split: if_splits prod.splits bool.splits)
  next
    case True
    have ct: "consume_token ?t (evt_id k) ?d = (True, ?d1)" using consumed True by simp
    have r: "res = Inr ()" "p' = p\<lparr>database := mark_user_verified (evt_user_id k) ?d1\<rparr>"
      using assms(2,3,4) True by (auto simp: verify_email_def ct)
    have "get_token_by_hash (sha256_hex L raw) (database p')
        = map_option (\<lambda>x. if evt_id x = evt_id k \<and> evt_consumed_at x = None then x\<lparr>evt_consumed_at := Some ?t\<rparr> else x)
            (get_token_by_hash (sha256_hex L raw) ?d)"
      by (simp add: r get_token_by_hash_def mark_user_verified_def update_user_def find_row_update)
    then have again: "verify_email L rq' (Some raw) p' = (Inl VerificationTokenInvalidError, p')"
      using True assms(3) by (simp add: assms(2) verify_email_def)
    have "get_by_id i (database p') = map_option (\<lambda>u. if i = evt_user_id k then u\<lparr>u_email_verified := True\<rparr> else u)
              (get_by_id i ?d)" for i
    proof -
      have "get_by_id i (database p') = (if i = evt_user_id k then map_option (\<lambda>u. u\<lparr>u_email_verified := True\<rparr>) (get_by_id i ?d1)
          else get_by_id i ?d1)"
        by (simp add: r mark_user_verified_def get_by_id_update_user)
      moreover have "get_by_id i ?d1 = get_by_id i ?d" by (simp add: get_by_id_def)
      ultimately show ?thesis by (cases "i = evt_user_id k") (simp_all add: option.map_ident)
    qed
    with True r(1) again show ?thesis by simp
  qed
qed

text \<open>An account with a pending verification token \<open>vt\<close>.\<close>

definition unverified_account :: portal where
  "unverified_account = \<lparr>database = empty_db\<lparr>users := [new_user 0 1 ''a@x'' ''s$pw'' PENDING_VERIFICATION],
       email_verification_tokens := [\<lparr>evt_id = 4, evt_user_id = 1, evt_token_hash = ''h:vt'', evt_issued_at = 0,
         evt_expires_at = 5000, evt_consumed_at = None\<rparr>]\<rparr>,
     cache = empty_valkey, outbox = []\<rparr>"

theorem verify_email_once_witness:
  "fst (verify_email zero_libs sample_request (Some ''vt'') unverified_account) = Inr ()
   \<and> fst (verify_email zero_libs sample_request (Some ''vt'')
        (snd (verify_email zero_libs sample_request (Some ''vt'') unverified_account)))
      = Inl VerificationTokenInvalidError"
proof -
  have d: "distinct (map evt_id (email_verification_tokens (database unverified_account)))"
    by (simp add: unverified_account_def)
  have k: "get_token_by_hash (sha256_hex zero_libs ''vt'') (database unverified_account)
      = Some \<lparr>evt_id = 4, evt_user_id = 1, evt_token_hash = ''h:vt'', evt_issued_at = 0,
         evt_expires_at = 5000, evt_consumed_at = None\<rparr>"
    by (simp add: unverified_account_def get_token_by_hash_def zero_libs_def)
  from verify_email_once [OF d k, where rq = sample_request and rq' = sample_request
      and res = "fst (verify_email zero_libs sample_request (Some ''vt'') unverified_account)"
      and p' = "snd (verify_email zero_libs sample_request (Some ''vt'') unverified_account)"]
  moreover have "rq_now sample_request = 1000" by (simp add: sample_request_def)
  ultimately show ?thesis by simp
qed

text \<open>The purge job removes exactly the accounts that are unverified and more than seven days old
  (together with their refresh tokens), reports their number, and never removes a verified account. If
  a candidate is still referenced by a ticket, a reply or an attachment, nothing at all is deleted.\<close>

lemma purge_removes_exactly_stale_accounts:
  assumes "distinct (map u_id (users (database p)))"
  shows "case purge_unverified_accounts L rq p of
      (Inr n, p') \<Rightarrow>
        users (database p') = filter (\<lambda>u. u_email_verified u \<or> rq_now rq - days 7 \<le> u_created_at u) (users (database p))
        \<and> n = length (users (database p)) - length (users (database p'))
        \<and> (\<forall>r \<in> set (refresh_tokens (database p')). r \<in> set (refresh_tokens (database p)))
    | (Inl e, p') \<Rightarrow> p' = p"
proof -
  let ?us = "find_purge_candidates (rq_now rq - days 7) (database p)"
  have keep: "u_id u \<notin> u_id ` set ?us \<longleftrightarrow> u_email_verified u \<or> rq_now rq - days 7 \<le> u_created_at u"
    if "u \<in> set (users (database p))" for u
  proof
    assume "u_id u \<notin> u_id ` set ?us"
    then have "u \<notin> set ?us" by blast
    with that show "u_email_verified u \<or> rq_now rq - days 7 \<le> u_created_at u"
      by (auto simp: find_purge_candidates_def)
  next
    assume a: "u_email_verified u \<or> rq_now rq - days 7 \<le> u_created_at u"
    show "u_id u \<notin> u_id ` set ?us"
    proof
      assume "u_id u \<in> u_id ` set ?us"
      then obtain v where v: "v \<in> set ?us" "u_id v = u_id u" by auto
      then have "v = u" using assms that
        by (auto simp: find_purge_candidates_def intro: distinct_key_eqD [of u_id])
      with v(1) a show False by (auto simp: find_purge_candidates_def)
    qed
  qed
  show ?thesis
  proof (cases "purge_each L (rq_db_now rq) ?us (database p)")
    case (Inl e)
    then show ?thesis by (simp add: purge_unverified_accounts_def Let_def)
  next
    case (Inr d1)
    have u: "users d1 = filter (\<lambda>u. u_email_verified u \<or> rq_now rq - days 7 \<le> u_created_at u) (users (database p))"
      unfolding purge_each_users [OF Inr] by (rule filter_cong) (use keep in auto)
    have "length ?us = length (users (database p)) - length (users d1)"
      using sum_length_filter_compl [of "\<lambda>u. u_email_verified u \<or> rq_now rq - days 7 \<le> u_created_at u" "users (database p)"]
      by (simp add: u find_purge_candidates_def not_le)
    with u purge_each_refresh [OF Inr] show ?thesis by (simp add: purge_unverified_accounts_def Let_def Inr)
  qed
qed

theorem purge_removes_exactly_stale_accounts_witness:
  "users (database (snd (purge_unverified_accounts zero_libs (sample_request\<lparr>rq_now := days 8\<rparr>) unverified_account))) = []"
proof -
  have d: "distinct (map u_id (users (database unverified_account)))" by (simp add: unverified_account_def)
  have "\<exists>n p'. purge_unverified_accounts zero_libs (sample_request\<lparr>rq_now := days 8\<rparr>) unverified_account = (Inr n, p')"
    by (simp add: purge_unverified_accounts_def find_purge_candidates_def unverified_account_def empty_db_def
        new_user_def delete_user_def user_referenced_def create_purge_log_def duration_defs)
  with purge_removes_exactly_stale_accounts [OF d, where L = zero_libs and rq = "sample_request\<lparr>rq_now := days 8\<rparr>"]
  show ?thesis by (auto simp: unverified_account_def empty_db_def new_user_def duration_defs)
qed

end
