(* ===== verification/Users_Passwords.thy ===== *)
theory Users_Passwords
  imports Email_Verification
begin

text \<open>
  \<open>app/modules/users/service.py\<close>: registration and password reset.

  Characters are code points up to 255; the character tests are those of Python's \<open>str\<close> methods on
  that range.
\<close>

section \<open>Validation\<close>

definition code_point :: "char \<Rightarrow> nat" where
  "code_point c = of_char c"

definition isupper :: "char \<Rightarrow> bool" where
  "isupper c = (let n = code_point c in 65 \<le> n \<and> n \<le> 90 \<or> 192 \<le> n \<and> n \<le> 222 \<and> n \<noteq> 215)"

definition islower :: "char \<Rightarrow> bool" where
  "islower c = (let n = code_point c in 97 \<le> n \<and> n \<le> 122 \<or> n = 170 \<or> n = 181 \<or> n = 186 \<or> 223 \<le> n \<and> n \<noteq> 247)"

definition isdigit :: "char \<Rightarrow> bool" where
  "isdigit c = (let n = code_point c in 48 \<le> n \<and> n \<le> 57 \<or> n = 178 \<or> n = 179 \<or> n = 185)"

text \<open>\<open>string.punctuation\<close>.\<close>

definition special_character :: "char \<Rightarrow> bool" where
  "special_character c = (let n = code_point c in
     33 \<le> n \<and> n \<le> 47 \<or> 58 \<le> n \<and> n \<le> 64 \<or> 91 \<le> n \<and> n \<le> 96 \<or> 123 \<le> n \<and> n \<le> 126)"

definition MIN_PASSWORD_LENGTH :: nat where "MIN_PASSWORD_LENGTH = 8"
definition MIN_RESET_PASSWORD_LENGTH :: nat where "MIN_RESET_PASSWORD_LENGTH = 12"

definition validate_email_field :: "libs \<Rightarrow> string option \<Rightarrow> field_error list \<Rightarrow> string option \<times> field_error list" where
  "validate_email_field L email errs =
     (let trimmed = py_strip (case email of None \<Rightarrow> '''' | Some e \<Rightarrow> e) in
      if trimmed = [] then
        (None, errs @ [\<lparr>fe_field = ''email'', fe_message = ''Email is required.'', fe_code = ''REQUIRED''\<rparr>])
      else case validate_email L trimmed of
             None \<Rightarrow> (None, errs @ [\<lparr>fe_field = ''email'',
                fe_message = ''Email address is not a valid RFC 5322 address.'', fe_code = ''INVALID_FORMAT''\<rparr>])
           | Some normalized \<Rightarrow> (Some normalized, errs))"

definition missing_rules :: "string \<Rightarrow> string list" where
  "missing_rules password =
     (if length password < MIN_PASSWORD_LENGTH then [''at least 8 characters''] else [])
     @ (if \<not> list_ex isupper password then [''an uppercase letter''] else [])
     @ (if \<not> list_ex islower password then [''a lowercase letter''] else [])
     @ (if \<not> list_ex isdigit password then [''a digit''] else [])
     @ (if \<not> list_ex special_character password then [''a special character''] else [])"

definition validate_password_field :: "string option \<Rightarrow> field_error list \<Rightarrow> string option \<times> field_error list" where
  "validate_password_field secret errs =
     (let password = (case secret of None \<Rightarrow> '''' | Some s \<Rightarrow> s) in
      if password = [] then
        (None, errs @ [\<lparr>fe_field = ''password'', fe_message = ''Password is required.'', fe_code = ''REQUIRED''\<rparr>])
      else if missing_rules password \<noteq> [] then
        (None, errs @ [\<lparr>fe_field = ''password'',
           fe_message = ''Password must contain '' @ join_comma (missing_rules password) @ ''.'',
           fe_code = ''POLICY_VIOLATION''\<rparr>])
      else (Some password, errs))"

section \<open>Registration\<close>

text \<open>The draws: user id 0, password salt 0, verification token 1. A failure after the commit is
  swallowed.\<close>

definition register_user ::
  "libs \<Rightarrow> request \<Rightarrow> string option \<Rightarrow> string option \<Rightarrow> portal \<Rightarrow> user outcome \<times> portal" where
  "register_user L rq email password p =
     (let (normalized_email, errs1) = validate_email_field L email [];
          (valid_password, errs) = validate_password_field password errs1
      in case (normalized_email, valid_password) of
           (Some em, Some pw) \<Rightarrow>
             (let hashed_password = hash_password L (rq_token rq 0) pw in
              case create_user (rq_db_now rq) (rq_uuid rq 0) (lower em) hashed_password PENDING_VERIFICATION (database p) of
                None \<Rightarrow> (Inl DuplicateEmailError, p)
              | Some (user, d1) \<Rightarrow>
                  (case issue_pending_token L rq (u_id user) (p\<lparr>database := d1\<rparr>) of
                     (Inl e, p2) \<Rightarrow> (Inr user, p2)
                   | (Inr raw_token, p2) \<Rightarrow>
                       (Inr user, send_email rq (VerificationEmail (u_email user) raw_token) p2)))
         | _ \<Rightarrow> (Inl (RegistrationValidationError errs), p))"

section \<open>Password reset\<close>

definition PASSWORD_RESET_HOURLY_WINDOW_SECONDS :: int where "PASSWORD_RESET_HOURLY_WINDOW_SECONDS = 3600"

definition hash_password_reset_token :: "libs \<Rightarrow> string \<Rightarrow> string" where
  "hash_password_reset_token L raw_token = sha256_hex L raw_token"

text \<open>The three rate limits, in the order of the code: \<open>Some e\<close> where it raises.\<close>

definition password_reset_limits :: "request \<Rightarrow> string \<Rightarrow> valkey \<Rightarrow> portal_error option \<times> valkey" where
  "password_reset_limits rq email_hash c =
     (let now = rq_now rq;
          (cooldown_count, c1) = record_cooldown_attempt now email_hash (password_reset_cooldown_seconds get_settings) c
      in if 1 < cooldown_count
         then (Some (TooManyAttemptsError (get_cooldown_retry_after_seconds now email_hash c1)), c1)
         else
           let (account_count, c2) = record_account_attempt now email_hash PASSWORD_RESET_HOURLY_WINDOW_SECONDS c1
           in if password_reset_account_hourly_limit get_settings < account_count
              then (Some (TooManyAttemptsError (get_reset_account_retry_after_seconds now email_hash c2)), c2)
              else
                let (ip_count, c3) = record_ip_attempt now (rq_ip rq) PASSWORD_RESET_HOURLY_WINDOW_SECONDS c2
                in if password_reset_ip_hourly_limit get_settings < ip_count
                   then (Some (TooManyAttemptsError (get_reset_ip_retry_after_seconds now (rq_ip rq) c3)), c3)
                   else (None, c3))"

definition reset_eligible :: "user option \<Rightarrow> bool" where
  "reset_eligible user = (case user of None \<Rightarrow> False | Some u \<Rightarrow> u_status u \<noteq> DEACTIVATED \<and> u_email_verified u)"

definition request_password_reset :: "libs \<Rightarrow> request \<Rightarrow> string \<Rightarrow> portal \<Rightarrow> unit outcome \<times> portal" where
  "request_password_reset L rq email p =
     (let normalized_email = lower (py_strip email);
          email_hash = sha256_hex L normalized_email;
          t = rq_db_now rq
      in case password_reset_limits rq email_hash (cache p) of
           (Some e, c1) \<Rightarrow> (Inl e, p\<lparr>cache := c1\<rparr>)
         | (None, c1) \<Rightarrow>
             (case get_by_email normalized_email (database p) of
                Inl e \<Rightarrow> (Inl (DatabaseError e), p\<lparr>cache := c1\<rparr>)
              | Inr user \<Rightarrow>
                  let raw_token = rq_token rq 0;
                      issued = (case user of
                          None \<Rightarrow> Inr (database p)
                        | Some u \<Rightarrow>
                            if reset_eligible user then
                              create_password_reset_token t (u_id u) (hash_password_reset_token L raw_token)
                                (rq_now rq + minutes (password_reset_token_ttl_minutes get_settings))
                                (invalidate_password_reset_tokens_for_user t (u_id u) (database p))
                            else Inr (database p))
                  in case issued of
                       Inl e \<Rightarrow> (Inl (DatabaseError e), p\<lparr>cache := c1\<rparr>)
                     | Inr d1 \<Rightarrow>
                         let d2 = auth_log rq ''password_reset_requested'' None None (map_option u_id user) d1;
                             p2 = p\<lparr>database := d2, cache := c1\<rparr>
                         in (Inr (),
                             case user of
                               None \<Rightarrow> p2
                             | Some u \<Rightarrow> if reset_eligible user
                                 then send_email rq (PasswordResetEmail (u_email u) raw_token) p2 else p2)))"

definition password_policy_rules :: "libs \<Rightarrow> string \<Rightarrow> user \<Rightarrow> string list" where
  "password_policy_rules L new_password user =
     (if length new_password < MIN_RESET_PASSWORD_LENGTH then [''min_length''] else [])
     @ (if is_breached_password L new_password then [''breached''] else [])
     @ (if verify_password L new_password (u_hashed_password user) then [''reused''] else [])"

definition confirm_password_reset ::
  "libs \<Rightarrow> request \<Rightarrow> string \<Rightarrow> string \<Rightarrow> portal \<Rightarrow> unit outcome \<times> portal" where
  "confirm_password_reset L rq raw_token new_password p =
     (let token_hash = hash_password_reset_token L raw_token; d = database p; t = rq_db_now rq in
      case get_password_reset_token_by_hash token_hash d of
        None \<Rightarrow> (Inl PasswordResetTokenInvalidError, p)
      | Some token \<Rightarrow>
          if prt_consumed_at token \<noteq> None then (Inl PasswordResetTokenInvalidError, p)
          else if prt_expires_at token \<le> rq_now rq then (Inl PasswordResetTokenExpiredError, p)
          else case get_by_id (prt_user_id token) d of
                 None \<Rightarrow> (Inl PasswordResetTokenInvalidError, p)
               | Some user \<Rightarrow>
                   let rules = password_policy_rules L new_password user in
                   if rules \<noteq> [] then (Inl (PasswordPolicyError rules), p)
                   else case consume_password_reset_token t token_hash d of
                          (None, _) \<Rightarrow> (Inl PasswordResetTokenInvalidError, p)
                        | (Some consumed, d1) \<Rightarrow>
                            let hashed_password = hash_password L (rq_token rq 0) new_password;
                                d2 = auth_log rq ''password_reset_completed'' None None (Some (u_id user))
                                       (update_password_hash (u_id user) hashed_password d1);
                                c1 = set_revoke_before (rq_now rq) (u_id user)
                                       (refresh_token_ttl_seconds get_settings) (cache p)
                            in (Inr (), send_email rq (PasswordResetNotice (u_email user))
                                  (p\<lparr>database := d2, cache := c1\<rparr>)))"

section \<open>Facts\<close>

definition unexpected_result :: "'r outcome \<Rightarrow> bool" where
  "unexpected_result r = (case r of Inl e \<Rightarrow> unexpected e | Inr _ \<Rightarrow> False)"

lemma password_reset_limits_frame:
  assumes "password_reset_limits rq h c = (r, c')"
  shows "vk_revoke_before c' = vk_revoke_before c" "vk_perm_epoch c' = vk_perm_epoch c"
  using assms by (auto simp: password_reset_limits_def Let_def record_cooldown_attempt_def
      record_account_attempt_def record_ip_attempt_def split: if_splits prod.splits)

definition reset_inv :: "password_reset_token list \<Rightarrow> bool" where
  "reset_inv rows \<longleftrightarrow> distinct (map prt_token_hash rows)
     \<and> (\<forall>i. length (filter (\<lambda>k. prt_user_id k = i \<and> prt_consumed_at k = None) rows) \<le> 1)"

lemma filter_unconsumed_invalidated:
  "filter (\<lambda>k. prt_user_id k = i \<and> prt_consumed_at k = None)
     (update_rows (\<lambda>k. prt_user_id k = u \<and> prt_consumed_at k = None) (\<lambda>k. k\<lparr>prt_consumed_at := Some t\<rparr>) rows)
   = (if i = u then [] else filter (\<lambda>k. prt_user_id k = i \<and> prt_consumed_at k = None) rows)"
  by (induction rows) auto

lemma reset_inv_consume:
  assumes "reset_inv rows"
  shows "reset_inv (update_rows p (\<lambda>k. k\<lparr>prt_consumed_at := Some t\<rparr>) rows)"
proof -
  have "length (filter (\<lambda>k. prt_user_id k = i \<and> prt_consumed_at k = None)
      (update_rows p (\<lambda>k. k\<lparr>prt_consumed_at := Some t\<rparr>) rows))
     \<le> length (filter (\<lambda>k. prt_user_id k = i \<and> prt_consumed_at k = None) rows)" for i
    by (rule length_filter_update_le) simp
  with assms show ?thesis by (auto simp: reset_inv_def intro: order.trans)
qed

lemma request_password_reset_tokens:
  assumes "request_password_reset L rq email p = (res, p')"
  shows "password_reset_tokens (database p') = password_reset_tokens (database p)
    \<or> (\<exists>u k rows. rows = update_rows (\<lambda>k. prt_user_id k = u \<and> prt_consumed_at k = None)
          (\<lambda>k. k\<lparr>prt_consumed_at := Some (rq_db_now rq)\<rparr>) (password_reset_tokens (database p))
        \<and> password_reset_tokens (database p') = rows @ [k] \<and> prt_user_id k = u \<and> prt_consumed_at k = None
        \<and> prt_token_hash k \<notin> prt_token_hash ` set rows)"
  using assms
  by (auto simp: request_password_reset_def Let_def create_password_reset_token_Inr
      invalidate_password_reset_tokens_for_user_def split: option.splits sum.splits prod.splits if_splits)

lemma confirm_password_reset_tokens:
  assumes "confirm_password_reset L rq raw new p = (res, p')"
  shows "password_reset_tokens (database p') = password_reset_tokens (database p)
    \<or> password_reset_tokens (database p') = snd (consume_reset_rows (rq_db_now rq)
         (hash_password_reset_token L raw) (password_reset_tokens (database p)))"
  using assms
  by (auto simp: confirm_password_reset_def Let_def consume_password_reset_token_rows update_password_hash_def
      split: option.splits prod.splits if_splits)

lemma password_hash_stored:
  assumes "get_by_id i d = Some u"
  shows "map_option u_hashed_password (get_by_id i (update_password_hash i h d)) = Some h"
  by (simp add: update_password_hash_def get_by_id_update_user assms)

section \<open>Properties\<close>

text \<open>C29. A password reset link works once, and a failed attempt does not spend it. A successful
  confirmation stores a hash of the new password for the token's owner, puts every older token of the
  account on the denylist, and makes the same link fail ever after; a confirmation that fails for any
  reason (in particular the password policy) leaves the portal exactly as it was.\<close>

theorem password_reset_single_use:
  assumes "reset_inv (password_reset_tokens (database p))"
    and "confirm_password_reset L rq raw new p = (res, p')"
  shows "if res = Inr ()
    then \<exists>k. get_password_reset_token_by_hash (sha256_hex L raw) (database p) = Some k
       \<and> prt_consumed_at k = None \<and> rq_now rq < prt_expires_at k \<and> 12 \<le> length new
       \<and> map_option u_hashed_password (get_by_id (prt_user_id k) (database p'))
           = Some (hash_password L (rq_token rq 0) new)
       \<and> get_revoke_before (rq_now rq) (prt_user_id k) (cache p') = Some (rq_now rq)
       \<and> confirm_password_reset L rq' raw new' p' = (Inl PasswordResetTokenInvalidError, p')
    else p' = p"
proof (cases "res = Inr ()")
  case False
  then show ?thesis using assms(2)
    by (auto simp: confirm_password_reset_def Let_def split: option.splits prod.splits if_splits)
next
  case True
  let ?d = "database p" and ?h = "sha256_hex L raw" and ?t = "rq_db_now rq"
  let ?rows = "snd (consume_reset_rows ?t ?h (password_reset_tokens ?d))"
  from assms(2) True obtain k u where k: "get_password_reset_token_by_hash ?h ?d = Some k"
      "prt_consumed_at k = None" "rq_now rq < prt_expires_at k" "get_by_id (prt_user_id k) ?d = Some u"
      "password_policy_rules L new u = []"
    and p': "p' = send_email rq (PasswordResetNotice (u_email u)) (p\<lparr>database :=
        auth_log rq ''password_reset_completed'' None None (Some (u_id u)) (update_password_hash (u_id u)
          (hash_password L (rq_token rq 0) new) (?d\<lparr>password_reset_tokens := ?rows\<rparr>)),
        cache := set_revoke_before (rq_now rq) (u_id u) 2592000 (cache p)\<rparr>)"
    by (auto simp: confirm_password_reset_def Let_def hash_password_reset_token_def
        consume_password_reset_token_rows not_le split: option.splits prod.splits if_splits)
  have uid: "u_id u = prt_user_id k" using k(4) by (auto dest: get_by_id_SomeD)
  have ktab: "k \<in> set (password_reset_tokens ?d)" "prt_token_hash k = ?h"
    using k(1) by (auto simp: get_password_reset_token_by_hash_def dest: find_row_SomeD)
  have toks: "password_reset_tokens (database p') = ?rows"
    by (simp add: p' update_password_hash_def)
  have "get_password_reset_token_by_hash ?h (database p') = Some k' \<Longrightarrow> prt_consumed_at k' \<noteq> None" for k'
    using reset_consume.consume_marks_all [of k' ?t ?h "password_reset_tokens ?d"] find_row_SomeD
    by (fastforce simp: get_password_reset_token_by_hash_def toks)
  then have again: "confirm_password_reset L rq' raw new' p' = (Inl PasswordResetTokenInvalidError, p')"
    by (auto simp: confirm_password_reset_def Let_def hash_password_reset_token_def split: option.splits)
  have "get_by_id (prt_user_id k) (database p')
      = get_by_id (u_id u) (update_password_hash (u_id u) (hash_password L (rq_token rq 0) new)
          (?d\<lparr>password_reset_tokens := ?rows\<rparr>))"
    by (simp add: p' get_by_id_def uid)
  then have pw: "map_option u_hashed_password (get_by_id (prt_user_id k) (database p'))
      = Some (hash_password L (rq_token rq 0) new)"
    using password_hash_stored [of "u_id u" "?d\<lparr>password_reset_tokens := ?rows\<rparr>" u] k(4)
    by (simp only: uid) (simp add: get_by_id_def)
  have "12 \<le> length new"
    using k(5) by (auto simp: password_policy_rules_def MIN_RESET_PASSWORD_LENGTH_def split: if_splits)
  moreover have "get_revoke_before (rq_now rq) (prt_user_id k) (cache p') = Some (rq_now rq)"
    by (simp add: p' uid duration_defs)
  ultimately show ?thesis using True k(1-3) pw again by auto
qed

text \<open>An account that has asked for a password reset; the link carries the token \<open>rt\<close>.\<close>

definition resetting_account :: portal where
  "resetting_account = \<lparr>database = empty_db\<lparr>users := [(new_user 0 1 ''a@x'' ''s$pw'' ACTIVE)\<lparr>u_email_verified := True\<rparr>],
       password_reset_tokens := [\<lparr>prt_user_id = 1, prt_token_hash = ''h:rt'', prt_issued_at = 0,
         prt_expires_at = 5000, prt_consumed_at = None\<rparr>]\<rparr>,
     cache = empty_valkey, outbox = []\<rparr>"

lemma resetting_account_inv: "reset_inv (password_reset_tokens (database resetting_account))"
  by (simp add: reset_inv_def resetting_account_def)

theorem password_reset_single_use_witness:
  "fst (confirm_password_reset zero_libs sample_request ''rt'' ''correct horse battery'' resetting_account) = Inr ()
   \<and> fst (confirm_password_reset zero_libs sample_request ''rt'' ''correct horse battery''
        (snd (confirm_password_reset zero_libs sample_request ''rt'' ''correct horse battery'' resetting_account)))
      = Inl PasswordResetTokenInvalidError"
proof -
  let ?r = "confirm_password_reset zero_libs sample_request ''rt'' ''correct horse battery'' resetting_account"
  have "fst ?r = Inr ()"
    by (simp add: confirm_password_reset_def resetting_account_def empty_db_def new_user_def get_by_id_def
        get_password_reset_token_by_hash_def hash_password_reset_token_def consume_password_reset_token_def
        password_policy_rules_def is_breached_password_def verify_password_def zero_libs_def query_defs Let_def
        sample_request_def MIN_RESET_PASSWORD_LENGTH_def py_strip_def)
  with password_reset_single_use [OF resetting_account_inv surjective_pairing, where L = zero_libs and rq = sample_request
      and raw = "''rt''" and new = "''correct horse battery''"
      and rq' = sample_request and new' = "''correct horse battery''"]
  show ?thesis by auto
qed

text \<open>C30. At every moment an account has at most one usable password reset link: both operations on
  reset tokens keep the token hashes unique and keep at most one unconsumed token per account.\<close>

theorem one_reset_token_per_account:
  assumes "reset_inv (password_reset_tokens (database p))"
  shows "reset_inv (password_reset_tokens (database (snd (request_password_reset L rq email p))))
    \<and> reset_inv (password_reset_tokens (database (snd (confirm_password_reset L rq raw new p))))"
proof
  let ?rows = "password_reset_tokens (database p)"
  let ?new = "password_reset_tokens (database (snd (request_password_reset L rq email p)))"
  show "reset_inv ?new"
    using request_password_reset_tokens [OF surjective_pairing, of L rq email p]
  proof (elim disjE exE conjE)
    assume "?new = ?rows"
    with assms show ?thesis by simp
  next
    fix u k rows
    assume rows: "rows = update_rows (\<lambda>k. prt_user_id k = u \<and> prt_consumed_at k = None)
          (\<lambda>k. k\<lparr>prt_consumed_at := Some (rq_db_now rq)\<rparr>) ?rows"
      and new: "?new = rows @ [k]" and k: "prt_user_id k = u" "prt_consumed_at k = None"
        "prt_token_hash k \<notin> prt_token_hash ` set rows"
    have inv: "reset_inv rows" unfolding rows by (rule reset_inv_consume [OF assms])
    have "filter (\<lambda>k. prt_user_id k = u \<and> prt_consumed_at k = None) rows = []"
      by (simp only: rows filter_unconsumed_invalidated) simp
    with inv k show ?thesis by (auto simp: new reset_inv_def)
  qed
next
  show "reset_inv (password_reset_tokens (database (snd (confirm_password_reset L rq raw new p))))"
    using confirm_password_reset_tokens [OF surjective_pairing, of L rq raw new p] assms
      reset_inv_consume [OF assms]
    by (auto simp: consume_reset_rows_def update_returning_def)
qed

theorem one_reset_token_per_account_witness:
  "reset_inv (password_reset_tokens (database
     (snd (request_password_reset zero_libs sample_request ''a@x'' resetting_account))))"
  using one_reset_token_per_account [OF resetting_account_inv] by blast

text \<open>Requesting a password reset does not reveal whether an account exists. The answer and the
  cache afterwards are the same for every content of the database (unknown, deactivated, unverified and
  eligible accounts alike), unless a database error turns the request into a 500.\<close>

lemma reset_request_reveals_nothing:
  assumes "\<not> unexpected_result (fst (request_password_reset L rq email p))"
    and "\<not> unexpected_result (fst (request_password_reset L rq email (p\<lparr>database := d\<rparr>)))"
  shows "fst (request_password_reset L rq email (p\<lparr>database := d\<rparr>)) = fst (request_password_reset L rq email p)
    \<and> cache (snd (request_password_reset L rq email (p\<lparr>database := d\<rparr>)))
        = cache (snd (request_password_reset L rq email p))"
proof (cases "password_reset_limits rq (sha256_hex L (lower (py_strip email))) (cache p)")
  case (Pair r c1)
  show ?thesis
  proof (cases r)
    case (Some e)
    then show ?thesis by (simp add: request_password_reset_def Let_def Pair)
  next
    case None
    have "fst (request_password_reset L rq email q) = Inr () \<and> cache (snd (request_password_reset L rq email q)) = c1"
      if "cache q = cache p" "\<not> unexpected_result (fst (request_password_reset L rq email q))" for q
      using that by (auto simp: request_password_reset_def Let_def Pair None unexpected_result_def unexpected_def
          split: option.splits sum.splits)
    from this [of p] this [of "p\<lparr>database := d\<rparr>"] assms show ?thesis by simp
  qed
qed

lemma reset_request_reveals_nothing_witness:
  "fst (request_password_reset zero_libs sample_request ''a@x'' resetting_account)
   = fst (request_password_reset zero_libs sample_request ''a@x'' (resetting_account\<lparr>database := empty_db\<rparr>))"
proof -
  have "\<not> unexpected_result (fst (request_password_reset zero_libs sample_request ''a@x'' resetting_account))"
    "\<not> unexpected_result (fst (request_password_reset zero_libs sample_request ''a@x''
       (resetting_account\<lparr>database := empty_db\<rparr>)))"
    by (auto simp: request_password_reset_def resetting_account_def empty_db_def new_user_def
        get_by_email_def scalar_one_or_none_def create_password_reset_token_def insert_unique_def
        invalidate_password_reset_tokens_for_user_def hash_password_reset_token_def zero_libs_def sample_request_def eval_nat_numeral
        unexpected_result_def unexpected_def password_reset_limits_def Let_def lower_def lower_char_def py_strip_def
        split: prod.splits option.splits if_splits)
  from reset_request_reveals_nothing [OF this] show ?thesis by simp
qed

text \<open>C31. Registration. A rejected request changes nothing. An accepted one adds exactly one account:
  its e-mail is in lower case and not in use yet, it is unverified and pending, the password obeyed the
  policy (length, upper and lower case, digit, special character), and e-mails stay unique.\<close>

theorem register_user_adds_one_pending_account:
  assumes "distinct (map u_email (users (database p)))"
  shows "case register_user L rq email password p of
      (Inl e, p') \<Rightarrow> p' = p
    | (Inr u, p') \<Rightarrow> users (database p') = users (database p) @ [u] \<and> distinct (map u_email (users (database p')))
        \<and> lower (u_email u) = u_email u \<and> u_status u = PENDING_VERIFICATION \<and> \<not> u_email_verified u
        \<and> (\<exists>pw. password = Some pw \<and> missing_rules pw = [] \<and> pw \<noteq> []
             \<and> u_hashed_password u = hash_password L (rq_token rq 0) pw)"
proof (cases "register_user L rq email password p")
  case (Pair res p')
  have tok: "users (database q') = users (database q)" if "issue_pending_token L rq i q = (r, q')" for i q r q'
    using that by (auto simp: issue_pending_token_def issue_token_def create_token_def insert_unique_def Let_def
        split: sum.splits prod.splits if_splits)
  show ?thesis
  proof (cases res)
    case (Inl e)
    with Pair have "p' = p"
      by (auto simp: register_user_def Let_def split: option.splits prod.splits sum.splits)
    with Pair Inl show ?thesis by simp
  next
    case (Inr u)
    with Pair obtain em pw d1 where v: "validate_email_field L email [] = (Some em, [])"
        "validate_password_field password [] = (Some pw, [])"
      and c: "create_user (rq_db_now rq) (rq_uuid rq 0) (lower em) (hash_password L (rq_token rq 0) pw)
         PENDING_VERIFICATION (database p) = Some (u, d1)"
      and us: "users (database p') = users d1"
      by (auto simp: register_user_def Let_def validate_email_field_def validate_password_field_def
          split: option.splits prod.splits sum.splits if_splits dest: tok)
    have "password = Some pw \<and> missing_rules pw = [] \<and> pw \<noteq> []"
      using v(2) by (auto simp: validate_password_field_def Let_def split: if_splits option.splits)
    with c us assms show ?thesis using Pair Inr by (auto simp: create_user_Some new_user_def)
  qed
qed

theorem register_user_adds_one_pending_account_witness:
  "map u_email (users (database (snd (register_user zero_libs (sample_request\<lparr>rq_uuid := (\<lambda>n. 7)\<rparr>)
     (Some ''B@x'') (Some ''Passw0rd!'') one_account)))) = [''a@x'', ''b@x'']"
proof -
  let ?rq = "sample_request\<lparr>rq_uuid := (\<lambda>n. 7)\<rparr>"
  let ?r = "register_user zero_libs ?rq (Some ''B@x'') (Some ''Passw0rd!'') one_account"
  have d: "distinct (map u_email (users (database one_account)))" by (simp add: one_account_def)
  have "\<exists>u p'. ?r = (Inr u, p') \<and> u_email u = ''b@x''"
    by (simp add: register_user_def one_account_def empty_db_def create_user_def new_user_def
        validate_email_field_def validate_password_field_def missing_rules_def MIN_PASSWORD_LENGTH_def
        isupper_def islower_def isdigit_def special_character_def code_point_def zero_libs_def
        issue_pending_token_def issue_token_def create_token_def insert_unique_def sample_request_def
        Let_def lower_def lower_char_def py_strip_def char_of_def bit_0 split: prod.splits)
  with register_user_adds_one_pending_account [OF d, where L = zero_libs and rq = ?rq
      and email = "Some ''B@x''" and password = "Some ''Passw0rd!''"]
  show ?thesis by (auto simp: one_account_def new_user_def)
qed

end
