(* ===== verification/Api.thy ===== *)
theory Api
  imports Admin_Users Support_Replies Users_Mfa Users_Passwords
begin

text \<open>
  The HTTP routes: every \<open>router.py\<close> under \<open>app/modules\<close>, the request schemas (\<open>schemas.py\<close>) and the
  dependencies that guard a route. A route is a function from what the client sends to the answer (status,
  headers the route sets, cookie, body; or the error the handlers of \<open>main.py\<close> render) and the portal it
  leaves.

  The framework resolves the dependencies of a route in order, and one that raises ends the request; then it
  validates parameters and body (422 with the offending fields); then the route runs. Taking the token out of
  the \<open>Authorization\<close> header is the framework's (\<open>OAuth2PasswordBearer\<close>): \<open>hc_token\<close> is the token it found,
  \<open>None\<close> when it answers 401 itself. The routes are those of one request running alone, except that the
  polls of a repeated ticket creation find the portals \<open>later\<close>.
\<close>

section \<open>Requests and answers\<close>

record http_call =
  hc_token :: "string option"
  hc_authorization :: "string option"
  hc_refresh_cookie :: "string option"

record cookie =
  ck_key :: string
  ck_value :: "string option"
  ck_path :: string
  ck_httponly :: bool
  ck_secure :: bool
  ck_samesite :: string

text \<open>\<open>set_cookie\<close> carries the value, \<open>delete_cookie\<close> none.\<close>

definition refresh_token_cookie :: "string option \<Rightarrow> cookie" where
  "refresh_token_cookie v = \<lparr>ck_key = ''refresh_token'', ck_value = v, ck_path = ''/api/v1/auth'',
     ck_httponly = True, ck_secure = True, ck_samesite = ''strict''\<rparr>"

datatype api_error = NotAuthenticated | RequestInvalid "string list" | Raised portal_error

record 'b reply =
  rp_status :: nat
  rp_location :: "string option"
  rp_etag :: "string option"
  rp_cookie :: "cookie option"
  rp_body :: 'b

type_synonym 'b answer = "(api_error + 'b reply) \<times> portal"

definition ok :: "nat \<Rightarrow> 'b \<Rightarrow> 'b reply" where
  "ok status body = \<lparr>rp_status = status, rp_location = None, rp_etag = None, rp_cookie = None, rp_body = body\<rparr>"

definition answer :: "('a \<Rightarrow> 'b reply) \<Rightarrow> 'a outcome \<times> portal \<Rightarrow> 'b answer" where
  "answer f r = (map_sum Raised f (fst r), snd r)"

text \<open>The handlers of \<open>main.py\<close>: a rejected body is \<open>validation-failed\<close>, 422.\<close>

fun error_status :: "api_error \<Rightarrow> nat" where
  "error_status NotAuthenticated = 401"
| "error_status (RequestInvalid names) = 422"
| "error_status (Raised e) = http_status e"

definition answer_status :: "'b answer \<Rightarrow> nat" where
  "answer_status a = (case fst a of Inl e \<Rightarrow> error_status e | Inr r \<Rightarrow> rp_status r)"

section \<open>Guards\<close>

text \<open>A dependency on the current user (\<open>CurrentUserDep\<close> and its two variants), on a scope
  (\<open>require_scope\<close>), on the audit permission, and the validation of the declared constraints.\<close>

definition authenticated ::
  "(string \<Rightarrow> portal \<Rightarrow> authenticated_user outcome) \<Rightarrow> http_call \<Rightarrow> portal \<Rightarrow> (authenticated_user \<Rightarrow> 'b answer)
    \<Rightarrow> 'b answer" where
  "authenticated dep hc p k =
     (case hc_token hc of
        None \<Rightarrow> (Inl NotAuthenticated, p)
      | Some token \<Rightarrow> (case dep token p of Inl e \<Rightarrow> (Inl (Raised e), p) | Inr user \<Rightarrow> k user))"

definition scoped :: "string \<Rightarrow> authenticated_user \<Rightarrow> portal \<Rightarrow> 'b answer \<Rightarrow> 'b answer" where
  "scoped scope user p k =
     (case require_scope scope (au_scopes user) of Inl e \<Rightarrow> (Inl (Raised e), p) | Inr _ \<Rightarrow> k)"

definition may_read_audit ::
  "libs \<Rightarrow> request \<Rightarrow> authenticated_user \<Rightarrow> portal \<Rightarrow> (portal \<Rightarrow> 'b answer) \<Rightarrow> 'b answer" where
  "may_read_audit L rq user p k =
     (case require_audit_read L rq (au_user_id user, au_scopes user) p of
        (Inl e, q) \<Rightarrow> (Inl (Raised e), q)
      | (Inr _, q) \<Rightarrow> k q)"

definition validated :: "(string \<times> bool) list \<Rightarrow> portal \<Rightarrow> 'b answer \<Rightarrow> 'b answer" where
  "validated checks p k =
     (let invalid = map fst (filter (\<lambda>c. \<not> snd c) checks) in
      if invalid \<noteq> [] then (Inl (RequestInvalid invalid), p) else k)"

text \<open>The constraints of the schemas: \<open>min_length\<close> and \<open>max_length\<close>, the pattern of six digits, a range.\<close>

definition min_length :: "nat \<Rightarrow> string \<Rightarrow> bool" where "min_length n s \<longleftrightarrow> n \<le> length s"
definition max_length :: "nat \<Rightarrow> string \<Rightarrow> bool" where "max_length n s \<longleftrightarrow> length s \<le> n"
definition six_digits :: "string \<Rightarrow> bool" where "six_digits s \<longleftrightarrow> length s = 6 \<and> list_all is_digit s"

section \<open>\<open>/auth\<close>: registration, login and sessions\<close>

record user_read_body =
  urb_id :: uuid
  urb_email :: string
  urb_status :: string
  urb_created_at :: datetime

definition to_user_read_body :: "user \<Rightarrow> user_read_body" where
  "to_user_read_body u = \<lparr>urb_id = u_id u, urb_email = u_email u, urb_status = user_status_str (u_status u),
     urb_created_at = u_created_at u\<rparr>"

definition route_register_user ::
  "libs \<Rightarrow> request \<Rightarrow> string option \<Rightarrow> string option \<Rightarrow> portal \<Rightarrow> user_read_body answer" where
  "route_register_user L rq email password p =
     answer (\<lambda>user. (ok 201 (to_user_read_body user))\<lparr>rp_location := Some (''/api/v1/users/'' @ uuid_str (u_id user))\<rparr>)
       (register_user L rq email password p)"

datatype login_body = LoginTokens string int "datetime option" | MfaChallenge string

fun login_reply :: "login_response \<Rightarrow> login_body reply" where
  "login_reply (LoginResponse token seconds_left deadline raw) =
     (ok 200 (LoginTokens token seconds_left deadline))\<lparr>rp_cookie := Some (refresh_token_cookie (Some raw))\<rparr>"
| "login_reply (MfaRequiredResponse token) = ok 200 (MfaChallenge token)"

definition route_login :: "libs \<Rightarrow> request \<Rightarrow> string \<Rightarrow> string \<Rightarrow> portal \<Rightarrow> login_body answer" where
  "route_login L rq email password p =
     validated [(''password'', min_length 1 password)] p
       (answer login_reply (authenticate_user L rq email password p))"

fun refresh_reply :: "refresh_response \<Rightarrow> (string \<times> int \<times> datetime option) reply" where
  "refresh_reply (RefreshResponse token seconds_left deadline raw) =
     (ok 200 (token, seconds_left, deadline))\<lparr>rp_cookie := Some (refresh_token_cookie (Some raw))\<rparr>"

definition route_refresh_token :: "libs \<Rightarrow> request \<Rightarrow> http_call \<Rightarrow> portal \<Rightarrow> (string \<times> int \<times> datetime option) answer" where
  "route_refresh_token L rq hc p = answer refresh_reply (rotate_refresh_token L rq (hc_refresh_cookie hc) p)"

definition route_logout :: "libs \<Rightarrow> request \<Rightarrow> http_call \<Rightarrow> portal \<Rightarrow> unit answer" where
  "route_logout L rq hc p =
     authenticated (get_current_user_allow_revoked L rq) hc p (\<lambda>user.
       answer (\<lambda>_. (ok 204 ())\<lparr>rp_cookie := (if hc_refresh_cookie hc \<noteq> None then Some (refresh_token_cookie None) else None)\<rparr>)
         (logout L rq (au_jti user) (au_user_id user) (hc_refresh_cookie hc) p))"

definition route_logout_all :: "libs \<Rightarrow> request \<Rightarrow> http_call \<Rightarrow> portal \<Rightarrow> unit answer" where
  "route_logout_all L rq hc p =
     authenticated (get_current_user L rq) hc p (\<lambda>user. answer (\<lambda>_. ok 204 ()) (logout_all rq (au_user_id user) p))"

definition route_list_sessions :: "libs \<Rightarrow> request \<Rightarrow> http_call \<Rightarrow> portal \<Rightarrow> session_entry list answer" where
  "route_list_sessions L rq hc p =
     authenticated (get_current_user L rq) hc p (\<lambda>user.
       answer (ok 200) (list_sessions L rq (au_user_id user) (hc_refresh_cookie hc) p, p))"

definition route_revoke_session :: "libs \<Rightarrow> request \<Rightarrow> http_call \<Rightarrow> uuid \<Rightarrow> portal \<Rightarrow> unit answer" where
  "route_revoke_session L rq hc family_id p =
     authenticated (get_current_user L rq) hc p (\<lambda>user.
       answer (\<lambda>_. ok 204 ()) (revoke_session L rq (au_user_id user) family_id (hc_refresh_cookie hc) p))"

definition route_request_password_reset :: "libs \<Rightarrow> request \<Rightarrow> string \<Rightarrow> portal \<Rightarrow> string answer" where
  "route_request_password_reset L rq email p =
     answer (\<lambda>_. ok 202 ''If an account exists, an email has been sent'') (request_password_reset L rq email p)"

definition route_confirm_password_reset :: "libs \<Rightarrow> request \<Rightarrow> string \<Rightarrow> string \<Rightarrow> portal \<Rightarrow> unit answer" where
  "route_confirm_password_reset L rq token new_password p =
     answer (\<lambda>_. ok 200 ()) (confirm_password_reset L rq token new_password p)"

section \<open>\<open>/auth/mfa\<close>\<close>

definition route_enroll_mfa :: "libs \<Rightarrow> request \<Rightarrow> http_call \<Rightarrow> string \<Rightarrow> portal \<Rightarrow> (string \<times> string) answer" where
  "route_enroll_mfa L rq hc current_password p =
     authenticated (get_current_user_allow_enrollment_scoped L rq) hc p (\<lambda>user.
       validated [(''current_password'', min_length 1 current_password)] p
         (answer (ok 200) (enroll_mfa L rq (au_user_id user) current_password p)))"

definition route_activate_mfa :: "libs \<Rightarrow> request \<Rightarrow> http_call \<Rightarrow> string \<Rightarrow> portal \<Rightarrow> string list answer" where
  "route_activate_mfa L rq hc code p =
     authenticated (get_current_user_allow_enrollment_scoped L rq) hc p (\<lambda>user.
       validated [(''code'', six_digits code)] p (answer (ok 200) (activate_mfa L rq (au_user_id user) code p)))"

fun mfa_verify_reply :: "mfa_verify_response \<Rightarrow> (string \<times> int) reply" where
  "mfa_verify_reply (MfaVerifyResponse token seconds_left raw) =
     (ok 200 (token, seconds_left))\<lparr>rp_cookie := Some (refresh_token_cookie (Some raw))\<rparr>"

definition route_verify_mfa :: "libs \<Rightarrow> request \<Rightarrow> string \<Rightarrow> string \<Rightarrow> portal \<Rightarrow> (string \<times> int) answer" where
  "route_verify_mfa L rq raw code p =
     validated [(''code'', min_length 1 code)] p (answer mfa_verify_reply (verify_mfa L rq raw code p))"

definition route_disable_mfa :: "libs \<Rightarrow> request \<Rightarrow> http_call \<Rightarrow> string \<Rightarrow> string \<Rightarrow> portal \<Rightarrow> unit answer" where
  "route_disable_mfa L rq hc current_password code p =
     authenticated (get_current_user L rq) hc p (\<lambda>user.
       validated [(''current_password'', min_length 1 current_password), (''code'', six_digits code)] p
         (answer (\<lambda>_. ok 204 ()) (disable_mfa L rq (au_user_id user) current_password code p)))"

section \<open>\<open>/auth/verify-email\<close>, \<open>/profile\<close> and \<open>/account\<close>\<close>

definition route_verify_email :: "libs \<Rightarrow> request \<Rightarrow> string option \<Rightarrow> portal \<Rightarrow> bool answer" where
  "route_verify_email L rq token p = answer (\<lambda>_. ok 200 True) (verify_email L rq token p)"

definition route_resend_verification :: "libs \<Rightarrow> request \<Rightarrow> string option \<Rightarrow> portal \<Rightarrow> unit answer" where
  "route_resend_verification L rq email p = answer (ok 200) (resend_verification L rq email p)"

definition route_update_profile ::
  "libs \<Rightarrow> request \<Rightarrow> http_call \<Rightarrow> body \<Rightarrow> string option \<Rightarrow> portal \<Rightarrow> profile_read answer" where
  "route_update_profile L rq hc raw_body if_match p =
     authenticated (get_current_user L rq) hc p (\<lambda>user.
       answer (\<lambda>(status, profile, etag). (ok status profile)\<lparr>rp_etag := etag\<rparr>)
         (update_profile L rq user raw_body if_match p))"

definition route_confirm_email_change :: "libs \<Rightarrow> request \<Rightarrow> http_call \<Rightarrow> string option \<Rightarrow> portal \<Rightarrow> string answer" where
  "route_confirm_email_change L rq hc token p =
     answer (ok 200) (confirm_email_change L rq token (hc_authorization hc) p)"

definition route_deactivate_account ::
  "libs \<Rightarrow> request \<Rightarrow> http_call \<Rightarrow> string option \<Rightarrow> portal \<Rightarrow> (string \<times> datetime) answer" where
  "route_deactivate_account L rq hc current_password p =
     authenticated (get_current_user L rq) hc p (\<lambda>user.
       answer (\<lambda>deactivated_at. ok 200 (''deactivated'', deactivated_at))
         (deactivate_account L rq (au_user_id user) current_password p))"

section \<open>\<open>/admin\<close>: roles, users and the audit log\<close>

definition route_list_role_catalogue ::
  "libs \<Rightarrow> request \<Rightarrow> http_call \<Rightarrow> portal \<Rightarrow> (string \<times> string list) list answer" where
  "route_list_role_catalogue L rq hc p =
     authenticated (get_current_user L rq) hc p (\<lambda>user. scoped ''users:read'' user p
       (answer (ok 200) (Inr (list_catalogue (database p)), p)))"

definition route_replace_user_roles ::
  "libs \<Rightarrow> request \<Rightarrow> http_call \<Rightarrow> uuid \<Rightarrow> string list \<Rightarrow> portal \<Rightarrow> string list answer" where
  "route_replace_user_roles L rq hc target_id role_names p =
     authenticated (get_current_user L rq) hc p (\<lambda>user. scoped ''roles:write'' user p
       (answer (ok 200) (replace_user_roles rq (au_user_id user) (set (au_scopes user)) target_id role_names p)))"

definition route_list_users ::
  "libs \<Rightarrow> request \<Rightarrow> http_call \<Rightarrow> string option \<Rightarrow> string option \<Rightarrow> string option \<Rightarrow> string option \<Rightarrow> int \<Rightarrow> portal
    \<Rightarrow> (user_read list \<times> string option) answer" where
  "route_list_users L rq hc q st role cursor limit p =
     authenticated (get_current_user L rq) hc p (\<lambda>user. scoped ''users:read'' user p
       (answer (ok 200) (list_users L q st role cursor limit p, p)))"

definition with_etag :: "nat \<Rightarrow> user_read \<times> string \<Rightarrow> user_read reply" where
  "with_etag status r = (ok status (fst r))\<lparr>rp_etag := Some (snd r)\<rparr>"

definition route_get_user :: "libs \<Rightarrow> request \<Rightarrow> http_call \<Rightarrow> uuid \<Rightarrow> portal \<Rightarrow> user_read answer" where
  "route_get_user L rq hc user_id p =
     authenticated (get_current_user L rq) hc p (\<lambda>user. scoped ''users:read'' user p
       (answer (with_etag 200) (get_user L user_id p, p)))"

definition route_create_user :: "libs \<Rightarrow> request \<Rightarrow> http_call \<Rightarrow> create_user_request \<Rightarrow> portal \<Rightarrow> user_read answer" where
  "route_create_user L rq hc payload p =
     authenticated (get_current_user L rq) hc p (\<lambda>user. scoped ''users:write'' user p
       (answer (with_etag 201) (admin_create_user L rq (au_user_id user) (set (au_scopes user)) payload p)))"

definition route_update_user ::
  "libs \<Rightarrow> request \<Rightarrow> http_call \<Rightarrow> uuid \<Rightarrow> body \<Rightarrow> string option \<Rightarrow> portal \<Rightarrow> user_read answer" where
  "route_update_user L rq hc user_id raw_body if_match p =
     authenticated (get_current_user L rq) hc p (\<lambda>user. scoped ''users:write'' user p
       (answer (with_etag 200) (admin_update_user L rq (au_user_id user) user_id raw_body if_match p)))"

definition route_deactivate_user :: "libs \<Rightarrow> request \<Rightarrow> http_call \<Rightarrow> uuid \<Rightarrow> string \<Rightarrow> portal \<Rightarrow> user_read answer" where
  "route_deactivate_user L rq hc user_id reason p =
     authenticated (get_current_user L rq) hc p (\<lambda>user. scoped ''users:write'' user p
       (validated [(''reason'', min_length 1 reason)] p
         (answer (ok 200) (deactivate_user rq (au_user_id user) user_id reason p))))"

definition route_delete_user_not_allowed :: "libs \<Rightarrow> request \<Rightarrow> http_call \<Rightarrow> uuid \<Rightarrow> portal \<Rightarrow> unit answer" where
  "route_delete_user_not_allowed L rq hc user_id p =
     authenticated (get_current_user L rq) hc p (\<lambda>user. answer (ok 405) (Inr (), p))"

definition route_resend_invite :: "libs \<Rightarrow> request \<Rightarrow> http_call \<Rightarrow> uuid \<Rightarrow> portal \<Rightarrow> unit answer" where
  "route_resend_invite L rq hc user_id p =
     authenticated (get_current_user L rq) hc p (\<lambda>user. scoped ''users:write'' user p
       (answer (ok 202) (resend_invite L rq (au_user_id user) user_id p)))"

definition route_list_audit_logs ::
  "libs \<Rightarrow> (string \<Rightarrow> nat \<Rightarrow> uuid) \<Rightarrow> request \<Rightarrow> http_call \<Rightarrow> uuid option \<Rightarrow> string option \<Rightarrow> uuid option
    \<Rightarrow> (parsed_datetime \<times> string) option \<Rightarrow> (parsed_datetime \<times> string) option \<Rightarrow> string option \<Rightarrow> int \<Rightarrow> portal
    \<Rightarrow> (audit_log_entry list \<times> string option) answer" where
  "route_list_audit_logs L ids rq hc actor_id event target_id window_from window_to cursor limit p =
     authenticated (get_current_user L rq) hc p (\<lambda>user. may_read_audit L rq user p (\<lambda>p.
       answer (ok 200) (list_audit_logs L ids rq (au_user_id user) actor_id event target_id window_from window_to
         cursor limit p)))"

section \<open>\<open>/support/tickets\<close>\<close>

definition route_create_ticket ::
  "libs \<Rightarrow> request \<Rightarrow> (nat \<Rightarrow> portal) \<Rightarrow> http_call \<Rightarrow> string option \<Rightarrow> string \<Rightarrow> string \<Rightarrow> string \<Rightarrow> uuid list \<Rightarrow> portal
    \<Rightarrow> ticket_read answer" where
  "route_create_ticket L rq later hc idem subject body category attachment_ids p =
     authenticated (get_current_user L rq) hc p (\<lambda>user.
       validated [(''header.Idempotency-Key'', idem \<noteq> None),
           (''subject'', min_length 1 subject \<and> max_length 150 subject),
           (''body'', min_length 1 body \<and> max_length 5000 body), (''category'', max_length 50 category)] p
         (answer (ok 201)
           (create_ticket L rq later (au_user_id user) (the idem) subject body category attachment_ids p)))"

text \<open>The agent's page or the customer's, as the token's scopes decide.\<close>

definition route_list_tickets ::
  "libs \<Rightarrow> request \<Rightarrow> http_call \<Rightarrow> ticket_status option \<Rightarrow> string option \<Rightarrow> string option \<Rightarrow> string option \<Rightarrow> int \<Rightarrow> portal
    \<Rightarrow> ((agent_ticket_read list \<times> string option) + (ticket_read list \<times> string option)) answer" where
  "route_list_tickets L rq hc st category assignee_id cursor limit p =
     authenticated (get_current_user L rq) hc p (\<lambda>user.
       case list_tickets_route L (au_user_id user) (au_scopes user) st category assignee_id cursor limit (database p) of
         Inl page \<Rightarrow> answer (\<lambda>r. ok 200 (Inl r)) (page, p)
       | Inr page \<Rightarrow> answer (\<lambda>r. ok 200 (Inr r)) (page, p))"

definition route_assign_ticket ::
  "libs \<Rightarrow> request \<Rightarrow> http_call \<Rightarrow> uuid \<Rightarrow> uuid \<Rightarrow> portal \<Rightarrow> agent_ticket_state_read answer" where
  "route_assign_ticket L rq hc ticket_id assignee_id p =
     authenticated (get_current_user L rq) hc p (\<lambda>user.
       answer (ok 200) (assign_ticket L rq (database p) ticket_id (au_user_id user) (au_scopes user) assignee_id p))"

definition route_unassign_ticket :: "libs \<Rightarrow> request \<Rightarrow> http_call \<Rightarrow> uuid \<Rightarrow> portal \<Rightarrow> agent_ticket_state_read answer" where
  "route_unassign_ticket L rq hc ticket_id p =
     authenticated (get_current_user L rq) hc p (\<lambda>user.
       answer (ok 200) (unassign_ticket L rq (database p) ticket_id (au_user_id user) (au_scopes user) p))"

definition route_create_ticket_reply ::
  "libs \<Rightarrow> request \<Rightarrow> http_call \<Rightarrow> uuid \<Rightarrow> string \<Rightarrow> visibility option \<Rightarrow> uuid list \<Rightarrow> portal \<Rightarrow> ticket_reply answer" where
  "route_create_ticket_reply L rq hc ticket_id body vis attachment_ids p =
     authenticated (get_current_user L rq) hc p (\<lambda>user.
       validated [(''body'', min_length 1 body \<and> max_length 5000 body)] p
         (answer (ok 201) (create_reply L rq (database p) ticket_id (au_user_id user)
           (resolve_actor_kind (au_scopes user)) body vis attachment_ids p)))"

definition route_get_ticket_detail ::
  "libs \<Rightarrow> request \<Rightarrow> http_call \<Rightarrow> uuid \<Rightarrow> string option \<Rightarrow> int \<Rightarrow> portal \<Rightarrow> ticket_detail_read answer" where
  "route_get_ticket_detail L rq hc ticket_id cursor limit p =
     authenticated (get_current_user L rq) hc p (\<lambda>user.
       validated [(''query.limit'', 1 \<le> limit \<and> limit \<le> 100)] p
         (answer (ok 200) (get_ticket_detail L ticket_id (au_user_id user) (resolve_actor_kind (au_scopes user))
           cursor limit (database p), p)))"

definition route_resolve_ticket :: "libs \<Rightarrow> request \<Rightarrow> http_call \<Rightarrow> uuid \<Rightarrow> string \<Rightarrow> portal \<Rightarrow> ticket_state_read answer" where
  "route_resolve_ticket L rq hc ticket_id resolution_note p =
     authenticated (get_current_user L rq) hc p (\<lambda>user.
       validated [(''resolution_note'', min_length 1 resolution_note \<and> max_length 5000 resolution_note)] p
         (answer (ok 200) (resolve_ticket L rq (database p) ticket_id (au_user_id user)
           (resolve_actor_kind (au_scopes user)) resolution_note p)))"

text \<open>The \<open>reason\<close> of closing and reopening is accepted and dropped.\<close>

definition route_close_ticket :: "libs \<Rightarrow> request \<Rightarrow> http_call \<Rightarrow> uuid \<Rightarrow> string option \<Rightarrow> portal \<Rightarrow> ticket_state_read answer" where
  "route_close_ticket L rq hc ticket_id reason p =
     authenticated (get_current_user L rq) hc p (\<lambda>user.
       answer (ok 200) (close_ticket L rq (database p) ticket_id (au_user_id user) (resolve_actor_kind (au_scopes user)) p))"

definition route_reopen_ticket :: "libs \<Rightarrow> request \<Rightarrow> http_call \<Rightarrow> uuid \<Rightarrow> string option \<Rightarrow> portal \<Rightarrow> ticket_state_read answer" where
  "route_reopen_ticket L rq hc ticket_id reason p =
     authenticated (get_current_user L rq) hc p (\<lambda>user.
       answer (ok 200) (reopen_ticket L rq (database p) ticket_id (au_user_id user) (resolve_actor_kind (au_scopes user)) p))"

section \<open>All routes\<close>

text \<open>The routes \<open>api/v1/router.py\<close> collects, one constructor each, with what the client sends besides the
  headers of \<open>http_call\<close>; and the status code and state a request of the client leads to.\<close>

datatype api_call =
    RegisterUser "string option" "string option"
  | Login string string
  | RefreshToken
  | Logout
  | LogoutAll
  | ListSessions
  | RevokeSession uuid
  | RequestPasswordReset string
  | ConfirmPasswordReset string string
  | EnrollMfa string
  | ActivateMfa string
  | VerifyMfa string string
  | DisableMfa string string
  | VerifyEmail "string option"
  | ResendVerification "string option"
  | UpdateProfile body "string option"
  | ConfirmEmailChange "string option"
  | DeactivateAccount "string option"
  | ListRoleCatalogue
  | ReplaceUserRoles uuid "string list"
  | ListUsers "string option" "string option" "string option" "string option" int
  | GetUser uuid
  | CreateUser create_user_request
  | UpdateUser uuid body "string option"
  | DeactivateUser uuid string
  | DeleteUser uuid
  | ResendInvite uuid
  | ListAuditLogs "uuid option" "string option" "uuid option" "(parsed_datetime \<times> string) option"
      "(parsed_datetime \<times> string) option" "string option" int
  | CreateTicket "string option" string string string "uuid list"
  | ListTickets "ticket_status option" "string option" "string option" "string option" int
  | AssignTicket uuid uuid
  | UnassignTicket uuid
  | CreateTicketReply uuid string "visibility option" "uuid list"
  | GetTicketDetail uuid "string option" int
  | ResolveTicket uuid string
  | CloseTicket uuid "string option"
  | ReopenTicket uuid "string option"

definition outline :: "'b answer \<Rightarrow> nat \<times> portal" where
  "outline a = (answer_status a, snd a)"

fun serve ::
  "libs \<Rightarrow> (string \<Rightarrow> nat \<Rightarrow> uuid) \<Rightarrow> (nat \<Rightarrow> portal) \<Rightarrow> request \<Rightarrow> http_call \<Rightarrow> api_call \<Rightarrow> portal \<Rightarrow> nat \<times> portal" where
  "serve L ids later rq hc (RegisterUser email password) p = outline (route_register_user L rq email password p)"
| "serve L ids later rq hc (Login email password) p = outline (route_login L rq email password p)"
| "serve L ids later rq hc RefreshToken p = outline (route_refresh_token L rq hc p)"
| "serve L ids later rq hc Logout p = outline (route_logout L rq hc p)"
| "serve L ids later rq hc LogoutAll p = outline (route_logout_all L rq hc p)"
| "serve L ids later rq hc ListSessions p = outline (route_list_sessions L rq hc p)"
| "serve L ids later rq hc (RevokeSession f) p = outline (route_revoke_session L rq hc f p)"
| "serve L ids later rq hc (RequestPasswordReset email) p = outline (route_request_password_reset L rq email p)"
| "serve L ids later rq hc (ConfirmPasswordReset token pw) p = outline (route_confirm_password_reset L rq token pw p)"
| "serve L ids later rq hc (EnrollMfa pw) p = outline (route_enroll_mfa L rq hc pw p)"
| "serve L ids later rq hc (ActivateMfa code) p = outline (route_activate_mfa L rq hc code p)"
| "serve L ids later rq hc (VerifyMfa token code) p = outline (route_verify_mfa L rq token code p)"
| "serve L ids later rq hc (DisableMfa pw code) p = outline (route_disable_mfa L rq hc pw code p)"
| "serve L ids later rq hc (VerifyEmail token) p = outline (route_verify_email L rq token p)"
| "serve L ids later rq hc (ResendVerification email) p = outline (route_resend_verification L rq email p)"
| "serve L ids later rq hc (UpdateProfile b im) p = outline (route_update_profile L rq hc b im p)"
| "serve L ids later rq hc (ConfirmEmailChange token) p = outline (route_confirm_email_change L rq hc token p)"
| "serve L ids later rq hc (DeactivateAccount pw) p = outline (route_deactivate_account L rq hc pw p)"
| "serve L ids later rq hc ListRoleCatalogue p = outline (route_list_role_catalogue L rq hc p)"
| "serve L ids later rq hc (ReplaceUserRoles i ns) p = outline (route_replace_user_roles L rq hc i ns p)"
| "serve L ids later rq hc (ListUsers q st role c n) p = outline (route_list_users L rq hc q st role c n p)"
| "serve L ids later rq hc (GetUser i) p = outline (route_get_user L rq hc i p)"
| "serve L ids later rq hc (CreateUser payload) p = outline (route_create_user L rq hc payload p)"
| "serve L ids later rq hc (UpdateUser i b im) p = outline (route_update_user L rq hc i b im p)"
| "serve L ids later rq hc (DeactivateUser i reason) p = outline (route_deactivate_user L rq hc i reason p)"
| "serve L ids later rq hc (DeleteUser i) p = outline (route_delete_user_not_allowed L rq hc i p)"
| "serve L ids later rq hc (ResendInvite i) p = outline (route_resend_invite L rq hc i p)"
| "serve L ids later rq hc (ListAuditLogs a e g lo hi c n) p = outline (route_list_audit_logs L ids rq hc a e g lo hi c n p)"
| "serve L ids later rq hc (CreateTicket key s b cat as) p = outline (route_create_ticket L rq later hc key s b cat as p)"
| "serve L ids later rq hc (ListTickets st cat a c n) p = outline (route_list_tickets L rq hc st cat a c n p)"
| "serve L ids later rq hc (AssignTicket i a) p = outline (route_assign_ticket L rq hc i a p)"
| "serve L ids later rq hc (UnassignTicket i) p = outline (route_unassign_ticket L rq hc i p)"
| "serve L ids later rq hc (CreateTicketReply i b v as) p = outline (route_create_ticket_reply L rq hc i b v as p)"
| "serve L ids later rq hc (GetTicketDetail i c n) p = outline (route_get_ticket_detail L rq hc i c n p)"
| "serve L ids later rq hc (ResolveTicket i note) p = outline (route_resolve_ticket L rq hc i note p)"
| "serve L ids later rq hc (CloseTicket i reason) p = outline (route_close_ticket L rq hc i reason p)"
| "serve L ids later rq hc (ReopenTicket i reason) p = outline (route_reopen_ticket L rq hc i reason p)"

end
