(* ===== verification/Session_Machine.thy ===== *)
theory Session_Machine
  imports Users_Passwords
begin

text \<open>
  The authentication service as a state machine, and the properties of sessions that hold over whole
  histories of requests.

  \<open>session_step\<close> runs one request of the authentication API to its end; a login draws a family id that
  is not in use (\<open>uuid4\<close>). \<open>racing_step\<close> also lets the second half of a rotation and the reuse handler
  run on their own, for any token and any account: a run of \<open>racing_step\<close> covers every interleaving in
  which other requests execute between the checks of a rotation and its atomic check-and-consume.
\<close>

section \<open>Requests\<close>

inductive session_step :: "libs \<Rightarrow> portal \<Rightarrow> portal \<Rightarrow> bool" for L where
  login: "rq_uuid rq 1 \<notin> families (refresh_tokens (database p)) \<Longrightarrow>
    session_step L p (snd (authenticate_user L rq email pw p))"
| second_factor: "rq_uuid rq 1 \<notin> families (refresh_tokens (database p)) \<Longrightarrow>
    session_step L p (snd (verify_mfa L rq token code p))"
| refresh: "session_step L p (snd (rotate_refresh_token L rq raw p))"
| leave: "session_step L p (snd (logout L rq jti u cookie p))"
| leave_all: "session_step L p (snd (logout_all rq u p))"
| drop_session: "session_step L p (snd (revoke_session L rq u f cookie p))"
| drop_others: "session_step L p (revoke_other_sessions rq u except p)"
| registration: "session_step L p (snd (register_user L rq em pass p))"
| verification: "session_step L p (snd (verify_email L rq vt p))"
| resend: "session_step L p (snd (resend_verification L rq em p))"
| reset_request: "session_step L p (snd (request_password_reset L rq email p))"
| reset_confirm: "session_step L p (snd (confirm_password_reset L rq token new p))"
| mfa_enrol: "session_step L p (snd (enroll_mfa L rq u pw p))"
| mfa_activate: "session_step L p (snd (activate_mfa L rq u code p))"
| mfa_disable: "session_step L p (snd (disable_mfa L rq u pw code p))"
| deactivation: "session_step L p (snd (deactivate_account L rq u pass p))"
| role_change: "session_step L p (snd (replace_user_roles rq actor scopes target names p))"

inductive racing_step :: "libs \<Rightarrow> portal \<Rightarrow> portal \<Rightarrow> bool" for L where
  request: "session_step L p p' \<Longrightarrow> racing_step L p p'"
| late_consume: "racing_step L p (snd (rotate_consume L rq h user p))"
| late_reuse: "racing_step L p (handle_reuse_or_race rq r p)"

abbreviation session_run :: "libs \<Rightarrow> portal \<Rightarrow> portal \<Rightarrow> bool" where
  "session_run L \<equiv> (session_step L)\<^sup>*\<^sup>*"

abbreviation racing_run :: "libs \<Rightarrow> portal \<Rightarrow> portal \<Rightarrow> bool" where
  "racing_run L \<equiv> (racing_step L)\<^sup>*\<^sup>*"

section \<open>Requests that leave the refresh tokens alone\<close>

lemma reset_frame:
  "refresh_tokens (database (snd (request_password_reset L rq email p))) = refresh_tokens (database p)"
  "refresh_tokens (database (snd (confirm_password_reset L rq token new p))) = refresh_tokens (database p)"
  by (auto simp: request_password_reset_def confirm_password_reset_def Let_def create_password_reset_token_Inr
      invalidate_password_reset_tokens_for_user_def consume_password_reset_token_rows update_password_hash_def
      split: option.splits sum.splits prod.splits if_splits)

lemma verification_frame:
  "refresh_tokens (database (snd (verify_email L rq vt p))) = refresh_tokens (database p)"
  "refresh_tokens (database (snd (issue_pending_token L rq i p))) = refresh_tokens (database p)"
  "refresh_tokens (database (snd (resend_verification L rq em p))) = refresh_tokens (database p)"
  by (auto simp: verify_email_def resend_verification_def issue_pending_token_def issue_token_def create_token_def
      consume_token_def mark_user_verified_def insert_unique_def Let_def query_defs
      split: option.splits sum.splits prod.splits if_splits bool.splits)

lemma registration_frame:
  "refresh_tokens (database (snd (register_user L rq em pass p))) = refresh_tokens (database p)"
proof -
  have "refresh_tokens (database q) = refresh_tokens d'"
    if "issue_pending_token L rq i (p\<lparr>database := d'\<rparr>) = (r, q)" for i d' r q
    using verification_frame(2) [of L rq i "p\<lparr>database := d'\<rparr>"] that by simp
  then show ?thesis
    by (auto simp: register_user_def Let_def create_user_Some
        split: option.splits sum.splits prod.splits)
qed

lemma mfa_frame:
  "refresh_tokens (database (snd (enroll_mfa L rq u pw p))) = refresh_tokens (database p)"
  "refresh_tokens (database (snd (activate_mfa L rq u code p))) = refresh_tokens (database p)"
  "refresh_tokens (database (snd (disable_mfa L rq u pw code p))) = refresh_tokens (database p)"
  by (auto simp: enroll_mfa_def activate_mfa_def disable_mfa_def update_mfa_pending_secret_def
      repo_activate_mfa_def repo_disable_mfa_def create_recovery_codes_def Let_def
      split: option.splits sum.splits prod.splits if_splits)

lemma account_frame:
  "refresh_tokens (database (snd (deactivate_account L rq u pass p))) = refresh_tokens (database p)"
  "refresh_tokens (database (snd (logout_all rq u p))) = refresh_tokens (database p)"
  "refresh_tokens (database (revoke_other_sessions rq u except p)) = refresh_tokens (database p)"
  by (auto simp: deactivate_account_def deactivate_if_not_already_def logout_all_def revoke_other_sessions_def
      revoke_sessions_except_def Let_def query_defs split: option.splits prod.splits if_splits)

lemma roles_frame:
  "refresh_tokens (database (snd (replace_user_roles rq a sc i ns p))) = refresh_tokens (database p)"
  by (auto simp: replace_user_roles_def replace_for_user_def create_admin_audit_log_entry_def Let_def
      split: sum.splits if_splits)

lemma unchanged_steps: "rows' = rows \<Longrightarrow> family_steps late rows rows'"
  by simp

lemmas refresh_frames = reset_frame verification_frame registration_frame mfa_frame account_frame roles_frame

section \<open>The machine implements the family machine\<close>

lemma verify_mfa_steps:
  assumes "rq_uuid rq 1 \<notin> families (refresh_tokens (database p))"
  shows "family_steps late (refresh_tokens (database p)) (refresh_tokens (database (snd (verify_mfa L rq token code p))))"
proof -
  have login: "family_steps late (refresh_tokens (database p)) (refresh_tokens (database (snd (complete_mfa_login L rq user q))))"
    if "refresh_tokens (database q) = refresh_tokens (database p)" for user q
    using complete_mfa_login_steps [of rq q late L user] that assms by simp
  have code: "refresh_tokens d1 = refresh_tokens (database p)"
    if "try_consume_recovery_code L rq u code (database p) = (b, d1)" for u b d1
    using that try_consume_recovery_code_False [of L rq u code "database p" d1]
      try_candidates_True [of L "rq_db_now rq" code "list_unconsumed_recovery_codes u (database p)" "database p" d1]
    by (cases b) (auto simp: try_consume_recovery_code_def)
  show ?thesis
    by (auto simp: verify_mfa_def Let_def code intro!: login split: option.splits prod.splits bool.splits sum.splits)
qed

lemma rotate_refresh_token_steps:
  assumes "distinct (map rt_token_hash (refresh_tokens (database p)))"
  shows "family_steps False (refresh_tokens (database p))
    (refresh_tokens (database (snd (rotate_refresh_token L rq raw p))))"
proof (cases "rotate_checks L rq raw p")
  case (Pair v p1)
  have db: "database p1 = database p" using rotate_checks_database [of L rq raw p] Pair by simp
  show ?thesis
  proof (cases v)
    case (Reject e)
    then show ?thesis by (simp add: rotate_refresh_token_def Pair db)
  next
    case (Reused r)
    then show ?thesis using handle_reuse_steps [of False p1 rq r] by (simp add: rotate_refresh_token_def Pair db)
  next
    case (Proceed h user)
    with Pair obtain x where x: "get_refresh_token_by_hash h (database p) = Some x" "rt_revoked_at x = None"
      by (auto simp: rotate_checks_def Let_def split: option.splits prod.splits if_splits)
    have "\<forall>r \<in> set (refresh_tokens (database p1)). rt_token_hash r = h \<longrightarrow> rt_revoked_at r = None"
      using x assms distinct_key_eqD [of rt_token_hash "refresh_tokens (database p)" x]
        refresh_token_by_hash_SomeD [OF x(1)] unfolding db by metis
    then show ?thesis using rotate_consume_steps [of False p1 h L rq user]
      by (simp add: rotate_refresh_token_def Pair Proceed db)
  qed
qed

lemma session_step_families:
  assumes "session_step L p p'" and "distinct (map rt_token_hash (refresh_tokens (database p)))"
  shows "family_steps False (refresh_tokens (database p)) (refresh_tokens (database p'))"
  using assms
proof (induction rule: session_step.induct)
  case login
  show ?case by (rule authenticate_user_steps [OF login.hyps])
next
  case second_factor
  show ?case by (rule verify_mfa_steps [OF second_factor.hyps])
next
  case refresh
  show ?case by (rule rotate_refresh_token_steps [OF refresh.prems])
next
  case leave
  show ?case by (rule logout_steps)
next
  case drop_session
  show ?case by (rule revoke_session_steps)
qed (rule refresh_frames [THEN unchanged_steps])+

lemma racing_step_families:
  assumes "racing_step L p p'" and "distinct (map rt_token_hash (refresh_tokens (database p)))"
  shows "family_steps True (refresh_tokens (database p)) (refresh_tokens (database p'))"
  using assms
proof (induction rule: racing_step.induct)
  case (request p p')
  then show ?case using family_steps_mono session_step_families by blast
next
  case (late_consume p rq h user)
  then show ?case by (intro rotate_consume_steps) simp
next
  case (late_reuse p rq r)
  then show ?case by (intro handle_reuse_steps)
qed

lemma racing_run_families:
  assumes "racing_run L p p'" and "family_inv (refresh_tokens (database p))"
  shows "family_steps True (refresh_tokens (database p)) (refresh_tokens (database p'))"
  using assms(1)
proof (induction rule: rtranclp_induct)
  case (step y z)
  then have "family_inv (refresh_tokens (database y))" using assms(2) by (auto intro: family_steps_inv)
  with step show ?case by (auto simp: family_inv_def dest: racing_step_families)
qed simp

lemma session_run_families:
  assumes "session_run L p p'" and "family_inv (refresh_tokens (database p))"
  shows "family_steps False (refresh_tokens (database p)) (refresh_tokens (database p'))"
  using assms(1)
proof (induction rule: rtranclp_induct)
  case (step y z)
  then have "family_inv (refresh_tokens (database y))" using assms(2) by (auto intro: family_steps_inv)
  with step show ?case by (auto simp: family_inv_def dest: session_step_families)
qed simp

section \<open>Rotation of a token that may not rotate\<close>

lemma rotate_consume_of_consumed:
  assumes "\<And>r. r \<in> set (refresh_tokens (database p)) \<Longrightarrow> rt_token_hash r = h \<Longrightarrow> rt_consumed_at r \<noteq> None"
  shows "isl (fst (rotate_consume L rq h user p))"
proof (rule ccontr)
  assume "\<not> isl (fst (rotate_consume L rq h user p))"
  then obtain resp p' where "rotate_consume L rq h user p = (Inr resp, p')"
    by (metis isl_def obj_sumE prod.collapse)
  then show False by (rule rotate_consume_Inr) (use assms in blast)
qed

text \<open>What a successful rotation has checked and done.\<close>

lemma rotate_refresh_token_Inr:
  assumes "rotate_refresh_token L rq (Some raw) p = (Inr resp, p')"
  obtains h x user p1 where "hash_refresh_token L raw = Some h" "get_refresh_token_by_hash h (database p) = Some x"
    "fst (record_request (rq_now rq) (rt_family_id x) 3600 (cache p)) \<le> 60"
    "rq_now rq < rt_expires_at x" "rt_revoked_at x = None" "rt_consumed_at x = None"
    "get_by_id (rt_user_id x) (database p) = Some user" "u_status user \<noteq> DEACTIVATED"
    "\<And>rb. get_revoke_before (rq_now rq) (rt_user_id x) (cache p1) = Some rb \<Longrightarrow> rb < rt_issued_at x"
    "rq_now rq - (case rt_last_used_at x of None \<Rightarrow> rt_issued_at x | Some t \<Rightarrow> t) \<le> days 14"
    "p1 = p\<lparr>cache := snd (record_request (rq_now rq) (rt_family_id x) 3600 (cache p))\<rparr>"
    "rotate_consume L rq h user p1 = (Inr resp, p')"
proof -
  obtain h user p1 where c: "rotate_checks L rq (Some raw) p = (Proceed h user, p1)"
    and r: "rotate_consume L rq h user p1 = (Inr resp, p')"
    using assms by (auto simp: rotate_refresh_token_def split: prod.splits rotate_verdict.splits)
  from c obtain x where x: "hash_refresh_token L raw = Some h" "get_refresh_token_by_hash h (database p) = Some x"
    by (auto simp: rotate_checks_def Let_def split: option.splits prod.splits if_splits)
  let ?n = "record_request (rq_now rq) (rt_family_id x) 3600 (cache p)"
  have "fst ?n \<le> 60 \<and> rq_now rq < rt_expires_at x \<and> rt_revoked_at x = None \<and> rt_consumed_at x = None
      \<and> get_by_id (rt_user_id x) (database p) = Some user \<and> u_status user \<noteq> DEACTIVATED
      \<and> (\<forall>rb. get_revoke_before (rq_now rq) (rt_user_id x) (cache p1) = Some rb \<longrightarrow> rb < rt_issued_at x)
      \<and> rq_now rq - (case rt_last_used_at x of None \<Rightarrow> rt_issued_at x | Some t \<Rightarrow> t) \<le> days 14
      \<and> p1 = p\<lparr>cache := snd ?n\<rparr>"
    using c x by (auto simp: rotate_checks_def Let_def REFRESH_RATE_LIMIT_WINDOW_SECONDS_def not_le not_less
        REFRESH_RATE_LIMIT_MAX_REQUESTS_def REFRESH_IDLE_TIMEOUT_def case_prod_beta split: option.splits if_splits)
  then show thesis using x r by (elim conjE) (rule that; blast)
qed

lemma rotate_refresh_token_refused:
  assumes "hash_refresh_token L raw = Some h" and "get_refresh_token_by_hash h (database p) = Some x"
    and "rt_revoked_at x \<noteq> None \<or> rt_consumed_at x \<noteq> None \<or> rt_expires_at x \<le> rq_now rq"
  shows "isl (fst (rotate_refresh_token L rq (Some raw) p))"
proof (rule ccontr)
  assume "\<not> isl (fst (rotate_refresh_token L rq (Some raw) p))"
  then obtain resp p' where "rotate_refresh_token L rq (Some raw) p = (Inr resp, p')"
    by (metis isl_def obj_sumE prod.collapse)
  then show False
  proof (rule rotate_refresh_token_Inr)
    fix h' x'
    assume "hash_refresh_token L raw = Some h'" "get_refresh_token_by_hash h' (database p) = Some x'"
      "rq_now rq < rt_expires_at x'" "rt_revoked_at x' = None" "rt_consumed_at x' = None"
    with assms show False by simp
  qed
qed

lemma dead_family_refused:
  assumes "dead_family f (refresh_tokens (database p))" "hash_refresh_token L raw = Some h"
    "get_refresh_token_by_hash h (database p) = Some x" "rt_family_id x = f"
  shows "isl (fst (rotate_refresh_token L rq (Some raw) p))"
  using assms refresh_token_by_hash_SomeD [OF assms(3)]
  by (intro rotate_refresh_token_refused [OF assms(2,3)]) (auto simp: dead_family_def)

lemma distinct_on_keys: "k ` set (distinct_on k xs) = k ` set xs"
  by (induction k xs rule: distinct_on.induct) auto

lemma live_families_listed:
  "rt_family_id ` set (list_live_families_for_user t u d) = rt_family_id ` {r \<in> set (refresh_tokens d). live_token t u r}"
  by (simp add: list_live_families_for_user_def distinct_on_keys)

section \<open>Properties of rotation\<close>

text \<open>C1. Refresh-token families over every history of concurrent requests. Starting without refresh tokens,
  at every moment: token hashes are unique; all tokens of a family belong to one account and share one
  absolute expiry (a rotation never prolongs a session); and a family has at most one unconsumed token.\<close>

theorem refresh_family_invariant:
  assumes "refresh_tokens (database p0) = []" and "racing_run L p0 p"
    and "a \<in> set (refresh_tokens (database p))" and "b \<in> set (refresh_tokens (database p))"
    and "rt_family_id a = rt_family_id b"
  shows "distinct (map rt_token_hash (refresh_tokens (database p))) \<and> rt_user_id a = rt_user_id b
    \<and> rt_expires_at a = rt_expires_at b
    \<and> (rt_consumed_at a = None \<and> rt_consumed_at b = None \<longrightarrow> a = b)"
proof -
  have "family_steps True [] (refresh_tokens (database p))"
    using racing_run_families [OF assms(2)] assms(1) by simp
  then have inv: "family_inv (refresh_tokens (database p))" by (rule family_steps_inv) simp
  then show ?thesis using family_invD [OF inv assms(3-5)] by (auto simp: family_inv_def)
qed

text \<open>An account with two families: 5, whose first token \<open>r1\<close> was rotated into \<open>r2\<close>, and 6 with the token
  \<open>r3\<close>.\<close>

definition sample_token :: "string \<Rightarrow> uuid \<Rightarrow> datetime option \<Rightarrow> refresh_token" where
  "sample_token h f consumed = \<lparr>rt_token_hash = h, rt_family_id = f, rt_user_id = 1, rt_issued_at = 0,
     rt_expires_at = days 30, rt_revoked_at = None, rt_consumed_at = consumed, rt_last_used_at = None,
     rt_ip = None, rt_user_agent = None\<rparr>"

definition signed_in :: portal where
  "signed_in = one_account\<lparr>database := (database one_account)\<lparr>refresh_tokens :=
     [sample_token ''h:r1'' 5 (Some 0), sample_token ''h:r2'' 5 None, sample_token ''h:r3'' 6 None]\<rparr>\<rparr>"

definition later_request :: request where
  "later_request = sample_request\<lparr>rq_now := seconds 20, rq_db_now := seconds 20\<rparr>"

lemma signed_in_tokens:
  "refresh_tokens (database signed_in)
     = [sample_token ''h:r1'' 5 (Some 0), sample_token ''h:r2'' 5 None, sample_token ''h:r3'' 6 None]"
  by (simp add: signed_in_def)

lemma signed_in_inv: "family_inv (refresh_tokens (database signed_in))"
  by (auto simp: signed_in_tokens family_inv_def coherent_def sample_token_def)

lemma sample_hash: "hash_refresh_token zero_libs ''r1'' = Some ''h:r1''" "hash_refresh_token zero_libs ''r2'' = Some ''h:r2''"
  "hash_refresh_token zero_libs ''r3'' = Some ''h:r3''"
  by (simp_all add: hash_refresh_token_def zero_libs_def is_ascii_def)

lemma sample_rate: "fst (record_request t f 3600 (cache signed_in)) = 1"
  by (simp add: record_request_def signed_in_def one_account_def empty_valkey_def vk_defs)

lemma sample_rotation:
  "\<exists>resp p. rotate_consume zero_libs later_request ''h:r2'' u signed_in = (Inr resp, p)"
  by (simp add: rotate_consume_def consume_refresh_token_def query_defs signed_in_def one_account_def empty_db_def
      sample_token_def create_refresh_token_def create_session_def insert_unique_def generate_refresh_token_def
      zero_libs_def later_request_def sample_request_def eval_nat_numeral case_prod_beta Let_def)

lemma sample_login:
  "refresh_tokens (database (snd (authenticate_user zero_libs sample_request ''a@x'' ''pw'' one_account)))
     = [minted_token zero_libs sample_request (hd (users (database one_account)))]"
proof -
  have e: "evict_oldest_family_if_at_cap sample_request i d = d" if "refresh_tokens d = []" for i d
    using that by (simp add: evict_oldest_family_if_at_cap_def lock_live_refresh_tokens_for_user_def
        get_family_created_at_map_for_user_def Let_def)
  have v: "verify_password zero_libs ''pw'' ''s$pw''" by simp
  have s: "sha256_hex zero_libs x = ''h:'' @ x" for x by (simp add: zero_libs_def)
  show ?thesis
    by (simp add: authenticate_user_def one_account_def empty_db_def new_user_def get_by_email_def
        scalar_one_or_none_def lower_def lower_char_def get_ip_failure_count_def get_account_failure_count_def
        empty_valkey_def vk_defs count_of_def v s login_verified_def complete_login_def mint_session_def create_session_def
        insert_unique_def create_refresh_token_def e generate_refresh_token_def minted_token_def Let_def case_prod_beta)
qed

theorem refresh_family_invariant_witness:
  "distinct (map rt_token_hash (refresh_tokens (database
     (snd (authenticate_user zero_libs sample_request ''a@x'' ''pw'' one_account)))))
   \<and> refresh_tokens (database (snd (authenticate_user zero_libs sample_request ''a@x'' ''pw'' one_account))) \<noteq> []"
proof -
  have e: "refresh_tokens (database one_account) = []" by (simp add: one_account_def empty_db_def)
  have "racing_run zero_libs one_account (snd (authenticate_user zero_libs sample_request ''a@x'' ''pw'' one_account))"
    by (intro r_into_rtranclp racing_step.request session_step.login) (simp add: e families_def)
  from refresh_family_invariant [OF e this] sample_login show ?thesis by simp
qed

text \<open>C2. A refresh token is worth one successor. Once a rotation of a token has succeeded, no rotation of
  the same token ever succeeds again, whatever requests ran in between and however they were
  interleaved: neither one that starts from the checks nor one that had passed its checks before.\<close>

theorem refresh_token_single_use:
  assumes "family_inv (refresh_tokens (database p))"
    and "rotate_consume L rq h user p = (Inr resp, p1)" and "racing_run L p1 p2"
    and "hash_refresh_token L raw = Some h"
  shows "isl (fst (rotate_consume L rq' h user' p2)) \<and> isl (fst (rotate_refresh_token L rq'' (Some raw) p2))"
proof (rule rotate_consume_Inr [OF assms(2)])
  fix r s
  assume r: "r \<in> set (refresh_tokens (database p))" "rt_token_hash r = h" "rt_consumed_at r = None" "successor r s"
      "rt_token_hash s \<notin> rt_token_hash ` set (refresh_tokens (database p))"
    and p1: "refresh_tokens (database p1) = snd (consume_refresh_rows (rq_db_now rq) h (refresh_tokens (database p))) @ [s]"
  let ?r = "r\<lparr>rt_consumed_at := Some (rq_db_now rq)\<rparr>"
  have inv1: "family_inv (refresh_tokens (database p1))"
    unfolding p1 by (rule family_inv_rotate(1) [OF assms(1) r])
  have "?r \<in> set (refresh_tokens (database p1))" using r by (force simp: p1 consume_refresh_rows_map)
  with racing_run_families [OF assms(3) inv1] obtain r2 where r2: "r2 \<in> set (refresh_tokens (database p2))" "later_row ?r r2"
    using family_steps_later by blast
  have inv2: "family_inv (refresh_tokens (database p2))"
    using family_steps_inv racing_run_families [OF assms(3) inv1] inv1 by blast
  have uniq: "x = r2" if "x \<in> set (refresh_tokens (database p2))" "rt_token_hash x = h" for x
    using family_inv_hash [OF inv2 that(1) r2(1)] that(2) r2(2) r(2) by (simp add: later_row_def)
  have c: "rt_consumed_at r2 \<noteq> None" "rt_token_hash r2 = h" using r2(2) r(2) by (simp_all add: later_row_def)
  have "get_refresh_token_by_hash h (database p2) = Some r2"
    using find_row_unique [of rt_token_hash "refresh_tokens (database p2)" r2] inv2 r2(1) c(2)
    by (simp add: family_inv_def get_refresh_token_by_hash_def)
  with c(1) assms(4) have "isl (fst (rotate_refresh_token L rq'' (Some raw) p2))"
    by (intro rotate_refresh_token_refused) auto
  moreover have "isl (fst (rotate_consume L rq' h user' p2))"
    using uniq c(1) by (intro rotate_consume_of_consumed) blast
  ultimately show ?thesis by blast
qed

theorem refresh_token_single_use_witness:
  "isl (fst (rotate_refresh_token zero_libs later_request (Some ''r2'')
     (snd (rotate_consume zero_libs later_request ''h:r2'' (hd (users (database one_account))) signed_in))))"
proof -
  obtain resp p1 where r: "rotate_consume zero_libs later_request ''h:r2'' (hd (users (database one_account))) signed_in
      = (Inr resp, p1)" using sample_rotation by blast
  from refresh_token_single_use [OF signed_in_inv r _ sample_hash(2), of p1 later_request undefined later_request] r
  show ?thesis by simp
qed




text \<open>Inside the grace window of ten seconds a second presentation of a rotated token is a lost race, not
  theft: it fails, and nothing but the request counter of the family changes.\<close>

theorem concurrent_reuse_is_tolerated:
  assumes "hash_refresh_token L raw = Some h" "get_refresh_token_by_hash h (database p) = Some r"
    and "rt_consumed_at r = Some c" "rq_now rq \<le> c + seconds 10"
  shows "isl (fst (rotate_refresh_token L rq (Some raw) p))
    \<and> snd (rotate_refresh_token L rq (Some raw) p)
        = p\<lparr>cache := snd (record_request (rq_now rq) (rt_family_id r) 3600 (cache p))\<rparr>"
  using assms by (auto simp: rotate_refresh_token_def rotate_checks_def Let_def case_prod_beta handle_reuse_or_race_def
      REFRESH_RATE_LIMIT_WINDOW_SECONDS_def REFRESH_CONCURRENT_GRACE_WINDOW_def split: option.splits)

theorem concurrent_reuse_is_tolerated_witness:
  "database (snd (rotate_refresh_token zero_libs sample_request (Some ''r1'') signed_in)) = database signed_in"
proof -
  have k: "get_refresh_token_by_hash ''h:r1'' (database signed_in) = Some (sample_token ''h:r1'' 5 (Some 0))"
    by (simp add: get_refresh_token_by_hash_def signed_in_tokens sample_token_def)
  from concurrent_reuse_is_tolerated [OF sample_hash(1) k, of 0 sample_request]
  show ?thesis by (simp add: sample_token_def sample_request_def seconds_def)
qed

text \<open>Revoking a session is final. A successful \<open>revoke_session\<close> concerns a family of the caller and not
  the one the caller is using; afterwards, in every later state, no token of that family can be
  rotated and the family is missing from the caller's live sessions.\<close>

theorem revoke_session_is_final:
  assumes "family_inv (refresh_tokens (database p))"
    and "revoke_session L rq u f cookie p = (Inr (), p1)" and "session_run L p1 p2"
    and "hash_refresh_token L raw = Some h" "get_refresh_token_by_hash h (database p2) = Some r" "rt_family_id r = f"
  shows "rt_user_id r = u \<and> resolve_current_family_id L u cookie (database p) \<noteq> Inr (Some f)
    \<and> isl (fst (rotate_refresh_token L rq' (Some raw) p2))
    \<and> f \<notin> rt_family_id ` set (list_live_families_for_user t u (database p2))"
proof -
  obtain own where own: "get_any_refresh_token_for_family f u (database p) = Some own"
    and cur: "resolve_current_family_id L u cookie (database p) \<noteq> Inr (Some f)"
    and p1: "refresh_tokens (database p1) = refresh_tokens (revoke_refresh_token_family (rq_db_now rq) f (database p))"
    using assms(2) by (auto simp: revoke_session_def Let_def split: sum.splits option.splits if_splits)
  have own': "own \<in> set (refresh_tokens (database p))" "rt_family_id own = f" "rt_user_id own = u"
    using own by (auto simp: get_any_refresh_token_for_family_def dest: find_row_SomeD)
  have inv1: "family_inv (refresh_tokens (database p1))"
    unfolding p1 by (rule family_steps_inv [OF revoke_family_steps assms(1)])
  have "dead_family f (refresh_tokens (database p1))"
    using own' unfolding p1 by (intro dead_family_revoke) (auto simp: families_def)
  with session_run_families [OF assms(3) inv1] have dead: "dead_family f (refresh_tokens (database p2))"
    by (rule dead_family_steps)
  obtain o2 where o2: "o2 \<in> set (refresh_tokens (database p2))" "rt_family_id o2 = f" "rt_user_id o2 = u"
  proof -
    have "family_steps False (refresh_tokens (database p)) (refresh_tokens (database p2))"
      using revoke_family_steps [of False "database p" "rq_db_now rq" f] session_run_families [OF assms(3) inv1]
      by (simp add: p1)
    from family_steps_later [OF this own'(1)] own' show thesis by (auto simp: later_row_def intro: that)
  qed
  have "family_inv (refresh_tokens (database p2))"
    using family_steps_inv [OF session_run_families [OF assms(3) inv1] inv1] .
  from family_invD(1) [OF this _ o2(1)] refresh_token_by_hash_SomeD [OF assms(5)] assms(6) o2
  have "rt_user_id r = u" by simp
  moreover have "f \<notin> rt_family_id ` set (list_live_families_for_user t u (database p2))"
    using dead by (auto simp: live_families_listed dead_family_def live_token_def)
  ultimately show ?thesis using cur dead_family_refused [OF dead assms(4-6)] by blast
qed

theorem revoke_session_is_final_witness:
  "isl (fst (rotate_refresh_token zero_libs later_request (Some ''r3'')
     (snd (revoke_session zero_libs later_request 1 6 (Some ''r2'') signed_in))))"
proof -
  let ?p1 = "snd (revoke_session zero_libs later_request 1 6 (Some ''r2'') signed_in)"
  have r: "revoke_session zero_libs later_request 1 6 (Some ''r2'') signed_in = (Inr (), ?p1)"
    and k: "get_refresh_token_by_hash ''h:r3'' (database ?p1)
        = Some ((sample_token ''h:r3'' 6 None)\<lparr>rt_revoked_at := Some (rq_db_now later_request)\<rparr>)"
    by (simp_all add: revoke_session_def resolve_current_family_id_def sample_hash get_refresh_token_by_hash_def
        signed_in_tokens sample_token_def get_any_refresh_token_for_family_def revoke_refresh_token_family_def Let_def)
  from revoke_session_is_final [OF signed_in_inv r _ sample_hash(3) k, of later_request]
  show ?thesis by (simp add: sample_token_def)
qed

section \<open>A race the finality of a revocation does not survive\<close>

text \<open>\<open>revoke_session_is_final\<close> is about requests that run one after another. The atomic check-and-consume
  only tests \<open>consumed_at\<close>: when the session is revoked between the checks of a rotation and its
  consume, the rotation still succeeds and the family is alive again. The run below is such a race
  on family 6, revoked from the session of family 5.\<close>

theorem late_rotation_revives_a_revoked_session:
  "\<exists>h user p1 p2 resp p3. rotate_checks zero_libs later_request (Some ''r3'') signed_in = (Proceed h user, p1)
     \<and> revoke_session zero_libs later_request 1 6 (Some ''r2'') p1 = (Inr (), p2)
     \<and> rotate_consume zero_libs later_request h user p2 = (Inr resp, p3)
     \<and> 6 \<notin> rt_family_id ` set (list_live_families_for_user (seconds 20) 1 (database p2))
     \<and> 6 \<in> rt_family_id ` set (list_live_families_for_user (seconds 20) 1 (database p3))"
proof -
  let ?u = "hd (users (database one_account))"
  let ?p1 = "signed_in\<lparr>cache := snd (record_request (seconds 20) 6 3600 (cache signed_in))\<rparr>"
  let ?p2 = "snd (revoke_session zero_libs later_request 1 6 (Some ''r2'') ?p1)"
  have u: "get_by_id 1 (database signed_in) = Some ?u" "u_status ?u = ACTIVE"
    by (simp_all add: signed_in_def one_account_def get_by_id_def new_user_def)
  have rb: "get_revoke_before t i (snd (record_request t' f w (cache signed_in))) = None" for t i t' f w
    by (simp add: record_request_def get_revoke_before_def signed_in_def one_account_def empty_valkey_def vk_defs Let_def)
  have c: "rotate_checks zero_libs later_request (Some ''r3'') signed_in = (Proceed ''h:r3'' ?u, ?p1)"
    using sample_rate [of "seconds 20" 6]
    by (simp add: rotate_checks_def sample_hash get_refresh_token_by_hash_def signed_in_tokens sample_token_def Let_def
        later_request_def case_prod_beta u rb REFRESH_RATE_LIMIT_WINDOW_SECONDS_def REFRESH_RATE_LIMIT_MAX_REQUESTS_def
        REFRESH_IDLE_TIMEOUT_def duration_defs)
  have r: "revoke_session zero_libs later_request 1 6 (Some ''r2'') ?p1 = (Inr (), ?p2)"
    by (simp add: revoke_session_def resolve_current_family_id_def sample_hash get_refresh_token_by_hash_def
        signed_in_tokens sample_token_def get_any_refresh_token_for_family_def Let_def)
  let ?rv = "\<lambda>h f c. (sample_token h f c)\<lparr>rt_revoked_at := Some (seconds 20)\<rparr>"
  have t2: "refresh_tokens (database ?p2)
      = [sample_token ''h:r1'' 5 (Some 0), sample_token ''h:r2'' 5 None, ?rv ''h:r3'' 6 None]"
    and s2: "user_sessions (database ?p2) = []"
    by (simp_all add: revoke_session_def resolve_current_family_id_def sample_hash get_refresh_token_by_hash_def
        signed_in_tokens sample_token_def get_any_refresh_token_for_family_def Let_def later_request_def
        revoke_refresh_token_family_def) (simp add: signed_in_def one_account_def empty_db_def)
  let ?t3 = "[sample_token ''h:r1'' 5 (Some 0), sample_token ''h:r2'' 5 None, ?rv ''h:r3'' 6 (Some (seconds 20)),
        (sample_token (''h:'' @ replicate 5 (CHR ''t'')) 6 None)\<lparr>rt_issued_at := seconds 20,
           rt_last_used_at := Some (seconds 20), rt_ip := Some ''10.0.0.1''\<rparr>]"
  have "\<exists>resp p3. rotate_consume zero_libs later_request ''h:r3'' ?u q = (Inr resp, p3) \<and> refresh_tokens (database p3) = ?t3"
    if "refresh_tokens (database q) = [sample_token ''h:r1'' 5 (Some 0), sample_token ''h:r2'' 5 None, ?rv ''h:r3'' 6 None]"
      "user_sessions (database q) = []" for q
    using that by (simp add: rotate_consume_def consume_refresh_token_rows consume_refresh_rows_def query_defs
        create_refresh_token_def create_session_def insert_unique_def generate_refresh_token_def sample_token_def
        later_request_def sample_request_def zero_libs_def case_prod_beta Let_def eval_nat_numeral)
  from this [OF t2 s2] obtain resp p3 where p3: "rotate_consume zero_libs later_request ''h:r3'' ?u ?p2 = (Inr resp, p3)"
    and t3: "refresh_tokens (database p3) = ?t3" by blast
  have "6 \<notin> rt_family_id ` set (list_live_families_for_user (seconds 20) 1 (database ?p2))"
    unfolding live_families_listed t2 by (auto simp: live_token_def sample_token_def)
  moreover have "6 \<in> rt_family_id ` set (list_live_families_for_user (seconds 20) 1 (database p3))"
    unfolding live_families_listed t3
    by (rule image_eqI [where x = "last ?t3"]) (simp_all add: live_token_def sample_token_def duration_defs)
  ultimately show ?thesis using c r p3 by blast
qed

end
