(* ===== verification/Support_Writes.thy ===== *)
theory Support_Writes
  imports Support_Replies
begin

text \<open>
  The contract of the conditional updates of tickets. The locale \<open>ticket_writer\<close> states what a repository
  method that updates at most one ticket promises; its lemmas (the invariant of the table, and what a
  later lookup finds) are proved once and hold for \<open>update\<close>, \<open>transition_status\<close>, \<open>assign_ticket\<close> and
  \<open>unassign_ticket\<close> of \<open>TicketRepository\<close>.
\<close>

section \<open>The invariant of the ticket table\<close>

definition tickets_ok :: "db \<Rightarrow> bool" where
  "tickets_ok d \<longleftrightarrow> distinct (map tk_id (tickets d)) \<and> list_all (\<lambda>k. ticket_violation k = None) (tickets d)"

lemma ticket_get_by_id_SomeD: "ticket_get_by_id i d = Some k \<Longrightarrow> k \<in> set (tickets d) \<and> tk_id k = i"
  unfolding ticket_get_by_id_def by (drule find_row_SomeD)

lemma tickets_okD: "tickets_ok d \<Longrightarrow> k \<in> set (tickets d) \<Longrightarrow> ticket_violation k = None"
  by (simp add: tickets_ok_def list_all_iff)

lemma tickets_ok_lookup: "tickets_ok d \<Longrightarrow> k \<in> set (tickets d) \<Longrightarrow> ticket_get_by_id (tk_id k) d = Some k"
  unfolding tickets_ok_def ticket_get_by_id_def by (blast intro: find_row_unique)

lemma ticket_violation_checks: "ticket_violation k = None \<Longrightarrow> ticket_checks k"
  by (simp add: ticket_violation_def split: if_splits)

lemma closed_fields:
  "ticket_violation k = None \<Longrightarrow> tk_status k = Closed \<longleftrightarrow> tk_closed_at k \<noteq> None \<and> tk_closed_by k \<noteq> None"
  by (drule ticket_violation_checks) (simp add: ticket_checks_def)

lemma resolved_fields: "ticket_violation k = None \<Longrightarrow> tk_status k = Resolved \<Longrightarrow> tk_resolved_at k \<noteq> None"
  by (drule ticket_violation_checks) (simp add: ticket_checks_def)

lemma tickets_ok_cong: "tickets d' = tickets d \<Longrightarrow> tickets_ok d' = tickets_ok d"
  by (simp add: tickets_ok_def)

lemma lookup_cong: "tickets d' = tickets d \<Longrightarrow> ticket_get_by_id i d' = ticket_get_by_id i d"
  by (simp add: ticket_get_by_id_def)

definition moves :: "(ticket \<Rightarrow> ticket \<Rightarrow> bool) \<Rightarrow> db \<Rightarrow> db \<Rightarrow> bool" where
  "moves R d d' \<longleftrightarrow> (\<forall>i k. ticket_get_by_id i d = Some k \<longrightarrow> (\<exists>k'. ticket_get_by_id i d' = Some k' \<and> (k' = k \<or> R k k')))"

lemma moves_same: "tickets d' = tickets d \<Longrightarrow> moves R d d'"
  by (simp add: moves_def ticket_get_by_id_def)

lemma moves_then_same: "moves R d d' \<Longrightarrow> tickets d'' = tickets d' \<Longrightarrow> moves R d d''"
  by (simp add: moves_def ticket_get_by_id_def)

section \<open>Updates of one ticket\<close>

lemma update_ticket_None:
  "update_ticket p f d = Inr (None, d') \<Longrightarrow> d' = d \<and> (\<forall>k \<in> set (tickets d). \<not> p k)"
  by (auto simp: update_ticket_def find_None_iff split: option.splits)

lemma update_ticket_Some:
  "update_ticket p f d = Inr (Some k', d') \<Longrightarrow>
     \<exists>k. find_row p (tickets d) = Some k \<and> k' = f k \<and> ticket_violation (f k) = None
       \<and> d' = d\<lparr>tickets := update_rows p f (tickets d)\<rparr>"
  by (auto simp: update_ticket_def split: option.splits)

locale ticket_writer =
  fixes target :: "'a \<Rightarrow> uuid" and hit :: "'a \<Rightarrow> ticket \<Rightarrow> bool" and change :: "'a \<Rightarrow> ticket \<Rightarrow> ticket"
    and store :: "'a \<Rightarrow> db \<Rightarrow> sql_error + ticket option \<times> db"
  assumes hit_id: "hit a k \<Longrightarrow> tk_id k = target a"
    and change_id: "tk_id (change a k) = tk_id k"
    and store_None: "store a d = Inr (None, d') \<Longrightarrow> d' = d \<and> (\<forall>k \<in> set (tickets d). \<not> hit a k)"
    and store_Some: "store a d = Inr (Some k', d') \<Longrightarrow>
      \<exists>k. find_row (hit a) (tickets d) = Some k \<and> k' = change a k \<and> ticket_violation (change a k) = None
        \<and> d' = d\<lparr>tickets := update_rows (hit a) (change a) (tickets d)\<rparr>"
begin

lemma store_frame: "store a d = Inr (r, d') \<Longrightarrow> d' = d\<lparr>tickets := tickets d'\<rparr>"
  by (cases r) (auto dest!: store_None store_Some)

lemma store_ok:
  assumes "store a d = Inr (r, d')" and "tickets_ok d"
  shows "tickets_ok d'"
proof (cases r)
  case (Some k')
  from store_Some [OF assms(1) [unfolded Some]] obtain k where
    k: "find_row (hit a) (tickets d) = Some k" "ticket_violation (change a k) = None"
      "d' = d\<lparr>tickets := update_rows (hit a) (change a) (tickets d)\<rparr>" by blast
  have same: "x = k" if "x \<in> set (tickets d)" "hit a x" for x
    using distinct_key_eqD [of tk_id "tickets d" x k] assms(2) find_row_SomeD [OF k(1)] that hit_id [of a x] hit_id [of a k]
    by (simp add: tickets_ok_def)
  have "ticket_violation y = None" if "y \<in> set (tickets d')" for y
    using that k(2) same tickets_okD [OF assms(2)] by (auto simp: k(3) set_update_rows)
  moreover have "map tk_id (tickets d') = map tk_id (tickets d)"
    by (simp add: k(3) change_id)
  ultimately show ?thesis using assms(2) by (simp add: tickets_ok_def list_all_iff)
qed (use assms store_None in blast)

lemma store_lookup:
  assumes "store a d = Inr (r, d')"
  shows "ticket_get_by_id i d' = map_option (\<lambda>k. if hit a k then change a k else k) (ticket_get_by_id i d)"
proof (cases r)
  case None
  with store_None assms have n: "d' = d" "\<forall>k \<in> set (tickets d). \<not> hit a k" by blast+
  show ?thesis using n ticket_get_by_id_SomeD [of i d] by (cases "ticket_get_by_id i d") auto
next
  case (Some k')
  with store_Some assms have "d' = d\<lparr>tickets := update_rows (hit a) (change a) (tickets d)\<rparr>" by blast
  then show ?thesis using find_row_update [of "\<lambda>k. tk_id k = i" "change a" "hit a" "tickets d"] change_id
    by (simp add: ticket_get_by_id_def)
qed

lemma store_result:
  assumes "store a d = Inr (Some k', d')" and "tickets_ok d"
  shows "\<exists>k. ticket_get_by_id (target a) d = Some k \<and> hit a k \<and> k' = change a k
    \<and> ticket_get_by_id (target a) d' = Some k' \<and> ticket_violation k' = None"
proof -
  from store_Some [OF assms(1)] obtain k where k: "find_row (hit a) (tickets d) = Some k" "k' = change a k"
      "ticket_violation (change a k) = None" by blast
  have h: "k \<in> set (tickets d)" "hit a k" using find_row_SomeD [OF k(1)] by blast+
  then have "ticket_get_by_id (target a) d = Some k" using tickets_ok_lookup [OF assms(2) h(1)] hit_id by metis
  with h k store_lookup [OF assms(1), of "target a"] show ?thesis by simp
qed

text \<open>A relation between a row and its successor, lifted to what lookups find before and after.\<close>

lemma store_moves:
  assumes "store a d = Inr (r, d')" and "tickets_ok d"
    and "\<And>k. k \<in> set (tickets d) \<Longrightarrow> hit a k \<Longrightarrow> ticket_violation (change a k) = None \<Longrightarrow> R k (change a k)"
  shows "moves R d d'"
  unfolding moves_def
proof (intro allI impI)
  fix i k assume k: "ticket_get_by_id i d = Some k"
  note l = store_lookup [OF assms(1), of i]
  show "\<exists>k'. ticket_get_by_id i d' = Some k' \<and> (k' = k \<or> R k k')"
  proof (cases "hit a k")
    case True
    have "change a k \<in> set (tickets d')" using l k True ticket_get_by_id_SomeD [of i d'] by auto
    then have "ticket_violation (change a k) = None" using tickets_okD [OF store_ok [OF assms(1,2)]] by blast
    with assms(3) ticket_get_by_id_SomeD [OF k] True l k show ?thesis by simp
  qed (use l k in simp)
qed

lemma store_misses:
  assumes "store a d = Inr (None, d')" and "ticket_get_by_id (target a) d = Some k"
  shows "\<not> hit a k"
  using store_None [OF assms(1)] ticket_get_by_id_SomeD [OF assms(2)] by blast

end

section \<open>The repository methods\<close>

record transition_args =
  ta_now :: datetime
  ta_ticket :: uuid
  ta_expected :: "ticket_status list"
  ta_status :: ticket_status
  ta_resolved_at :: "datetime option"
  ta_clear :: bool
  ta_note :: "string option"
  ta_closed_at :: "datetime option"
  ta_closed_by :: "uuid option"
  ta_window :: bool

definition transition_hit :: "transition_args \<Rightarrow> ticket \<Rightarrow> bool" where
  "transition_hit a k \<longleftrightarrow> tk_id k = ta_ticket a \<and> tk_status k \<in> set (ta_expected a)
     \<and> (ta_window a \<longrightarrow> within_window (ta_now a) k)"

definition transition_change :: "transition_args \<Rightarrow> ticket \<Rightarrow> ticket" where
  "transition_change a k = k\<lparr>tk_status := ta_status a,
     tk_resolved_at := (if ta_clear a then None else override (ta_resolved_at a) (tk_resolved_at k)),
     tk_resolution_note := override (ta_note a) (tk_resolution_note k),
     tk_closed_at := override (ta_closed_at a) (tk_closed_at k),
     tk_closed_by := override (ta_closed_by a) (tk_closed_by k), tk_updated_at := ta_now a\<rparr>"

definition transition_store :: "transition_args \<Rightarrow> db \<Rightarrow> sql_error + ticket option \<times> db" where
  "transition_store a = transition_status (ta_now a) (ta_ticket a) (ta_expected a) (ta_status a) (ta_resolved_at a)
     (ta_clear a) (ta_note a) (ta_closed_at a) (ta_closed_by a) (ta_window a)"

lemmas transition_parts = transition_hit_def [abs_def] transition_change_def [abs_def] transition_store_def

interpretation transition: ticket_writer ta_ticket transition_hit transition_change transition_store
proof
  fix a :: transition_args and d d' k k'
  have u: "transition_store a d = update_ticket (transition_hit a) (transition_change a) d"
    by (simp add: transition_parts transition_status_def)
  show "transition_hit a k \<Longrightarrow> tk_id k = ta_ticket a" by (simp add: transition_parts)
  show "tk_id (transition_change a k) = tk_id k" by (simp add: transition_parts)
  show "transition_store a d = Inr (None, d') \<Longrightarrow> d' = d \<and> (\<forall>k \<in> set (tickets d). \<not> transition_hit a k)"
    unfolding u by (rule update_ticket_None)
  show "transition_store a d = Inr (Some k', d') \<Longrightarrow> \<exists>k. find_row (transition_hit a) (tickets d) = Some k
      \<and> k' = transition_change a k \<and> ticket_violation (transition_change a k) = None
      \<and> d' = d\<lparr>tickets := update_rows (transition_hit a) (transition_change a) (tickets d)\<rparr>"
    unfolding u by (rule update_ticket_Some)
qed

definition set_hit :: "datetime \<times> uuid \<times> ticket_status option \<times> datetime option \<Rightarrow> ticket \<Rightarrow> bool" where
  "set_hit = (\<lambda>(t, i, st, fr) k. tk_id k = i)"

definition set_change :: "datetime \<times> uuid \<times> ticket_status option \<times> datetime option \<Rightarrow> ticket \<Rightarrow> ticket" where
  "set_change = (\<lambda>(t, i, st, fr) k. k\<lparr>tk_status := (case st of None \<Rightarrow> tk_status k | Some s \<Rightarrow> s),
     tk_first_response_at := override fr (tk_first_response_at k), tk_updated_at := t\<rparr>)"

lemmas set_parts = set_hit_def set_change_def

interpretation setting: ticket_writer "\<lambda>(t, i, st, fr). i" set_hit set_change ticket_set
proof
  fix a :: "datetime \<times> uuid \<times> ticket_status option \<times> datetime option" and d d' k k'
  have u: "ticket_set a d = update_ticket (set_hit a) (set_change a) d"
    by (cases a) (simp add: set_parts ticket_set_def)
  show "set_hit a k \<Longrightarrow> tk_id k = (case a of (t, i, st, fr) \<Rightarrow> i)" by (cases a) (simp add: set_parts)
  show "tk_id (set_change a k) = tk_id k" by (cases a) (simp add: set_parts)
  show "ticket_set a d = Inr (None, d') \<Longrightarrow> d' = d \<and> (\<forall>k \<in> set (tickets d). \<not> set_hit a k)"
    unfolding u by (rule update_ticket_None)
  show "ticket_set a d = Inr (Some k', d') \<Longrightarrow> \<exists>k. find_row (set_hit a) (tickets d) = Some k
      \<and> k' = set_change a k \<and> ticket_violation (set_change a k) = None
      \<and> d' = d\<lparr>tickets := update_rows (set_hit a) (set_change a) (tickets d)\<rparr>"
    unfolding u by (rule update_ticket_Some)
qed

text \<open>A guard that selects by identifier and a condition: assignment and its withdrawal.\<close>

definition assign_hit :: "uuid \<times> uuid \<times> uuid option \<Rightarrow> ticket \<Rightarrow> bool" where
  "assign_hit = (\<lambda>(i, new, expected) k. tk_id k = i \<and> tk_status k \<noteq> Closed \<and> tk_assignee_id k = expected)"

definition assign_change :: "uuid \<times> uuid \<times> uuid option \<Rightarrow> ticket \<Rightarrow> ticket" where
  "assign_change = (\<lambda>(i, new, expected) k. k\<lparr>tk_assignee_id := Some new\<rparr>)"

definition assign_store :: "uuid \<times> uuid \<times> uuid option \<Rightarrow> db \<Rightarrow> sql_error + ticket option \<times> db" where
  "assign_store = (\<lambda>(i, new, expected). repo_assign_ticket i new expected)"

lemmas assign_parts = assign_hit_def assign_change_def assign_store_def

interpretation assignment: ticket_writer fst assign_hit assign_change assign_store
proof
  fix a :: "uuid \<times> uuid \<times> uuid option" and d d' k k'
  obtain i new ex where a: "a = (i, new, ex)" by (cases a)
  have u: "assign_store a d = (case update_ticket (assign_hit a) (assign_change a) d of
      Inr (Some k, d') \<Rightarrow> if get_by_id new d = None then Inl IntegrityError else Inr (Some k, d') | r \<Rightarrow> r)"
    by (simp add: a assign_parts repo_assign_ticket_def)
  show "assign_hit a k \<Longrightarrow> tk_id k = fst a" by (simp add: a assign_parts)
  show "tk_id (assign_change a k) = tk_id k" by (simp add: a assign_parts)
  show "assign_store a d = Inr (None, d') \<Longrightarrow> d' = d \<and> (\<forall>k \<in> set (tickets d). \<not> assign_hit a k)"
    unfolding u by (auto split: sum.splits option.splits prod.splits if_splits dest: update_ticket_None)
  show "assign_store a d = Inr (Some k', d') \<Longrightarrow> \<exists>k. find_row (assign_hit a) (tickets d) = Some k
      \<and> k' = assign_change a k \<and> ticket_violation (assign_change a k) = None
      \<and> d' = d\<lparr>tickets := update_rows (assign_hit a) (assign_change a) (tickets d)\<rparr>"
    unfolding u by (rule update_ticket_Some) (auto split: sum.splits option.splits prod.splits if_splits)
qed

definition unassign_hit :: "uuid \<Rightarrow> ticket \<Rightarrow> bool" where
  "unassign_hit i k \<longleftrightarrow> tk_id k = i \<and> tk_status k \<noteq> Closed"

interpretation withdrawal: ticket_writer id unassign_hit "\<lambda>i k. k\<lparr>tk_assignee_id := None\<rparr>" repo_unassign_ticket
proof
  fix i d d' k k'
  have u: "repo_unassign_ticket i d = update_ticket (unassign_hit i) (\<lambda>k. k\<lparr>tk_assignee_id := None\<rparr>) d"
    by (simp add: repo_unassign_ticket_def unassign_hit_def [abs_def])
  show "unassign_hit i k \<Longrightarrow> tk_id k = id i" by (simp add: unassign_hit_def)
  show "tk_id (k\<lparr>tk_assignee_id := None\<rparr>) = tk_id k" by simp
  show "repo_unassign_ticket i d = Inr (None, d') \<Longrightarrow> d' = d \<and> (\<forall>k \<in> set (tickets d). \<not> unassign_hit i k)"
    unfolding u by (rule update_ticket_None)
  show "repo_unassign_ticket i d = Inr (Some k', d') \<Longrightarrow> \<exists>k. find_row (unassign_hit i) (tickets d) = Some k
      \<and> k' = k\<lparr>tk_assignee_id := None\<rparr> \<and> ticket_violation (k\<lparr>tk_assignee_id := None\<rparr>) = None
      \<and> d' = d\<lparr>tickets := update_rows (unassign_hit i) (\<lambda>k. k\<lparr>tk_assignee_id := None\<rparr>) (tickets d)\<rparr>"
    unfolding u by (rule update_ticket_Some)
qed

end
