(* ===== verification/Support_Machine.thy ===== *)
theory Support_Machine
  imports Support_Writes
begin

text \<open>
  The support module as a state machine: one step is one call of a service method or a run of a cron
  script. With \<open>alone = True\<close> every method acts on the database it read; with \<open>alone = False\<close> the lookup of
  a method may have read any database, which covers every interleaving with other transactions. The rule
  \<open>elsewhere\<close> stands for the rest of the portal.
\<close>

section \<open>Steps of a ticket row\<close>

inductive row_step :: "bool \<Rightarrow> ticket \<Rightarrow> ticket \<Rightarrow> bool" for alone where
  resolve: "tk_status k \<in> {Open, WaitingOnSupport, WaitingOnCustomer} \<Longrightarrow>
    row_step alone k (k\<lparr>tk_status := Resolved, tk_resolved_at := Some now, tk_resolution_note := Some note, tk_updated_at := t\<rparr>)"
| close: "tk_status k \<noteq> Closed \<Longrightarrow>
    row_step alone k (k\<lparr>tk_status := Closed, tk_closed_at := Some now, tk_closed_by := Some who, tk_updated_at := t\<rparr>)"
| reopen: "tk_status k = Resolved \<Longrightarrow> within_window t k \<Longrightarrow>
    row_step alone k (k\<lparr>tk_status := WaitingOnSupport, tk_resolved_at := None, tk_updated_at := t\<rparr>)"
| assign: "tk_status k \<noteq> Closed \<Longrightarrow> row_step alone k (k\<lparr>tk_assignee_id := a\<rparr>)"
| answer: "ticket_violation k' = None \<Longrightarrow>
    k' = k\<lparr>tk_status := st, tk_first_response_at := override fr (tk_first_response_at k), tk_updated_at := t\<rparr> \<Longrightarrow>
    (alone \<Longrightarrow> st = tk_status k \<and> st \<noteq> Closed \<or> st = WaitingOnCustomer \<and> tk_status k \<in> {Open, WaitingOnSupport, WaitingOnCustomer}
      \<or> st = WaitingOnSupport \<and> tk_status k = WaitingOnCustomer) \<Longrightarrow>
    row_step alone k k'"

inductive support_step :: "bool \<Rightarrow> libs \<Rightarrow> portal \<Rightarrow> portal \<Rightarrow> bool" for alone L where
  create: "support_step alone L p (snd (create_ticket L rq (\<lambda>_. p) requester key subject body category atts p))"
| assign: "(alone \<Longrightarrow> seen = database p) \<Longrightarrow>
    support_step alone L p (snd (assign_ticket L rq seen i actor scopes assignee p))"
| unassign: "(alone \<Longrightarrow> seen = database p) \<Longrightarrow>
    support_step alone L p (snd (unassign_ticket L rq seen i actor scopes p))"
| resolve: "(alone \<Longrightarrow> seen = database p) \<Longrightarrow>
    support_step alone L p (snd (resolve_ticket L rq seen i actor kind note p))"
| close: "(alone \<Longrightarrow> seen = database p) \<Longrightarrow>
    support_step alone L p (snd (close_ticket L rq seen i actor kind p))"
| reopen: "(alone \<Longrightarrow> seen = database p) \<Longrightarrow>
    support_step alone L p (snd (reopen_ticket L rq seen i actor kind p))"
| reply: "(alone \<Longrightarrow> seen = database p) \<Longrightarrow>
    support_step alone L p (snd (create_reply L rq seen i actor kind body vis atts p))"
| auto_close: "support_step alone L p (snd (auto_close_resolved_tickets L rq p))"
| purge: "(alone \<Longrightarrow> seen = database p) \<Longrightarrow>
    support_step alone L p (snd (purge_unbound_attachments rq seen p))"
| elsewhere: "tickets (database p') = tickets (database p) \<Longrightarrow> attachments (database p') = attachments (database p) \<Longrightarrow>
    ticket_replies (database p') = ticket_replies (database p) \<Longrightarrow> support_step alone L p p'"

section \<open>What the methods do to the tables\<close>

lemma record_event_frame: "record_event L rq i cat ev a g oc pl d = Inr d' \<Longrightarrow> d' = d\<lparr>audit_logs := audit_logs d'\<rparr>"
  unfolding record_event_def repo_record_event_def by (rule insert_audit_log_frame)

lemma record_event_tables:
  assumes "record_event L rq i cat ev a g oc pl d = Inr d'"
  shows "tickets d' = tickets d" "attachments d' = attachments d" "ticket_replies d' = ticket_replies d"
  using arg_cong [OF record_event_frame [OF assms], of tickets] arg_cong [OF record_event_frame [OF assms], of attachments]
    arg_cong [OF record_event_frame [OF assms], of ticket_replies] by simp_all

lemma audited_tables:
  "snd (audited L rq ev a k d p) = p \<or>
   tickets (database (snd (audited L rq ev a k d p))) = tickets d
   \<and> attachments (database (snd (audited L rq ev a k d p))) = attachments d
   \<and> ticket_replies (database (snd (audited L rq ev a k d p))) = ticket_replies d"
  by (auto simp: audited_def dest: record_event_tables split: sum.splits)

text \<open>A change of one ticket: the tables afterwards are those before, or those a repository update made.\<close>

definition one_write :: "(db \<Rightarrow> sql_error + ticket option \<times> db) \<Rightarrow> portal \<Rightarrow> portal \<Rightarrow> bool" where
  "one_write w p p' \<longleftrightarrow> tickets (database p') = tickets (database p) \<and> attachments (database p') = attachments (database p)
     \<or> (\<exists>r d. w (database p) = Inr (r, d) \<and> tickets (database p') = tickets d \<and> attachments (database p') = attachments d)"

lemma one_write_refl: "one_write w p p"
  by (simp add: one_write_def)

lemma one_write_audited:
  assumes "w (database p) = Inr (Some k, d)"
  shows "one_write w p (snd (audited L rq ev a k d p))"
  using audited_tables [of L rq ev a k d p] assms by (auto simp: one_write_def)

lemma one_write_mail: "one_write w p p' \<Longrightarrow> one_write w p (send_email rq m p')"
  by (simp add: one_write_def)

lemma assign_ticket_write:
  "\<exists>expected. one_write (assign_store (i, assignee, expected)) p (snd (assign_ticket L rq seen i actor scopes assignee p))"
proof (cases "ticket_get_by_id i seen")
  case (Some k)
  show ?thesis
    by (rule exI [of _ "tk_assignee_id k"])
      (auto simp: assign_ticket_def assign_store_def Some one_write_refl intro!: one_write_audited split: sum.splits option.splits)
qed (auto simp: assign_ticket_def one_write_refl)

lemma unassign_ticket_write: "one_write (repo_unassign_ticket i) p (snd (unassign_ticket L rq seen i actor scopes p))"
  by (auto simp: unassign_ticket_def one_write_refl intro!: one_write_audited split: sum.splits option.splits)

definition resolve_args :: "request \<Rightarrow> uuid \<Rightarrow> string \<Rightarrow> transition_args" where
  "resolve_args rq i note = \<lparr>ta_now = rq_db_now rq, ta_ticket = i, ta_expected = RESOLVE_ELIGIBLE_STATUSES, ta_status = Resolved,
     ta_resolved_at = Some (rq_now rq), ta_clear = False, ta_note = Some note, ta_closed_at = None, ta_closed_by = None, ta_window = False\<rparr>"

definition close_args :: "request \<Rightarrow> uuid \<Rightarrow> uuid \<Rightarrow> transition_args" where
  "close_args rq i actor = \<lparr>ta_now = rq_db_now rq, ta_ticket = i, ta_expected = CLOSE_ELIGIBLE_STATUSES, ta_status = Closed,
     ta_resolved_at = None, ta_clear = False, ta_note = None, ta_closed_at = Some (rq_now rq), ta_closed_by = Some actor, ta_window = False\<rparr>"

definition reopen_args :: "request \<Rightarrow> uuid \<Rightarrow> transition_args" where
  "reopen_args rq i = \<lparr>ta_now = rq_db_now rq, ta_ticket = i, ta_expected = [Resolved], ta_status = WaitingOnSupport,
     ta_resolved_at = None, ta_clear = True, ta_note = None, ta_closed_at = None, ta_closed_by = None, ta_window = True\<rparr>"

lemma resolve_ticket_write: "one_write (transition_store (resolve_args rq i note)) p (snd (resolve_ticket L rq seen i actor kind note p))"
  by (auto simp: resolve_ticket_def transition_store_def resolve_args_def one_write_refl case_prod_beta
      intro!: one_write_mail one_write_audited split: sum.splits option.splits)

lemma close_ticket_write: "one_write (transition_store (close_args rq i actor)) p (snd (close_ticket L rq seen i actor kind p))"
  by (auto simp: close_ticket_def transition_store_def close_args_def one_write_refl intro!: one_write_audited split: sum.splits option.splits)

lemma reopen_ticket_write: "one_write (transition_store (reopen_args rq i)) p (snd (reopen_ticket L rq seen i actor kind p))"
  by (auto simp: reopen_ticket_def transition_store_def reopen_args_def REOPEN_ELIGIBLE_STATUSES_def one_write_refl
      intro!: one_write_audited split: sum.splits option.splits)

lemma bind_all_tickets:
  assumes "\<And>i d. tickets (snd (bind i d)) = tickets d"
  shows "bind_all bind ids d = Some d' \<Longrightarrow> tickets d' = tickets d"
proof (induction ids arbitrary: d)
  case (Cons i ids)
  from Cons.prems obtain a d1 where b: "bind i d = (Some a, d1)" "bind_all bind ids d1 = Some d'"
    by (auto split: prod.splits option.splits)
  from Cons.IH [OF b(2)] assms [of i d] b(1) show ?case by simp
qed simp

lemma bind_tickets [simp]:
  "tickets (snd (bind_to_ticket x i d)) = tickets d" "tickets (snd (bind_to_reply x i d)) = tickets d"
  by (simp_all add: bind_to_ticket_def bind_to_reply_def case_prod_beta)

lemma ticket_create_Inr:
  assumes "ticket_create L t i u s b c d = Inr (k, d')"
  shows "tickets d' = tickets d @ [k]" "ticket_violation k = None" "tk_id k = i" "i \<notin> tk_id ` set (tickets d)"
    "attachments d' = attachments d" "tk_status k = Open" "tk_requester_id k = u"
    "tk_ticket_number k = ticket_number L t (ticket_number_seq d)" "ticket_number_seq d' = Suc (ticket_number_seq d)"
    "tk_ticket_number k \<notin> tk_ticket_number ` set (tickets d)" "users d' = users d"
  using assms by (auto simp: ticket_create_def Let_def advance_ticket_seq_def split: option.splits if_splits)

lemma tickets_ok_append:
  "tickets_ok d \<Longrightarrow> tickets d' = tickets d @ [k] \<Longrightarrow> ticket_violation k = None \<Longrightarrow> tk_id k \<notin> tk_id ` set (tickets d)
    \<Longrightarrow> tickets_ok d' \<and> moves R d d'"
  by (auto simp: tickets_ok_def moves_def ticket_get_by_id_def find_row_append)

text \<open>The transaction of a successful creation.\<close>

lemma create_ticket_tx_Inr:
  assumes "create_ticket_tx L rq u s b c atts d = (Inr k, d')"
  obtains d1 d2 where "ticket_create L (rq_db_now rq) (rq_uuid rq 0) u s b c d = Inr (k, d1)"
    and "bind_all (bind_to_ticket (tk_id k)) atts d1 = Some d2" and "tickets d' = tickets d @ [k]"
    and "attachments d' = attachments d2" and "attachments_bindable u at_ticket_id atts d"
  using assms
proof (cases "ticket_create L (rq_db_now rq) (rq_uuid rq 0) u s b c d")
  case (Inr r)
  obtain k1 d1 where r: "r = (k1, d1)" by (cases r)
  with assms Inr obtain d2 where b: "bind_all (bind_to_ticket (tk_id k1)) atts d1 = Some d2"
    and e: "record_event L rq (rq_uuid rq 1) ''tickets'' ''ticket_created'' u (Some (tk_id k1)) (Some ''success'')
      (Some (JObj [(''ticket_number'', JStr (tk_ticket_number k1)), (''category'', JStr c)])) d2 = Inr d'"
    and k: "k1 = k" and a: "attachments_bindable u at_ticket_id atts d"
    by (auto simp: create_ticket_tx_def split: if_splits option.splits sum.splits)
  have "tickets d' = tickets d @ [k]"
    using record_event_tables(1) [OF e] bind_all_tickets [OF bind_tickets(1) b] ticket_create_Inr(1) [of L] Inr r k by simp
  with that Inr r b record_event_tables(2) [OF e] k a show thesis by simp
qed (auto simp: create_ticket_tx_def split: if_splits)

lemma create_ticket_tx_Inl: "create_ticket_tx L rq u s b c atts d = (Inl e, d') \<Longrightarrow> d' = d \<or> d' = advance_ticket_seq d"
  by (auto simp: create_ticket_tx_def split: if_splits option.splits sum.splits prod.splits)

lemma create_ticket_cases:
  obtains (unchanged) "tickets (database (snd (create_ticket L rq (\<lambda>_. p) u key s b c atts p))) = tickets (database p)"
      "attachments (database (snd (create_ticket L rq (\<lambda>_. p) u key s b c atts p))) = attachments (database p)"
  | (created) k d' where "create_ticket_tx L rq u s b c atts (database p) = (Inr k, d')"
      "database (snd (create_ticket L rq (\<lambda>_. p) u key s b c atts p)) = d'"
proof (cases "create_ticket_tx L rq u s b c atts (database p)")
  case (Pair r d')
  have mail: "database (case e of None \<Rightarrow> q | Some m \<Rightarrow> send_email rq (f m) q) = database q" for e q and f :: "string \<Rightarrow> email"
    by (cases e) simp_all
  show thesis
  proof (cases r)
    case (Inl e)
    then have "d' = database p \<or> d' = advance_ticket_seq (database p)" using create_ticket_tx_Inl Pair by simp
    with Pair Inl unchanged show thesis
      by (auto simp: create_ticket_def Let_def case_prod_beta mail advance_ticket_seq_def split: sum.splits option.splits if_splits)
  next
    case (Inr k)
    show thesis
    proof (cases "database (snd (create_ticket L rq (\<lambda>_. p) u key s b c atts p)) = d'")
      case True
      with Pair Inr created show thesis by simp
    next
      case False
      with Pair Inr have "database (snd (create_ticket L rq (\<lambda>_. p) u key s b c atts p)) = database p"
        by (auto simp: create_ticket_def Let_def case_prod_beta mail split: sum.splits option.splits if_splits)
      with unchanged show thesis by simp
    qed
  qed
qed

lemma reply_create_Inr:
  assumes "reply_create setting t i g a kind b v d = Inr (r, d')"
  shows "tickets d' = tickets d" "attachments d' = attachments d" "ticket_replies d' = ticket_replies d @ [r]"
    "tr_id r = i" "tr_visibility r = v" "tr_author_kind r = kind" "tr_ticket_id r = g" "v = Public \<or> kind = Agent"
    "users d' = users d"
  using assms by (auto simp: reply_create_def Let_def split: if_splits)

text \<open>The database in which the status write of a reply runs has the tickets of the current one.\<close>

lemma reply_tx_Inr:
  assumes "reply_tx L rq ticket actor kind body vis atts d = Inr (r, d')"
  obtains d2 where "tickets d2 = tickets d" and
    "(case reply_effect (rq_now rq) kind vis ticket of (status, fr, reopens) \<Rightarrow>
       if reopens then reopen_by_reply L rq (tk_id ticket) actor d2 = Inr d'
       else if status = None \<and> fr = None then d' = d2
       else (\<exists>x. ticket_set (rq_db_now rq, tk_id ticket, status, fr) d2 = Inr (x, d')))"
proof -
  obtain status fr reopens where e: "reply_effect (rq_now rq) kind vis ticket = (status, fr, reopens)"
    by (cases "reply_effect (rq_now rq) kind vis ticket")
  have ex: "reopens \<Longrightarrow> status = None \<and> fr = None" using e by (auto simp: reply_effect_def split: if_splits)
  from assms obtain d1 d2 where c: "reply_create kind (rq_db_now rq) (rq_uuid rq 0) (tk_id ticket) actor kind body vis d = Inr (r, d1)"
      and b: "bind_all (bind_to_reply (tr_id r)) atts d1 = Some d2"
      and rest: "(if reopens then reopen_by_reply L rq (tk_id ticket) actor d2 = Inr d'
        else if status = None \<and> fr = None then d' = d2
        else (\<exists>x. ticket_set (rq_db_now rq, tk_id ticket, status, fr) d2 = Inr (x, d')))"
    using ex by (auto simp: reply_tx_def e Let_def ticket_update_def split: sum.splits option.splits if_splits)
  have "tickets d2 = tickets d" using bind_all_tickets [OF bind_tickets(2) b] reply_create_Inr(1) [OF c] by simp
  with rest e that show thesis by simp
qed

lemma create_reply_cases:
  obtains (unchanged) "database (snd (create_reply L rq seen i actor kind body vo atts p)) = database p"
  | (replied) ticket vis r where "ticket_get_by_id i seen = Some ticket" and "tk_status ticket \<noteq> Closed"
      and "reply_tx L rq ticket actor kind body vis atts (database p) = Inr (r, database (snd (create_reply L rq seen i actor kind body vo atts p)))"
      and "attachments_bindable actor at_ticket_reply_id atts (database p)"
proof (cases "database (snd (create_reply L rq seen i actor kind body vo atts p)) = database p")
  case False
  then obtain ticket where t: "ticket_get_by_id i seen = Some ticket" by (auto simp: create_reply_def split: option.splits)
  from False show thesis
    by (auto simp: create_reply_def t Let_def case_prod_beta split: if_splits sum.splits intro!: replied [OF t])
qed

lemma moves_mono: "moves R d d' \<Longrightarrow> (\<And>k k'. R k k' \<Longrightarrow> S k k') \<Longrightarrow> moves S d d'"
  unfolding moves_def by blast

lemma moves_from: "moves R d d' \<Longrightarrow> tickets d = tickets d0 \<Longrightarrow> moves R d0 d'"
  by (simp add: moves_def ticket_get_by_id_def)

text \<open>The three transitions and the two assignments, as steps of the row they change.\<close>

lemma transition_row_steps:
  "transition_hit (resolve_args rq i note) k \<Longrightarrow> row_step alone k (transition_change (resolve_args rq i note) k)"
  "transition_hit (close_args rq i actor) k \<Longrightarrow> row_step alone k (transition_change (close_args rq i actor) k)"
  "transition_hit (reopen_args rq i) k \<Longrightarrow> row_step alone k (transition_change (reopen_args rq i) k)"
proof -
  show "transition_hit (resolve_args rq i note) k \<Longrightarrow> row_step alone k (transition_change (resolve_args rq i note) k)"
    using row_step.resolve [of k alone "rq_db_now rq" "note" "rq_now rq"]
    by (auto simp: transition_parts resolve_args_def RESOLVE_ELIGIBLE_STATUSES_def override_def)
  show "transition_hit (close_args rq i actor) k \<Longrightarrow> row_step alone k (transition_change (close_args rq i actor) k)"
    using row_step.close [of k alone "rq_db_now rq" actor "rq_now rq"]
    by (auto simp: transition_parts close_args_def CLOSE_ELIGIBLE_STATUSES_def override_def)
  show "transition_hit (reopen_args rq i) k \<Longrightarrow> row_step alone k (transition_change (reopen_args rq i) k)"
    using row_step.reopen [of k "rq_db_now rq" alone]
    by (auto simp: transition_parts reopen_args_def override_def)
qed

lemma assign_row_steps:
  "assign_hit a k \<Longrightarrow> row_step alone k (assign_change a k)"
  "unassign_hit i k \<Longrightarrow> row_step alone k (k\<lparr>tk_assignee_id := None\<rparr>)"
  by (cases a; auto simp: assign_parts unassign_hit_def intro: row_step.assign)+

definition row_moves :: "bool \<Rightarrow> db \<Rightarrow> db \<Rightarrow> bool" where
  "row_moves alone d d' \<longleftrightarrow> tickets_ok d' \<and> moves (\<lambda>k k'. row_step alone k k' \<and> ticket_violation k' = None) d d'"

lemma row_moves_same: "tickets_ok d \<Longrightarrow> tickets d' = tickets d \<Longrightarrow> row_moves alone d d'"
  by (simp add: row_moves_def moves_def ticket_get_by_id_def tickets_ok_def)

lemma row_moves_cong: "tickets d1 = tickets d \<Longrightarrow> tickets d1' = tickets d' \<Longrightarrow> row_moves alone d1 d1' = row_moves alone d d'"
  by (simp add: row_moves_def moves_def ticket_get_by_id_def tickets_ok_def)

lemma one_write_moves:
  assumes "one_write w p p'" and "tickets_ok (database p)"
    and "\<And>r d. w (database p) = Inr (r, d) \<Longrightarrow> row_moves alone (database p) d"
  shows "row_moves alone (database p) (database p')"
  using assms row_moves_same row_moves_cong [of "database p" "database p"] unfolding one_write_def by metis

lemma transition_moves:
  assumes "transition_store a d = Inr (r, d')" and "tickets_ok d"
    and "\<And>k. transition_hit a k \<Longrightarrow> row_step alone k (transition_change a k)"
  shows "row_moves alone d d'"
  unfolding row_moves_def
  by (intro conjI transition.store_ok [OF assms(1,2)] transition.store_moves [OF assms(1,2)] assms(3))

lemma assign_moves:
  assumes "assign_store a d = Inr (r, d')" and "tickets_ok d"
  shows "row_moves alone d d'"
  unfolding row_moves_def
  by (intro conjI assignment.store_ok [OF assms] assignment.store_moves [OF assms] assign_row_steps(1))

lemma unassign_moves:
  assumes "repo_unassign_ticket i d = Inr (r, d')" and "tickets_ok d"
  shows "row_moves alone d d'"
  unfolding row_moves_def
  by (intro conjI withdrawal.store_ok [OF assms] withdrawal.store_moves [OF assms] assign_row_steps(2))

lemma reopen_by_reply_moves:
  assumes "reopen_by_reply L rq i actor d = Inr d'" and "tickets_ok d"
  shows "row_moves alone d d'"
proof -
  obtain r d1 where t: "transition_store (reopen_args rq i) d = Inr (r, d1)" and "tickets d' = tickets d1"
    using assms(1) by (auto simp: reopen_by_reply_def transition_store_def reopen_args_def dest!: record_event_tables(1)
        split: sum.splits option.splits)
  with row_moves_cong [of d d d' d1 alone] transition_moves [OF t assms(2) transition_row_steps(3)] show ?thesis by simp
qed

lemma ticket_set_moves:
  assumes s: "ticket_set (t, i, st, fr) d = Inr (r, d')" and ok: "tickets_ok d"
    and alone: "\<And>k. alone \<Longrightarrow> ticket_get_by_id i d = Some k \<Longrightarrow>
      (case st of None \<Rightarrow> tk_status k \<noteq> Closed
       | Some s \<Rightarrow> s = WaitingOnCustomer \<and> tk_status k \<in> {Open, WaitingOnSupport, WaitingOnCustomer}
           \<or> s = WaitingOnSupport \<and> tk_status k = WaitingOnCustomer)"
  shows "row_moves alone d d'"
  unfolding row_moves_def
proof (intro conjI setting.store_ok [OF s ok] setting.store_moves [OF s ok])
  fix k assume k: "k \<in> set (tickets d)" "set_hit (t, i, st, fr) k" and v: "ticket_violation (set_change (t, i, st, fr) k) = None"
  then have "ticket_get_by_id i d = Some k" using tickets_ok_lookup [OF ok k(1)] by (simp add: set_hit_def)
  then show "row_step alone k (set_change (t, i, st, fr) k)"
    using alone v by (intro row_step.answer [OF v, where k = k and st = "case st of None \<Rightarrow> tk_status k | Some s \<Rightarrow> s" and fr = fr and t = t])
      (auto simp: set_change_def split: option.splits)
  show "ticket_violation (set_change (t, i, st, fr) k) = None" by (rule v)
qed

lemma reply_tx_moves:
  assumes r: "reply_tx L rq ticket actor kind body vis atts d = Inr (r, d')" and ok: "tickets_ok d"
    and seen: "alone \<Longrightarrow> ticket_get_by_id (tk_id ticket) d = Some ticket" and not_closed: "tk_status ticket \<noteq> Closed"
  shows "row_moves alone d d'"
proof -
  obtain status fr reopens where e: "reply_effect (rq_now rq) kind vis ticket = (status, fr, reopens)"
    by (cases "reply_effect (rq_now rq) kind vis ticket")
  obtain d2 where d2: "tickets d2 = tickets d" and c: "if reopens then reopen_by_reply L rq (tk_id ticket) actor d2 = Inr d'
      else if status = None \<and> fr = None then d' = d2 else (\<exists>x. ticket_set (rq_db_now rq, tk_id ticket, status, fr) d2 = Inr (x, d'))"
    using reply_tx_Inr [OF r] e by auto
  have ok2: "tickets_ok d2" using ok d2 by (simp add: tickets_ok_def)
  have same: "ticket_get_by_id i d2 = ticket_get_by_id i d" for i using d2 by (simp add: ticket_get_by_id_def)
  have "row_moves alone d2 d'"
  proof (cases "reopens \<or> status = None \<and> fr = None")
    case True
    then show ?thesis using c reopen_by_reply_moves [OF _ ok2] row_moves_same [OF ok2] by (auto split: if_splits)
  next
    case False
    then obtain x where x: "ticket_set (rq_db_now rq, tk_id ticket, status, fr) d2 = Inr (x, d')" using c by auto
    show ?thesis
    proof (rule ticket_set_moves [OF x ok2])
      fix k assume "alone" "ticket_get_by_id (tk_id ticket) d2 = Some k"
      then have "k = ticket" using seen same by simp
      then show "case status of None \<Rightarrow> tk_status k \<noteq> Closed
          | Some s \<Rightarrow> s = WaitingOnCustomer \<and> tk_status k \<in> {Open, WaitingOnSupport, WaitingOnCustomer}
             \<or> s = WaitingOnSupport \<and> tk_status k = WaitingOnCustomer"
        using e not_closed by (cases "tk_status ticket") (auto simp: reply_effect_def split: if_splits)
    qed
  qed
  then show ?thesis using row_moves_cong [of d2 d d' d' alone] d2 by simp
qed

lemma create_reply_moves:
  assumes "tickets_ok (database p)" and "alone \<Longrightarrow> seen = database p"
  shows "row_moves alone (database p) (database (snd (create_reply L rq seen i actor kind body vo atts p)))"
proof (rule create_reply_cases [of L rq seen i actor kind body vo atts p])
  assume "database (snd (create_reply L rq seen i actor kind body vo atts p)) = database p"
  then show ?thesis using row_moves_same [OF assms(1)] by simp
next
  fix ticket vis r
  assume t: "ticket_get_by_id i seen = Some ticket" "tk_status ticket \<noteq> Closed"
    and x: "reply_tx L rq ticket actor kind body vis atts (database p)
      = Inr (r, database (snd (create_reply L rq seen i actor kind body vo atts p)))"
  have "tk_id ticket = i" using ticket_get_by_id_SomeD [OF t(1)] by simp
  then show ?thesis using reply_tx_moves [OF x assms(1) _ t(2)] assms(2) t(1) by blast
qed

lemma auto_close_moves:
  assumes ok: "tickets_ok d"
  shows "row_moves alone d (snd (auto_close_resolved_past_window t now who d))"
proof -
  let ?f = "\<lambda>k. k\<lparr>tk_status := Closed, tk_closed_at := Some now, tk_closed_by := Some who, tk_updated_at := t\<rparr>"
  let ?d' = "snd (auto_close_resolved_past_window t now who d)"
  have d': "tickets ?d' = update_rows (past_window t) ?f (tickets d)"
    by (simp add: auto_close_resolved_past_window_def)
  have v: "ticket_violation (?f k) = None" if "ticket_violation k = None" for k
    using that by (auto simp: ticket_violation_def ticket_checks_def split: if_splits)
  have "tickets_ok ?d'"
    using ok v by (auto simp: tickets_ok_def d' list_all_iff set_update_rows)
  moreover have "moves (\<lambda>k k'. row_step alone k k' \<and> ticket_violation k' = None) d ?d'"
    unfolding moves_def
  proof (intro allI impI)
    fix i k assume k: "ticket_get_by_id i d = Some k"
    have l: "ticket_get_by_id i ?d' = map_option (\<lambda>k. if past_window t k then ?f k else k) (ticket_get_by_id i d)"
      using find_row_update [of "\<lambda>k. tk_id k = i" ?f "past_window t" "tickets d"] by (simp add: ticket_get_by_id_def d')
    have "row_step alone k (?f k) \<and> ticket_violation (?f k) = None" if "past_window t k"
      using row_step.close [of k alone t who now] that v tickets_okD [OF ok] ticket_get_by_id_SomeD [OF k]
      by (auto simp: past_window_def)
    with l k show "\<exists>k'. ticket_get_by_id i ?d' = Some k' \<and> (k' = k \<or> row_step alone k k' \<and> ticket_violation k' = None)"
      by simp
  qed
  ultimately show ?thesis by (simp add: row_moves_def)
qed

lemma audit_auto_closed_tables:
  "audit_auto_closed L rq n ids d = Inr d' \<Longrightarrow> tickets d' = tickets d \<and> attachments d' = attachments d \<and> ticket_replies d' = ticket_replies d"
  by (induction L rq n ids d rule: audit_auto_closed.induct) (auto dest: record_event_tables split: sum.splits)

lemma auto_close_script:
  "database (snd (auto_close_resolved_tickets L rq p)) = database p
   \<or> tickets (database (snd (auto_close_resolved_tickets L rq p)))
       = tickets (snd (auto_close_resolved_past_window (rq_db_now rq) (rq_now rq) SYSTEM_ACTOR_ID (database p)))
     \<and> attachments (database (snd (auto_close_resolved_tickets L rq p))) = attachments (database p)"
  by (auto simp: auto_close_resolved_tickets_def auto_close_resolved_past_window_def dest!: audit_auto_closed_tables split: sum.splits)

text \<open>Every step keeps the constraints of the table and moves each ticket by at most one row step.\<close>

lemma support_step_moves:
  assumes "support_step alone L p p'" and ok: "tickets_ok (database p)"
  shows "row_moves alone (database p) (database p')"
  using assms(1)
proof cases
  case (create rq requester key subject body category atts)
  show ?thesis
  proof (rule create_ticket_cases [of L rq p requester key subject body category atts])
    assume "tickets (database (snd (create_ticket L rq (\<lambda>_. p) requester key subject body category atts p))) = tickets (database p)"
    then show ?thesis using row_moves_same [OF ok] create by simp
  next
    fix k d' assume c: "create_ticket_tx L rq requester subject body category atts (database p) = (Inr k, d')"
      and d': "database (snd (create_ticket L rq (\<lambda>_. p) requester key subject body category atts p)) = d'"
    obtain d1 where "ticket_create L (rq_db_now rq) (rq_uuid rq 0) requester subject body category (database p) = Inr (k, d1)"
      and t: "tickets d' = tickets (database p) @ [k]" using create_ticket_tx_Inr [OF c] by metis
    from tickets_ok_append [OF ok t] ticket_create_Inr [OF this(1)] show ?thesis
      by (simp add: row_moves_def create d')
  qed
next
  case (assign seen rq i actor scopes assignee)
  obtain ex where "one_write (assign_store (i, assignee, ex)) p p'" using assign_ticket_write assign(1) by blast
  then show ?thesis using one_write_moves [OF _ ok] assign_moves [OF _ ok] by blast
next
  case (unassign seen rq i actor scopes)
  then show ?thesis using one_write_moves [OF unassign_ticket_write ok] unassign_moves [OF _ ok] by blast
next
  case (resolve seen rq i actor kind nt)
  then show ?thesis using one_write_moves [OF resolve_ticket_write ok] transition_moves [OF _ ok transition_row_steps(1)] by blast
next
  case (close seen rq i actor kind)
  then show ?thesis using one_write_moves [OF close_ticket_write ok] transition_moves [OF _ ok transition_row_steps(2)] by blast
next
  case (reopen seen rq i actor kind)
  then show ?thesis using one_write_moves [OF reopen_ticket_write ok] transition_moves [OF _ ok transition_row_steps(3)] by blast
next
  case (reply seen rq i actor kind body vis atts)
  then show ?thesis using create_reply_moves [OF ok] by simp
next
  case (auto_close rq)
  then show ?thesis using auto_close_script [of L rq p] auto_close_moves [OF ok, of alone] row_moves_same [OF ok]
      row_moves_cong [of "database p" "database p"] by metis
next
  case (purge seen rq)
  then show ?thesis using row_moves_same [OF ok]
    by (simp add: purge_unbound_attachments_def purge_attachments_def Let_def)
next
  case elsewhere
  then show ?thesis using row_moves_same [OF ok] by simp
qed

end
