(* ===== verification/Ownership.thy ===== *)
theory Ownership
  imports Session_Machine Profile Support_Machine
begin

text \<open>
  What belongs to an account, and that the operations a customer can reach through an access token write only
  there. \<open>foreign i d\<close> is the database without the rows of account \<open>i\<close> and without the append-only logs; an
  operation that acts for \<open>i\<close> leaves it as it was.
\<close>

definition foreign :: "uuid \<Rightarrow> db \<Rightarrow> db" where
  "foreign i d = d\<lparr>
     users := filter (\<lambda>u. u_id u \<noteq> i) (users d),
     user_sessions := filter (\<lambda>s. us_user_id s \<noteq> i) (user_sessions d),
     password_reset_tokens := filter (\<lambda>k. prt_user_id k \<noteq> i) (password_reset_tokens d),
     refresh_tokens := filter (\<lambda>r. rt_user_id r \<noteq> i) (refresh_tokens d),
     mfa_recovery_codes := filter (\<lambda>c. mrc_user_id c \<noteq> i) (mfa_recovery_codes d),
     email_verification_tokens := filter (\<lambda>k. evt_user_id k \<noteq> i) (email_verification_tokens d),
     email_change_tokens := filter (\<lambda>k. ect_user_id k \<noteq> i) (email_change_tokens d),
     tickets := filter (\<lambda>k. tk_requester_id k \<noteq> i) (tickets d),
     ticket_replies := filter (\<lambda>r. tr_author_id r \<noteq> i) (ticket_replies d),
     attachments := filter (\<lambda>a. at_uploaded_by a \<noteq> i) (attachments d),
     auth_audit_logs := [], admin_audit_logs := [], account_lifecycle_audit_logs := [],
     profile_audit_logs := [], audit_logs := [], ticket_number_seq := 0\<rparr>"

text \<open>The keys of the schema: primary keys of sessions, tickets and attachments, and one owner per family.\<close>

definition well_keyed :: "db \<Rightarrow> bool" where
  "well_keyed d \<longleftrightarrow> distinct (map us_jti (user_sessions d)) \<and> family_inv (refresh_tokens d)
     \<and> distinct (map tk_id (tickets d)) \<and> distinct (map at_id (attachments d))"

section \<open>Writes to rows of the owner\<close>

lemma others_after_update:
  assumes "\<And>r. r \<in> set rows \<Longrightarrow> P r \<Longrightarrow> k r = i \<and> k (f r) = i"
  shows "filter (\<lambda>r. k r \<noteq> i) (update_rows P f rows) = filter (\<lambda>r. k r \<noteq> i) rows"
  using assms by (induction rows) auto

lemma others_after_delete:
  assumes "\<And>r. P r \<Longrightarrow> k r = i"
  shows "filter (\<lambda>r. k r \<noteq> i) (delete_rows P rows) = filter (\<lambda>r. k r \<noteq> i) rows"
  unfolding delete_rows_def by (induction rows) (use assms in auto)

lemma foreign_simps [simp]:
  "foreign i (d\<lparr>auth_audit_logs := a\<rparr>) = foreign i d"
  "foreign i (d\<lparr>admin_audit_logs := b\<rparr>) = foreign i d"
  "foreign i (d\<lparr>account_lifecycle_audit_logs := c\<rparr>) = foreign i d"
  "foreign i (d\<lparr>profile_audit_logs := e\<rparr>) = foreign i d"
  "foreign i (d\<lparr>audit_logs := f\<rparr>) = foreign i d"
  "foreign i (d\<lparr>ticket_number_seq := n\<rparr>) = foreign i d"
  by (simp_all add: foreign_def)

lemma foreign_users: "filter (\<lambda>u. u_id u \<noteq> i) us = filter (\<lambda>u. u_id u \<noteq> i) (users d)
    \<Longrightarrow> foreign i (d\<lparr>users := us\<rparr>) = foreign i d"
  and foreign_sessions: "filter (\<lambda>s. us_user_id s \<noteq> i) ss = filter (\<lambda>s. us_user_id s \<noteq> i) (user_sessions d)
    \<Longrightarrow> foreign i (d\<lparr>user_sessions := ss\<rparr>) = foreign i d"
  and foreign_refresh_tokens: "filter (\<lambda>r. rt_user_id r \<noteq> i) rs = filter (\<lambda>r. rt_user_id r \<noteq> i) (refresh_tokens d)
    \<Longrightarrow> foreign i (d\<lparr>refresh_tokens := rs\<rparr>) = foreign i d"
  and foreign_recovery_codes: "filter (\<lambda>c. mrc_user_id c \<noteq> i) cs = filter (\<lambda>c. mrc_user_id c \<noteq> i) (mfa_recovery_codes d)
    \<Longrightarrow> foreign i (d\<lparr>mfa_recovery_codes := cs\<rparr>) = foreign i d"
  and foreign_change_tokens: "filter (\<lambda>k. ect_user_id k \<noteq> i) ks = filter (\<lambda>k. ect_user_id k \<noteq> i) (email_change_tokens d)
    \<Longrightarrow> foreign i (d\<lparr>email_change_tokens := ks\<rparr>) = foreign i d"
  and foreign_tickets: "filter (\<lambda>k. tk_requester_id k \<noteq> i) ts = filter (\<lambda>k. tk_requester_id k \<noteq> i) (tickets d)
    \<Longrightarrow> foreign i (d\<lparr>tickets := ts\<rparr>) = foreign i d"
  and foreign_replies: "filter (\<lambda>r. tr_author_id r \<noteq> i) ps = filter (\<lambda>r. tr_author_id r \<noteq> i) (ticket_replies d)
    \<Longrightarrow> foreign i (d\<lparr>ticket_replies := ps\<rparr>) = foreign i d"
  and foreign_attachments: "filter (\<lambda>a. at_uploaded_by a \<noteq> i) as = filter (\<lambda>a. at_uploaded_by a \<noteq> i) (attachments d)
    \<Longrightarrow> foreign i (d\<lparr>attachments := as\<rparr>) = foreign i d"
  by (simp_all add: foreign_def)

lemma foreign_update_user: "(\<And>u. u_id (f u) = u_id u) \<Longrightarrow> foreign i (update_user i f d) = foreign i d"
  unfolding update_user_def by (intro foreign_users others_after_update) auto

lemma foreign_logs [simp]:
  "foreign i (create_auth_audit_log_entry t e r s a ip ua rid sv tf d) = foreign i d"
  "foreign i (auth_log rq e r s a d) = foreign i d"
  "foreign i (create_lifecycle_audit_log_entry t j e g d) = foreign i d"
  by (simp_all add: create_auth_audit_log_entry_def auth_log_def create_lifecycle_audit_log_entry_def)

section \<open>Sessions\<close>

lemma foreign_revoke_session:
  assumes "get_session_by_jti j d = Some s" and "us_user_id s = i" and "distinct (map us_jti (user_sessions d))"
  shows "foreign i (repo_revoke_session t j d) = foreign i d"
proof -
  have s: "s \<in> set (user_sessions d)" "us_jti s = j"
    using assms(1) by (auto simp: get_session_by_jti_def dest: find_row_SomeD)
  have "us_user_id r = i" if "r \<in> set (user_sessions d)" "us_jti r = j" for r
    using distinct_key_eqD [OF assms(3) that(1) s(1)] that s assms(2) by simp
  then show ?thesis unfolding repo_revoke_session_def by (intro foreign_sessions others_after_update) auto
qed

lemma foreign_revoke_family:
  assumes "r \<in> set (refresh_tokens d)" and "rt_user_id r = i" and "rt_family_id r = f" and "family_inv (refresh_tokens d)"
  shows "foreign i (revoke_refresh_token_family t f d) = foreign i d"
proof -
  have "rt_user_id x = i" if "x \<in> set (refresh_tokens d)" "rt_family_id x = f" for x
    using family_invD [OF assms(4) that(1) assms(1)] that assms(2,3) by simp
  then show ?thesis unfolding revoke_refresh_token_family_def by (intro foreign_refresh_tokens others_after_update) auto
qed

lemma foreign_logout:
  assumes "get_session_by_jti j (database p) = Some s" and "us_user_id s = i" and "well_keyed (database p)"
  shows "foreign i (database (snd (logout L rq j i raw p))) = foreign i (database p)"
proof -
  let ?d = "repo_revoke_session (rq_db_now rq) j (database p)"
  have d: "foreign i ?d = foreign i (database p)" "refresh_tokens ?d = refresh_tokens (database p)"
    using foreign_revoke_session assms by (auto simp: well_keyed_def repo_revoke_session_def)
  have "foreign i (revoke_refresh_token_family t (rt_family_id r) ?d) = foreign i (database p)"
    if "get_refresh_token_by_hash h ?d = Some r" "rt_user_id r = i" for t h r
  proof -
    have "r \<in> set (refresh_tokens ?d)" using that(1) by (auto simp: get_refresh_token_by_hash_def dest: find_row_SomeD)
    then show ?thesis using foreign_revoke_family [of r ?d i] that(2) assms(3) d by (simp add: well_keyed_def)
  qed
  then show ?thesis using d by (simp add: logout_def Let_def split: option.splits)
qed

lemma foreign_drop_session:
  assumes "well_keyed (database p)"
  shows "foreign i (database (snd (revoke_session L rq i f raw p))) = foreign i (database p)"
proof -
  have "foreign i (revoke_refresh_token_family t f (database p)) = foreign i (database p)"
    if "get_any_refresh_token_for_family f i (database p) = Some r" for t r
  proof -
    have "r \<in> set (refresh_tokens (database p))" "rt_user_id r = i" "rt_family_id r = f"
      using find_row_SomeD [OF that [unfolded get_any_refresh_token_for_family_def]] by auto
    then show ?thesis by (rule foreign_revoke_family) (use assms in \<open>simp add: well_keyed_def\<close>)
  qed
  then show ?thesis by (auto simp: revoke_session_def Let_def split: option.splits sum.splits)
qed

section \<open>Multi-factor authentication, profile and account\<close>

lemma foreign_mfa:
  "foreign i (database (snd (enroll_mfa L rq i pw p))) = foreign i (database p)"
  "foreign i (database (snd (activate_mfa L rq i code p))) = foreign i (database p)"
  "foreign i (database (snd (disable_mfa L rq i pw code p))) = foreign i (database p)"
  subgoal by (simp add: enroll_mfa_def update_mfa_pending_secret_def foreign_update_user Let_def split: option.splits)
  subgoal by (auto simp: activate_mfa_def repo_activate_mfa_def foreign_update_user create_recovery_codes_def Let_def
        intro!: foreign_recovery_codes filter_False split: option.splits sum.splits if_splits)
  subgoal by (auto simp: disable_mfa_def repo_disable_mfa_def foreign_update_user delete_recovery_codes_for_user_def Let_def
        foreign_recovery_codes others_after_delete split: option.splits sum.splits if_splits)
  done

lemma foreign_profile_tx:
  assumes "profile_update_tx L rq user fs em d = Inr d'"
  shows "foreign (u_id user) d' = foreign (u_id user) d"
proof -
  have columns: "u_id (set_columns gs u) = u_id u" for gs u
    by (induction gs arbitrary: u) (auto simp: set_column_def split: prod.splits)
  have change: "foreign (u_id user) e' = foreign (u_id user) e"
    if "map_sum id snd (issue_email_change_token L rq (u_id user) e) = Inr e'" for e e'
    using that by (auto simp: issue_email_change_token_def create_email_change_token_def insert_unique_def Let_def
        intro!: foreign_change_tokens split: if_splits)
  have pending: "foreign (u_id user) e' = foreign (u_id user) e"
    if "set_pending_email (u_id user) m e = Inr e'" for m e e'
    using that by (auto simp: set_pending_email_def foreign_update_user split: if_splits)
  have fields: "foreign (u_id user) e' = foreign (u_id user) e"
    if "update_fields (u_id user) fs e = Inr e'" for e e'
    using that by (auto simp: update_fields_def foreign_update_user columns split: if_splits)
  have audit: "foreign (u_id user) e' = foreign (u_id user) e"
    if "insert_profile_audit rows e = Inr e'" for rows e e'
    using that by (auto simp: insert_profile_audit_def split: if_splits)
  show ?thesis
    using assms by (auto simp: profile_update_tx_def Let_def split: sum.splits option.splits
        dest!: change pending fields audit)
qed

lemma get_by_id_id: "get_by_id j d = Some u \<Longrightarrow> u_id u = j"
  unfolding get_by_id_def by (drule find_row_SomeD) simp

lemma foreign_profile_update:
  "foreign i (database (snd (apply_partial_update L rq i b im p))) = foreign i (database p)"
  by (auto simp: apply_partial_update_def Let_def split: option.splits sum.splits
      dest!: foreign_profile_tx dest: get_by_id_id)

lemma foreign_update_profile:
  "foreign (au_user_id user) (database (snd (update_profile L rq user b im p))) = foreign (au_user_id user) (database p)"
  using foreign_profile_update [of "au_user_id user" L rq b im p]
  by (auto simp: update_profile_def split: prod.splits sum.splits)

lemma foreign_deactivation:
  "foreign i (database (snd (deactivate_account L rq i pw p))) = foreign i (database p)"
  by (auto simp: deactivate_account_def deactivate_if_not_already_def query_defs Let_def
      intro!: foreign_users others_after_update split: option.splits prod.splits if_splits)

section \<open>Tickets\<close>

lemma foreign_record_event: "record_event L rq n c e a g out pl d = Inr d' \<Longrightarrow> foreign i d' = foreign i d"
  by (auto simp: record_event_def repo_record_event_def insert_audit_log_def split: if_splits)

lemma foreign_audited:
  "foreign i d = foreign i (database p) \<Longrightarrow> foreign i (database (snd (audited L rq e a k d p))) = foreign i (database p)"
  by (auto simp: audited_def split: sum.splits dest: foreign_record_event [where i = i])

definition own_ticket :: "uuid \<Rightarrow> uuid \<Rightarrow> db \<Rightarrow> bool" where
  "own_ticket i j d \<longleftrightarrow> (\<forall>k \<in> set (tickets d). tk_id k = j \<longrightarrow> tk_requester_id k = i)"

lemma looked_up_own:
  assumes "ticket_get_by_id j d = Some ticket" and "tk_requester_id ticket = i" and "distinct (map tk_id (tickets d))"
  shows "own_ticket i j d"
  unfolding own_ticket_def
proof (intro ballI impI)
  fix k assume k: "k \<in> set (tickets d)" "tk_id k = j"
  have "ticket \<in> set (tickets d)" "tk_id ticket = j" using ticket_get_by_id_SomeD [OF assms(1)] by auto
  then have "k = ticket" using distinct_key_eqD [OF assms(3) k(1)] k(2) by simp
  then show "tk_requester_id k = i" by (simp add: assms(2))
qed

lemma update_own_ticket:
  assumes "update_ticket P f d = Inr (r, d')" and "own_ticket i j d" and "\<And>k. P k \<Longrightarrow> tk_id k = j"
    and "\<And>k. tk_requester_id (f k) = tk_requester_id k" and "\<And>k. tk_id (f k) = tk_id k"
  shows "foreign i d' = foreign i d \<and> own_ticket i j d'"
proof -
  have "filter (\<lambda>k. tk_requester_id k \<noteq> i) (update_rows P f (tickets d)) = filter (\<lambda>k. tk_requester_id k \<noteq> i) (tickets d)"
    by (intro others_after_update) (use assms(2,3) in \<open>auto simp: own_ticket_def assms(4)\<close>)
  moreover have "own_ticket i j (d\<lparr>tickets := update_rows P f (tickets d)\<rparr>)"
    using assms(2) by (auto simp: own_ticket_def assms(4,5) elim!: in_update_rowsE split: if_splits)
  ultimately show ?thesis using assms(1,2) by (auto simp: update_ticket_def split: option.splits intro: foreign_tickets)
qed

lemma transition_own_ticket:
  assumes "transition_status t j es ns ra cr rn ca cb w d = Inr (r, d')" and "own_ticket i j d"
  shows "foreign i d' = foreign i d \<and> own_ticket i j d'"
  using assms(1) unfolding transition_status_def by (rule update_own_ticket [OF _ assms(2)]) auto

lemma set_own_ticket:
  assumes "ticket_update t j st fr d = Inr (r, d')" and "own_ticket i j d"
  shows "foreign i d' = foreign i d"
proof (cases "st = None \<and> fr = None")
  case False
  then have "update_ticket (\<lambda>k. tk_id k = j) (\<lambda>k. k\<lparr>tk_status := (case st of None \<Rightarrow> tk_status k | Some s \<Rightarrow> s),
      tk_first_response_at := override fr (tk_first_response_at k), tk_updated_at := t\<rparr>) d = Inr (r, d')"
    using assms(1) by (auto simp: ticket_update_def ticket_set_def)
  then show ?thesis by (rule update_own_ticket [OF _ assms(2), THEN conjunct1]) simp_all
qed (use assms(1) in \<open>simp add: ticket_update_def\<close>)

lemma foreign_transitions:
  assumes "well_keyed (database p)"
  shows "foreign i (database (snd (close_ticket L rq (database p) j i Customer p))) = foreign i (database p)"
    and "foreign i (database (snd (reopen_ticket L rq (database p) j i Customer p))) = foreign i (database p)"
    and "foreign i (database (snd (resolve_ticket L rq (database p) j i Customer note p))) = foreign i (database p)"
proof -
  have own: "own_ticket i j (database p)" if "ticket_get_by_id j (database p) = Some k" "tk_requester_id k = i" for k
    by (rule looked_up_own [OF that]) (use assms in \<open>simp add: well_keyed_def\<close>)
  note moved = transition_own_ticket [OF _ own, THEN conjunct1]
  show "foreign i (database (snd (close_ticket L rq (database p) j i Customer p))) = foreign i (database p)"
    by (auto simp: close_ticket_def foreign_ticket_def intro!: foreign_audited split: option.splits sum.splits prod.splits
        dest: moved)
  show "foreign i (database (snd (reopen_ticket L rq (database p) j i Customer p))) = foreign i (database p)"
    by (auto simp: reopen_ticket_def foreign_ticket_def intro!: foreign_audited split: option.splits sum.splits prod.splits
        dest: moved)
  show "foreign i (database (snd (resolve_ticket L rq (database p) j i Customer note p))) = foreign i (database p)"
    by (simp add: resolve_ticket_def foreign_ticket_def split: option.splits)
qed

text \<open>Attachments a request binds were uploaded by the account it acts for.\<close>

definition own_attachments :: "uuid \<Rightarrow> uuid list \<Rightarrow> db \<Rightarrow> bool" where
  "own_attachments i ids d \<longleftrightarrow> (\<forall>a \<in> set (attachments d). at_id a \<in> set ids \<longrightarrow> at_uploaded_by a = i)"

lemma bindable_own:
  assumes "attachments_bindable i binding ids d" and "distinct (map at_id (attachments d))"
  shows "own_attachments i ids d"
  unfolding own_attachments_def
proof (intro ballI impI)
  fix a assume a: "a \<in> set (attachments d)" "at_id a \<in> set ids"
  then have "attachment_get_by_id (at_id a) d = Some a"
    unfolding attachment_get_by_id_def by (intro find_row_unique assms(2))
  moreover have "case attachment_get_by_id (at_id a) d of None \<Rightarrow> False | Some b \<Rightarrow> at_uploaded_by b = i \<and> binding b = None"
    using assms(1) a(2) unfolding attachments_bindable_def list_all_iff by blast
  ultimately show "at_uploaded_by a = i" by simp
qed

lemma own_attachments_update:
  assumes "own_attachments i ids d" and "\<And>a. P a \<Longrightarrow> at_id a \<in> set ids"
    and "\<And>a. at_id (f a) = at_id a \<and> at_uploaded_by (f a) = at_uploaded_by a"
  shows "foreign i (d\<lparr>attachments := update_rows P f (attachments d)\<rparr>) = foreign i d"
    and "own_attachments i ids (d\<lparr>attachments := update_rows P f (attachments d)\<rparr>)"
  using assms
  by (auto simp: own_attachments_def intro!: foreign_attachments others_after_update elim!: in_update_rowsE split: if_splits)

lemma foreign_bind_all:
  assumes "bind_all bind ids d = Some d'" and "own_attachments i js d" and "set ids \<subseteq> set js"
    and "bind = bind_to_ticket t \<or> bind = bind_to_reply t"
  shows "foreign i d' = foreign i d"
  using assms(1-3)
proof (induction ids arbitrary: d)
  case (Cons a ids)
  obtain x e where x: "bind a d = (Some x, e)" and e: "bind_all bind ids e = Some d'"
    using Cons.prems(1) by (auto split: prod.splits option.splits)
  obtain P f where P: "e = d\<lparr>attachments := update_rows P f (attachments d)\<rparr>" "\<And>r. P r \<Longrightarrow> at_id r = a"
      "\<And>r. at_id (f r) = at_id r \<and> at_uploaded_by (f r) = at_uploaded_by r"
    using x assms(4) by (auto simp: bind_to_ticket_def bind_to_reply_def query_defs Let_def)
  have "P r \<Longrightarrow> at_id r \<in> set js" for r using P(2) Cons.prems(3) by auto
  from own_attachments_update [OF Cons.prems(2) this P(3)] Cons.IH [OF e] Cons.prems(3) show ?case by (simp add: P(1))
qed simp

lemma foreign_create_ticket_tx:
  assumes "distinct (map at_id (attachments d))"
  shows "foreign i (snd (create_ticket_tx L rq i s b c as d)) = foreign i d"
proof (cases "fst (create_ticket_tx L rq i s b c as d)")
  case (Inl e)
  then show ?thesis
    by (auto simp: create_ticket_tx_def advance_ticket_seq_def split: if_splits sum.splits option.splits)
next
  case (Inr k)
  then obtain d1 d2 d3 where own: "attachments_bindable i at_ticket_id as d"
      and d1: "ticket_create L (rq_db_now rq) (rq_uuid rq 0) i s b c d = Inr (k, d1)"
      and d2: "bind_all (bind_to_ticket (tk_id k)) as d1 = Some d2"
      and d3: "record_event L rq (rq_uuid rq 1) ''tickets'' ''ticket_created'' i (Some (tk_id k)) (Some ''success'')
        (Some (JObj [(''ticket_number'', JStr (tk_ticket_number k)), (''category'', JStr c)])) d2 = Inr d3"
      and q: "snd (create_ticket_tx L rq i s b c as d) = d3"
    by (auto simp: create_ticket_tx_def split: if_splits sum.splits option.splits)
  have f1: "foreign i d1 = foreign i d" "attachments d1 = attachments d"
    using d1 by (auto simp: ticket_create_def advance_ticket_seq_def Let_def split: option.splits if_splits
        intro!: trans [OF foreign_tickets])
  have "own_attachments i as d1" using bindable_own [OF own assms] f1(2) by (simp add: own_attachments_def)
  then have "foreign i d2 = foreign i d1" by (rule foreign_bind_all [OF d2, where t = "tk_id k"]) simp_all
  then show ?thesis using f1 foreign_record_event [OF d3, of i] q by simp
qed

lemma foreign_create_ticket:
  assumes "well_keyed (database p)"
  shows "foreign i (database (snd (create_ticket L rq (\<lambda>_. p) i key s b c as p))) = foreign i (database p)"
proof -
  have tx: "foreign i d = foreign i (database p)" if "create_ticket_tx L rq i s b c as (database p) = (r, d)" for r d
    using foreign_create_ticket_tx [of "database p" i L rq s b c as] assms that by (simp add: well_keyed_def)
  show ?thesis by (auto simp: create_ticket_def Let_def split: prod.splits sum.splits option.splits dest: tx)
qed

lemma foreign_reply_tx:
  assumes "reply_tx L rq ticket i k b v as d = Inr (r, d')" and "own_attachments i as d" and "own_ticket i (tk_id ticket) d"
  shows "foreign i d' = foreign i d"
proof -
  let ?j = "tk_id ticket"
  obtain st fr re where e: "reply_effect (rq_now rq) k v ticket = (st, fr, re)" by (cases "reply_effect (rq_now rq) k v ticket")
  obtain e1 e2 e3 where
      d1: "reply_create k (rq_db_now rq) (rq_uuid rq 0) ?j i k b v d = Inr (r, e1)"
      and d2: "bind_all (bind_to_reply (tr_id r)) as e1 = Some e2"
      and d3: "(if re then reopen_by_reply L rq ?j i e2 else Inr e2) = Inr e3"
      and d4: "d' = e3 \<or> (\<exists>x. ticket_update (rq_db_now rq) ?j st fr e3 = Inr (x, d'))"
    using assms(1) by (auto simp: reply_tx_def e split: sum.splits option.splits prod.splits if_splits)
  have f1: "foreign i e1 = foreign i d" "attachments e1 = attachments d" "tickets e1 = tickets d"
    using d1 by (auto simp: reply_create_def Let_def split: if_splits intro!: foreign_replies)
  have "own_attachments i as e1" using assms(2) f1(2) by (simp add: own_attachments_def)
  then have f2: "foreign i e2 = foreign i e1" by (rule foreign_bind_all [OF d2, where t = "tr_id r"]) simp_all
  have "tickets e2 = tickets e1"
    by (rule bind_all_tickets [OF _ d2]) (simp add: bind_to_reply_def query_defs Let_def)
  then have own: "own_ticket i ?j e2" using assms(3) f1(3) by (simp add: own_ticket_def)
  have f3: "foreign i e3 = foreign i e2 \<and> own_ticket i ?j e3"
  proof (cases re)
    case True
    then obtain x e where x: "transition_status (rq_db_now rq) ?j [Resolved] WaitingOnSupport None True None None None True e2 = Inr (x, e)"
        and y: "e3 = e \<or> record_event L rq (rq_uuid rq 1) ''tickets'' ''ticket_reopened'' i (Some ?j) (Some ''success'') None e = Inr e3"
      using d3 by (auto simp: reopen_by_reply_def split: sum.splits option.splits prod.splits)
    have "tickets e3 = tickets e" using y by (auto simp: record_event_def repo_record_event_def insert_audit_log_def split: if_splits)
    then show ?thesis
      using transition_own_ticket [OF x own] y foreign_record_event [where i = i] by (auto simp: own_ticket_def)
  qed (use d3 own in simp)
  show ?thesis using d4 set_own_ticket f1(1) f2 f3 by auto
qed

lemma foreign_create_reply:
  assumes "well_keyed (database p)"
  shows "foreign i (database (snd (create_reply L rq (database p) j i Customer b v as p))) = foreign i (database p)"
proof -
  have tx: "foreign i d = foreign i (database p)"
    if "ticket_get_by_id j (database p) = Some ticket" "tk_requester_id ticket = i"
      "attachments_bindable i at_ticket_reply_id as (database p)"
      "reply_tx L rq ticket i Customer b w as (database p) = Inr (r, d)" for ticket w r d
  proof (rule foreign_reply_tx [OF that(4)])
    show "own_attachments i as (database p)"
      by (rule bindable_own [OF that(3)]) (use assms in \<open>simp add: well_keyed_def\<close>)
    have "tk_id ticket = j" using ticket_get_by_id_SomeD [OF that(1)] by simp
    then show "own_ticket i (tk_id ticket) (database p)"
      using looked_up_own [OF that(1,2)] assms by (simp add: well_keyed_def)
  qed
  show ?thesis
    by (auto simp: create_reply_def foreign_ticket_def Let_def split: option.splits prod.splits sum.splits dest: tx)
qed

end
