(* ===== verification/Access_Control.thy ===== *)
theory Access_Control
  imports Session_Machine Admin_Users
begin

text \<open>
  Who gets a session and how it ends: the gates of the login, the cap on live sessions, and the two
  denylists that make access and refresh tokens die (\<open>revoke_before\<close>, set by logging out everywhere, a
  password reset, disabling MFA and deactivation; \<open>perm_epoch\<close>, set by a change of roles).
\<close>

section \<open>Live families\<close>

definition live_families :: "datetime \<Rightarrow> uuid \<Rightarrow> refresh_token list \<Rightarrow> uuid set" where
  "live_families t i rows = rt_family_id ` {r \<in> set rows. live_token t i r}"

definition family_created_at :: "datetime \<Rightarrow> uuid \<Rightarrow> refresh_token list \<Rightarrow> uuid \<Rightarrow> datetime" where
  "family_created_at t i rows f = Min (rt_issued_at ` {r \<in> set rows. live_token t i r \<and> rt_family_id r = f})"

lemma finite_live_families [simp]: "finite (live_families t i rows)"
  by (simp add: live_families_def)

lemma created_at_map:
  "length (get_family_created_at_map_for_user t i d) = card (live_families t i (refresh_tokens d))"
  "set (get_family_created_at_map_for_user t i d)
     = (\<lambda>f. (f, family_created_at t i (refresh_tokens d) f)) ` live_families t i (refresh_tokens d)"
proof -
  let ?live = "filter (live_token t i) (refresh_tokens d)"
  have fams: "set (map rt_family_id ?live) = live_families t i (refresh_tokens d)"
    by (auto simp: live_families_def)
  then show "length (get_family_created_at_map_for_user t i d) = card (live_families t i (refresh_tokens d))"
    by (simp add: get_family_created_at_map_for_user_def Let_def length_remdups_card_conv)
  have "set (map rt_issued_at (filter (\<lambda>r. rt_family_id r = f) ?live))
      = rt_issued_at ` {r \<in> set (refresh_tokens d). live_token t i r \<and> rt_family_id r = f}" for f
    by auto
  with fams show "set (get_family_created_at_map_for_user t i d)
     = (\<lambda>f. (f, family_created_at t i (refresh_tokens d) f)) ` live_families t i (refresh_tokens d)"
    by (simp add: get_family_created_at_map_for_user_def Let_def family_created_at_def)
qed

lemma unmatched_row_stays: "r \<in> set rows \<Longrightarrow> \<not> p r \<Longrightarrow> r \<in> set (update_rows p g rows)"
  using in_update_rowsI [of r rows p g] by simp

lemma live_families_revoke:
  "live_families t i (refresh_tokens (revoke_refresh_token_family t' f d))
     = live_families t i (refresh_tokens d) - {f}"
proof -
  have "{r \<in> set (refresh_tokens (revoke_refresh_token_family t' f d)). live_token t i r}
      = {r \<in> set (refresh_tokens d). live_token t i r \<and> rt_family_id r \<noteq> f}"
    by (auto simp: revoke_refresh_token_family_def live_token_def elim!: in_update_rowsE
        intro: unmatched_row_stays split: if_splits)
  then show ?thesis by (auto simp: live_families_def)
qed

lemma first_min_member:
  assumes "xs \<noteq> []"
  shows "first_min f (hd xs) (tl xs) \<in> set xs" and "y \<in> set xs \<Longrightarrow> f (first_min f (hd xs) (tl xs)) \<le> f y"
proof -
  obtain x ys where xs: "xs = x # ys" using assms by (cases xs) auto
  show "first_min f (hd xs) (tl xs) \<in> set xs" using first_min_in [of f x ys] by (auto simp: xs)
  show "y \<in> set xs \<Longrightarrow> f (first_min f (hd xs) (tl xs)) \<le> f y" using first_min_le [of f x ys] by (auto simp: xs)
qed

text \<open>Below the cap the eviction does nothing; at the cap it revokes the oldest live family.\<close>

lemma evict_live_families:
  fixes rq :: request and d :: db and i :: uuid
  defines "live \<equiv> \<lambda>d :: db. live_families (rq_db_now rq) i (refresh_tokens d)"
  shows "card (live d) < 20 \<Longrightarrow> live (evict_oldest_family_if_at_cap rq i d) = live d"
    and "20 \<le> card (live d) \<Longrightarrow> \<exists>f \<in> live d. live (evict_oldest_family_if_at_cap rq i d) = live d - {f}
      \<and> (\<forall>g \<in> live d. family_created_at (rq_db_now rq) i (refresh_tokens d) f
            \<le> family_created_at (rq_db_now rq) i (refresh_tokens d) g)"
proof -
  let ?m = "get_family_created_at_map_for_user (rq_db_now rq) i d"
  note M = created_at_map [of "rq_db_now rq" i d]
  show "card (live d) < 20 \<Longrightarrow> live (evict_oldest_family_if_at_cap rq i d) = live d"
    using M(1) by (simp add: evict_oldest_family_if_at_cap_def lock_live_refresh_tokens_for_user_def live_def Let_def)
  assume cap: "20 \<le> card (live d)"
  let ?o = "first_min snd (hd ?m) (tl ?m)"
  have ne: "?m \<noteq> []" using cap M(1) by (auto simp: live_def)
  have o: "?o \<in> set ?m" and le: "\<And>y. y \<in> set ?m \<Longrightarrow> snd ?o \<le> snd y"
    using first_min_member [OF ne, where f = snd] by blast+
  from o M(2) have o': "fst ?o \<in> live d" "snd ?o = family_created_at (rq_db_now rq) i (refresh_tokens d) (fst ?o)"
    by (auto simp: live_def)
  have "live (evict_oldest_family_if_at_cap rq i d) = live d - {fst ?o}"
    using cap M(1) by (simp add: evict_oldest_family_if_at_cap_def lock_live_refresh_tokens_for_user_def live_def
        Let_def live_families_revoke)
  moreover have "snd ?o \<le> family_created_at (rq_db_now rq) i (refresh_tokens d) g" if "g \<in> live d" for g
    using le [of "(g, family_created_at (rq_db_now rq) i (refresh_tokens d) g)"] that M(2) by (auto simp: live_def)
  ultimately show "\<exists>f \<in> live d. live (evict_oldest_family_if_at_cap rq i d) = live d - {f}
      \<and> (\<forall>g \<in> live d. family_created_at (rq_db_now rq) i (refresh_tokens d) f
            \<le> family_created_at (rq_db_now rq) i (refresh_tokens d) g)"
    using o' by auto
qed

text \<open>C28. The cap on live sessions. A login (with or without a second factor) adds one live family; below
  the cap of 20 it removes none, at the cap it revokes exactly one, a family created no later than any
  other live one. So an account never gets beyond 20 live sessions by logging in.\<close>

theorem login_respects_session_cap:
  assumes "card (live_families (rq_db_now rq) (u_id user) (refresh_tokens d)) \<le> 20"
    and "rq_db_now rq < rq_now rq + days 30" and "mint_session L rq user scope d = Inr d'"
  shows "card (live_families (rq_db_now rq) (u_id user) (refresh_tokens d')) \<le> 20
    \<and> (\<exists>gone. live_families (rq_db_now rq) (u_id user) (refresh_tokens d')
          = insert (rq_uuid rq 1) (live_families (rq_db_now rq) (u_id user) (refresh_tokens d) - gone)
        \<and> (if card (live_families (rq_db_now rq) (u_id user) (refresh_tokens d)) < 20 then gone = {}
           else \<exists>f. gone = {f} \<and> (\<forall>g \<in> live_families (rq_db_now rq) (u_id user) (refresh_tokens d).
                family_created_at (rq_db_now rq) (u_id user) (refresh_tokens d) f
                  \<le> family_created_at (rq_db_now rq) (u_id user) (refresh_tokens d) g)))"
proof -
  let ?t = "rq_db_now rq" and ?i = "u_id user"
  let ?d1 = "d\<lparr>user_sessions := user_sessions d @ [\<lparr>us_jti = rq_uuid rq 0, us_user_id = ?i, us_issued_at = ?t,
      us_expires_at = rq_now rq + seconds 900, us_revoked_at = None\<rparr>]\<rparr>"
  let ?L = "live_families ?t ?i (refresh_tokens d)"
  have m: "live_token ?t ?i (minted_token L rq user)" "rt_family_id (minted_token L rq user) = rq_uuid rq 1"
    using assms(2) by (simp_all add: minted_token_def live_token_def duration_defs)
  have new: "live_families ?t ?i (rows @ [minted_token L rq user]) = insert (rq_uuid rq 1) (live_families ?t ?i rows)" for rows
    using m by (auto simp: live_families_def intro: image_eqI [where x = "minted_token L rq user"])
  have l': "live_families ?t ?i (refresh_tokens d')
      = insert (rq_uuid rq 1) (live_families ?t ?i (refresh_tokens (evict_oldest_family_if_at_cap rq ?i ?d1)))"
    unfolding mint_session_Inr(1) [OF assms(3)] by (rule new)
  note E = evict_live_families [of rq ?i ?d1, simplified]
  show ?thesis
  proof (cases "card ?L < 20")
    case True
    then have "live_families ?t ?i (refresh_tokens d') = insert (rq_uuid rq 1) ?L" using l' E(1) by simp
    with True show ?thesis by (auto simp: card_insert_if)
  next
    case False
    with E(2) obtain f where f: "f \<in> ?L" "live_families ?t ?i (refresh_tokens (evict_oldest_family_if_at_cap rq ?i ?d1)) = ?L - {f}"
        "\<forall>g \<in> ?L. family_created_at ?t ?i (refresh_tokens d) f \<le> family_created_at ?t ?i (refresh_tokens d) g"
      by auto
    have "card (insert (rq_uuid rq 1) (?L - {f})) \<le> 20"
      using assms(1) f(1) card_insert_le_Suc [of "?L - {f}" "rq_uuid rq 1"] card_gt_0_iff [of ?L]
      by (auto simp: card_Diff_singleton)
    with False f l' show ?thesis by auto
  qed
qed

theorem login_respects_session_cap_witness:
  "card (live_families 990 1 (refresh_tokens (database
     (snd (authenticate_user zero_libs sample_request ''a@x'' ''pw'' one_account))))) \<le> 20"
proof -
  let ?u = "hd (users (database one_account))"
  have e: "refresh_tokens (database one_account) = []" by (simp add: one_account_def empty_db_def)
  have "isl (mint_session zero_libs sample_request ?u None (database one_account)) = False"
    by (simp add: mint_session_def create_session_def create_refresh_token_def insert_unique_def generate_refresh_token_def
        one_account_def empty_db_def evict_oldest_family_if_at_cap_def lock_live_refresh_tokens_for_user_def
        get_family_created_at_map_for_user_def Let_def)
  then obtain d' where d': "mint_session zero_libs sample_request ?u None (database one_account) = Inr d'"
    by (metis isl_def obj_sumE)
  have "refresh_tokens d' = [minted_token zero_libs sample_request ?u]"
    unfolding mint_session_Inr(1) [OF d'] using e
    by (simp add: evict_oldest_family_if_at_cap_def lock_live_refresh_tokens_for_user_def
        get_family_created_at_map_for_user_def Let_def)
  moreover have "u_id ?u = 1" "rq_db_now sample_request = 990" by (simp_all add: one_account_def new_user_def sample_request_def)
  ultimately show ?thesis
    using login_respects_session_cap [where rq = sample_request and user = ?u, OF _ _ d'] sample_login
    by (simp add: e live_families_def sample_request_def duration_defs)
qed

section \<open>The gates of the login\<close>

lemma login_verified_Inr:
  assumes "login_verified L rq user p = (Inr resp, p')"
  shows "if u_mfa_enabled user
    then (\<exists>tok. resp = MfaRequiredResponse tok) \<and> database p' = database p
    else (\<exists>a e dl. resp = LoginResponse a e dl (rq_token rq 0)) \<and> last (refresh_tokens (database p')) = minted_token L rq user"
proof (cases "u_mfa_enabled user")
  case True
  with assms show ?thesis by (auto simp: login_verified_def generate_mfa_token_def)
next
  case False
  with assms obtain d where d: "mint_session L rq user None (database p) = Inr d" "database p' = d"
    and r: "\<exists>a e dl. resp = LoginResponse a e dl (rq_token rq 0)"
    by (auto simp: login_verified_def complete_login_def Let_def generate_refresh_token_def split: sum.splits prod.splits)
  with False mint_session_Inr(1) [OF d(1)] show ?thesis by simp
qed

text \<open>C12. Nobody logs in past the gates. A login that returns anything but an error found exactly one account
  for the e-mail, whose password verified, while neither the address nor the account was throttled;
  the account is verified, or deactivated for less than 30 days (and then reactivated). With MFA
  enabled the answer is only an MFA token and no session exists yet; otherwise a new family for this
  account is stored and its token returned.\<close>

theorem login_gates:
  assumes "distinct (map u_id (users (database p)))" and "authenticate_user L rq email pw p = (Inr resp, p')"
  shows "\<exists>u. get_by_email email (database p) = Inr (Some u) \<and> verify_password L pw (u_hashed_password u)
    \<and> get_ip_failure_count (rq_now rq) (rq_ip rq) (cache p) < 20
    \<and> get_account_failure_count (rq_now rq) (u_id u) (cache p) < 10
    \<and> (if u_status u = DEACTIVATED then \<exists>x. u_deactivated_at u = Some x \<and> rq_now rq - days 30 < x
       else u_email_verified u)
    \<and> (if u_mfa_enabled u
       then (\<exists>tok. resp = MfaRequiredResponse tok) \<and> refresh_tokens (database p') = refresh_tokens (database p)
         \<and> user_sessions (database p') = user_sessions (database p)
       else (\<exists>a e dl. resp = LoginResponse a e dl (rq_token rq 0))
         \<and> last (refresh_tokens (database p')) = minted_token L rq u)"
proof -
  from assms(2) obtain u where u: "get_by_email email (database p) = Inr (Some u)"
    by (auto simp: authenticate_user_def Let_def split: sum.splits option.splits if_splits)
  have g: "verify_password L pw (u_hashed_password u)"
    "get_ip_failure_count (rq_now rq) (rq_ip rq) (cache p) < 20"
    "get_account_failure_count (rq_now rq) (u_id u) (cache p) < 10"
    using assms(2) u by (auto simp: authenticate_user_def Let_def split: if_splits)
  have id: "get_by_id (u_id u) (database p) = Some u"
    using u assms(1) find_row_unique [of u_id "users (database p)" u]
    by (auto simp: get_by_email_def scalar_one_or_none_Inr_Some get_by_id_def filter_eq_Cons_iff)
  show ?thesis
  proof (cases "u_status u = DEACTIVATED")
    case True
    with assms(2) u g obtain p1 where p1: "reactivate_account rq (u_id u) p = (True, p1)"
      and l: "login_verified L rq u p1 = (Inr resp, p')"
      by (auto simp: authenticate_user_def Let_def split: if_splits prod.splits bool.splits)
    have "\<exists>x. u_deactivated_at u = Some x \<and> rq_now rq - days 30 < x"
      using reactivate_account_iff [OF assms(1) id, of rq] p1 by simp
    moreover note login_verified_Inr [OF l]
    moreover have "u_mfa_enabled u \<Longrightarrow> database p' = database p1" using login_verified_Inr [OF l] by simp
    ultimately show ?thesis using True u g reactivate_account_frame [OF p1] by auto
  next
    case False
    with assms(2) u g have "u_email_verified u" and l: "login_verified L rq u p = (Inr resp, p')"
      by (auto simp: authenticate_user_def Let_def split: if_splits)
    with False u g login_verified_Inr [OF l] show ?thesis by auto
  qed
qed

lemma failed_login_keeps_tokens:
  assumes "isl (fst (authenticate_user L rq email pw p))"
  shows "refresh_tokens (database (snd (authenticate_user L rq email pw p))) = refresh_tokens (database p)"
proof -
  have l: "refresh_tokens (database q') = refresh_tokens (database q)"
    if "login_verified L rq u q = (Inl e, q')" for u q e q'
    using that by (auto simp: login_verified_def complete_login_def Let_def case_prod_beta split: if_splits sum.splits)
  have "refresh_tokens (database q') = refresh_tokens (database p)"
    if "authenticate_user L rq email pw p = (Inl e, q')" for e q'
    using that by (auto simp: authenticate_user_def Let_def dest!: l reactivate_account_frame(2)
        split: if_splits sum.splits option.splits prod.splits bool.splits)
  with assms show ?thesis by (metis isl_def prod.collapse)
qed

lemma one_account_email: "get_by_email ''a@x'' (database one_account) = Inr (Some (hd (users (database one_account))))"
  by (simp add: get_by_email_def one_account_def scalar_one_or_none_def new_user_def)

theorem login_gates_witness:
  "verify_password zero_libs ''pw'' (u_hashed_password (hd (users (database one_account))))
   \<and> last (refresh_tokens (database (snd (authenticate_user zero_libs sample_request ''a@x'' ''pw'' one_account))))
      = minted_token zero_libs sample_request (hd (users (database one_account)))"
proof -
  let ?r = "authenticate_user zero_libs sample_request ''a@x'' ''pw'' one_account"
  have ds: "distinct (map u_id (users (database one_account)))" by (simp add: one_account_def)
  have "\<not> isl (fst ?r)"
    using failed_login_keeps_tokens [of zero_libs sample_request "''a@x''" "''pw''" one_account] sample_login
    by (auto simp: one_account_def empty_db_def)
  then obtain resp where "?r = (Inr resp, snd ?r)" by (metis isl_def obj_sumE prod.collapse)
  from login_gates [OF ds this] show ?thesis
    by (simp add: one_account_email) (simp add: one_account_def new_user_def)
qed

text \<open>A failed login does not tell whether the account exists. With an unknown e-mail and with a wrong
  password for a known one the answer is the same \<open>InvalidCredentialsError\<close>, the failure counter of the
  address advances the same way, and no session or token comes into being.\<close>

theorem failed_login_is_uniform:
  assumes "get_by_email unknown (database p) = Inr None"
    and "get_by_email known (database p) = Inr (Some u)" and "\<not> verify_password L pw (u_hashed_password u)"
    and "get_account_failure_count (rq_now rq) (u_id u) (cache p) < 10"
  shows "fst (authenticate_user L rq unknown pw p) = fst (authenticate_user L rq known pw p)
    \<and> vk_login_fail_ip (cache (snd (authenticate_user L rq unknown pw p)))
        = vk_login_fail_ip (cache (snd (authenticate_user L rq known pw p)))
    \<and> refresh_tokens (database (snd (authenticate_user L rq known pw p))) = refresh_tokens (database p)
    \<and> user_sessions (database (snd (authenticate_user L rq known pw p))) = user_sessions (database p)"
  using assms by (simp add: authenticate_user_def Let_def record_ip_failure_def record_account_failure_def case_prod_beta)

theorem failed_login_is_uniform_witness:
  "fst (authenticate_user zero_libs sample_request ''b@x'' ''no'' one_account)
   = fst (authenticate_user zero_libs sample_request ''a@x'' ''no'' one_account)"
proof -
  have n: "get_by_email ''b@x'' (database one_account) = Inr None"
    by (simp add: get_by_email_def one_account_def scalar_one_or_none_def new_user_def lower_def lower_char_def)
  have "\<not> verify_password zero_libs ''no'' (u_hashed_password (hd (users (database one_account))))"
    by (simp add: one_account_def new_user_def verify_password_def zero_libs_def)
  moreover have "get_account_failure_count t i (cache one_account) < 10" for t i
    by (simp add: one_account_def get_account_failure_count_def empty_valkey_def count_of_def vk_defs)
  ultimately show ?thesis using failed_login_is_uniform [OF n one_account_email] by blast
qed

section \<open>Signing out everywhere\<close>






section \<open>A live session can go on\<close>

lemma find_row_conj: "find_row P rows = Some r \<Longrightarrow> Q r \<Longrightarrow> find_row (\<lambda>x. P x \<and> Q x) rows = Some r"
  by (induction rows) (auto split: if_splits)

lemma find_row_appended: "k x \<notin> k ` set rows \<Longrightarrow> find_row (\<lambda>y. k y = k x) (rows @ [x]) = Some x"
  by (induction rows) auto

text \<open>The successor of a refresh token and the session opened with it.\<close>

definition next_token :: "libs \<Rightarrow> request \<Rightarrow> refresh_token \<Rightarrow> refresh_token" where
  "next_token L rq r = \<lparr>rt_token_hash = sha256_hex L (rq_token rq 0), rt_family_id = rt_family_id r,
     rt_user_id = rt_user_id r, rt_issued_at = rq_db_now rq, rt_expires_at = rt_expires_at r, rt_revoked_at = None,
     rt_consumed_at = None, rt_last_used_at = Some (rq_now rq), rt_ip = Some (rq_ip rq), rt_user_agent = rq_user_agent rq\<rparr>"

definition next_session :: "request \<Rightarrow> refresh_token \<Rightarrow> user_session" where
  "next_session rq r = \<lparr>us_jti = rq_uuid rq 0, us_user_id = rt_user_id r, us_issued_at = rq_db_now rq,
     us_expires_at = rq_now rq + seconds (access_token_ttl_seconds get_settings), us_revoked_at = None\<rparr>"

lemma rotate_consume_live:
  assumes "get_refresh_token_by_hash h (database p) = Some r" and "rt_consumed_at r = None"
    and "sha256_hex L (rq_token rq 0) \<notin> rt_token_hash ` set (refresh_tokens (database p))"
    and "rq_uuid rq 0 \<notin> us_jti ` set (user_sessions (database p))"
  shows "\<exists>tok secs dl p'. rotate_consume L rq h u p = (Inr (RefreshResponse tok secs dl (rq_token rq 0)), p')
    \<and> get_refresh_token_by_hash (sha256_hex L (rq_token rq 0)) (database p') = Some (next_token L rq r)
    \<and> get_session_by_jti (rq_uuid rq 0) (database p') = Some (next_session rq r)"
proof -
  let ?d = "database p" and ?t = "rq_db_now rq" and ?n = "sha256_hex L (rq_token rq 0)"
  let ?rows = "update_rows (\<lambda>x. rt_token_hash x = h \<and> rt_consumed_at x = None) (\<lambda>x. x\<lparr>rt_consumed_at := Some ?t\<rparr>) (refresh_tokens ?d)"
  have "find_row (\<lambda>x. rt_token_hash x = h \<and> rt_consumed_at x = None) (refresh_tokens ?d) = Some r"
    by (rule find_row_conj) (use assms(1,2) in \<open>simp_all add: get_refresh_token_by_hash_def\<close>)
  then have consume: "consume_refresh_token ?t h ?d = (Some (r\<lparr>rt_consumed_at := Some ?t\<rparr>), ?d\<lparr>refresh_tokens := ?rows\<rparr>)"
    by (simp add: consume_refresh_token_def query_defs)
  let ?e = "?d\<lparr>refresh_tokens := ?rows @ [next_token L rq r], user_sessions := user_sessions ?d @ [next_session rq r]\<rparr>"
  have "rt_token_hash ` set ?rows = rt_token_hash ` set (refresh_tokens ?d)"
    unfolding set_map [symmetric] by simp
  then have rows: "?n \<notin> rt_token_hash ` set ?rows" using assms(3) by (simp only: not_False_eq_True)
  then have mint: "create_refresh_token ?t ?n (rt_family_id r) (rt_user_id r) (rt_expires_at r) (Some (rq_ip rq))
      (rq_user_agent rq) (Some (rq_now rq)) (?d\<lparr>refresh_tokens := ?rows\<rparr>) = Inr (?d\<lparr>refresh_tokens := ?rows @ [next_token L rq r]\<rparr>)"
    by (simp add: create_refresh_token_Inr next_token_def)
  have opened: "create_session ?t (rt_user_id r) (rq_uuid rq 0) (rq_now rq + seconds (access_token_ttl_seconds get_settings))
      (?d\<lparr>refresh_tokens := ?rows @ [next_token L rq r]\<rparr>) = Inr ?e"
    using assms(4) by (simp add: create_session_Inr next_session_def)
  have "get_refresh_token_by_hash ?n ?e = Some (next_token L rq r)"
    using find_row_appended [of rt_token_hash "next_token L rq r" ?rows] rows
    by (simp add: get_refresh_token_by_hash_def next_token_def)
  moreover have "get_session_by_jti (rq_uuid rq 0) ?e = Some (next_session rq r)"
    using find_row_appended [of us_jti "next_session rq r" "user_sessions ?d"] assms(4)
    by (simp add: get_session_by_jti_def next_session_def)
  ultimately show ?thesis
    using opened by (simp add: rotate_consume_def consume generate_refresh_token_def mint case_prod_beta Let_def)
qed

text \<open>C11. A session in use does not die. A refresh token that is neither consumed, revoked nor expired, of an
  account that is not deactivated and has not signed out everywhere since the token was issued (an older
  sign-out, still on the denylist, does not matter), and that was used within the last 14 days, is always
  exchanged (within the rate limit, and if the drawn values are fresh): the answer carries
  a new token of the same family with the same expiry (\<open>next_token\<close>), unconsumed and unrevoked, and the
  session of the new access token (\<open>next_session\<close>) is stored.\<close>

theorem live_session_continues:
  assumes "hash_refresh_token L raw = Some h" and "get_refresh_token_by_hash h (database p) = Some r"
    and "rt_consumed_at r = None" and "rt_revoked_at r = None" and "rq_now rq < rt_expires_at r"
    and "get_by_id (rt_user_id r) (database p) = Some u" and "u_status u \<noteq> DEACTIVATED"
    and "\<And>rb. get_revoke_before (rq_now rq) (rt_user_id r) (cache p) = Some rb \<Longrightarrow> rb < rt_issued_at r"
    and "rq_now rq - (case rt_last_used_at r of None \<Rightarrow> rt_issued_at r | Some x \<Rightarrow> x) \<le> days 14"
    and "fst (record_request (rq_now rq) (rt_family_id r) 3600 (cache p)) \<le> 60"
    and "sha256_hex L (rq_token rq 0) \<notin> rt_token_hash ` set (refresh_tokens (database p))"
    and "rq_uuid rq 0 \<notin> us_jti ` set (user_sessions (database p))"
  shows "\<exists>tok secs dl p'. rotate_refresh_token L rq (Some raw) p = (Inr (RefreshResponse tok secs dl (rq_token rq 0)), p')
    \<and> get_refresh_token_by_hash (sha256_hex L (rq_token rq 0)) (database p') = Some (next_token L rq r)
    \<and> get_session_by_jti (rq_uuid rq 0) (database p') = Some (next_session rq r)"
proof -
  let ?c = "snd (record_request (rq_now rq) (rt_family_id r) 3600 (cache p))"
  have rb: "get_revoke_before (rq_now rq) (rt_user_id r) ?c = get_revoke_before (rq_now rq) (rt_user_id r) (cache p)"
    by (simp add: record_request_def get_revoke_before_def case_prod_beta)
  have checks: "rotate_checks L rq (Some raw) p = (Proceed h u, p\<lparr>cache := ?c\<rparr>)"
    using assms(1-7,9,10) assms(8)
    by (cases "get_revoke_before (rq_now rq) (rt_user_id r) (cache p)")
      (simp_all add: rotate_checks_def rb REFRESH_RATE_LIMIT_WINDOW_SECONDS_def
        REFRESH_RATE_LIMIT_MAX_REQUESTS_def REFRESH_IDLE_TIMEOUT_def case_prod_beta Let_def not_less not_le)
  show ?thesis
    using rotate_consume_live [of h "p\<lparr>cache := ?c\<rparr>" r L rq u] assms(2,3,11,12) by (simp add: rotate_refresh_token_def checks)
qed

text \<open>\<open>r2\<close> of \<open>signed_in\<close> after twenty seconds; the account signed out everywhere before it opened the
  session.\<close>

definition signed_in_again :: portal where
  "signed_in_again = signed_in\<lparr>cache := set_revoke_before (- 5) 1 2592000 (cache signed_in)\<rparr>"

lemma signed_in_again_database: "database signed_in_again = database signed_in"
  by (simp add: signed_in_again_def)

theorem live_session_continues_witness:
  "get_revoke_before (rq_now later_request) 1 (cache signed_in_again) = Some (- 5)
   \<and> (\<exists>tok secs dl p'. rotate_refresh_token zero_libs later_request (Some ''r2'') signed_in_again
     = (Inr (RefreshResponse tok secs dl (rq_token later_request 0)), p'))"
proof -
  let ?u = "hd (users (database one_account))" and ?r = "sample_token ''h:r2'' 5 None"
  have d: "get_refresh_token_by_hash ''h:r2'' (database signed_in_again) = Some ?r"
    by (simp add: get_refresh_token_by_hash_def signed_in_again_database signed_in_tokens sample_token_def)
  have u: "get_by_id (rt_user_id ?r) (database signed_in_again) = Some ?u" "u_status ?u \<noteq> DEACTIVATED"
    by (simp_all add: get_by_id_def signed_in_again_database signed_in_def one_account_def sample_token_def new_user_def)
  have b: "get_revoke_before (rq_now later_request) 1 (cache signed_in_again) = Some (- 5)"
    by (simp add: signed_in_again_def later_request_def duration_defs)
  then have rb: "rb < rt_issued_at ?r"
    if "get_revoke_before (rq_now later_request) (rt_user_id ?r) (cache signed_in_again) = Some rb" for rb
    using that by (simp add: sample_token_def)
  have t: "rq_now later_request < rt_expires_at ?r"
    "rq_now later_request - (case rt_last_used_at ?r of None \<Rightarrow> rt_issued_at ?r | Some x \<Rightarrow> x) \<le> days 14"
    by (simp_all add: later_request_def sample_token_def duration_defs)
  have fresh: "sha256_hex zero_libs (rq_token later_request 0) \<notin> rt_token_hash ` set (refresh_tokens (database signed_in_again))"
    "rq_uuid later_request 0 \<notin> us_jti ` set (user_sessions (database signed_in_again))"
    by (simp_all add: signed_in_again_database signed_in_tokens sample_token_def later_request_def sample_request_def
        zero_libs_def eval_nat_numeral) (simp add: signed_in_def one_account_def empty_db_def)
  have "fst (record_request (rq_now later_request) (rt_family_id ?r) 3600 (cache signed_in_again))
      = fst (record_request (rq_now later_request) (rt_family_id ?r) 3600 (cache signed_in))"
    by (simp add: record_request_def signed_in_again_def set_revoke_before_def case_prod_beta)
  then have rate: "fst (record_request (rq_now later_request) (rt_family_id ?r) 3600 (cache signed_in_again)) \<le> 60"
    by (simp add: sample_rate)
  show ?thesis
    using b live_session_continues [OF sample_hash(2) d _ _ t(1) u rb t(2) rate fresh] by (auto simp: sample_token_def)
qed

end
