(* ===== verification/Isolation.thy ===== *)
theory Isolation
  imports Api Ownership Access_Control
begin

text \<open>
  What the guards of the routes achieve together: a call without an accepted token, or whose token lacks the
  scope of the route, changes nothing (a denied audit listing is recorded); and a call with a customer's token changes nothing that belongs to
  another account.
\<close>

section \<open>Who may call what\<close>

text \<open>The routes that take no access token: their credential, if any, is in the body or the cookie.\<close>

definition public_route :: "api_call \<Rightarrow> bool" where
  "public_route c = (case c of RegisterUser _ _ \<Rightarrow> True | Login _ _ \<Rightarrow> True | RefreshToken \<Rightarrow> True
     | RequestPasswordReset _ \<Rightarrow> True | ConfirmPasswordReset _ _ \<Rightarrow> True | VerifyMfa _ _ \<Rightarrow> True
     | VerifyEmail _ \<Rightarrow> True | ResendVerification _ \<Rightarrow> True | ConfirmEmailChange _ \<Rightarrow> True | _ \<Rightarrow> False)"

definition required_scope :: "api_call \<Rightarrow> string option" where
  "required_scope c = (case c of
       ListRoleCatalogue \<Rightarrow> Some ''users:read'' | ListUsers _ _ _ _ _ \<Rightarrow> Some ''users:read''
     | GetUser _ \<Rightarrow> Some ''users:read'' | CreateUser _ \<Rightarrow> Some ''users:write'' | UpdateUser _ _ _ \<Rightarrow> Some ''users:write''
     | DeactivateUser _ _ \<Rightarrow> Some ''users:write'' | ResendInvite _ \<Rightarrow> Some ''users:write''
     | ReplaceUserRoles _ _ \<Rightarrow> Some ''roles:write'' | ListAuditLogs _ _ _ _ _ _ _ \<Rightarrow> Some ''audit:read''
     | AssignTicket _ _ \<Rightarrow> Some ''tickets:write'' | UnassignTicket _ \<Rightarrow> Some ''tickets:write''
     | _ \<Rightarrow> None)"

text \<open>The account a call acts for: logging out accepts a revoked token, enrolment a token that is good for
  nothing else.\<close>

definition for_enrolment :: "api_call \<Rightarrow> bool" where
  "for_enrolment c = (case c of EnrollMfa _ \<Rightarrow> True | ActivateMfa _ \<Rightarrow> True | _ \<Rightarrow> False)"

definition identify :: "libs \<Rightarrow> request \<Rightarrow> http_call \<Rightarrow> api_call \<Rightarrow> portal \<Rightarrow> api_error + authenticated_user" where
  "identify L rq hc c p =
     (case hc_token hc of
        None \<Rightarrow> Inl NotAuthenticated
      | Some token \<Rightarrow> map_sum Raised id
          (require_authenticated (get_authenticated_user L rq token (c = Logout) (for_enrolment c) p)))"

lemma require_authenticated_status:
  assumes "require_authenticated (get_authenticated_user L rq token a b p) = Inl e"
  shows "http_status e \<in> {401, 403}"
proof -
  have "e \<in> {UnauthenticatedError, TokenStaleError, MfaEnrollmentRequiredError}"
    using assms by (auto simp: require_authenticated_def get_authenticated_user_def Let_def split: option.splits if_splits)
  then show ?thesis
    by (auto simp: http_status_def first_some_def ProblemError_def users_problem_def)
qed

lemma identify_refused:
  assumes "identify L rq hc c p = Inl e"
  shows "error_status e \<in> {401, 403}"
proof (cases "hc_token hc")
  case None
  then show ?thesis using assms by (simp add: identify_def)
next
  case (Some token)
  then obtain f where "require_authenticated (get_authenticated_user L rq token (c = Logout) (for_enrolment c) p) = Inl f" "e = Raised f"
    using assms by (auto simp: identify_def map_sum_def split: sum.splits)
  then show ?thesis using require_authenticated_status by simp
qed

lemmas dependencies = get_current_user_def get_current_user_allow_revoked_def get_current_user_allow_enrollment_scoped_def

text \<open>A protected route is its dependency followed by a continuation.\<close>

lemma authenticated_by_identify:
  assumes "dep = (\<lambda>token p. require_authenticated (get_authenticated_user L rq token (c = Logout) (for_enrolment c) p))"
  shows "authenticated dep hc p k = (case identify L rq hc c p of Inl e \<Rightarrow> (Inl e, p) | Inr user \<Rightarrow> k user)"
  by (auto simp: assms authenticated_def identify_def split: option.splits sum.splits)

lemmas protected_routes = route_logout_def route_logout_all_def route_list_sessions_def route_revoke_session_def
  route_enroll_mfa_def route_activate_mfa_def route_disable_mfa_def route_update_profile_def
  route_deactivate_account_def route_list_role_catalogue_def route_replace_user_roles_def route_list_users_def
  route_get_user_def route_create_user_def route_update_user_def route_deactivate_user_def
  route_delete_user_not_allowed_def route_resend_invite_def route_list_audit_logs_def route_create_ticket_def
  route_list_tickets_def route_assign_ticket_def route_unassign_ticket_def route_create_ticket_reply_def
  route_get_ticket_detail_def route_resolve_ticket_def route_close_ticket_def route_reopen_ticket_def

lemma authenticated_refused:
  "identify L rq hc c p = Inl e \<Longrightarrow> dep = (\<lambda>token p. require_authenticated (get_authenticated_user L rq token (c = Logout) (for_enrolment c) p))
    \<Longrightarrow> authenticated dep hc p k = (Inl e, p)"
  by (simp add: authenticated_by_identify)

lemma authenticated_passed:
  "identify L rq hc c p = Inr user \<Longrightarrow> dep = (\<lambda>token p. require_authenticated (get_authenticated_user L rq token (c = Logout) (for_enrolment c) p))
    \<Longrightarrow> authenticated dep hc p k = k user"
  by (simp add: authenticated_by_identify)

lemma serve_unidentified:
  assumes "\<not> public_route c" and "identify L rq hc c p = Inl e"
  shows "serve L ids later rq hc c p = (error_status e, p)"
  using assms
  by (cases c) (simp_all add: public_route_def protected_routes authenticated_refused [OF assms(2)]
      for_enrolment_def dependencies fun_eq_iff outline_def answer_status_def)

lemma statuses:
  "http_status InsufficientPermissionError = 403" "http_status no_ticket = 404"
  "http_status (SupportError SupportInsufficientPermissionError) = 403"
  by (simp_all add: no_ticket_def http_status_def first_some_def ProblemError_def users_problem_def roles_problem_def
      support_problem_def)

lemma serve_without_scope:
  assumes "identify L rq hc c p = Inr user" and "required_scope c = Some s" and "s \<notin> set (au_scopes user)"
    and "s \<noteq> ''audit:read''"
  shows "snd (serve L ids later rq hc c p) = p \<and> fst (serve L ids later rq hc c p) \<in> {403, 404}"
  using assms(2-4)
  by (cases c) (simp_all add: required_scope_def protected_routes authenticated_passed [OF assms(1)]
      for_enrolment_def dependencies fun_eq_iff outline_def answer_status_def scoped_def require_scope_def
      assign_ticket_def unassign_ticket_def answer_def statuses)

section \<open>A refused call\<close>

definition audit_listing :: "api_call \<Rightarrow> bool" where
  "audit_listing c = (case c of ListAuditLogs _ _ _ _ _ _ _ \<Rightarrow> True | _ \<Rightarrow> False)"

text \<open>No accepted token, or a token without the scope of the route.\<close>

definition refused :: "libs \<Rightarrow> request \<Rightarrow> http_call \<Rightarrow> api_call \<Rightarrow> portal \<Rightarrow> bool" where
  "refused L rq hc c p = (case identify L rq hc c p of
       Inl _ \<Rightarrow> True
     | Inr user \<Rightarrow> (case required_scope c of None \<Rightarrow> False | Some s \<Rightarrow> s \<notin> set (au_scopes user)))"

lemma record_access_denied_cases:
  obtains (recorded) rows where "record_access_denied L rq i p = (Inr (), p\<lparr>database := (database p)\<lparr>audit_logs := rows\<rparr>\<rparr>)"
  | (failed) e where "record_access_denied L rq i p = (Inl (DatabaseError e), p)"
proof (cases "repo_record_access_denied L rq (rq_uuid rq 0) i (resolve_actor_role i (database p)) (database p)")
  case (Inl e)
  then show thesis by (intro failed) (simp add: record_access_denied_def)
next
  case (Inr d)
  then obtain rows where "d = (database p)\<lparr>audit_logs := rows\<rparr>"
    by (auto simp: repo_record_access_denied_def insert_audit_log_def split: if_splits)
  then show thesis using Inr by (intro recorded) (simp add: record_access_denied_def)
qed

lemma refused_audit_listing:
  assumes "identify L rq hc (ListAuditLogs a e g lo hi cu n) p = Inr user" and "''audit:read'' \<notin> set (au_scopes user)"
  shows "serve L ids later rq hc (ListAuditLogs a e g lo hi cu n) p
    = (case repo_record_access_denied L rq (rq_uuid rq 0) (au_user_id user)
           (resolve_actor_role (au_user_id user) (database p)) (database p) of
         Inl f \<Rightarrow> (500, p) | Inr d \<Rightarrow> (403, p\<lparr>database := d\<rparr>))"
proof -
  have run: "serve L ids later rq hc (ListAuditLogs a e g lo hi cu n) p
      = outline (may_read_audit L rq user p (\<lambda>p. answer (ok 200) (list_audit_logs L ids rq (au_user_id user) a e g lo hi cu n p)))"
    by (simp add: protected_routes authenticated_passed [OF assms(1)] for_enrolment_def dependencies fun_eq_iff)
  have "http_status (DatabaseError f) = 500" for f by (simp add: http_status_500 unexpected_def)
  then show ?thesis
    using assms(2) unfolding run may_read_audit_def
    by (simp add: require_audit_read_def require_scope_def record_access_denied_def outline_def answer_status_def
        statuses split: sum.splits)
qed

lemma recorded_denial:
  assumes "repo_record_access_denied L rq i who role d = Inr d'"
  shows "\<exists>row. d' = d\<lparr>audit_logs := audit_logs d @ [row]\<rparr> \<and> al_event row = ''audit_log_access_denied''
    \<and> al_actor_id row = Some who \<and> al_outcome row = Some ''denied'' \<and> al_occurred_at row = rq_db_now rq"
  by (rule insert_audit_log_rowE [OF assms [unfolded repo_record_access_denied_def]]) auto

text \<open>C9. A call to a route that takes an access token changes nothing when the token is missing or not
  accepted (bad signature, expired, revoked session, signed out, outdated scopes, good for enrolment only),
  and the answer is 401 or 403. Nor does it change anything when the token is accepted but lacks the scope of
  the route: the answer is 403, or 404 where the existence of a ticket is not to be confirmed. The one
  exception is the audit listing called with an accepted token without \<open>audit:read\<close>: it is answered 403 and
  leaves exactly one new row, the denial of this caller, at the end of \<open>audit_log\<close>; if the database refuses
  that row, the answer is 500 and nothing has changed.\<close>

theorem refused_call_changes_nothing:
  assumes "\<not> public_route c" and "refused L rq hc c p"
  shows "case identify L rq hc c p of
      Inl e \<Rightarrow> serve L ids later rq hc c p = (error_status e, p) \<and> error_status e \<in> {401, 403}
    | Inr user \<Rightarrow>
        if audit_listing c then
          (case repo_record_access_denied L rq (rq_uuid rq 0) (au_user_id user)
               (resolve_actor_role (au_user_id user) (database p)) (database p) of
             Inl f \<Rightarrow> serve L ids later rq hc c p = (500, p)
           | Inr d \<Rightarrow> serve L ids later rq hc c p = (403, p\<lparr>database := d\<rparr>)
               \<and> (\<exists>row. d = (database p)\<lparr>audit_logs := audit_logs (database p) @ [row]\<rparr>
                    \<and> al_event row = ''audit_log_access_denied'' \<and> al_actor_id row = Some (au_user_id user)
                    \<and> al_outcome row = Some ''denied'' \<and> al_occurred_at row = rq_db_now rq))
        else snd (serve L ids later rq hc c p) = p \<and> fst (serve L ids later rq hc c p) \<in> {403, 404}"
proof (cases "identify L rq hc c p")
  case (Inl e)
  with serve_unidentified [OF assms(1) Inl] identify_refused [OF Inl] show ?thesis by (simp only: sum.case simp_thms)
next
  case (Inr user)
  then obtain s where s: "required_scope c = Some s" "s \<notin> set (au_scopes user)"
    using assms(2) by (auto simp: refused_def split: option.splits)
  show ?thesis
  proof (cases "audit_listing c")
    case True
    then obtain a e g lo hi cu n where c: "c = ListAuditLogs a e g lo hi cu n"
      by (cases c) (simp_all add: audit_listing_def)
    have "''audit:read'' \<notin> set (au_scopes user)" using s c by (simp add: required_scope_def)
    from refused_audit_listing [OF Inr [unfolded c] this, of ids later] Inr True show ?thesis
      unfolding c by (simp del: serve.simps add: recorded_denial split: sum.splits)
  next
    case False
    then have "s \<noteq> ''audit:read''" using s(1) by (cases c) (auto simp: audit_listing_def required_scope_def)
    from serve_without_scope [OF Inr s this] False Inr show ?thesis by (simp only: sum.case if_False simp_thms)
  qed
qed

section \<open>A customer's call\<close>

lemma identified_session:
  assumes "identify L rq hc c p = Inr user"
  obtains s where "get_session_by_jti (au_jti user) (database p) = Some s" "us_user_id s = au_user_id user"
  using assms that
  by (auto simp: identify_def map_sum_def require_authenticated_def get_authenticated_user_def Let_def
      split: option.splits sum.splits if_splits)

lemma foreign_list_audit_logs:
  "foreign i (database (snd (list_audit_logs L ids rq a f e g lo hi c n p))) = foreign i (database p)"
  by (auto simp: list_audit_logs_def record_self_audit_def insert_audit_log_def
      split: option.splits sum.splits prod.splits if_splits)

lemma foreign_may_read_audit:
  assumes "\<And>q. foreign i (database (snd (k q))) = foreign i (database q)"
  shows "foreign i (database (snd (may_read_audit L rq user p k))) = foreign i (database p)"
proof (cases rule: record_access_denied_cases [of L rq "au_user_id user" p])
  case (recorded rows)
  then show ?thesis by (simp add: may_read_audit_def require_audit_read_def require_scope_def assms)
next
  case (failed e)
  then show ?thesis by (simp add: may_read_audit_def require_audit_read_def require_scope_def assms)
qed

definition staff_scopes :: "string list" where
  "staff_scopes = [''users:write'', ''roles:write'', ''tickets:write'']"

lemma foreign_guards:
  "foreign i (database (snd a)) = foreign i (database p) \<Longrightarrow> foreign i (database (snd (validated cs p a))) = foreign i (database p)"
  "foreign i (database (snd a)) = foreign i (database p) \<Longrightarrow> foreign i (database (snd (scoped s user p a))) = foreign i (database p)"
  "snd (answer f r) = snd r"
  "snd (outline a) = snd a"
  by (auto simp: validated_def scoped_def answer_def outline_def Let_def split: sum.splits)

lemmas foreign_operations = foreign_drop_session foreign_mfa foreign_update_profile foreign_deactivation
  foreign_transitions foreign_create_ticket foreign_create_reply foreign_list_audit_logs

text \<open>C8. A customer's call stays at home. Whatever a caller requests with an access token that carries none
  of the scopes \<open>users:write\<close>, \<open>roles:write\<close> and \<open>tickets:write\<close>: the accounts, sessions, refresh tokens,
  reset links, recovery codes, verification and e-mail change tokens, tickets, replies and attachments of all
  other accounts stay as they are, and so do all roles, role grants and invitations. Only logs are appended.
  This covers identifiers the caller makes up and a refresh cookie that is not the caller's.\<close>

theorem customer_isolation:
  assumes "\<not> public_route c" and "identify L rq hc c p = Inr user"
    and "set (au_scopes user) \<inter> set staff_scopes = {}" and "well_keyed (database p)"
  shows "foreign (au_user_id user) (database (snd (serve L ids (\<lambda>_. p) rq hc c p))) = foreign (au_user_id user) (database p)"
proof -
  let ?i = "au_user_id user"
  obtain s where s: "get_session_by_jti (au_jti user) (database p) = Some s" "us_user_id s = ?i"
    by (rule identified_session [OF assms(2)])
  have scopes: "''users:write'' \<notin> set (au_scopes user)" "''roles:write'' \<notin> set (au_scopes user)"
      "''tickets:write'' \<notin> set (au_scopes user)"
    using assms(3) by (auto simp: staff_scopes_def)
  then have kind: "resolve_actor_kind (au_scopes user) = Customer" by (simp add: resolve_actor_kind_def)
  show ?thesis
  proof (cases "\<exists>sc. required_scope c = Some sc \<and> sc \<in> set staff_scopes")
    case True
    then obtain sc where "required_scope c = Some sc" "sc \<notin> set (au_scopes user)" "sc \<noteq> ''audit:read''"
      using assms(3) by (auto simp: staff_scopes_def)
    from serve_without_scope [OF assms(2) this] show ?thesis by simp
  next
    case False
    have out: "foreign ?i (database (snd (logout L rq (au_jti user) ?i raw p))) = foreign ?i (database p)" for raw
      by (rule foreign_logout [OF s assms(4)])
    show ?thesis
      using False assms(1)
      by (cases c) (simp_all add: public_route_def required_scope_def staff_scopes_def protected_routes
          authenticated_passed [OF assms(2)] for_enrolment_def dependencies fun_eq_iff foreign_guards
          foreign_operations assms(4) out kind foreign_may_read_audit logout_all_def
          split: sum.splits)
  qed
qed

section \<open>Sample calls\<close>

definition call_without_token :: http_call where
  "call_without_token = \<lparr>hc_token = None, hc_authorization = None, hc_refresh_cookie = None\<rparr>"

text \<open>Account 2 presents a refresh token of account 1 as its cookie and asks to end account 1's session.\<close>

definition intruded :: portal where
  "intruded = signed_in\<lparr>database := (database signed_in)\<lparr>user_sessions := [\<lparr>us_jti = 9, us_user_id = 2, us_issued_at = 0,
     us_expires_at = seconds 900, us_revoked_at = None\<rparr>]\<rparr>\<rparr>"

definition intruder_call :: http_call where
  "intruder_call = \<lparr>hc_token = Some (encode_access_token sample_libs 0 2 9 [] False), hc_authorization = None,
     hc_refresh_cookie = Some ''r1''\<rparr>"

lemma intruder_identified:
  assumes "c \<noteq> Logout" and "\<not> for_enrolment c"
  shows "identify sample_libs sample_request intruder_call c intruded
      = Inr \<lparr>au_user_id = 2, au_jti = 9, au_scopes = [], au_mfa_enrollment_required = False\<rparr>"
proof -
  have now: "rq_now sample_request = 1000" "rq_valkey_up sample_request" by (simp_all add: sample_request_def)
  show ?thesis
    using assms by (simp add: identify_def intruder_call_def require_authenticated_def get_authenticated_user_def
        decode_encoded_access_token [OF sample_libs_jwt] now Let_def get_session_by_jti_def intruded_def signed_in_def
        one_account_def empty_valkey_def get_revoke_before_def get_perm_epoch_def vk_get_def seconds_def)
qed

theorem customer_isolation_witness:
  "foreign 2 (database (snd (serve sample_libs (\<lambda>_ _. 0) (\<lambda>_. intruded) sample_request intruder_call (RevokeSession 6) intruded)))
     = foreign 2 (database intruded)
   \<and> length (refresh_tokens (foreign 2 (database intruded))) = 3"
proof -
  have public: "\<not> public_route (RevokeSession 6)" by (simp add: public_route_def)
  have user: "identify sample_libs sample_request intruder_call (RevokeSession 6) intruded
      = Inr \<lparr>au_user_id = 2, au_jti = 9, au_scopes = [], au_mfa_enrollment_required = False\<rparr>"
    by (rule intruder_identified) (simp_all add: for_enrolment_def)
  have keyed: "well_keyed (database intruded)"
    using signed_in_inv by (simp add: well_keyed_def intruded_def signed_in_def one_account_def empty_db_def)
  have "length (refresh_tokens (foreign 2 (database intruded))) = 3"
    by (simp add: foreign_def intruded_def signed_in_tokens sample_token_def)
  then show ?thesis
    using customer_isolation [OF public user _ keyed, of "\<lambda>_ _. 0"] by (simp del: serve.simps)
qed

text \<open>Without a token, and with a customer's token on the audit listing.\<close>

theorem refused_call_changes_nothing_witness:
  "serve sample_libs (\<lambda>_ _. 0) (\<lambda>_. intruded) sample_request call_without_token LogoutAll intruded = (401, intruded)
   \<and> map al_event (audit_logs (database (snd (serve sample_libs (\<lambda>_ _. 0) (\<lambda>_. intruded) sample_request intruder_call
        (ListAuditLogs None None None None None None 10) intruded)))) = [''audit_log_access_denied'']"
proof -
  let ?c = "ListAuditLogs None None None None None None 10"
  let ?deny = "repo_record_access_denied sample_libs sample_request (rq_uuid sample_request 0) 2
      (resolve_actor_role 2 (database intruded)) (database intruded)"
  have none: "identify sample_libs sample_request call_without_token LogoutAll intruded = Inl NotAuthenticated"
    by (simp add: identify_def call_without_token_def)
  have r: "\<not> public_route LogoutAll" "refused sample_libs sample_request call_without_token LogoutAll intruded"
    by (simp_all add: public_route_def refused_def none)
  have user: "identify sample_libs sample_request intruder_call ?c intruded
      = Inr \<lparr>au_user_id = 2, au_jti = 9, au_scopes = [], au_mfa_enrollment_required = False\<rparr>"
    by (rule intruder_identified) (simp_all add: for_enrolment_def)
  have a: "\<not> public_route ?c" "refused sample_libs sample_request intruder_call ?c intruded"
    by (simp_all add: public_route_def refused_def user required_scope_def)
  have e: "audit_logs (database intruded) = []" by (simp add: intruded_def signed_in_def one_account_def empty_db_def)
  have "case ?deny of Inl _ \<Rightarrow> False | Inr _ \<Rightarrow> True" by code_simp
  then obtain d where d: "?deny = Inr d" by (cases ?deny) simp_all
  show ?thesis
    using refused_call_changes_nothing [OF r, of "\<lambda>_ _. 0" "\<lambda>_. intruded"]
      refused_call_changes_nothing [OF a, of "\<lambda>_ _. 0" "\<lambda>_. intruded"]
    by (auto simp: none user audit_listing_def d e simp del: serve.simps)
qed

end
