(* ===== verification/Grants.thy ===== *)
theory Grants
  imports Isolation
begin

text \<open>
  Role grants and the catalogue of roles over the whole interface: which calls can change them.
\<close>

definition grants :: "db \<Rightarrow> role list \<times> user_role list" where
  "grants d = (roles d, user_roles d)"

section \<open>Operations that leave the grants alone\<close>

lemma grants_eq: "roles d' = roles d \<Longrightarrow> user_roles d' = user_roles d \<Longrightarrow> grants d' = grants d"
  by (simp add: grants_def)

lemma grants_foreign [simp]: "grants (foreign i d) = grants d"
  by (simp add: grants_def foreign_def)

lemma grants_by_foreign: "foreign i d' = foreign i d \<Longrightarrow> grants d' = grants d"
  by (metis grants_foreign)

lemma grants_simps [simp]:
  "grants (auth_log rq e r s a d) = grants d"
  "grants (create_auth_audit_log_entry t ev re sc a ip ua rid sev tf d) = grants d"
  "grants (update_user i f d) = grants d"
  "grants (update_last_login_at t i d) = grants d"
  "grants (update_password_hash i h d) = grants d"
  "grants (set_mfa_reenrollment_required i d) = grants d"
  "grants (revoke_refresh_token_family t fam d) = grants d"
  "grants (repo_revoke_session t j d) = grants d"
  "grants (revoke_sessions_except t i x d) = grants d"
  "grants (evict_oldest_family_if_at_cap rq i d) = grants d"
  "grants (create_lifecycle_audit_log_entry t i ev g d) = grants d"
  "grants (invalidate_password_reset_tokens_for_user t i d) = grants d"
  "grants (mark_user_verified i d) = grants d"
  by (simp_all add: grants_def repo_defs auth_log_def evict_oldest_family_if_at_cap_def create_lifecycle_audit_log_entry_def
      mark_user_verified_def Let_def)

lemma grants_returning:
  "consume_recovery_code t j d = (a, d') \<Longrightarrow> grants d' = grants d"
  "consume_refresh_token t h d = (b, d') \<Longrightarrow> grants d' = grants d"
  "consume_password_reset_token t h d = (c, d') \<Longrightarrow> grants d' = grants d"
  "consume_token t j d = (e, d') \<Longrightarrow> grants d' = grants d"
  "consume_email_change_token t j d = (f, d') \<Longrightarrow> grants d' = grants d"
  "reactivate_if_within_grace i limit d = (g, d') \<Longrightarrow> grants d' = grants d"
  by (auto simp: grants_def consume_recovery_code_def consume_refresh_token_def consume_password_reset_token_def
      consume_token_def consume_email_change_token_def reactivate_if_within_grace_def split: prod.splits)

lemma grants_inserts:
  "create_session t i j x d = Inr d' \<Longrightarrow> grants d' = grants d"
  "create_refresh_token t h f i x ip ua lu d = Inr d' \<Longrightarrow> grants d' = grants d"
  "create_password_reset_token t i h x d = Inr d' \<Longrightarrow> grants d' = grants d"
  "create_token t k i h x d = Inr d' \<Longrightarrow> grants d' = grants d"
  "create_user t i em h st d = Some (u, d') \<Longrightarrow> grants d' = grants d"
  "apply_email_change i em d = Some d' \<Longrightarrow> grants d' = grants d"
  "insert_profile_audit rows d = Inr d' \<Longrightarrow> grants d' = grants d"
  "record_event L rq n c ev a g out pl d = Inr d' \<Longrightarrow> grants d' = grants d"
  by (auto simp: grants_def create_session_def create_refresh_token_def create_password_reset_token_def create_token_def
      create_user_def apply_email_change_def insert_profile_audit_def insert_unique_def record_event_def
      repo_record_event_def insert_audit_log_def update_user_def Let_def split: if_splits)

lemma grants_issue_token: "issue_token L rq i d = Inr (raw, d') \<Longrightarrow> grants d' = grants d"
  by (auto simp: issue_token_def Let_def map_sum_def split: sum.splits dest: grants_inserts(4))

lemma grants_mint_session: "mint_session L rq u sc d = Inr d' \<Longrightarrow> grants d' = grants d"
  by (auto simp: mint_session_def Let_def split: prod.splits sum.splits dest!: grants_inserts(1,2))

lemma grants_registration:
  "grants (database (snd (register_user L rq em pw p))) = grants (database p)"
  "grants (database (snd (verify_email L rq tok p))) = grants (database p)"
  "grants (database (snd (resend_verification L rq em p))) = grants (database p)"
  subgoal by (auto simp: register_user_def issue_pending_token_def Let_def split: prod.splits option.splits sum.splits
        dest!: grants_inserts(5) grants_issue_token)
  subgoal by (auto simp: verify_email_def Let_def split: prod.splits option.splits bool.splits dest!: grants_returning(4))
  subgoal by (auto simp: resend_verification_def Let_def split: prod.splits option.splits sum.splits dest!: grants_issue_token)
  done

lemma grants_login_verified: "grants (database (snd (login_verified L rq u p))) = grants (database p)"
  by (auto simp: login_verified_def complete_login_def Let_def split: prod.splits sum.splits dest: grants_mint_session)

lemma grants_reactivation: "reactivate_account rq i p = (b, q) \<Longrightarrow> grants (database q) = grants (database p)"
  by (auto simp: reactivate_account_def Let_def split: prod.splits if_splits dest: grants_returning(6))

lemma grants_login: "grants (database (snd (authenticate_user L rq em pw p))) = grants (database p)"
  by (auto simp: authenticate_user_def grants_login_verified Let_def split: prod.splits sum.splits option.splits bool.splits
      dest: grants_reactivation)

lemma grants_reuse: "grants (database (handle_reuse_or_race rq r q)) = grants (database q)"
  by (auto simp: handle_reuse_or_race_def reuse_detected_def Let_def split: option.splits)

lemma grants_rotate_consume: "grants (database (snd (rotate_consume L rq h u q))) = grants (database q)"
  by (auto simp: rotate_consume_def Let_def grants_reuse split: prod.splits sum.splits option.splits
      dest!: grants_inserts(1,2) grants_returning(2))

lemma grants_rotation: "grants (database (snd (rotate_refresh_token L rq raw p))) = grants (database p)"
proof (cases "rotate_checks L rq raw p")
  case (Pair v q)
  then show ?thesis
    using rotate_checks_database [of L rq raw p] Pair
    by (cases v) (simp_all add: rotate_refresh_token_def grants_reuse grants_rotate_consume)
qed

lemma grants_reset:
  "grants (database (snd (request_password_reset L rq em p))) = grants (database p)"
  "grants (database (snd (confirm_password_reset L rq raw pw p))) = grants (database p)"
  subgoal by (auto simp: request_password_reset_def Let_def split: prod.splits sum.splits option.splits if_splits
        dest!: grants_inserts(3))
  subgoal by (auto simp: confirm_password_reset_def Let_def split: prod.splits option.splits dest!: grants_returning(3))
  done

lemma grants_candidates: "try_candidates L t code cs d = (b, d') \<Longrightarrow> grants d' = grants d"
  by (induction cs) (auto simp: Let_def split: prod.splits if_splits dest: grants_returning(1))

lemma grants_complete_mfa: "grants (database (snd (complete_mfa_login L rq u q))) = grants (database q)"
  by (auto simp: complete_mfa_login_def split: sum.splits dest: grants_mint_session)

lemma grants_second_factor: "grants (database (snd (verify_mfa L rq raw code p))) = grants (database p)"
  by (auto simp: verify_mfa_def try_consume_recovery_code_def grants_complete_mfa Let_def
      split: option.splits prod.splits bool.splits sum.splits dest: grants_candidates)

lemma grants_email_change: "grants (database (snd (confirm_email_change L rq raw hdr p))) = grants (database p)"
  by (auto simp: confirm_email_change_def revoke_other_sessions_def Let_def
      split: option.splits prod.splits bool.splits sum.splits dest!: grants_inserts(6,7) grants_returning(5))

lemma grants_sessions:
  "grants (database (snd (logout L rq j i raw p))) = grants (database p)"
  "grants (database (snd (logout_all rq i p))) = grants (database p)"
  "grants (database (snd (revoke_session L rq i fam raw p))) = grants (database p)"
  by (auto simp: logout_def logout_all_def revoke_session_def Let_def split: option.splits sum.splits)

lemma grants_tickets:
  "update_ticket P f d = Inr (r, d') \<Longrightarrow> grants d' = grants d"
  "bind_to_ticket t j d = (a, d') \<Longrightarrow> grants d' = grants d"
  "bind_to_reply t j d = (a, d') \<Longrightarrow> grants d' = grants d"
  "ticket_create L now j i s b c d = Inr (k, d') \<Longrightarrow> grants d' = grants d"
  "reply_create setting now j tid i kind b v d = Inr (rep, d') \<Longrightarrow> grants d' = grants d"
  by (auto simp: grants_def update_ticket_def bind_to_ticket_def bind_to_reply_def ticket_create_def reply_create_def
      advance_ticket_seq_def Let_def split: option.splits prod.splits if_splits)

lemma grants_bind_all:
  assumes "\<And>j d a d'. bind j d = (a, d') \<Longrightarrow> grants d' = grants d"
  shows "bind_all bind ids d = Some d' \<Longrightarrow> grants d' = grants d"
proof (induction ids arbitrary: d)
  case (Cons j ids)
  then show ?case using assms by (auto split: prod.splits option.splits)
qed simp

lemma grants_bind:
  "bind_all (bind_to_ticket t) ids d = Some d' \<Longrightarrow> grants d' = grants d"
  "bind_all (bind_to_reply t) ids d = Some d' \<Longrightarrow> grants d' = grants d"
  by (erule grants_bind_all [rotated], erule grants_tickets)+

lemma grants_ticket_writes:
  "transition_status now j es ns ra cr rn ca cb w d = Inr (r, d') \<Longrightarrow> grants d' = grants d"
  "ticket_update now j st fr d = Inr (r, d') \<Longrightarrow> grants d' = grants d"
  "repo_assign_ticket j g x d = Inr (r, d') \<Longrightarrow> grants d' = grants d"
  "repo_unassign_ticket j d = Inr (r, d') \<Longrightarrow> grants d' = grants d"
  unfolding transition_status_def ticket_update_def ticket_set_def repo_assign_ticket_def repo_unassign_ticket_def
  by (auto split: if_splits sum.splits option.splits prod.splits dest: grants_tickets(1))

lemma grants_audited:
  "grants d = grants (database p) \<Longrightarrow> grants (database (snd (audited L rq e a k d p))) = grants (database p)"
  by (auto simp: audited_def split: sum.splits dest: grants_inserts(8))

lemma grants_audited_pair:
  "audited L rq e a k d p = (r, q) \<Longrightarrow> grants d = grants (database p) \<Longrightarrow> grants (database q) = grants (database p)"
  using grants_audited [of d p L rq e a k] by simp

lemma grants_transitions:
  "grants (database (snd (assign_ticket L rq seen j a sc g p))) = grants (database p)"
  "grants (database (snd (unassign_ticket L rq seen j a sc p))) = grants (database p)"
  "grants (database (snd (close_ticket L rq seen j a kind p))) = grants (database p)"
  "grants (database (snd (reopen_ticket L rq seen j a kind p))) = grants (database p)"
  "grants (database (snd (resolve_ticket L rq seen j a kind note p))) = grants (database p)"
  subgoal by (auto simp: assign_ticket_def intro!: grants_audited split: option.splits sum.splits dest: grants_ticket_writes(3))
  subgoal by (auto simp: unassign_ticket_def intro!: grants_audited split: option.splits sum.splits dest: grants_ticket_writes(4))
  subgoal by (auto simp: close_ticket_def intro!: grants_audited split: option.splits sum.splits dest: grants_ticket_writes(1))
  subgoal by (auto simp: reopen_ticket_def intro!: grants_audited split: option.splits sum.splits dest: grants_ticket_writes(1))
  subgoal by (auto simp: resolve_ticket_def split: option.splits sum.splits prod.splits
        dest!: grants_ticket_writes(1) dest: grants_audited_pair)
  done

lemma grants_create_ticket: "grants (database (snd (create_ticket L rq (\<lambda>_. p) i key s b c as p))) = grants (database p)"
proof -
  have "grants d = grants (database p)" if "create_ticket_tx L rq i s b c as (database p) = (r, d)" for r d
    using that by (auto simp: create_ticket_tx_def split: if_splits sum.splits option.splits
        dest!: grants_tickets(4) grants_bind(1) grants_inserts(8)) (simp_all add: advance_ticket_seq_def grants_def)
  then show ?thesis by (auto simp: create_ticket_def Let_def split: prod.splits sum.splits option.splits)
qed

lemma grants_create_reply: "grants (database (snd (create_reply L rq seen j i kind b v as p))) = grants (database p)"
proof -
  have "grants d' = grants d" if "reopen_by_reply L rq tid a d = Inr d'" for tid a d d'
    using that by (auto simp: reopen_by_reply_def split: sum.splits option.splits prod.splits
        dest!: grants_ticket_writes(1) dest: grants_inserts(8))
  then have "grants d' = grants d" if "reply_tx L rq ticket i kind b w as d = Inr (rep, d')" for ticket w d rep d'
    using that by (auto simp: reply_tx_def Let_def split: sum.splits option.splits prod.splits if_splits
        dest!: grants_tickets(5) grants_bind(2) grants_ticket_writes(2))
  then show ?thesis by (auto simp: create_reply_def Let_def split: option.splits prod.splits sum.splits)
qed

lemma grants_deactivation: "grants (database (snd (deactivate_user rq a i reason p))) = grants (database p)"
proof (cases "fst (deactivate_user rq a i reason p)")
  case (Inl e)
  then have "deactivate_user rq a i reason p = (Inl e, snd (deactivate_user rq a i reason p))" by (simp add: prod_eq_iff)
  then have "snd (deactivate_user rq a i reason p) = p" by (rule deactivate_user_Inl)
  then show ?thesis by simp
next
  case (Inr r)
  then have "deactivate_user rq a i reason p = (Inr r, snd (deactivate_user rq a i reason p))" by (simp add: prod_eq_iff)
  note D = deactivate_user_Inr(3,4) [OF this]
  show ?thesis by (rule grants_eq [OF D])
qed

lemma grants_administration:
  "grants (database (snd (admin_update_user L rq a i b im p))) = grants (database p)"
  "grants (database (snd (deactivate_user rq a i reason p))) = grants (database p)"
  "grants (database (snd (resend_invite L rq a i p))) = grants (database p)"
  subgoal by (cases rule: admin_update_user_cases [of L rq a i b im p]) (auto simp: grants_def update_user_def)
  subgoal by (rule grants_deactivation)
  subgoal by (rule grants_eq) (rule resend_invite_tables [OF refl])+
  done

section \<open>Who can change grants\<close>

lemma grants_guards:
  "grants (database (snd a)) = grants (database p) \<Longrightarrow> grants (database (snd (validated cs p a))) = grants (database p)"
  "grants (database (snd a)) = grants (database p) \<Longrightarrow> grants (database (snd (scoped s user p a))) = grants (database p)"
  by (auto simp: validated_def scoped_def Let_def split: sum.splits)

lemma grants_audit_listing:
  "grants (database (snd (may_read_audit L rq user p (\<lambda>q. answer f (list_audit_logs L ids rq i x e g lo hi cu n q))))) = grants (database p)"
  by (rule grants_by_foreign, rule foreign_may_read_audit) (simp add: foreign_guards foreign_list_audit_logs)

lemmas grants_operations = grants_registration grants_login grants_rotation grants_reset grants_second_factor
  grants_email_change grants_sessions grants_transitions grants_create_ticket grants_create_reply grants_administration
  grants_by_foreign [OF foreign_mfa(1)] grants_by_foreign [OF foreign_mfa(2)] grants_by_foreign [OF foreign_mfa(3)]
  grants_by_foreign [OF foreign_update_profile] grants_by_foreign [OF foreign_deactivation] grants_audit_listing

lemmas public_routes = route_register_user_def route_login_def route_refresh_token_def route_request_password_reset_def
  route_confirm_password_reset_def route_verify_mfa_def route_verify_email_def route_resend_verification_def
  route_confirm_email_change_def

lemma public_route_keeps_grants:
  "public_route c \<Longrightarrow> grants (database (snd (serve L ids later rq hc c p))) = grants (database p)"
  by (cases c) (simp_all add: public_route_def public_routes foreign_guards grants_guards grants_operations)

lemma identified_route_keeps_grants:
  assumes "identify L rq hc c p = Inr user" and "\<not> public_route c"
    and "\<nexists>i ns. c = ReplaceUserRoles i ns" and "\<nexists>payload. c = CreateUser payload"
  shows "grants (database (snd (serve L ids (\<lambda>_. p) rq hc c p))) = grants (database p)"
  using assms(2-4)
  by (cases c) (simp_all add: public_route_def protected_routes authenticated_passed [OF assms(1)] for_enrolment_def
      dependencies fun_eq_iff foreign_guards grants_guards grants_operations split: sum.splits)

text \<open>C10. Privileges are granted by privilege. A call, authenticated or not, that changes a role or a role
  grant of anybody is either \<open>PUT /admin/users/{id}/roles\<close> with an accepted access token that carries
  \<open>roles:write\<close>, or \<open>POST /admin/users\<close> with one that carries \<open>users:write\<close>. No login, registration, reset,
  profile change, ticket operation or forged identifier gets there.\<close>

theorem grants_change_needs_privilege:
  assumes "grants (database (snd (serve L ids (\<lambda>_. p) rq hc c p))) \<noteq> grants (database p)"
  shows "\<exists>user. identify L rq hc c p = Inr user
    \<and> ((\<exists>i ns. c = ReplaceUserRoles i ns) \<and> ''roles:write'' \<in> set (au_scopes user)
       \<or> (\<exists>payload. c = CreateUser payload) \<and> ''users:write'' \<in> set (au_scopes user))"
proof -
  have public: "\<not> public_route c" using assms public_route_keeps_grants by blast
  show ?thesis
  proof (cases "identify L rq hc c p")
    case (Inl e)
    then show ?thesis using assms serve_unidentified [OF public Inl] by simp
  next
    case (Inr user)
    have scope: "s \<in> set (au_scopes user)" if "required_scope c = Some s" "s \<noteq> ''audit:read''" for s
      using serve_without_scope [OF Inr that(1) _ that(2)] assms by fastforce
    show ?thesis
      using identified_route_keeps_grants [OF Inr public] assms Inr scope
      by (cases c) (auto simp: required_scope_def)
  qed
qed

section \<open>A sample call\<close>

text \<open>Administrator 1 makes account 2 an auditor.\<close>

definition staffed :: portal where
  "staffed = two_admins\<lparr>database := (database two_admins)\<lparr>user_sessions := [\<lparr>us_jti = 9, us_user_id = 1, us_issued_at = 0,
     us_expires_at = seconds 900, us_revoked_at = None\<rparr>]\<rparr>\<rparr>"

definition staff_call :: http_call where
  "staff_call = \<lparr>hc_token = Some (encode_access_token sample_libs 0 1 9 [''roles:write'', ''audit:read''] False),
     hc_authorization = None, hc_refresh_cookie = None\<rparr>"

theorem grants_change_needs_privilege_witness:
  "\<exists>user. identify sample_libs sample_request staff_call (ReplaceUserRoles 2 [''auditor'']) staffed = Inr user
     \<and> ''roles:write'' \<in> set (au_scopes user)"
proof -
  have "map ur_role_id (user_roles (database (snd (serve sample_libs (\<lambda>_ _. 0) (\<lambda>_. staffed) sample_request staff_call
      (ReplaceUserRoles 2 [''auditor'']) staffed)))) = [30, 40]"
    by code_simp
  moreover have "map ur_role_id (user_roles (database staffed)) = [30, 30]" by code_simp
  ultimately have "grants (database (snd (serve sample_libs (\<lambda>_ _. 0) (\<lambda>_. staffed) sample_request staff_call
      (ReplaceUserRoles 2 [''auditor'']) staffed))) \<noteq> grants (database staffed)"
    by (auto simp: grants_def simp del: serve.simps)
  from grants_change_needs_privilege [OF this] show ?thesis by blast
qed

end
