(* ===== verification/Later_Calls.thy ===== *)
theory Later_Calls
  imports Grants
begin

text \<open>
  What outlives a call: the permission epochs and the used TOTP steps in the cache, and the start of every
  access session, over arbitrary sequences of later calls of the interface. Two properties rest on it: a
  change of roles voids the older access tokens, and a TOTP step opens one login.
\<close>

section \<open>What a call may do to the marks\<close>

definition marks :: "valkey \<Rightarrow> (uuid, datetime) ttl_map \<times> (uuid \<times> int, unit) ttl_map" where
  "marks c = (vk_perm_epoch c, vk_mfa_used_step c)"

definition issued :: "db \<Rightarrow> uuid \<Rightarrow> datetime option" where
  "issued d j = map_option us_issued_at (get_session_by_jti j d)"

definition standing :: "portal \<Rightarrow> ((uuid, datetime) ttl_map \<times> (uuid \<times> int, unit) ttl_map) \<times> (uuid \<Rightarrow> datetime option)" where
  "standing p = (marks (cache p), issued (database p))"

text \<open>A call at an instant \<open>t\<close> may set an epoch, to \<open>t\<close> and for fifteen minutes; it may mark an unmarked step,
  for five minutes; and it may open sessions, but not change when one was opened.\<close>

definition evolves :: "datetime \<Rightarrow> portal \<Rightarrow> portal \<Rightarrow> bool" where
  "evolves t p p' \<longleftrightarrow>
     (\<forall>u. vk_perm_epoch (cache p') u \<in> {vk_perm_epoch (cache p) u, Some (t, t + seconds 900)})
   \<and> (\<forall>k. vk_mfa_used_step (cache p') k = vk_mfa_used_step (cache p) k
        \<or> vk_get t k (vk_mfa_used_step (cache p)) = None \<and> vk_mfa_used_step (cache p') k = Some ((), t + seconds 300))
   \<and> (\<forall>j x. issued (database p) j = Some x \<longrightarrow> issued (database p') j = Some x)"

lemma evolves_standing: "standing p' = standing p \<Longrightarrow> evolves t p p'"
  by (simp add: evolves_def standing_def marks_def)

lemma evolves_refl [simp]: "evolves t p p"
  by (rule evolves_standing) simp

section \<open>Statements and gateways that leave everything standing\<close>

lemma issued_eq: "user_sessions d' = user_sessions d \<Longrightarrow> issued d' = issued d"
  by (simp add: issued_def fun_eq_iff get_session_by_jti_def)

lemma issued_update:
  "issued (d\<lparr>user_sessions := update_rows P (\<lambda>s. s\<lparr>us_revoked_at := r\<rparr>) (user_sessions d)\<rparr>) = issued d"
  by (simp add: issued_def fun_eq_iff get_session_by_jti_def find_row_update option.map_comp comp_def if_distrib cong: if_cong)

lemma issued_simps [simp]:
  "issued (auth_log rq e r s a d) = issued d"
  "issued (create_auth_audit_log_entry t ev re sc a ip ua rid sev tf d) = issued d"
  "issued (update_user i f d) = issued d"
  "issued (update_last_login_at t i d) = issued d"
  "issued (update_password_hash i h d) = issued d"
  "issued (update_mfa_pending_secret i b d) = issued d"
  "issued (repo_activate_mfa t i d) = issued d"
  "issued (repo_disable_mfa i d) = issued d"
  "issued (delete_recovery_codes_for_user i d) = issued d"
  "issued (set_mfa_reenrollment_required i d) = issued d"
  "issued (revoke_refresh_token_family t fam d) = issued d"
  "issued (evict_oldest_family_if_at_cap rq i d) = issued d"
  "issued (create_lifecycle_audit_log_entry t i ev g d) = issued d"
  "issued (invalidate_password_reset_tokens_for_user t i d) = issued d"
  "issued (mark_user_verified i d) = issued d"
  by (rule issued_eq, simp add: repo_defs auth_log_def evict_oldest_family_if_at_cap_def create_lifecycle_audit_log_entry_def
      mark_user_verified_def Let_def)+

lemma issued_revocations [simp]:
  "issued (repo_revoke_session t j d) = issued d"
  "issued (revoke_sessions_except t i x d) = issued d"
  by (simp_all add: repo_revoke_session_def revoke_sessions_except_def issued_update)

lemma issued_returning:
  "consume_recovery_code t j d = (a, d') \<Longrightarrow> issued d' = issued d"
  "consume_refresh_token t h d = (b, d') \<Longrightarrow> issued d' = issued d"
  "consume_password_reset_token t h d = (c, d') \<Longrightarrow> issued d' = issued d"
  "consume_token t j d = (e, d') \<Longrightarrow> issued d' = issued d"
  "consume_email_change_token t j d = (f, d') \<Longrightarrow> issued d' = issued d"
  "reactivate_if_within_grace i limit d = (g, d') \<Longrightarrow> issued d' = issued d"
  "deactivate_if_not_already t i d = (h', d') \<Longrightarrow> issued d' = issued d"
  by (rule issued_eq, auto simp: consume_recovery_code_def consume_refresh_token_def consume_password_reset_token_def
      consume_token_def consume_email_change_token_def reactivate_if_within_grace_def deactivate_if_not_already_def
      split: prod.splits option.splits if_splits)+

lemma issued_inserts:
  "create_refresh_token t h f i x ip ua lu d = Inr d' \<Longrightarrow> issued d' = issued d"
  "create_password_reset_token t i h x d = Inr d' \<Longrightarrow> issued d' = issued d"
  "create_token t k i h x d = Inr d' \<Longrightarrow> issued d' = issued d"
  "create_user t i em h st d = Some (u, d') \<Longrightarrow> issued d' = issued d"
  "apply_email_change i em d = Some d' \<Longrightarrow> issued d' = issued d"
  "insert_profile_audit rows d = Inr d' \<Longrightarrow> issued d' = issued d"
  "record_event L rq n c ev a g out pl d = Inr d' \<Longrightarrow> issued d' = issued d"
  "create_recovery_codes t i codes d = Inr d' \<Longrightarrow> issued d' = issued d"
  by (rule issued_eq, auto simp: create_refresh_token_def create_password_reset_token_def create_token_def
      create_user_def apply_email_change_def insert_profile_audit_def insert_unique_def record_event_def
      repo_record_event_def insert_audit_log_def update_user_def create_recovery_codes_def Let_def split: if_splits)+

lemma issued_issue_token: "issue_token L rq i d = Inr (raw, d') \<Longrightarrow> issued d' = issued d"
  by (auto simp: issue_token_def Let_def map_sum_def split: sum.splits dest: issued_inserts(3))

lemma find_row_appended_old: "find_row P rows = Some r \<Longrightarrow> find_row P (rows @ xs) = Some r"
  by (simp add: find_row_append)

lemma issued_appended:
  assumes "user_sessions d' = user_sessions d @ xs" and "issued d j = Some t"
  shows "issued d' j = Some t"
  using assms by (auto simp: issued_def get_session_by_jti_def find_row_appended_old)

lemma marks_gateways [simp]:
  "marks (set_revoke_before t i x c) = marks c"
  "marks (snd (record_account_failure t i x c)) = marks c"
  "marks (snd (record_ip_failure t a x c)) = marks c"
  "marks (reset_account_failures i c) = marks c"
  "marks (snd (record_request t i x c)) = marks c"
  "marks (mfa_issue t h i x c) = marks c"
  "marks (snd (mfa_consume t h c)) = marks c"
  "marks (snd (mfa_record_failed_attempt t h x c)) = marks c"
  "marks (mfa_invalidate h c) = marks c"
  "marks (snd (idem_claim t i k h x c)) = marks c"
  "marks (idem_resolve t i k h g x c) = marks c"
  "marks (idem_release i k c) = marks c"
  "marks (snd (ticket_create_record_and_check t i x c)) = marks c"
  "marks (snd (ticket_reply_record_and_check t i x c)) = marks c"
  by (simp_all add: marks_def cache_defs case_prod_beta)

lemma marks_pairs:
  "record_request t i x c = (n, c') \<Longrightarrow> marks c' = marks c"
  "mfa_record_failed_attempt t h x c = (n, c') \<Longrightarrow> marks c' = marks c"
  "idem_claim t i k h x c = (b, c') \<Longrightarrow> marks c' = marks c"
  "ticket_create_record_and_check t i x c = (n, c') \<Longrightarrow> marks c' = marks c"
  "ticket_reply_record_and_check t i x c = (n, c') \<Longrightarrow> marks c' = marks c"
  "password_reset_limits rq h c = (r, c') \<Longrightarrow> marks c' = marks c"
  by (auto simp: marks_def cache_defs password_reset_limits_def Let_def split: prod.splits if_splits)

section \<open>Operations that leave everything standing\<close>

lemma standing_simps [simp]:
  "standing (send_email rq m p) = standing p"
  "standing (p\<lparr>database := d, cache := c\<rparr>) = (marks c, issued d)"
  "standing (p\<lparr>database := d\<rparr>) = (marks (cache p), issued d)"
  "standing (p\<lparr>cache := c\<rparr>) = (marks c, issued (database p))"
  by (simp_all add: standing_def)

lemma standing_pair: "standing p = (marks (cache p), issued (database p))"
  by (simp add: standing_def)

lemma standing_registration:
  "standing (snd (register_user L rq em pw p)) = standing p"
  "standing (snd (verify_email L rq tok p)) = standing p"
  "standing (snd (resend_verification L rq em p)) = standing p"
  subgoal by (auto simp: register_user_def issue_pending_token_def Let_def standing_pair split: prod.splits option.splits sum.splits
        dest!: issued_inserts(4) issued_issue_token)
  subgoal by (auto simp: verify_email_def Let_def standing_pair split: prod.splits option.splits bool.splits dest!: issued_returning(4))
  subgoal by (auto simp: resend_verification_def Let_def standing_pair split: prod.splits option.splits sum.splits dest!: issued_issue_token)
  done

lemma standing_reset:
  "standing (snd (request_password_reset L rq em p)) = standing p"
  "standing (snd (confirm_password_reset L rq raw pw p)) = standing p"
  subgoal by (auto simp: request_password_reset_def Let_def standing_pair split: prod.splits sum.splits option.splits if_splits
        dest!: issued_inserts(2) marks_pairs(6))
  subgoal by (auto simp: confirm_password_reset_def Let_def standing_pair split: prod.splits option.splits dest!: issued_returning(3))
  done

lemma standing_email_change: "standing (snd (confirm_email_change L rq raw hdr p)) = standing p"
  by (auto simp: confirm_email_change_def revoke_other_sessions_def Let_def standing_pair
      split: option.splits prod.splits bool.splits sum.splits dest!: issued_inserts(5,6) issued_returning(5))

lemma standing_sessions:
  "standing (snd (logout L rq j i raw p)) = standing p"
  "standing (snd (logout_all rq i p)) = standing p"
  "standing (snd (revoke_session L rq i fam raw p)) = standing p"
  by (auto simp: logout_def logout_all_def revoke_session_def Let_def standing_pair split: option.splits sum.splits)

lemma standing_mfa:
  "standing (snd (enroll_mfa L rq i pw p)) = standing p"
  "standing (snd (disable_mfa L rq i pw code p)) = standing p"
  "standing (snd (deactivate_account L rq i pass p)) = standing p"
  by (auto simp: enroll_mfa_def disable_mfa_def deactivate_account_def Let_def standing_pair
      split: option.splits sum.splits prod.splits dest: issued_returning(7))

lemma standing_update_profile: "standing (snd (update_profile L rq user b im p)) = standing p"
proof (cases "apply_partial_update L rq (au_user_id user) b im p")
  case (Pair r q)
  have t: "pu_email pu = e \<Longrightarrow> profile_update_tx L rq u (field_updates_of pu) e d = Inr d' \<Longrightarrow> issued d' = issued d" for u pu e d d'
    by (hypsubst, drule profile_update_tx_Inr) (auto simp: update_user_def intro!: issued_eq)
  have "issued (database q) = issued (database p) \<and> marks (cache q) = marks (cache p)"
    using Pair by (auto simp: apply_partial_update_def Let_def
        split: option.splits sum.splits prod.splits if_splits dest: t)
  with Pair show ?thesis by (simp add: update_profile_def standing_pair split: sum.splits prod.splits)
qed

lemma issued_tickets:
  "update_ticket P f d = Inr (r, d') \<Longrightarrow> issued d' = issued d"
  "bind_to_ticket t j d = (a, d') \<Longrightarrow> issued d' = issued d"
  "bind_to_reply t j d = (a, d') \<Longrightarrow> issued d' = issued d"
  "ticket_create L now j i s b c d = Inr (k, d') \<Longrightarrow> issued d' = issued d"
  "reply_create setting now j tid i kind b v d = Inr (rep, d') \<Longrightarrow> issued d' = issued d"
  by (rule issued_eq, auto simp: update_ticket_def bind_to_ticket_def bind_to_reply_def ticket_create_def reply_create_def
      advance_ticket_seq_def Let_def split: option.splits prod.splits if_splits)+

lemma issued_bind_all:
  assumes "\<And>j d a d'. bind j d = (a, d') \<Longrightarrow> issued d' = issued d"
  shows "bind_all bind ids d = Some d' \<Longrightarrow> issued d' = issued d"
proof (induction ids arbitrary: d)
  case (Cons j ids)
  then show ?case using assms by (auto split: prod.splits option.splits)
qed simp

lemma issued_bind:
  "bind_all (bind_to_ticket t) ids d = Some d' \<Longrightarrow> issued d' = issued d"
  "bind_all (bind_to_reply t) ids d = Some d' \<Longrightarrow> issued d' = issued d"
  by (erule issued_bind_all [rotated], erule issued_tickets)+

lemma issued_ticket_writes:
  "transition_status now j es ns ra cr rn ca cb w d = Inr (r, d') \<Longrightarrow> issued d' = issued d"
  "ticket_update now j st fr d = Inr (r, d') \<Longrightarrow> issued d' = issued d"
  "repo_assign_ticket j g x d = Inr (r, d') \<Longrightarrow> issued d' = issued d"
  "repo_unassign_ticket j d = Inr (r, d') \<Longrightarrow> issued d' = issued d"
  unfolding transition_status_def ticket_update_def ticket_set_def repo_assign_ticket_def repo_unassign_ticket_def
  by (auto split: if_splits sum.splits option.splits prod.splits dest: issued_tickets(1))

lemma standing_audited:
  "issued d = issued (database p) \<Longrightarrow> standing (snd (audited L rq e a k d p)) = standing p"
  by (auto simp: audited_def standing_pair split: sum.splits dest: issued_inserts(7))

lemma standing_audited_pair:
  "audited L rq e a k d p = (r, q) \<Longrightarrow> issued d = issued (database p) \<Longrightarrow> standing q = standing p"
  using standing_audited [of d p L rq e a k] by simp

lemma standing_transitions:
  "standing (snd (assign_ticket L rq seen j a sc g p)) = standing p"
  "standing (snd (unassign_ticket L rq seen j a sc p)) = standing p"
  "standing (snd (close_ticket L rq seen j a kind p)) = standing p"
  "standing (snd (reopen_ticket L rq seen j a kind p)) = standing p"
  "standing (snd (resolve_ticket L rq seen j a kind note p)) = standing p"
  subgoal by (auto simp: assign_ticket_def intro!: standing_audited split: option.splits sum.splits dest: issued_ticket_writes(3))
  subgoal by (auto simp: unassign_ticket_def intro!: standing_audited split: option.splits sum.splits dest: issued_ticket_writes(4))
  subgoal by (auto simp: close_ticket_def intro!: standing_audited split: option.splits sum.splits dest: issued_ticket_writes(1))
  subgoal by (auto simp: reopen_ticket_def intro!: standing_audited split: option.splits sum.splits dest: issued_ticket_writes(1))
  subgoal by (auto simp: resolve_ticket_def split: option.splits sum.splits prod.splits
        dest!: issued_ticket_writes(1) dest: standing_audited_pair)
  done

lemma standing_create_ticket: "standing (snd (create_ticket L rq (\<lambda>_. p) i key s b c as p)) = standing p"
proof -
  have "issued d = issued (database p)" if "create_ticket_tx L rq i s b c as (database p) = (r, d)" for r d
  proof -
    have a: "issued (advance_ticket_seq d) = issued d" for d by (rule issued_eq) (simp add: advance_ticket_seq_def)
    show ?thesis using that by (auto simp: create_ticket_tx_def a split: if_splits sum.splits option.splits
        dest!: issued_tickets(4) issued_bind(1) issued_inserts(7))
  qed
  then show ?thesis by (auto simp: create_ticket_def Let_def standing_pair split: prod.splits sum.splits option.splits
        dest!: marks_pairs(3,4))
qed

lemma standing_create_reply: "standing (snd (create_reply L rq seen j i kind b v as p)) = standing p"
proof -
  have "issued d' = issued d" if "reopen_by_reply L rq tid a d = Inr d'" for tid a d d'
    using that by (auto simp: reopen_by_reply_def split: sum.splits option.splits prod.splits
        dest!: issued_ticket_writes(1) dest: issued_inserts(7))
  then have "issued d' = issued d" if "reply_tx L rq ticket i kind b w as d = Inr (rep, d')" for ticket w d rep d'
    using that by (auto simp: reply_tx_def Let_def split: sum.splits option.splits prod.splits if_splits
        dest!: issued_tickets(5) issued_bind(2) issued_ticket_writes(2))
  then show ?thesis by (auto simp: create_reply_def Let_def standing_pair split: option.splits prod.splits sum.splits
        dest!: marks_pairs(5))
qed

lemma standing_deactivation: "standing (snd (deactivate_user rq a i reason p)) = standing p"
  by (auto simp: deactivate_user_def deactivate_if_active_def create_account_lifecycle_audit_log_entry_def Let_def
      query_defs standing_pair split: option.splits prod.splits if_splits intro!: issued_eq)

lemma issued_administration:
  "issued (create_admin_audit_log_event t ev a g rid d) = issued d"
  "issued (create_admin_audit_log_entry t ev a g o' n sev rid d) = issued d"
  "issued (invalidate_invitation_token t k d) = issued d"
  "issue_invitation L rq i d = Inr (raw, d') \<Longrightarrow> issued d' = issued d"
  "repo_create t i em nm ids d = Inr (Some (u, d')) \<Longrightarrow> issued d' = issued d"
  by (rule issued_eq, auto simp: create_admin_audit_log_event_def create_admin_audit_log_entry_def
      invalidate_invitation_token_def issue_invitation_def create_invitation_token_def map_sum_def repo_create_def Let_def
      split: sum.splits if_splits)+

lemma issued_log_changes [simp]: "issued (log_changes rq a i u r cs d) = issued d"
  by (rule issued_eq, induction cs arbitrary: d) (auto simp: log_changes_def create_admin_audit_log_field_change_def)

lemma standing_administration:
  "standing (snd (admin_update_user L rq a i b im p)) = standing p"
  "standing (snd (resend_invite L rq a i p)) = standing p"
  "standing (snd (admin_create_user L rq a sc payload p)) = standing p"
  subgoal by (cases rule: admin_update_user_cases [of L rq a i b im p]) (auto simp: standing_pair)
  subgoal by (auto simp: resend_invite_def Let_def standing_pair issued_administration(1,3)
        split: prod.splits option.splits sum.splits dest!: issued_administration(4))
  subgoal by (auto simp: admin_create_user_def resolve_role_ids_for_grant_def Let_def standing_pair issued_administration(1,2)
        split: prod.splits option.splits sum.splits if_splits dest!: issued_administration(4,5))
  done

section \<open>Operations that open sessions or set marks\<close>

lemma evolves_trans: "evolves t p q \<Longrightarrow> evolves t q r \<Longrightarrow> evolves t p r"
proof -
  assume a: "evolves t p q" and b: "evolves t q r"
  have "vk_mfa_used_step (cache r) k = vk_mfa_used_step (cache p) k
      \<or> vk_get t k (vk_mfa_used_step (cache p)) = None \<and> vk_mfa_used_step (cache r) k = Some ((), t + seconds 300)" for k
  proof (cases "vk_mfa_used_step (cache q) k = vk_mfa_used_step (cache p) k")
    case True
    then have "vk_get t k (vk_mfa_used_step (cache q)) = vk_get t k (vk_mfa_used_step (cache p))" by (simp add: vk_get_def)
    with True b show ?thesis by (metis evolves_def)
  next
    case False
    with a have q: "vk_get t k (vk_mfa_used_step (cache p)) = None" "vk_mfa_used_step (cache q) k = Some ((), t + seconds 300)"
      unfolding evolves_def by blast+
    then have "vk_get t k (vk_mfa_used_step (cache q)) \<noteq> None" by (simp add: vk_get_def seconds_def)
    moreover from b have "vk_mfa_used_step (cache r) k = vk_mfa_used_step (cache q) k
        \<or> vk_get t k (vk_mfa_used_step (cache q)) = None" by (metis evolves_def)
    ultimately have "vk_mfa_used_step (cache r) k = vk_mfa_used_step (cache q) k" by simp
    with q show ?thesis by simp
  qed
  moreover have "vk_perm_epoch (cache r) u \<in> {vk_perm_epoch (cache p) u, Some (t, t + seconds 900)}" for u
    using a b unfolding evolves_def by (metis insert_iff singletonD)
  moreover have "issued (database r) j = Some x" if "issued (database p) j = Some x" for j x
    using a b that by (metis evolves_def)
  ultimately show ?thesis unfolding evolves_def by (intro conjI allI impI)
qed

lemma evolves_after: "standing q = standing p \<Longrightarrow> evolves t q r \<Longrightarrow> evolves t p r"
  using evolves_trans evolves_standing by blast

lemma evolves_before: "evolves t p q \<Longrightarrow> standing r = standing q \<Longrightarrow> evolves t p r"
  using evolves_trans evolves_standing by blast

lemma evolves_open:
  assumes "marks (cache p') = marks (cache p)" and "user_sessions (database p') = user_sessions (database p) @ xs"
  shows "evolves t p p'"
  using assms issued_appended [OF assms(2)] by (simp add: evolves_def marks_def)

lemma mint_opens: "mint_session L rq u sc d = Inr d' \<Longrightarrow> \<exists>xs. user_sessions d' = user_sessions d @ xs"
  by (drule mint_session_Inr(2)) blast

lemma evolves_login_verified: "evolves (rq_now rq) p (snd (login_verified L rq u p))"
proof (cases "u_mfa_enabled u")
  case True
  then show ?thesis by (intro evolves_standing) (simp add: login_verified_def case_prod_beta standing_pair)
next
  case False
  show ?thesis
  proof (cases "mint_session L rq u None (database p)")
    case (Inr d)
    then obtain xs where "user_sessions d = user_sessions (database p) @ xs" using mint_opens by blast
    with False Inr show ?thesis
      by (intro evolves_open) (auto simp: login_verified_def complete_login_def case_prod_beta Let_def)
  qed (use False in \<open>simp add: login_verified_def complete_login_def\<close>)
qed

lemma standing_reactivation: "reactivate_account rq i p = (b, q) \<Longrightarrow> standing q = standing p"
  by (auto simp: reactivate_account_def Let_def standing_pair split: prod.splits if_splits dest: issued_returning(6))

lemma evolves_login: "evolves (rq_now rq) p (snd (authenticate_user L rq em pw p))"
proof -
  have "evolves (rq_now rq) p (snd (login_verified L rq u q))" if "reactivate_account rq i p = (b, q)" for u i b q
    using evolves_after [OF standing_reactivation [OF that] evolves_login_verified] .
  then show ?thesis
    by (auto simp: authenticate_user_def Let_def evolves_login_verified standing_pair intro!: evolves_standing
        split: prod.splits sum.splits option.splits bool.splits)
qed

lemma standing_reuse: "standing (handle_reuse_or_race rq r q) = standing q"
  by (auto simp: handle_reuse_or_race_def reuse_detected_def Let_def standing_pair split: option.splits)

lemma create_session_opens: "create_session t i j x d = Inr d' \<Longrightarrow> \<exists>xs. user_sessions d' = user_sessions d @ xs"
  by (auto simp: create_session_Inr)

lemma evolves_rotate_consume: "evolves t q (snd (rotate_consume L rq h u q))"
proof (cases "fst (rotate_consume L rq h u q)")
  case (Inl e)
  then show ?thesis
    by (intro evolves_standing) (auto simp: rotate_consume_def Let_def standing_reuse split: prod.splits sum.splits option.splits)
next
  case (Inr r)
  have c: "consume_refresh_token t h d = (b, d') \<Longrightarrow> user_sessions d' = user_sessions d" for t h d b d'
    by (auto simp: consume_refresh_token_def split: prod.splits)
  have k: "create_refresh_token t h f i x ip ua lu d = Inr d' \<Longrightarrow> user_sessions d' = user_sessions d" for t h f i x ip ua lu d d'
    by (auto simp: create_refresh_token_Inr)
  have "\<exists>xs. user_sessions (database (snd (rotate_consume L rq h u q))) = user_sessions (database q) @ xs
      \<and> cache (snd (rotate_consume L rq h u q)) = cache q"
    using Inr by (auto simp: rotate_consume_def Let_def split: prod.splits sum.splits option.splits
        dest!: c k create_session_opens)
  then show ?thesis using evolves_open by metis
qed

lemma evolves_rotation: "evolves t p (snd (rotate_refresh_token L rq raw p))"
proof (cases "rotate_checks L rq raw p")
  case (Pair v q)
  have q: "standing q = standing p"
    using Pair by (auto simp: rotate_checks_def Let_def standing_pair split: option.splits prod.splits if_splits dest: marks_pairs(1))
  then show ?thesis
    using Pair evolves_after [OF q evolves_rotate_consume]
    by (cases v) (auto simp: rotate_refresh_token_def standing_reuse intro: evolves_standing)
qed

lemma issued_candidates: "try_candidates L t code cs d = (b, d') \<Longrightarrow> issued d' = issued d"
  by (induction cs) (auto simp: Let_def split: prod.splits if_splits dest: issued_returning(1))

lemma evolves_complete_mfa: "evolves t q (snd (complete_mfa_login L rq u q))"
proof (cases "mint_session L rq u (Some ''mfa'') (database q)")
  case (Inr d)
  then obtain xs where "user_sessions d = user_sessions (database q) @ xs" using mint_opens by blast
  with Inr show ?thesis by (intro evolves_open) (simp_all add: complete_mfa_login_def)
qed (simp add: complete_mfa_login_def)

lemma evolves_totp:
  assumes "mfa_totp_matched L rq u code (cache p) = (r, c)"
  shows "evolves (rq_now rq) p (p\<lparr>cache := c\<rparr>)"
proof -
  have "evolves (rq_now rq) p (p\<lparr>cache := snd (mark_step_used (rq_now rq) i s 300 (cache p))\<rparr>)" for i s
    by (auto simp: evolves_def mark_step_used_def vk_set_nx_ex_def vk_set_ex_def split: option.splits)
  then show ?thesis
    using assms by (auto simp: mfa_totp_matched_def case_prod_beta split: option.splits)
qed

lemma evolves_second_factor: "evolves (rq_now rq) p (snd (verify_mfa L rq raw code p))"
proof -
  let ?t = "rq_now rq"
  have db: "issued (snd (try_consume_recovery_code L rq i code (database p))) = issued (database p)" for i
    unfolding try_consume_recovery_code_def by (rule issued_candidates [OF surjective_pairing])
  have recovered: "evolves ?t p (snd (complete_mfa_login L rq u (p\<lparr>database := d, cache := snd (mfa_consume ?t h (cache p))\<rparr>)))"
    if "issued d = issued (database p)" for u d h
    by (rule evolves_after [OF _ evolves_complete_mfa]) (simp add: that standing_pair)
  have recovered_mail: "evolves ?t p (snd (complete_mfa_login L rq u (send_email rq m (p\<lparr>database := d, cache := snd (mfa_consume ?t h (cache p))\<rparr>))))"
    if "issued d = issued (database p)" for u d h m
    by (rule evolves_after [OF _ evolves_complete_mfa]) (simp add: that standing_pair)
  have matched: "evolves ?t p (snd (complete_mfa_login L rq u (p\<lparr>database := d, cache := snd (mfa_consume ?t h c)\<rparr>)))"
    if "mfa_totp_matched L rq u' code (cache p) = (r, c)" "issued d = issued (database p)" for u u' r c d h
    by (rule evolves_trans [OF evolves_totp [OF that(1)] evolves_after [OF _ evolves_complete_mfa]])
      (simp add: that(2) standing_pair)
  have failed: "evolves ?t p (p\<lparr>database := d, cache := c'\<rparr>)"
    if "mfa_totp_matched L rq u' code (cache p) = (r, c)" "issued d = issued (database p)" "marks c' = marks c" for u' r c c' d
    by (rule evolves_before [OF evolves_totp [OF that(1)]]) (simp add: that(2,3))
  show ?thesis
    by (auto simp: verify_mfa_def Let_def case_prod_beta db evolves_totp
        intro!: recovered recovered_mail matched failed split: option.splits prod.splits bool.splits sum.splits
        dest: marks_pairs(2))
qed

lemma evolves_database: "issued d = issued (database p) \<Longrightarrow> evolves t p (p\<lparr>database := d\<rparr>)"
  by (rule evolves_standing) (simp add: standing_pair)

lemma evolves_epoch:
  "issued d = issued (database p) \<Longrightarrow> evolves t p (p\<lparr>database := d, cache := set_perm_epoch t i 900 (cache p)\<rparr>)"
  by (auto simp: evolves_def set_perm_epoch_def vk_set_ex_def)

lemma evolves_activation: "evolves (rq_now rq) p (snd (activate_mfa L rq i code p))"
  by (auto simp: activate_mfa_def Let_def intro!: evolves_epoch evolves_database split: option.splits sum.splits
      dest!: issued_inserts(8))

lemma evolves_role_change: "evolves (rq_now rq) p (snd (replace_user_roles rq a sc i ns p))"
proof -
  have r: "replace_for_user t i ids d = Inr d' \<Longrightarrow> issued d' = issued d" for t ids d d'
    by (rule issued_eq) (auto simp: replace_for_user_def Let_def split: if_splits)
  show ?thesis
    by (auto simp: replace_user_roles_def Let_def issued_administration(2) intro!: evolves_epoch evolves_database
        split: sum.splits dest!: r)
qed

section \<open>Calls of the interface\<close>

lemma standing_guards:
  "standing (snd a) = standing p \<Longrightarrow> standing (snd (validated cs p a)) = standing p"
  "standing (snd a) = standing p \<Longrightarrow> standing (snd (scoped s user p a)) = standing p"
  by (auto simp: validated_def scoped_def Let_def split: sum.splits)

lemma evolves_guards:
  "evolves t p (snd a) \<Longrightarrow> evolves t p (snd (validated cs p a))"
  "evolves t p (snd a) \<Longrightarrow> evolves t p (snd (scoped s user p a))"
  by (auto simp: validated_def scoped_def Let_def split: sum.splits)

lemma evolves_audit_listing:
  "evolves t p (snd (may_read_audit L rq user p (\<lambda>q. answer f (list_audit_logs L ids rq i x e g lo hi cu n q))))"
proof -
  have l: "evolves t q (snd (list_audit_logs L ids rq i x e g lo hi cu n q))" for q
    by (auto simp: list_audit_logs_def record_self_audit_def insert_audit_log_def intro!: evolves_database issued_eq
        split: option.splits sum.splits prod.splits if_splits)
  have a: "evolves t p (p\<lparr>database := (database p)\<lparr>audit_logs := rows\<rparr>\<rparr>)" for rows
    by (intro evolves_database issued_eq) simp
  show ?thesis
    by (cases rule: record_access_denied_cases [of L rq "au_user_id user" p])
      (simp_all add: may_read_audit_def require_audit_read_def require_scope_def foreign_guards(3) l a)
qed

lemmas evolving_operations = evolves_login evolves_rotation evolves_second_factor evolves_activation evolves_role_change
  evolves_audit_listing standing_registration [THEN evolves_standing] standing_reset [THEN evolves_standing]
  standing_email_change [THEN evolves_standing] standing_sessions [THEN evolves_standing] standing_mfa [THEN evolves_standing]
  standing_update_profile [THEN evolves_standing] standing_transitions [THEN evolves_standing]
  standing_create_ticket [THEN evolves_standing] standing_create_reply [THEN evolves_standing]
  standing_deactivation [THEN evolves_standing] standing_administration [THEN evolves_standing]

lemma public_route_evolves: "public_route c \<Longrightarrow> evolves (rq_now rq) p (snd (serve L ids (\<lambda>_. p) rq hc c p))"
  by (cases c) (simp_all add: public_route_def public_routes foreign_guards(3,4) evolves_guards evolving_operations)

lemma identified_route_evolves:
  assumes "identify L rq hc c p = Inr user" and "\<not> public_route c"
  shows "evolves (rq_now rq) p (snd (serve L ids (\<lambda>_. p) rq hc c p))"
  using assms(2)
  by (cases c) (simp_all add: public_route_def protected_routes authenticated_passed [OF assms(1)] for_enrolment_def
      dependencies fun_eq_iff foreign_guards(3,4) evolves_guards evolving_operations split: sum.splits)

lemma serve_evolves: "evolves (rq_now rq) p (snd (serve L ids (\<lambda>_. p) rq hc c p))"
  using public_route_evolves identified_route_evolves serve_unidentified
  by (cases "public_route c"; cases "identify L rq hc c p") (metis evolves_refl snd_conv)+

text \<open>Any number of calls, of anybody, at \<open>T\<close> or later.\<close>

inductive later_call :: "libs \<Rightarrow> (string \<Rightarrow> nat \<Rightarrow> uuid) \<Rightarrow> datetime \<Rightarrow> portal \<Rightarrow> portal \<Rightarrow> bool" for L ids T where
  call: "T \<le> rq_now rq \<Longrightarrow> later_call L ids T p (snd (serve L ids (\<lambda>_. p) rq hc c p))"

abbreviation later_calls :: "libs \<Rightarrow> (string \<Rightarrow> nat \<Rightarrow> uuid) \<Rightarrow> datetime \<Rightarrow> portal \<Rightarrow> portal \<Rightarrow> bool" where
  "later_calls L ids T \<equiv> (later_call L ids T)\<^sup>*\<^sup>*"

lemma later_calls_evolve:
  assumes "later_calls L ids T p p'" and "\<And>t q q'. T \<le> t \<Longrightarrow> evolves t q q' \<Longrightarrow> P q \<Longrightarrow> P q'" and "P p"
  shows "P p'"
  using assms(1,3)
proof (induction rule: rtranclp_induct)
  case (step q q')
  from step.hyps(2) obtain rq hc c where "T \<le> rq_now rq" "q' = snd (serve L ids (\<lambda>_. q) rq hc c q)" by cases
  then show ?case using assms(2) [OF _ serve_evolves] step.IH [OF step.prems] by (simp del: serve.simps)
qed

lemma later_calls_epoch:
  assumes "later_calls L ids T p p'" and "vk_perm_epoch (cache p) u = Some (T, T + seconds 900)"
  shows "\<exists>T'. T \<le> T' \<and> vk_perm_epoch (cache p') u = Some (T', T' + seconds 900)"
proof (rule later_calls_evolve [OF assms(1)])
  fix t q q' assume "T \<le> t" "evolves t q q'" "\<exists>T'. T \<le> T' \<and> vk_perm_epoch (cache q) u = Some (T', T' + seconds 900)"
  then show "\<exists>T'. T \<le> T' \<and> vk_perm_epoch (cache q') u = Some (T', T' + seconds 900)"
    unfolding evolves_def by (metis insert_iff singletonD)
qed (use assms(2) in blast)

lemma later_calls_mark:
  assumes "later_calls L ids T p p'" and "vk_mfa_used_step (cache p) k = Some ((), e)"
  shows "\<exists>e'. e \<le> e' \<and> vk_mfa_used_step (cache p') k = Some ((), e')"
proof (rule later_calls_evolve [OF assms(1)])
  fix t q q' assume e: "evolves t q q'" and "\<exists>e'. e \<le> e' \<and> vk_mfa_used_step (cache q) k = Some ((), e')"
  then obtain e' where q: "e \<le> e'" "vk_mfa_used_step (cache q) k = Some ((), e')" by blast
  from e have "vk_mfa_used_step (cache q') k = vk_mfa_used_step (cache q) k
      \<or> vk_get t k (vk_mfa_used_step (cache q)) = None \<and> vk_mfa_used_step (cache q') k = Some ((), t + seconds 300)"
    unfolding evolves_def by blast
  then show "\<exists>e'. e \<le> e' \<and> vk_mfa_used_step (cache q') k = Some ((), e')"
    using q by (auto simp: vk_get_def seconds_def split: if_splits)
qed (use assms(2) in blast)

lemma later_calls_issued:
  assumes "later_calls L ids T p p'" and "issued (database p) j = Some x"
  shows "issued (database p') j = Some x"
  by (rule later_calls_evolve [OF assms(1), where P = "\<lambda>q. issued (database q) j = Some x"]) (simp_all add: evolves_def assms(2))

section \<open>A change of roles\<close>

text \<open>C7. A change of roles makes the old permissions unusable. After a successful \<open>replace_user_roles\<close> at \<open>T\<close> and
  any number of later calls of the interface by anybody, an access token of the target minted at \<open>T\<close> or
  before, for a session that was open then, is never accepted with its old scopes: the request fails with
  \<open>TokenStaleError\<close> or as unauthenticated. The epoch lives as long as an access token, 15 minutes; later calls
  can only advance it.\<close>

theorem role_change_voids_old_tokens:
  assumes "jwt_sound L" and "catalogue_ok (database p)" and "replace_user_roles rq a scopes u names p = (Inr ns, p1)"
    and "later_calls L ids (rq_now rq) p1 p2"
    and "minted \<le> rq_now rq" and "get_session_by_jti j (database p) = Some s" and "us_issued_at s \<le> rq_now rq"
  shows "get_authenticated_user L rq' (encode_access_token L minted u j sc mfa) allow_revoked allow_scoped p2
    \<in> {Inr None, Inl TokenStaleError}"
proof -
  have "vk_perm_epoch (cache p1) u = Some (rq_now rq, rq_now rq + seconds 900)"
    by (simp add: replace_user_roles_success(10) [OF assms(3,2)] set_perm_epoch_def vk_set_ex_def)
  from later_calls_epoch [OF assms(4) this] obtain T' where
    T': "rq_now rq \<le> T'" "vk_perm_epoch (cache p2) u = Some (T', T' + seconds 900)" by blast
  have "issued (database p1) j = Some (us_issued_at s)"
    using evolves_role_change [of rq p a scopes u names] assms(3,6) by (auto simp: evolves_def issued_def)
  from later_calls_issued [OF assms(4) this] have s: "us_issued_at s' \<le> T'" if "get_session_by_jti j (database p2) = Some s'" for s'
    using that assms(7) T'(1) by (simp add: issued_def)
  show ?thesis
  proof (cases "rq_now rq' < T' + seconds 900")
    case True
    then have "get_perm_epoch (rq_now rq') u (cache p2) = Some T'" by (simp add: get_perm_epoch_def vk_get_def T'(2))
    with s show ?thesis
      by (auto simp: get_authenticated_user_def Let_def decode_encoded_access_token [OF assms(1)] split: option.splits)
  next
    case False
    then have "minted + seconds 900 \<le> rq_now rq'" using assms(5) T'(1) by simp
    then show ?thesis by (simp add: get_authenticated_user_def access_token_expired [OF assms(1)])
  qed
qed

text \<open>Administrator 2 becomes an auditor while the access token of its session 9 is still good; then somebody
  fails to log in.\<close>

definition two_admins_online :: portal where
  "two_admins_online = two_admins\<lparr>database := (database two_admins)\<lparr>user_sessions := [\<lparr>us_jti = 9, us_user_id = 2,
     us_issued_at = 0, us_expires_at = seconds 900, us_revoked_at = None\<rparr>]\<rparr>\<rparr>"

definition demoted :: portal where
  "demoted = snd (replace_user_roles sample_request 1 {''audit:read''} 2 [''auditor''] two_admins_online)"

definition after_demotion :: portal where
  "after_demotion = snd (serve sample_libs (\<lambda>_ _. 0) (\<lambda>_. demoted) sample_request call_without_token (Login ''c@x'' ''no'') demoted)"

theorem role_change_voids_old_tokens_witness:
  "get_authenticated_user sample_libs sample_request (encode_access_token sample_libs 0 2 9 [''users:read''] False) False False
      two_admins_online = Inr (Some \<lparr>au_user_id = 2, au_jti = 9, au_scopes = [''users:read''], au_mfa_enrollment_required = False\<rparr>)
   \<and> get_authenticated_user sample_libs sample_request (encode_access_token sample_libs 0 2 9 [''users:read''] False) False False
      after_demotion = Inl TokenStaleError"
proof -
  let ?token = "encode_access_token sample_libs 0 2 9 [''users:read''] False"
  let ?s = "\<lparr>us_jti = 9, us_user_id = 2, us_issued_at = 0, us_expires_at = seconds 900, us_revoked_at = None\<rparr>"
  have before: "get_authenticated_user sample_libs sample_request ?token False False two_admins_online
      = Inr (Some \<lparr>au_user_id = 2, au_jti = 9, au_scopes = [''users:read''], au_mfa_enrollment_required = False\<rparr>)"
    by code_simp
  have "fst (replace_user_roles sample_request 1 {''audit:read''} 2 [''auditor''] two_admins_online) = Inr [''auditor'']"
    by code_simp
  then have r: "replace_user_roles sample_request 1 {''audit:read''} 2 [''auditor''] two_admins_online = (Inr [''auditor''], demoted)"
    by (simp add: demoted_def prod_eq_iff)
  have k: "catalogue_ok (database two_admins_online)"
    using catalogue_ok_two_admins by (simp add: catalogue_ok_def two_admins_online_def)
  have "later_call sample_libs (\<lambda>_ _. 0) (rq_now sample_request) demoted after_demotion"
    unfolding after_demotion_def by (rule later_call.call) simp
  then have run: "later_calls sample_libs (\<lambda>_ _. 0) (rq_now sample_request) demoted after_demotion" by blast
  have s: "get_session_by_jti 9 (database two_admins_online) = Some ?s" by (simp add: get_session_by_jti_def two_admins_online_def)
  have "0 \<le> rq_now sample_request" by (simp add: sample_request_def)
  with role_change_voids_old_tokens [OF sample_libs_jwt k r run _ s, where minted = 0 and rq' = sample_request
      and sc = "[''users:read'']" and mfa = False and allow_revoked = False and allow_scoped = False]
  have "get_authenticated_user sample_libs sample_request ?token False False after_demotion \<in> {Inr None, Inl TokenStaleError}"
    by simp
  moreover have "get_authenticated_user sample_libs sample_request ?token False False after_demotion \<noteq> Inr None" by code_simp
  ultimately show ?thesis using before by blast
qed

section \<open>A TOTP step opens one login\<close>

text \<open>A second factor of account \<open>i\<close> whose code is no recovery code and is the code of the time step \<open>s\<close>.\<close>

definition totp_attempt :: "libs \<Rightarrow> request \<Rightarrow> string \<Rightarrow> string \<Rightarrow> portal \<Rightarrow> uuid \<Rightarrow> int \<Rightarrow> bool" where
  "totp_attempt L rq tok code p i s \<longleftrightarrow> (\<exists>h u enc secret. hash_mfa_token L tok = Some h
     \<and> mfa_get_user_id (rq_now rq) h (cache p) = Some i \<and> get_by_id i (database p) = Some u
     \<and> \<not> fst (try_consume_recovery_code L rq i code (database p))
     \<and> u_mfa_secret_encrypted u = Some enc \<and> decrypt_mfa_secret L enc = Some secret
     \<and> verify_totp_code L secret code (rq_now rq) = Some (Some s))"

text \<open>What \<open>verify_mfa\<close> does from the mark of the step on.\<close>

definition totp_outcome ::
  "libs \<Rightarrow> request \<Rightarrow> portal \<Rightarrow> string \<Rightarrow> user \<Rightarrow> uuid \<Rightarrow> int \<Rightarrow> mfa_verify_response outcome \<times> portal" where
  "totp_outcome L rq p h u i s =
     (let (fresh, c1) = mark_step_used (rq_now rq) i s 300 (cache p) in
       if fresh then complete_mfa_login L rq u (p\<lparr>cache := snd (mfa_consume (rq_now rq) h c1)\<rparr>)
       else let (attempts, c2) = mfa_record_failed_attempt (rq_now rq) h 300 c1;
                d = auth_log rq ''mfa_verify_failed'' None None (Some i) (database p)
         in if 5 \<le> attempts then (Inl (TooManyAttemptsError 0), p\<lparr>database := d, cache := mfa_invalidate h c2\<rparr>)
            else (Inl MfaInvalidCodeError, p\<lparr>database := d, cache := c2\<rparr>))"

lemma totp_attempt_run:
  assumes "totp_attempt L rq tok code p i s"
  obtains h u where "hash_mfa_token L tok = Some h" and "get_by_id i (database p) = Some u" and "\<bar>s - current_totp_step (rq_now rq)\<bar> \<le> 1"
    and "verify_mfa L rq tok code p = totp_outcome L rq p h u i s"
proof -
  obtain h u enc secret where h: "hash_mfa_token L tok = Some h" "mfa_get_user_id (rq_now rq) h (cache p) = Some i"
    and u: "get_by_id i (database p) = Some u" "u_mfa_secret_encrypted u = Some enc" "decrypt_mfa_secret L enc = Some secret"
    and n: "\<not> fst (try_consume_recovery_code L rq i code (database p))"
    and v: "verify_totp_code L secret code (rq_now rq) = Some (Some s)"
    using assms by (auto simp: totp_attempt_def)
  have d: "try_consume_recovery_code L rq i code (database p) = (False, database p)"
    using n try_consume_recovery_code_False by (metis prod.collapse)
  have i: "u_id u = i" using u(1) by (auto dest: get_by_id_SomeD)
  have m: "mfa_totp_matched L rq u code (cache p)
      = map_prod Inr id (mark_step_used (rq_now rq) i s 300 (cache p))"
    by (simp add: mfa_totp_matched_def u v i case_prod_beta map_prod_def)
  have "verify_mfa L rq tok code p = totp_outcome L rq p h u i s"
    by (cases "mark_step_used (rq_now rq) i s 300 (cache p)"; cases "fst (mark_step_used (rq_now rq) i s 300 (cache p))")
      (simp_all add: verify_mfa_def totp_outcome_def h u(1) d m Let_def)
  with h(1) u(1) verify_totp_code_SomeD(2) [OF v] that show thesis by blast
qed

lemma accepted_step_is_marked:
  assumes "totp_attempt L rq tok code p i s" and "verify_mfa L rq tok code p = (Inr r, p1)"
  shows "vk_mfa_used_step (cache p1) (i, s) = Some ((), rq_now rq + seconds 300)"
proof -
  obtain h u where "verify_mfa L rq tok code p = totp_outcome L rq p h u i s"
    by (rule totp_attempt_run [OF assms(1)])
  with assms(2) obtain c1 where m: "mark_step_used (rq_now rq) i s 300 (cache p) = (True, c1)"
    and l: "complete_mfa_login L rq u (p\<lparr>cache := snd (mfa_consume (rq_now rq) h c1)\<rparr>) = (Inr r, p1)"
    by (auto simp: totp_outcome_def Let_def split: prod.splits if_splits)
  have "vk_mfa_used_step c1 (i, s) = Some ((), rq_now rq + seconds 300)"
    using m by (auto simp: mark_step_used_def vk_set_nx_ex_def vk_set_ex_def split: option.splits)
  then show ?thesis using complete_mfa_login_frame(2) [OF l] by (simp add: mfa_consume_def case_prod_beta)
qed

text \<open>C37. A TOTP step opens one login only. Once \<open>verify_mfa\<close> has accepted a code of time step \<open>s\<close> for an
  account, then after any number of later calls of the interface by anybody, a code of the account that
  resolves to the same step is refused, with whatever MFA token it comes: the answer is
  \<open>mfa-invalid-code\<close> or the lockout, and no session and no refresh token comes into being. The mark of a used step
  lives for five minutes, longer than the minute and a half in which the step's code is within the
  skew. Activating and disabling MFA check a code without marking its step.\<close>

theorem totp_step_single_use:
  assumes "totp_attempt L rq tok code p i s" and "verify_mfa L rq tok code p = (Inr r, p1)"
    and "later_calls L ids T p1 p2"
    and "totp_attempt L rq' tok' code' p2 i s" and "rq_now rq \<le> rq_now rq'"
    and "verify_mfa L rq' tok' code' p2 = (res, p3)"
  shows "res \<in> {Inl MfaInvalidCodeError, Inl (TooManyAttemptsError 0)}
    \<and> user_sessions (database p3) = user_sessions (database p2)
    \<and> refresh_tokens (database p3) = refresh_tokens (database p2)"
proof -
  obtain e where e: "rq_now rq + seconds 300 \<le> e" "vk_mfa_used_step (cache p2) (i, s) = Some ((), e)"
    using later_calls_mark [OF assms(3) accepted_step_is_marked [OF assms(1,2)]] by blast
  have "\<bar>s - current_totp_step (rq_now rq)\<bar> \<le> 1" by (rule totp_attempt_run [OF assms(1)])
  then have lo: "s - 1 \<le> rq_now rq div 30000000" by (simp add: current_totp_step_def TOTP_STEP_SECONDS_def)
  obtain h u where near: "\<bar>s - current_totp_step (rq_now rq')\<bar> \<le> 1"
    and run: "verify_mfa L rq' tok' code' p2 = totp_outcome L rq' p2 h u i s"
    by (rule totp_attempt_run [OF assms(4)])
  have "rq_now rq' div 30000000 \<le> s + 1" using near by (simp add: current_totp_step_def TOTP_STEP_SECONDS_def)
  with lo have "rq_now rq' < rq_now rq + seconds 300" by (simp add: seconds_def)
  with e have "\<not> fst (mark_step_used (rq_now rq') i s 300 (cache p2))" by (simp add: mark_step_used_iff vk_get_def)
  with run assms(6) show ?thesis by (auto simp: totp_outcome_def Let_def split: prod.splits if_splits)
qed

text \<open>Activating and disabling MFA accept a code without marking its step.\<close>

lemma other_checks_mark_nothing:
  "vk_mfa_used_step (cache (snd (activate_mfa L rq i code p))) = vk_mfa_used_step (cache p)"
  "vk_mfa_used_step (cache (snd (disable_mfa L rq i pw code p))) = vk_mfa_used_step (cache p)"
  by (auto simp: activate_mfa_def disable_mfa_def set_perm_epoch_def set_revoke_before_def Let_def
      split: option.splits sum.splits)

text \<open>Two MFA tokens of an account with the secret \<open>[7]\<close>, used twenty seconds apart with the same code.\<close>

definition mfa_twice_user :: user where
  "mfa_twice_user = (new_user 0 1 ''a@x'' ''s$pw'' ACTIVE)\<lparr>u_email_verified := True, u_mfa_enabled := True,
     u_mfa_secret_encrypted := Some (encrypt_mfa_secret zero_libs (replicate 12 0) [7])\<rparr>"

definition mfa_twice :: portal where
  "mfa_twice = \<lparr>database = empty_db\<lparr>users := [mfa_twice_user]\<rparr>,
     cache = mfa_issue 0 ''h:mu'' 1 300 (mfa_issue 0 ''h:mt'' 1 300 empty_valkey), outbox = []\<rparr>"

definition at_sec :: "int \<Rightarrow> request" where
  "at_sec n = sample_request\<lparr>rq_now := seconds n\<rparr>"

lemma mfa_twice_code: "verify_totp_code zero_libs [7] ''000000'' (seconds n) = Some (Some 1)" if "n = 60 \<or> n = 80"
  using that by (auto simp: verify_totp_code_cases current_totp_step_def TOTP_STEP_SECONDS_def hotp_zero_libs is_ascii_def seconds_def)

lemma mfa_twice_secret: "decrypt_mfa_secret zero_libs (encrypt_mfa_secret zero_libs (replicate 12 0) [7]) = Some [7]"
  by (simp add: decrypt_mfa_secret_def encrypt_mfa_secret_def zero_libs_def)

lemma mfa_twice_attempt:
  assumes "get_by_id 1 (database p) = Some u" and "u_mfa_secret_encrypted u = u_mfa_secret_encrypted mfa_twice_user"
    and "mfa_recovery_codes (database p) = []"
    and "hash_mfa_token zero_libs tok = Some h" and "mfa_get_user_id (seconds n) h (cache p) = Some 1" and "n = 60 \<or> n = 80"
  shows "totp_attempt zero_libs (at_sec n) tok ''000000'' p 1 1"
proof -
  have "\<not> fst (try_consume_recovery_code zero_libs (at_sec n) 1 ''000000'' (database p))"
    by (simp add: try_consume_recovery_code_def list_unconsumed_recovery_codes_def assms(3))
  then show ?thesis
    using assms(1,2,4,5) mfa_twice_secret mfa_twice_code [OF assms(6)]
    by (auto simp: totp_attempt_def at_sec_def mfa_twice_user_def)
qed

theorem totp_step_single_use_witness:
  "(\<exists>r. fst (verify_mfa zero_libs (at_sec 60) ''mt'' ''000000'' mfa_twice) = Inr r)
   \<and> fst (verify_mfa zero_libs (at_sec 80) ''mu'' ''000000'' (snd (verify_mfa zero_libs (at_sec 60) ''mt'' ''000000'' mfa_twice)))
       \<in> {Inl MfaInvalidCodeError, Inl (TooManyAttemptsError 0)}"
proof -
  have h: "hash_mfa_token zero_libs ''mt'' = Some ''h:mt''" "hash_mfa_token zero_libs ''mu'' = Some ''h:mu''"
    by (simp_all add: hash_mfa_token_def is_ascii_def zero_libs_def)
  have c: "mfa_get_user_id (seconds 60) ''h:mt'' (cache mfa_twice) = Some 1"
    by (simp add: mfa_twice_def cache_defs vk_defs seconds_def)
  have u: "get_by_id 1 (database mfa_twice) = Some mfa_twice_user"
    by (simp add: mfa_twice_def get_by_id_def mfa_twice_user_def new_user_def)
  have e: "mfa_recovery_codes (database mfa_twice) = []" "refresh_tokens (database mfa_twice) = []"
      "user_sessions (database mfa_twice) = []"
    by (simp_all add: mfa_twice_def empty_db_def)
  have a: "totp_attempt zero_libs (at_sec 60) ''mt'' ''000000'' mfa_twice 1 1"
    by (rule mfa_twice_attempt [OF u refl e(1) h(1) c]) simp
  obtain k v where run: "verify_mfa zero_libs (at_sec 60) ''mt'' ''000000'' mfa_twice
      = totp_outcome zero_libs (at_sec 60) mfa_twice k v 1 1"
    and k: "hash_mfa_token zero_libs ''mt'' = Some k" and v: "get_by_id 1 (database mfa_twice) = Some v"
    by (rule totp_attempt_run [OF a])
  have k': "k = ''h:mt''" and v': "v = mfa_twice_user" "u_id v = 1"
    using h k u v by (simp_all add: mfa_twice_user_def new_user_def)
  let ?c1 = "snd (mark_step_used (seconds 60) 1 1 300 (cache mfa_twice))"
  let ?q = "mfa_twice\<lparr>cache := snd (mfa_consume (seconds 60) ''h:mt'' ?c1)\<rparr>"
  have m: "mark_step_used (seconds 60) 1 1 300 (cache mfa_twice) = (True, ?c1)"
    by (simp add: mark_step_used_def vk_set_nx_ex_def vk_get_def mfa_twice_def mfa_issue_def empty_valkey_def case_prod_beta)
  have r1: "verify_mfa zero_libs (at_sec 60) ''mt'' ''000000'' mfa_twice = complete_mfa_login zero_libs (at_sec 60) v ?q"
    unfolding run totp_outcome_def k' using m by (auto simp: at_sec_def Let_def split: prod.splits)
  have "\<not> isl (mint_session zero_libs (at_sec 60) v (Some ''mfa'') (database ?q))"
    using e by (simp add: mint_session_def create_session_Inr create_session_def create_refresh_token_def insert_unique_def
        generate_refresh_token_def evict_oldest_family_if_at_cap_def lock_live_refresh_tokens_for_user_def
        get_family_created_at_map_for_user_def Let_def)
  then obtain d where "mint_session zero_libs (at_sec 60) v (Some ''mfa'') (database ?q) = Inr d" by (metis isl_def obj_sumE)
  then obtain r where r: "verify_mfa zero_libs (at_sec 60) ''mt'' ''000000'' mfa_twice
      = (Inr r, snd (verify_mfa zero_libs (at_sec 60) ''mt'' ''000000'' mfa_twice))"
    unfolding r1 by (simp add: complete_mfa_login_def)
  let ?p1 = "snd (verify_mfa zero_libs (at_sec 60) ''mt'' ''000000'' mfa_twice)"
  note F = complete_mfa_login_frame [OF r [unfolded r1], folded r1]
  obtain u1 where u1: "get_by_id 1 (database ?p1) = Some u1" "u_mfa_secret_encrypted u1 = u_mfa_secret_encrypted mfa_twice_user"
    using F(3) u by (auto simp: v'(2))
  have q: "cache ?p1 = snd (mfa_consume (seconds 60) ''h:mt'' ?c1)" using F(2) by simp
  have c1: "mfa_get_user_id (seconds 80) ''h:mu'' (cache ?p1) = Some 1"
    unfolding q by (simp add: mfa_twice_def cache_defs vk_defs seconds_def case_prod_beta)
  have b: "totp_attempt zero_libs (at_sec 80) ''mu'' ''000000'' ?p1 1 1"
    by (rule mfa_twice_attempt [OF u1 _ h(2) c1]) (simp_all add: F(1) e(1))
  have "rq_now (at_sec 60) \<le> rq_now (at_sec 80)" by (simp add: at_sec_def seconds_def)
  from totp_step_single_use [OF a r rtranclp.rtrancl_refl b this surjective_pairing] show ?thesis
    using r by (metis fst_conv)
qed

end
