(* ===== verification/Support_Properties.thy ===== *)
theory Support_Properties
  imports Support_Machine
begin

text \<open>
  The properties of the support module: the life of a ticket, the reopening window, idempotent creation,
  attachments, assignment, the visibility of replies and the listings.
\<close>

section \<open>The life of a ticket\<close>

text \<open>The abstract machine of the ticket status.\<close>

inductive life :: "ticket_status \<Rightarrow> ticket_status \<Rightarrow> bool" where
  resolves: "s \<in> {Open, WaitingOnSupport, WaitingOnCustomer} \<Longrightarrow> life s Resolved"
| closes: "s \<noteq> Closed \<Longrightarrow> life s Closed"
| reopens: "life Resolved WaitingOnSupport"
| agent_answers: "s \<in> {Open, WaitingOnSupport} \<Longrightarrow> life s WaitingOnCustomer"
| customer_answers: "life WaitingOnCustomer WaitingOnSupport"

inductive_simps life_simps: "life s s'"

lemma row_step_life: "row_step True k k' \<Longrightarrow> tk_status k' = tk_status k \<or> life (tk_status k) (tk_status k')"
  by (auto elim!: row_step.cases simp: life_simps)

text \<open>A closed row keeps what makes it closed, whatever a racing request writes: the CHECK constraint
  refuses the one unconditional update.\<close>

lemma row_step_closed:
  assumes "row_step alone k k'" and "ticket_violation k = None" "ticket_violation k' = None" and "tk_status k = Closed"
  shows "tk_status k' = Closed \<and> tk_closed_at k' = tk_closed_at k \<and> tk_closed_by k' = tk_closed_by k
    \<and> tk_assignee_id k' = tk_assignee_id k \<and> tk_resolved_at k' = tk_resolved_at k"
  using assms(1)
proof cases
  case (answer st fr t)
  have "tk_closed_at k \<noteq> None \<and> tk_closed_by k \<noteq> None" using closed_fields [OF assms(2)] assms(4) by simp
  then have "tk_status k' = Closed" using closed_fields [OF assms(3)] answer by simp
  with answer show ?thesis by simp
qed (use assms(4) in auto)

definition frozen :: "ticket \<Rightarrow> ticket \<Rightarrow> bool" where
  "frozen k k' \<longleftrightarrow> tk_id k' = tk_id k \<and> tk_status k' = Closed \<and> tk_closed_at k' = tk_closed_at k \<and> tk_closed_by k' = tk_closed_by k
     \<and> tk_assignee_id k' = tk_assignee_id k \<and> tk_resolved_at k' = tk_resolved_at k"

lemma step_frozen:
  assumes "support_step False L p p'" and ok: "tickets_ok (database p)"
    and k: "ticket_get_by_id i (database p) = Some k" "tk_status k = Closed"
  shows "tickets_ok (database p') \<and> (\<exists>k'. ticket_get_by_id i (database p') = Some k' \<and> frozen k k')"
proof -
  note m = support_step_moves [OF assms(1) ok, unfolded row_moves_def moves_def]
  then obtain k' where k': "ticket_get_by_id i (database p') = Some k'" "k' = k \<or> row_step False k k' \<and> ticket_violation k' = None"
    using k(1) by blast
  have "ticket_violation k = None" using tickets_okD [OF ok] ticket_get_by_id_SomeD [OF k(1)] by blast
  with k' k row_step_closed [of False k k'] ticket_get_by_id_SomeD [OF k(1)] ticket_get_by_id_SomeD [OF k'(1)] m
  show ?thesis by (auto simp: frozen_def)
qed

text \<open>C5. Closed is final, under every interleaving. Once a ticket is closed, no sequence of service calls
  and script runs (each of which may have read the ticket at any earlier time) changes its status, who
  closed it and when, its assignee or its resolution time.\<close>

theorem closed_ticket_is_final:
  assumes "(support_step False L)\<^sup>*\<^sup>* p p'" and "tickets_ok (database p)"
    and "ticket_get_by_id i (database p) = Some k" and "tk_status k = Closed"
  shows "\<exists>k'. ticket_get_by_id i (database p') = Some k' \<and> tk_status k' = Closed \<and> tk_closed_at k' = tk_closed_at k
    \<and> tk_closed_by k' = tk_closed_by k \<and> tk_assignee_id k' = tk_assignee_id k \<and> tk_resolved_at k' = tk_resolved_at k"
proof -
  have "tickets_ok (database p') \<and> (\<exists>k'. ticket_get_by_id i (database p') = Some k' \<and> frozen k k')"
    using assms(1)
  proof induction
    case base
    then show ?case using assms(2-4) by (simp add: frozen_def)
  next
    case (step q q')
    then obtain k1 where k1: "tickets_ok (database q)" "ticket_get_by_id i (database q) = Some k1" "frozen k k1" by blast
    from step_frozen [OF step.hyps(2) k1(1,2)] k1(3) show ?case by (auto simp: frozen_def)
  qed
  then show ?thesis by (auto simp: frozen_def)
qed

lemma support_steps_ok: "(support_step alone L)\<^sup>*\<^sup>* p q \<Longrightarrow> tickets_ok (database p) \<Longrightarrow> tickets_ok (database q)"
  by (induction rule: rtranclp_induct) (use support_step_moves in \<open>auto simp: row_moves_def moves_def\<close>)

text \<open>C4. The implementation refines the abstract machine (a simulation, step by step): in every run in which
  each method acts on what it read, each operation leaves the status of a ticket as it is or moves it along
  one transition of \<open>life\<close>, never removes a ticket, and the constraints of the table hold in every state.\<close>

theorem ticket_status_refines_life:
  assumes "(support_step True L)\<^sup>*\<^sup>* start p" and "tickets_ok (database start)" and "support_step True L p q"
    and "ticket_get_by_id i (database p) = Some k"
  shows "tickets_ok (database q) \<and> (\<exists>k'. ticket_get_by_id i (database q) = Some k' \<and> life\<^sup>=\<^sup>= (tk_status k) (tk_status k'))"
proof -
  have "tickets_ok (database p)" using assms(1,2) by (rule support_steps_ok)
  note m = support_step_moves [OF assms(3) this, unfolded row_moves_def moves_def]
  then obtain k' where "ticket_get_by_id i (database q) = Some k'" "k' = k \<or> row_step True k k'" using assms(4) by blast
  then show ?thesis using m row_step_life [of k k'] by auto
qed

section \<open>The reopening window\<close>

lemma reopen_outside_window:
  assumes "tickets_ok (database p)" and k: "ticket_get_by_id i (database p) = Some k" and "tk_status k = Resolved"
    and "\<not> foreign_ticket actor kind k"
  shows "fst (reopen_ticket L rq (database p) i actor kind p) = Inl (invalid_transition k) \<longleftrightarrow> \<not> within_window (rq_db_now rq) k"
proof -
  let ?a = "reopen_args rq i"
  have t: "transition_status (rq_db_now rq) i REOPEN_ELIGIBLE_STATUSES WaitingOnSupport None True None None None True = transition_store ?a"
    by (simp add: transition_store_def reopen_args_def REOPEN_ELIGIBLE_STATUSES_def)
  have h: "transition_hit ?a k \<longleftrightarrow> within_window (rq_db_now rq) k"
    using assms(3) ticket_get_by_id_SomeD [OF k] by (simp add: transition_hit_def reopen_args_def)
  have id: "ta_ticket ?a = i" by (simp add: reopen_args_def)
  note op = reopen_ticket_def [of L rq "database p" i actor kind p, unfolded t]
  show ?thesis
  proof (cases "transition_store ?a (database p)")
    case (Inl e)
    then have "find_row (transition_hit ?a) (tickets (database p)) \<noteq> None"
      by (auto simp: transition_store_def transition_status_def update_ticket_def transition_parts split: option.splits)
    then have "within_window (rq_db_now rq) k"
      using h transition.hit_id [of ?a] id assms(1) k tickets_ok_lookup [OF assms(1)] find_row_SomeD by (metis not_Some_eq option.inject)
    with Inl assms(3,4) k show ?thesis by (simp add: op REOPEN_ELIGIBLE_STATUSES_def invalid_transition_def)
  next
    case (Inr rd)
    obtain r d where rd: "rd = (r, d)" by (cases rd)
    show ?thesis
    proof (cases r)
      case None
      then have "\<not> transition_hit ?a k" using transition.store_misses [of ?a "database p" d k] Inr rd k id by simp
      with Inr rd None assms(3,4) k h show ?thesis by (simp add: op REOPEN_ELIGIBLE_STATUSES_def)
    next
      case (Some k')
      then have "transition_hit ?a k" using transition.store_result [of ?a "database p" k' d] Inr rd k id assms(1) by auto
      moreover have "fst (apfst (map_sum id to_ticket_state_read) (audited L rq ''ticket_reopened'' actor k' d p)) \<noteq> Inl (invalid_transition k)"
        by (auto simp: audited_def invalid_transition_def split: sum.splits)
      ultimately show ?thesis using Inr rd Some assms(3,4) k h by (simp add: op REOPEN_ELIGIBLE_STATUSES_def)
    qed
  qed
qed

text \<open>The reopening window and the auto-close job partition the resolved tickets: at every instant, a
  resolved ticket is due for automatic closing exactly when a request to reopen it is refused. The
  seventh day counts for the customer; no ticket can be both reopened and closed, none is neither.\<close>

lemma reopen_or_auto_close:
  assumes "tickets_ok (database p)" and "ticket_get_by_id i (database p) = Some k" and "tk_status k = Resolved"
    and "kind = Agent \<or> tk_requester_id k = actor"
  shows "i \<in> set (fst (auto_close_resolved_past_window (rq_db_now rq) now who (database p)))
    \<longleftrightarrow> fst (reopen_ticket L rq (database p) i actor kind p) = Inl (invalid_transition k)"
proof -
  have f: "\<not> foreign_ticket actor kind k" using assms(4) by (auto simp: foreign_ticket_def)
  have k: "k \<in> set (tickets (database p))" "tk_id k = i" using ticket_get_by_id_SomeD [OF assms(2)] by blast+
  obtain ra where ra: "tk_resolved_at k = Some ra" using resolved_fields [OF tickets_okD [OF assms(1) k(1)] assms(3)] by auto
  have "i \<in> set (fst (auto_close_resolved_past_window (rq_db_now rq) now who (database p))) \<longleftrightarrow> past_window (rq_db_now rq) k"
  proof
    assume "i \<in> set (fst (auto_close_resolved_past_window (rq_db_now rq) now who (database p)))"
    then obtain x where "x \<in> set (tickets (database p))" "tk_id x = i" "past_window (rq_db_now rq) x"
      by (auto simp: auto_close_resolved_past_window_def)
    then show "past_window (rq_db_now rq) k" using tickets_ok_lookup [OF assms(1)] assms(2) by force
  qed (use k in \<open>force simp: auto_close_resolved_past_window_def\<close>)
  also have "\<dots> \<longleftrightarrow> \<not> within_window (rq_db_now rq) k" using assms(3) ra by (auto simp: past_window_def within_window_def)
  finally show ?thesis using reopen_outside_window [OF assms(1-3) f] by simp
qed

section \<open>Idempotent creation\<close>

lemma bind_all_users:
  assumes "\<And>i d. users (snd (bind i d)) = users d"
  shows "bind_all bind ids d = Some d' \<Longrightarrow> users d' = users d"
proof (induction ids arbitrary: d)
  case (Cons i ids)
  from Cons.prems obtain a d1 where b: "bind i d = (Some a, d1)" "bind_all bind ids d1 = Some d'"
    by (auto split: prod.splits option.splits)
  from Cons.IH [OF b(2)] assms [of i d] b(1) show ?case by simp
qed simp

lemma create_ticket_tx_users:
  assumes "create_ticket_tx L rq u s b c atts d = (Inr k, d')"
  shows "users d' = users d"
proof -
  obtain d1 d2 where c: "ticket_create L (rq_db_now rq) (rq_uuid rq 0) u s b c d = Inr (k, d1)"
    and b: "bind_all (bind_to_ticket (tk_id k)) atts d1 = Some d2"
    and e: "record_event L rq (rq_uuid rq 1) ''tickets'' ''ticket_created'' u (Some (tk_id k)) (Some ''success'')
      (Some (JObj [(''ticket_number'', JStr (tk_ticket_number k)), (''category'', JStr c)])) d2 = Inr d'"
    using assms by (auto simp: create_ticket_tx_def split: if_splits option.splits sum.splits)
  have "users (snd (bind_to_ticket x i d)) = users d" for x i d by (simp add: bind_to_ticket_def case_prod_beta)
  then have "users d2 = users d1" using bind_all_users b by blast
  with ticket_create_Inr(11) [OF c] arg_cong [OF record_event_frame [OF e], of users] show ?thesis by simp
qed

text \<open>A successful creation with a fresh key: what it leaves behind.\<close>

lemma create_ticket_fresh:
  assumes "create_ticket L rq later u key s b c atts p = (Inr r, p')"
    and fresh: "idem_get_envelope (rq_now rq) u key (cache p) = None"
  obtains k d c2 where "create_ticket_tx L rq u s b c atts (database p) = (Inr k, d)" and "r = to_ticket_read k"
    and "database p' = d" and "cache p' = idem_resolve (rq_now rq) u key (hash_request L s b c atts) (tk_id k) IDEMPOTENCY_TTL_SECONDS c2"
    and "get_account_status_for_user u (database p) \<noteq> Some DEACTIVATED"
proof (cases rule: idem_claim_cases [of "rq_now rq" u key "cache p" "hash_request L s b c atts" IDEMPOTENCY_TTL_SECONDS])
  case claimed
  obtain x d where tx: "create_ticket_tx L rq u s b c atts (database p) = (x, d)" by (cases "create_ticket_tx L rq u s b c atts (database p)")
  from assms(1) claimed(2) tx obtain k where k: "x = Inr k"
    by (cases x) (auto simp: create_ticket_def Let_def case_prod_beta split: if_splits)
  show thesis
    by (rule that [OF tx [unfolded k], of "snd (ticket_create_record_and_check (rq_now rq) u RATE_LIMIT_WINDOW_SECONDS
          (snd (idem_claim (rq_now rq) u key (hash_request L s b c atts) IDEMPOTENCY_TTL_SECONDS (cache p))))"])
      (use assms(1) claimed(2) tx k in \<open>auto simp: create_ticket_def Let_def case_prod_beta split: if_splits option.splits\<close>)
qed (use fresh in simp)

lemma replay_found:
  assumes "idem_get_envelope (rq_now rq) u key (cache q) = Some \<lparr>env_request_hash = h', env_ticket_id = Some i\<rparr>"
    and "get_account_status_for_user u (database q) \<noteq> Some DEACTIVATED" and "ticket_get_by_id i (database q) = Some k"
  shows "create_ticket L rq (\<lambda>_. q) u key s b c atts q =
    (if h' = hash_request L s b c atts then (Inr (to_ticket_read k), q) else (Inl (SupportError IdempotencyKeyReuseError), q))"
proof -
  have n: "POLL_MAX_ATTEMPTS = Suc 4" by (simp add: POLL_MAX_ATTEMPTS_def)
  have poll: "poll_replay POLL_MAX_ATTEMPTS 0 reads h = (if h' \<noteq> h then (Inl (SupportError IdempotencyKeyReuseError), 0) else (Inr i, 0))"
    if "reads 0 = Some \<lparr>env_request_hash = h', env_ticket_id = Some i\<rparr>" for reads h
    unfolding n poll_replay.simps(2) that by simp
  have "idem_claim (rq_now rq) u key (hash_request L s b c atts) IDEMPOTENCY_TTL_SECONDS (cache q) = (False, cache q)"
    by (rule idem_claim_cases [of "rq_now rq" u key "cache q"]) (use assms(1) in auto)
  then show ?thesis using assms
    by (simp add: create_ticket_def Let_def resolve_idempotency_replay_def poll)
qed

text \<open>C22. Creation is idempotent under its key: after a creation with a fresh key has answered with a ticket,
  every repetition of the request with that key within 24 hours answers with the same ticket and
  changes nothing, while a request with the key and another payload is refused (unless SHA-256
  collides on the two payloads).\<close>

theorem create_ticket_idempotent:
  assumes "create_ticket L rq later u key s b c atts p = (Inr r, p1)"
    and "idem_get_envelope (rq_now rq) u key (cache p) = None"
    and "rq_now rq \<le> rq_now rq'" and "rq_now rq' < rq_now rq + hours 24"
  shows "create_ticket L rq' (\<lambda>_. p1) u key s' b' c' atts' p1 =
    (if hash_request L s' b' c' atts' = hash_request L s b c atts then (Inr r, p1)
     else (Inl (SupportError IdempotencyKeyReuseError), p1))"
proof -
  obtain k d c2 where tx: "create_ticket_tx L rq u s b c atts (database p) = (Inr k, d)" and r: "r = to_ticket_read k" "database p1 = d"
    and e: "cache p1 = idem_resolve (rq_now rq) u key (hash_request L s b c atts) (tk_id k) IDEMPOTENCY_TTL_SECONDS c2"
    and st: "get_account_status_for_user u (database p) \<noteq> Some DEACTIVATED"
    using create_ticket_fresh [OF assms(1,2)] by metis
  obtain d1 where c: "ticket_create L (rq_db_now rq) (rq_uuid rq 0) u s b c (database p) = Inr (k, d1)"
    and t: "tickets d = tickets (database p) @ [k]" using create_ticket_tx_Inr [OF tx] by metis
  have env: "idem_get_envelope (rq_now rq') u key (cache p1) = Some \<lparr>env_request_hash = hash_request L s b c atts, env_ticket_id = Some (tk_id k)\<rparr>"
    using assms(4) by (simp add: e cache_defs vk_defs IDEMPOTENCY_TTL_SECONDS_def duration_defs)
  have "ticket_get_by_id (tk_id k) d = Some k"
  proof -
    have "find_row (\<lambda>x. tk_id x = tk_id k) (tickets (database p)) = None"
      using ticket_create_Inr(3,4) [OF c] by (force simp: find_None_iff)
    then show ?thesis by (simp add: ticket_get_by_id_def t find_row_append)
  qed
  moreover have "get_account_status_for_user u d \<noteq> Some DEACTIVATED"
    using st create_ticket_tx_users [OF tx] by (simp add: get_account_status_for_user_def get_by_id_def)
  ultimately show ?thesis using replay_found [OF env] r by auto
qed

text \<open>C23. A creation that fails after claiming its key gives the key back and leaves tickets and attachments
  as they were, so that a retry is treated as a new request.\<close>

theorem failed_creation_releases_key:
  assumes "create_ticket L rq later u key s b c atts p = (Inl e, p')"
    and "idem_get_envelope (rq_now rq) u key (cache p) = None"
  shows "idem_get_envelope t u key (cache p') = None \<and> tickets (database p') = tickets (database p)
    \<and> attachments (database p') = attachments (database p) \<or> e = SupportError SupportAccountDeactivatedError \<and> p' = p"
proof (cases rule: idem_claim_cases [of "rq_now rq" u key "cache p" "hash_request L s b c atts" IDEMPOTENCY_TTL_SECONDS])
  case claimed
  have free: "idem_get_envelope t u key (idem_release u key c) = None" for t c
    by (simp add: cache_defs vk_defs)
  obtain x d where tx: "create_ticket_tx L rq u s b c atts (database p) = (x, d)" by (cases "create_ticket_tx L rq u s b c atts (database p)")
  show ?thesis
  proof (cases x)
    case (Inl e')
    then have "d = database p \<or> d = advance_ticket_seq (database p)" using create_ticket_tx_Inl tx by simp
    with assms(1) claimed(2) tx Inl free show ?thesis
      by (auto simp: create_ticket_def Let_def case_prod_beta advance_ticket_seq_def split: if_splits)
  next
    case (Inr k)
    with assms(1) claimed(2) tx free show ?thesis
      by (auto simp: create_ticket_def Let_def case_prod_beta split: if_splits)
  qed
qed (use assms(2) in simp)

text \<open>The payload enters the hash completely, except for the order of the attachments.\<close>

lemma payload_order:
  "sort_key fst [(''subject'', s), (''body'', b), (''category'', c), (''attachment_ids'', a)]
    = [(''attachment_ids'', a), (''body'', b), (''category'', c), (''subject'', s)]"
  by (simp add: less_char_def)

lemma json_object_payload:
  "json_object [(''subject'', s), (''body'', b), (''category'', c), (''attachment_ids'', a)]
    = ''{'' @ json_str ''attachment_ids'' @ '': '' @ a @ '', '' @ json_str ''body'' @ '': '' @ b @ '', ''
      @ json_str ''category'' @ '': '' @ c @ '', '' @ json_str ''subject'' @ '': '' @ s @ ''}''"
  unfolding json_object_def payload_order by simp

lemma canonical_request_inj:
  assumes "canonical_request s b c atts = canonical_request s' b' c' atts'"
  shows "s = s' \<and> b = b' \<and> c = c' \<and> mset atts = mset atts'"
proof -
  let ?l = "sort (map uuid_str atts)" and ?l' = "sort (map uuid_str atts')"
  from assms have e: "json_str_list ?l @ '', '' @ json_str ''body'' @ '': '' @ json_str b @ '', '' @ json_str ''category'' @ '': '' @ json_str c @ '', ''
        @ json_str ''subject'' @ '': '' @ json_str s @ ''}''
      = json_str_list ?l' @ '', '' @ json_str ''body'' @ '': '' @ json_str b' @ '', '' @ json_str ''category'' @ '': '' @ json_str c' @ '', ''
        @ json_str ''subject'' @ '': '' @ json_str s' @ ''}''"
    unfolding canonical_request_def json_object_payload same_append_eq .
  note l = json_strings.split_put [OF e]
  then have "json_str b @ '', '' @ json_str ''category'' @ '': '' @ json_str c @ '', '' @ json_str ''subject'' @ '': '' @ json_str s @ ''}''
      = json_str b' @ '', '' @ json_str ''category'' @ '': '' @ json_str c' @ '', '' @ json_str ''subject'' @ '': '' @ json_str s' @ ''}''"
    by (simp only: same_append_eq simp_thms)
  note bb = json_string.split_put [OF this]
  then have "json_str c @ '', '' @ json_str ''subject'' @ '': '' @ json_str s @ ''}'' = json_str c' @ '', '' @ json_str ''subject'' @ '': '' @ json_str s' @ ''}''"
    by (simp only: same_append_eq simp_thms)
  note cc = json_string.split_put [OF this]
  then have "json_str s @ ''}'' = json_str s' @ ''}''" by (simp only: same_append_eq simp_thms)
  then have ss: "s = s'" by (simp add: json_string.put_eqD)
  have "image_mset uuid_str (mset atts) = image_mset uuid_str (mset atts')"
    using l by (metis mset_map mset_sort)
  moreover have "inj uuid_str" by (simp add: inj_def)
  ultimately have m: "mset atts = mset atts'" by (metis injD multiset.inj_map)
  show ?thesis using bb cc ss m by simp
qed

text \<open>Two creation requests have the same request hash only when subject, body and category are the same
  and the attachments are the same up to their order, or SHA-256 collides on the two canonical
  payloads.\<close>

lemma hash_request_determines_payload:
  assumes "hash_request L s b c atts = hash_request L s' b' c' atts'"
  shows "(s = s' \<and> b = b' \<and> c = c' \<and> mset atts = mset atts')
    \<or> (canonical_request s b c atts \<noteq> canonical_request s' b' c' atts'
       \<and> sha256_hex L (canonical_request s b c atts) = sha256_hex L (canonical_request s' b' c' atts'))"
proof (cases "canonical_request s b c atts = canonical_request s' b' c' atts'")
  case True
  from canonical_request_inj [OF this] show ?thesis by blast
next
  case False
  with assms show ?thesis by (simp only: hash_request_def simp_thms)
qed

section \<open>Attachments\<close>

text \<open>A row keeps its owner and a binding it has; no row comes or goes.\<close>

definition still_bound :: "attachment \<Rightarrow> attachment \<Rightarrow> bool" where
  "still_bound a a' \<longleftrightarrow> at_uploaded_by a' = at_uploaded_by a \<and> (\<forall>g. at_ticket_id a = Some g \<longrightarrow> at_ticket_id a' = Some g)"

definition bindings_kept :: "db \<Rightarrow> db \<Rightarrow> bool" where
  "bindings_kept d d' \<longleftrightarrow> (\<forall>i. rel_option still_bound (attachment_get_by_id i d) (attachment_get_by_id i d'))"

lemma still_bound_refl [simp]: "still_bound a a"
  by (simp add: still_bound_def)

lemma still_bound_trans: "still_bound a b \<Longrightarrow> still_bound b c \<Longrightarrow> still_bound a c"
  by (simp add: still_bound_def)

lemma option_case_weaken:
  "case x of Some b \<Rightarrow> P b | None \<Rightarrow> Q \<Longrightarrow> (\<And>b. P b \<Longrightarrow> P' b) \<Longrightarrow> case x of Some b \<Rightarrow> P' b | None \<Rightarrow> Q"
  by (cases x) simp_all

lemma still_bound_kept:
  assumes "rel_option still_bound x y" and "case x of Some b \<Rightarrow> still_bound a b | None \<Rightarrow> Q"
  shows "case y of Some b \<Rightarrow> still_bound a b | None \<Rightarrow> Q"
  using assms by (cases rule: option.rel_cases) (auto dest: still_bound_trans)

lemma bindings_kept_refl: "attachments d' = attachments d \<Longrightarrow> bindings_kept d d'"
  unfolding bindings_kept_def attachment_get_by_id_def by (simp only:) (blast intro: option.rel_refl still_bound_refl)

lemma bindings_kept_trans: "bindings_kept d d' \<Longrightarrow> bindings_kept d' d'' \<Longrightarrow> bindings_kept d d''"
proof -
  have "transp (rel_option still_bound)" by (rule option.rel_transp, rule transpI, rule still_bound_trans)
  then show "bindings_kept d d' \<Longrightarrow> bindings_kept d' d'' \<Longrightarrow> bindings_kept d d''"
    unfolding bindings_kept_def by (blast dest: transpD)
qed

lemma bindings_kept_map:
  assumes "\<And>j. attachment_get_by_id j d' = map_option f (attachment_get_by_id j d)" and "\<And>a. still_bound a (f a)"
  shows "bindings_kept d d'"
  using assms by (simp add: bindings_kept_def option.rel_map option.rel_refl)

definition attachments_ok :: "db \<Rightarrow> bool" where
  "attachments_ok d \<longleftrightarrow> distinct (map at_id (attachments d))"

lemma bind_kept:
  "bindings_kept d (snd (bind_to_ticket x i d)) \<and> (attachments_ok d \<longrightarrow> attachments_ok (snd (bind_to_ticket x i d)))"
  "bindings_kept d (snd (bind_to_reply x i d)) \<and> (attachments_ok d \<longrightarrow> attachments_ok (snd (bind_to_reply x i d)))"
proof -
  have l: "attachment_get_by_id j (snd (bind_to_ticket x i d))
      = map_option (\<lambda>a. if at_id a = i \<and> at_ticket_id a = None then a\<lparr>at_ticket_id := Some x\<rparr> else a) (attachment_get_by_id j d)" for j
    by (simp add: bind_to_ticket_def update_returning_def attachment_get_by_id_def find_row_update)
  have r: "attachment_get_by_id j (snd (bind_to_reply x i d))
      = map_option (\<lambda>a. if at_id a = i \<and> at_ticket_reply_id a = None then a\<lparr>at_ticket_reply_id := Some x\<rparr> else a) (attachment_get_by_id j d)" for j
    by (simp add: bind_to_reply_def update_returning_def attachment_get_by_id_def find_row_update)
  show "bindings_kept d (snd (bind_to_ticket x i d)) \<and> (attachments_ok d \<longrightarrow> attachments_ok (snd (bind_to_ticket x i d)))"
    using bindings_kept_map [OF l] by (simp add: still_bound_def) (simp add: attachments_ok_def bind_to_ticket_def update_returning_def)
  show "bindings_kept d (snd (bind_to_reply x i d)) \<and> (attachments_ok d \<longrightarrow> attachments_ok (snd (bind_to_reply x i d)))"
    using bindings_kept_map [OF r] by (simp add: still_bound_def) (simp add: attachments_ok_def bind_to_reply_def update_returning_def)
qed

lemma bind_all_kept:
  assumes "\<And>i d. bindings_kept d (snd (bind i d)) \<and> (attachments_ok d \<longrightarrow> attachments_ok (snd (bind i d)))"
  shows "bind_all bind ids d = Some d' \<Longrightarrow> bindings_kept d d' \<and> (attachments_ok d \<longrightarrow> attachments_ok d')"
proof (induction ids arbitrary: d)
  case (Cons i ids)
  from Cons.prems obtain a d1 where b: "bind i d = (Some a, d1)" "bind_all bind ids d1 = Some d'"
    by (auto split: prod.splits option.splits)
  from Cons.IH [OF b(2)] assms [of d i] b(1) bindings_kept_trans show ?case by auto
qed (simp add: bindings_kept_refl)

lemma one_write_attachments:
  assumes "one_write w p p'" and "\<And>r d. w (database p) = Inr (r, d) \<Longrightarrow> attachments d = attachments (database p)"
  shows "attachments (database p') = attachments (database p)"
  using assms by (auto simp: one_write_def)

lemma frame_attachments: "d' = d\<lparr>tickets := x\<rparr> \<Longrightarrow> attachments d' = attachments d"
  by simp

lemma writer_attachments:
  "transition_store a d = Inr (r, d') \<Longrightarrow> attachments d' = attachments d"
  "assign_store b d = Inr (r, d') \<Longrightarrow> attachments d' = attachments d"
  "repo_unassign_ticket i d = Inr (r, d') \<Longrightarrow> attachments d' = attachments d"
  "ticket_set c d = Inr (r, d') \<Longrightarrow> attachments d' = attachments d"
  by (rule frame_attachments, erule transition.store_frame assignment.store_frame withdrawal.store_frame setting.store_frame)+

lemma create_reply_kept:
  assumes "reply_tx L rq ticket actor kind body vis atts d = Inr (r, d')"
  shows "bindings_kept d d' \<and> (attachments_ok d \<longrightarrow> attachments_ok d')"
proof -
  obtain status fr reopens where e: "reply_effect (rq_now rq) kind vis ticket = (status, fr, reopens)"
    by (cases "reply_effect (rq_now rq) kind vis ticket")
  from assms obtain d1 d2 d3 where c: "reply_create kind (rq_db_now rq) (rq_uuid rq 0) (tk_id ticket) actor kind body vis d = Inr (r, d1)"
      and b: "bind_all (bind_to_reply (tr_id r)) atts d1 = Some d2"
      and o: "(if reopens then reopen_by_reply L rq (tk_id ticket) actor d2 else Inr d2) = Inr d3"
      and u: "d' = d3 \<or> (\<exists>x. ticket_set (rq_db_now rq, tk_id ticket, status, fr) d3 = Inr (x, d'))"
    by (auto simp: reply_tx_def e Let_def ticket_update_def split: sum.splits option.splits if_splits)
  have "attachments d3 = attachments d2"
    using o writer_attachments(1) [of "reopen_args rq (tk_id ticket)" d2]
    by (auto simp: reopen_by_reply_def transition_store_def reopen_args_def dest!: record_event_tables(2) split: sum.splits option.splits if_splits)
  then have "attachments d' = attachments d2" using u writer_attachments(4) by metis
  moreover have "bindings_kept d1 d2 \<and> (attachments_ok d1 \<longrightarrow> attachments_ok d2)" by (rule bind_all_kept [OF bind_kept(2) b])
  ultimately show ?thesis
    using reply_create_Inr(2) [OF c] by (simp add: bindings_kept_def attachment_get_by_id_def attachments_ok_def)
qed

lemma find_row_delete:
  "find_row (\<lambda>r. key r = i) (delete_rows (\<lambda>r. key r \<in> S) rows) = (if i \<in> S then None else find_row (\<lambda>r. key r = i) rows)"
  by (induction rows) (auto simp: delete_rows_def)

lemma purge_lookup:
  "attachment_get_by_id i (database (snd (purge_unbound_attachments rq seen p)))
    = (if i \<in> at_id ` set (find_unbound_older_than (rq_now rq - hours 24) seen) then None
       else attachment_get_by_id i (database p))"
  by (simp add: purge_unbound_attachments_def purge_attachments_def UNBOUND_ATTACHMENT_PURGE_AFTER_HOURS_def Let_def
      attachment_get_by_id_def find_row_delete)

lemma purge_ok: "attachments_ok (database p) \<Longrightarrow> attachments_ok (database (snd (purge_unbound_attachments rq seen p)))"
  by (simp add: purge_unbound_attachments_def purge_attachments_def Let_def attachments_ok_def delete_rows_def distinct_map_filter)

lemma unbound_is_unbound:
  assumes "i \<in> at_id ` set (find_unbound_older_than t d)" and "attachments_ok d" and "attachment_get_by_id i d = Some a"
  shows "at_ticket_id a = None"
  using assms distinct_key_eqD [of at_id "attachments d"]
  by (fastforce simp: attachments_ok_def find_unbound_older_than_def attachment_get_by_id_def dest: find_row_SomeD)

text \<open>Every step but the purge keeps all rows and all bindings.\<close>

lemma step_bindings:
  assumes "support_step alone L p p'" and ok: "attachments_ok (database p)"
  shows "attachments_ok (database p') \<and> (bindings_kept (database p) (database p')
    \<or> (\<exists>rq seen. p' = snd (purge_unbound_attachments rq seen p) \<and> (alone \<longrightarrow> seen = database p)))"
proof -
  have same: ?thesis if "attachments (database p') = attachments (database p)"
    using that ok bindings_kept_refl by (simp add: attachments_ok_def)
  from assms(1) show ?thesis
  proof cases
    case (create rq requester key subject body category atts)
    show ?thesis
    proof (rule create_ticket_cases [of L rq p requester key subject body category atts])
      fix k d' assume c: "create_ticket_tx L rq requester subject body category atts (database p) = (Inr k, d')"
        and d': "database (snd (create_ticket L rq (\<lambda>_. p) requester key subject body category atts p)) = d'"
      obtain d1 d2 where x: "ticket_create L (rq_db_now rq) (rq_uuid rq 0) requester subject body category (database p) = Inr (k, d1)"
        and b: "bind_all (bind_to_ticket (tk_id k)) atts d1 = Some d2" and e: "attachments d' = attachments d2"
        using create_ticket_tx_Inr [OF c] by metis
      have "bindings_kept d1 d2 \<and> (attachments_ok d1 \<longrightarrow> attachments_ok d2)" by (rule bind_all_kept [OF bind_kept(1) b])
      with ticket_create_Inr(5) [OF x] e ok show ?thesis
        by (simp add: create d' bindings_kept_def attachment_get_by_id_def attachments_ok_def)
    qed (use same create in simp)
  next
    case (assign seen rq i actor scopes assignee)
    obtain ex where "one_write (assign_store (i, assignee, ex)) p p'" using assign_ticket_write assign(1) by blast
    then show ?thesis using one_write_attachments writer_attachments(2) same by blast
  next
    case (unassign seen rq i actor scopes)
    then show ?thesis using one_write_attachments [OF unassign_ticket_write] writer_attachments(3) same by blast
  next
    case (resolve seen rq i actor kind nt)
    then show ?thesis using one_write_attachments [OF resolve_ticket_write] writer_attachments(1) same by blast
  next
    case (close seen rq i actor kind)
    then show ?thesis using one_write_attachments [OF close_ticket_write] writer_attachments(1) same by blast
  next
    case (reopen seen rq i actor kind)
    then show ?thesis using one_write_attachments [OF reopen_ticket_write] writer_attachments(1) same by blast
  next
    case (reply seen rq i actor kind body vis atts)
    show ?thesis
      by (rule create_reply_cases [of L rq seen i actor kind body vis atts p]) (use create_reply_kept ok same in \<open>auto simp: reply\<close>)
  next
    case (auto_close rq)
    then show ?thesis using auto_close_script [of L rq p] same by metis
  next
    case (purge seen rq)
    then show ?thesis using purge_ok [OF ok] by blast
  qed (use same in simp)
qed

text \<open>C32. An attachment belongs to one ticket: once bound to a ticket, its row names that ticket and its
  uploader as long as the row exists, under every interleaving of creations, replies, transitions and
  purges. The row itself is lost in one way only: a purge whose scan was answered by a database in which
  the attachment was still unbound and old deletes it after it has been bound. That cannot happen when
  the methods run one after another (\<open>alone\<close>), and then the row stays forever.\<close>

theorem attachment_binding_is_final:
  assumes "(support_step alone L)\<^sup>*\<^sup>* p p'" and "attachments_ok (database p)"
    and "attachment_get_by_id i (database p) = Some a" and "at_ticket_id a = Some g"
  shows "case attachment_get_by_id i (database p') of
      Some a' \<Rightarrow> at_ticket_id a' = Some g \<and> at_uploaded_by a' = at_uploaded_by a
    | None \<Rightarrow> \<not> alone \<and> (\<exists>rq seen q s. (support_step alone L)\<^sup>*\<^sup>* p q
        \<and> s \<in> set (attachments seen) \<and> at_id s = i \<and> at_ticket_id s = None \<and> at_created_at s < rq_now rq - hours 24
        \<and> map_option at_ticket_id (attachment_get_by_id i (database q)) = Some (Some g)
        \<and> attachment_get_by_id i (database (snd (purge_unbound_attachments rq seen q))) = None)"
proof -
  let ?lost = "\<exists>rq seen q s. (support_step alone L)\<^sup>*\<^sup>* p q
        \<and> s \<in> set (attachments seen) \<and> at_id s = i \<and> at_ticket_id s = None \<and> at_created_at s < rq_now rq - hours 24
        \<and> map_option at_ticket_id (attachment_get_by_id i (database q)) = Some (Some g)
        \<and> attachment_get_by_id i (database (snd (purge_unbound_attachments rq seen q))) = None"
  let ?inv = "\<lambda>q. case attachment_get_by_id i (database q) of Some b \<Rightarrow> still_bound a b | None \<Rightarrow> \<not> alone \<and> ?lost"
  have "?inv p' \<and> attachments_ok (database p')"
    using assms(1)
  proof induction
    case (step q q')
    note ok = conjunct2 [OF step.IH] and inv = conjunct1 [OF step.IH]
    from step_bindings [OF step.hyps(2) ok] consider (kept) "bindings_kept (database q) (database q')"
      | (purge) rq seen where "q' = snd (purge_unbound_attachments rq seen q)" "alone \<longrightarrow> seen = database q" by blast
    then have "?inv q'"
    proof cases
      case kept
      then have "rel_option still_bound (attachment_get_by_id i (database q)) (attachment_get_by_id i (database q'))"
        by (simp add: bindings_kept_def)
      from this inv show ?thesis by (rule still_bound_kept)
    next
      case (purge rq seen)
      let ?hit = "i \<in> at_id ` set (find_unbound_older_than (rq_now rq - hours 24) seen)"
      show ?thesis
      proof (cases "attachment_get_by_id i (database q)")
        case (Some b)
        with inv have b: "still_bound a b" by simp
        with assms(4) have g: "at_ticket_id b = Some g" by (simp add: still_bound_def)
        have gone: "\<not> alone \<and> ?lost" if h: ?hit
        proof
          show "\<not> alone" using unbound_is_unbound [of i _ "database q" b] ok Some g purge(2) h by auto
          from h obtain s where s: "s \<in> set (attachments seen)" "at_id s = i" "at_ticket_id s = None" "at_created_at s < rq_now rq - hours 24"
            by (auto simp: find_unbound_older_than_def)
          have "attachment_get_by_id i (database (snd (purge_unbound_attachments rq seen q))) = None" using h by (simp add: purge_lookup)
          moreover have "map_option at_ticket_id (attachment_get_by_id i (database q)) = Some (Some g)" using Some g by simp
          ultimately show ?lost using step.hyps(1) s by blast
        qed
        have l: "attachment_get_by_id i (database q') = (if ?hit then None else Some b)"
          by (simp only: purge(1) purge_lookup Some)
        show ?thesis
        proof (cases ?hit)
          case True
          from gone [OF True] show ?thesis unfolding l if_P [OF True] option.case .
        next
          case False
          from b show ?thesis unfolding l if_not_P [OF False] option.case .
        qed
      next
        case None
        then have l: "attachment_get_by_id i (database q') = None" by (simp only: purge(1) purge_lookup if_cancel)
        show ?thesis unfolding l option.case by (rule inv [unfolded None option.case])
      qed
    qed
    then show ?case using step_bindings [OF step.hyps(2) ok] by blast
  qed (use assms(2,3) in simp)
  then show ?thesis by (rule conjunct1 [THEN option_case_weaken]) (use assms(4) in \<open>simp add: still_bound_def\<close>)
qed

section \<open>Assignment\<close>

lemma assign_ticket_Inr:
  assumes "assign_ticket L rq seen i actor scopes assignee p = (Inr r, p')" and ok: "tickets_ok (database p)"
  obtains k ks where "ticket_get_by_id i (database p) = Some k" and "ticket_get_by_id i seen = Some ks"
    and "tk_assignee_id k = tk_assignee_id ks" and "tk_status k \<noteq> Closed"
    and "ticket_get_by_id i (database p') = Some (k\<lparr>tk_assignee_id := Some assignee\<rparr>)"
proof -
  from assms(1) obtain ks k' d1 d2 where ks: "ticket_get_by_id i seen = Some ks"
    and w: "assign_store (i, assignee, tk_assignee_id ks) (database p) = Inr (Some k', d1)"
    and e: "record_event L rq (rq_uuid rq 0) ''tickets'' ''ticket_assigned'' actor (Some (tk_id k')) (Some ''success'') None d1 = Inr d2"
    and p': "p' = p\<lparr>database := d2\<rparr>"
    by (auto simp: assign_ticket_def assign_store_def audited_def split: if_splits option.splits sum.splits)
  obtain k where "ticket_get_by_id i (database p) = Some k" "assign_hit (i, assignee, tk_assignee_id ks) k"
      "ticket_get_by_id i d1 = Some (assign_change (i, assignee, tk_assignee_id ks) k)"
    using assignment.store_result [OF w ok] by auto
  with that ks p' record_event_tables(1) [OF e] show thesis
    by (auto simp: assign_parts ticket_get_by_id_def)
qed

lemma assign_ticket_stale:
  assumes "ticket_get_by_id i seen = Some ks" and "ticket_get_by_id i (database p) = Some k"
    and "tk_assignee_id k \<noteq> tk_assignee_id ks" and ok: "tickets_ok (database p)"
  shows "\<exists>e. assign_ticket L rq seen i actor scopes assignee p = (Inl e, p)"
proof (cases "repo_assign_ticket i assignee (tk_assignee_id ks) (database p)")
  case (Inr rd)
  obtain r d where rd: "rd = (r, d)" by (cases rd)
  have "r = None"
  proof (rule ccontr)
    assume "r \<noteq> None"
    then obtain k' where "assign_store (i, assignee, tk_assignee_id ks) (database p) = Inr (Some k', d)"
      using Inr rd by (auto simp: assign_store_def)
    from assignment.store_result [OF this ok] assms(2,3) show False by (auto simp: assign_parts)
  qed
  with Inr rd assms(1) show ?thesis by (simp add: assign_ticket_def)
qed (use assms(1) in \<open>simp add: assign_ticket_def\<close>)

text \<open>Racing assignments: when two agents have read the same state and the first one assigns the ticket
  to a new assignee, the second assignment fails and changes nothing; no assignment is silently
  overwritten.\<close>

lemma racing_assignment_loses:
  assumes "assign_ticket L rq seen i actor scopes first p = (Inr r, p1)" and "tickets_ok (database p)"
    and "ticket_get_by_id i seen = Some ks" and "tk_assignee_id ks \<noteq> Some first"
  shows "\<exists>e. assign_ticket L rq' seen i actor' scopes' second p1 = (Inl e, p1)"
proof -
  obtain k where "ticket_get_by_id i (database p1) = Some (k\<lparr>tk_assignee_id := Some first\<rparr>)"
    using assign_ticket_Inr [OF assms(1,2)] by metis
  moreover have "tickets_ok (database p1)"
    using support_step_moves [OF support_step.assign [of False seen p L rq i actor scopes first] assms(2)] assms(1)
    by (simp add: row_moves_def)
  ultimately show ?thesis using assign_ticket_stale [OF assms(3), of p1] assms(4) by simp
qed

section \<open>Visibility\<close>

text \<open>C33. A customer sees the threads of their own tickets only, and no internal note: every answer of
  \<open>get_ticket_detail\<close> to a customer is for a ticket they requested and lists public replies of it.\<close>

theorem customer_sees_own_public_thread:
  assumes "get_ticket_detail L i actor Customer cursor limit d = Inr detail"
  shows "tdr_requester_id detail = actor \<and> tdr_id detail = i
    \<and> (\<forall>r \<in> set (fst (tdr_replies detail)). tr_visibility r = Public \<and> tr_ticket_id r = i)"
proof -
  from assms obtain k items nxt where k: "ticket_get_by_id i d = Some k" "\<not> foreign_ticket actor Customer k"
    and page: "list_for_ticket L Customer i cursor limit d = Inr (Some (items, nxt))" and det: "detail = to_ticket_detail_read k (items, nxt)"
    by (auto simp: get_ticket_detail_def split: option.splits if_splits sum.splits)
  from keyset_page_items(1) [OF page [unfolded list_for_ticket_def]]
  have "\<forall>r \<in> set items. tr_visibility r = Public \<and> tr_ticket_id r = i" by (auto simp: rls_visible_def)
  with k det ticket_get_by_id_SomeD [OF k(1)] show ?thesis by (simp add: to_ticket_detail_read_def foreign_ticket_def)
qed

section \<open>Listing\<close>

lemma walk_pages_map:
  assumes "\<And>c. page' c = (case page c of Inl e \<Rightarrow> Inl e | Inr None \<Rightarrow> Inl err | Inr (Some (xs, n)) \<Rightarrow> Inr (Some (map f xs, n)))"
  shows "walk_pages n page' c = map_option (map f) (walk_pages n page c)"
  by (induction n arbitrary: c) (auto simp: assms option.map_comp comp_def split: sum.splits option.splits)

text \<open>C34. Following the cursors of the own-ticket listing from the first page, with any admissible page size,
  ends and yields all tickets of the requester exactly once, newest first.\<close>

theorem own_tickets_listed_once:
  assumes "codec_sound L" and "1 \<le> limit" and "limit \<le> 100" and "tickets_ok d"
  shows "walk_pages (Suc (length (filter (\<lambda>k. tk_requester_id k = u) (tickets d))))
      (\<lambda>cursor. map_sum id Some (list_own_tickets L u None cursor limit d)) None
    = Some (map to_ticket_read (rev (sort_key created_pos (filter (\<lambda>k. tk_requester_id k = u) (tickets d)))))"
proof -
  let ?own = "filter (\<lambda>k. tk_requester_id k = u) (tickets d)" and ?err = "support_validation ''cursor'' ''Invalid cursor.'' ''invalid''"
  let ?page = "\<lambda>cursor. list_for_requester L u cursor limit d"
  let ?q = "(L, True, created_pos, limit, ?own)"
  have "distinct (map tk_id ?own)" using assms(4) by (simp add: tickets_ok_def distinct_map_filter)
  then have "distinct (map created_pos ?own)" by (auto simp: distinct_map inj_on_def created_pos_def)
  then have "walk_pages (Suc (length (query_rows ?q))) (query_page ?q) None = Some (query_rows ?q)"
    by (intro keyset.walk_all) (simp add: query_valid_def assms)
  then have w: "walk_pages (Suc (length ?own)) ?page None = Some (rev (sort_key created_pos ?own))"
    by (simp add: query_rows_def query_page_def order_rows_def list_for_requester_def)
  have "map_sum id Some (list_own_tickets L u None c limit d)
      = (case ?page c of Inl e \<Rightarrow> Inl e | Inr None \<Rightarrow> Inl ?err | Inr (Some (xs, n)) \<Rightarrow> Inr (Some (map to_ticket_read xs, n)))" for c
    using assms(2,3) by (auto simp: list_own_tickets_def MAX_LIST_LIMIT_def split: sum.splits option.splits)
  from walk_pages_map [OF this] w show ?thesis by simp
qed

section \<open>Ticket numbers\<close>

lemma hd_nat_digits: "n \<noteq> 0 \<Longrightarrow> hd (nat_digits n) \<noteq> CHR ''0''"
proof (induction n rule: nat_digits.induct)
  case (1 n)
  have z: "hex_digit 0 = CHR ''0''" by (simp add: hex_digit_def)
  show ?case
  proof (cases "n < 10")
    case True
    then show ?thesis using "1.prems" hex_digit_inj [of n 0] z by (subst nat_digits.simps) auto
  next
    case False
    then have "hd (nat_digits (n div 10)) \<noteq> CHR ''0''" using "1.IH" by (simp add: div_greater_zero_iff)
    with False show ?thesis by (subst nat_digits.simps) simp
  qed
qed

lemma padded_digits_inj:
  assumes "replicate a (CHR ''0'') @ nat_digits m = replicate b (CHR ''0'') @ nat_digits n" and "a \<le> b" and "0 < m"
  shows "m = n"
proof -
  obtain c where b: "b = a + c" using assms(2) le_Suc_ex by blast
  have e: "nat_digits m = replicate c (CHR ''0'') @ nat_digits n" using assms(1) by (simp add: b replicate_add)
  have "c = 0"
  proof (rule ccontr)
    assume "c \<noteq> 0"
    then have "hd (nat_digits m) = CHR ''0''" using e by (cases c) simp_all
    with hd_nat_digits [of m] assms(3) show False by simp
  qed
  with e show ?thesis by (simp add: nat_digits_inj)
qed

lemma lpad0_small: "n < 10 ^ 7 \<Longrightarrow> lpad0 7 (nat_digits n) = replicate (7 - length (nat_digits n)) (CHR ''0'') @ nat_digits n"
  using length_nat_digits_le [of n 6] by (simp add: lpad0_def)

text \<open>The number drawn from the sequence is recovered from the ticket number for the first 9,999,999
  tickets of a year; the ten-millionth number is cut to the one of the millionth, so an insert with it
  violates the unique constraint.\<close>

theorem ticket_numbers_unique:
  assumes "0 < m" and "m < 10 ^ 7" and "0 < n" and "n < 10 ^ 7"
  shows "(ticket_number L t m = ticket_number L t n \<longleftrightarrow> m = n)
    \<and> ticket_number L t 10000000 = ticket_number L t 1000000"
proof -
  have "m = n" if "ticket_number L t m = ticket_number L t n"
  proof -
    from that have "replicate (7 - length (nat_digits m)) (CHR ''0'') @ nat_digits m
        = replicate (7 - length (nat_digits n)) (CHR ''0'') @ nat_digits n"
      by (simp only: ticket_number_def same_append_eq lpad0_small [OF assms(2)] lpad0_small [OF assms(4)])
    then show ?thesis
      using padded_digits_inj [of _ m _ n] padded_digits_inj [of _ n _ m] assms(1,3)
      by (metis nle_le)
  qed
  moreover have "nat_digits 10000000 = ''10000000''" "nat_digits 1000000 = ''1000000''"
    by (simp_all add: nat_digits.simps hex_digit_def)
  ultimately show ?thesis by (auto simp: ticket_number_def lpad0_def)
qed

end
