(* ===== verification/Support_Witnesses.thy ===== *)
theory Support_Witnesses
  imports Support_Properties
begin

text \<open>
  A small support desk (one customer, one agent, two tickets, one attachment) on which the properties of
  \<^verbatim>\<open>Support_Properties\<close> are applied, and two runs that show how a stale read and a long role list act.
\<close>

definition ticket_of :: "uuid \<Rightarrow> ticket_status \<Rightarrow> ticket" where
  "ticket_of i st = \<lparr>tk_id = i, tk_ticket_number = ''CP-2026-'' @ lpad0 7 (nat_digits (unat i)), tk_requester_id = 1,
     tk_subject = ''s'', tk_body = ''b'', tk_category = ''c'', tk_status = st, tk_created_at = 10, tk_updated_at = 10,
     tk_first_response_at = None, tk_resolved_at = (if st = Resolved then Some 20 else None),
     tk_resolution_note = (if st = Resolved then Some ''done'' else None),
     tk_closed_at = (if st = Closed then Some 30 else None), tk_closed_by = (if st = Closed then Some 2 else None),
     tk_assignee_id = None\<rparr>"

definition desk :: "ticket_status \<Rightarrow> ticket_status \<Rightarrow> portal" where
  "desk st st' = \<lparr>database = empty_db\<lparr>
       users := [new_user 0 1 ''c@x'' ''h'' ACTIVE, new_user 0 2 ''a@x'' ''h'' ACTIVE],
       roles := [\<lparr>ro_id = 40, ro_name = ''support_agent'', ro_permissions = [''tickets:read'', ''tickets:write'']\<rparr>],
       user_roles := [\<lparr>ur_user_id = 2, ur_role_id = 40, ur_granted_at = 0\<rparr>],
       tickets := [ticket_of 50 st, ticket_of 51 st'], ticket_number_seq := 60,
       attachments := [\<lparr>at_id = 70, at_uploaded_by = 1, at_ticket_id = None, at_ticket_reply_id = None, at_created_at = 5\<rparr>]\<rparr>,
     cache = empty_valkey, outbox = []\<rparr>"

definition agent_request :: request where
  "agent_request = sample_request\<lparr>rq_now := 2000, rq_db_now := 1990, rq_uuid := (\<lambda>n. of_nat (200 + n))\<rparr>"

lemma desk_ok: "tickets_ok (database (desk st st'))"
proof -
  have "nat_digits (unat (50 :: uuid)) = ''50''" "nat_digits (unat (51 :: uuid)) = ''51''"
    by (simp_all add: nat_digits.simps hex_digit_def)
  then show ?thesis
    by (cases st; cases st') (simp_all add: desk_def tickets_ok_def ticket_of_def ticket_violation_def ticket_checks_def fits_def lpad0_def)
qed

lemma desk_lookup: "ticket_get_by_id 50 (database (desk st st')) = Some (ticket_of 50 st)"
  "ticket_get_by_id 51 (database (desk st st')) = Some (ticket_of 51 st')"
  by (simp_all add: desk_def ticket_get_by_id_def ticket_of_def)

section \<open>Witnesses\<close>

text \<open>An agent answers a ticket that was closed after the agent had read it as open.\<close>

definition stale_answer :: "portal \<Rightarrow> ticket_reply outcome \<times> portal" where
  "stale_answer p = create_reply zero_libs agent_request (database (desk Open Open)) 50 2 Agent ''hello'' None [] p"

theorem closed_ticket_is_final_witness:
  "\<exists>k'. ticket_get_by_id 50 (database (snd (stale_answer (desk Closed Open)))) = Some k' \<and> tk_status k' = Closed \<and> tk_closed_by k' = Some 2"
proof -
  have "support_step False zero_libs (desk Closed Open) (snd (stale_answer (desk Closed Open)))"
    unfolding stale_answer_def by (rule support_step.reply) simp
  then have "(support_step False zero_libs)\<^sup>*\<^sup>* (desk Closed Open) (snd (stale_answer (desk Closed Open)))" by blast
  from closed_ticket_is_final [OF this desk_ok desk_lookup(1)] show ?thesis by (auto simp: ticket_of_def)
qed

theorem ticket_status_refines_life_witness:
  "\<exists>k'. ticket_get_by_id 50 (database (snd (stale_answer (desk Open Open)))) = Some k' \<and> life\<^sup>=\<^sup>= Open (tk_status k')"
proof -
  have "support_step True zero_libs (desk Open Open) (snd (stale_answer (desk Open Open)))"
    unfolding stale_answer_def by (rule support_step.reply) simp
  from ticket_status_refines_life [OF rtranclp.rtrancl_refl desk_ok this desk_lookup(1)] show ?thesis
    by (auto simp: ticket_of_def)
qed

lemma reopen_or_auto_close_witness:
  "fst (reopen_ticket zero_libs agent_request (database (desk Resolved Open)) 50 1 Customer (desk Resolved Open))
    \<noteq> Inl (invalid_transition (ticket_of 50 Resolved))"
proof -
  have n: "50 \<notin> set (fst (auto_close_resolved_past_window (rq_db_now agent_request) 0 0 (database (desk Resolved Open))))"
    by code_simp
  have r: "tk_status (ticket_of 50 Resolved) = Resolved" "Customer = Agent \<or> tk_requester_id (ticket_of 50 Resolved) = 1"
    by (simp_all add: ticket_of_def)
  from reopen_or_auto_close [OF desk_ok desk_lookup(1) r, where rq = agent_request and now = 0 and who = 0 and L = zero_libs] n show ?thesis by simp
qed

definition created :: "ticket_read outcome \<times> portal" where
  "created = create_ticket zero_libs agent_request (\<lambda>_. desk Open Open) 1 ''k'' ''s'' ''b'' ''c'' [70] (desk Open Open)"

lemma created_Inr: "fst created = Inr \<lparr>tkr_id = 200, tkr_ticket_number = ''CP-2026-0000060'', tkr_status = ''open'',
    tkr_requester_id = 1, tkr_subject = ''s'', tkr_body = ''b'', tkr_category = ''c'', tkr_created_at = 1990, tkr_updated_at = 1990\<rparr>"
  by code_simp

lemma desk_fresh: "idem_get_envelope t u k (cache (desk st st')) = None"
  by (simp add: desk_def cache_defs vk_defs empty_valkey_def)

theorem create_ticket_idempotent_witness:
  "create_ticket zero_libs (agent_request\<lparr>rq_now := 5000\<rparr>) (\<lambda>_. snd created) 1 ''k'' ''s'' ''b'' ''c'' [70] (snd created)
    = (fst created, snd created)"
proof -
  have c: "create_ticket zero_libs agent_request (\<lambda>_. desk Open Open) 1 ''k'' ''s'' ''b'' ''c'' [70] (desk Open Open)
      = (Inr \<lparr>tkr_id = 200, tkr_ticket_number = ''CP-2026-0000060'', tkr_status = ''open'',
        tkr_requester_id = 1, tkr_subject = ''s'', tkr_body = ''b'', tkr_category = ''c'', tkr_created_at = 1990, tkr_updated_at = 1990\<rparr>, snd created)"
    using created_Inr by (metis created_def prod.collapse)
  have t: "rq_now agent_request \<le> rq_now (agent_request\<lparr>rq_now := 5000\<rparr>)"
      "rq_now (agent_request\<lparr>rq_now := 5000\<rparr>) < rq_now agent_request + hours 24"
    by (simp_all add: agent_request_def sample_request_def duration_defs)
  from create_ticket_idempotent [OF c desk_fresh t, of "''s''" "''b''" "''c''" "[70]"] created_Inr show ?thesis by simp
qed

theorem failed_creation_releases_key_witness:
  "idem_get_envelope 3000 1 ''k'' (cache (snd (create_ticket zero_libs agent_request (\<lambda>_. desk Open Open) 1 ''k'' ''s'' ''b'' ''c'' [99]
     (desk Open Open)))) = None"
proof -
  let ?run = "create_ticket zero_libs agent_request (\<lambda>_. desk Open Open) 1 ''k'' ''s'' ''b'' ''c'' [99] (desk Open Open)"
  have "fst ?run = Inl (SupportError AttachmentNotOwnedError)" by code_simp
  then have r: "?run = (Inl (SupportError AttachmentNotOwnedError), snd ?run)" by (metis prod.collapse)
  from failed_creation_releases_key [OF r desk_fresh, of 3000] show ?thesis by simp
qed

theorem hash_request_determines_payload_witness:
  "hash_request zero_libs ''s'' ''b'' ''c'' [1, 2] = hash_request zero_libs ''s'' ''b'' ''c'' [2, 1] \<and> mset [1, 2 :: uuid] = mset [2, 1]"
proof -
  have e: "canonical_request ''s'' ''b'' ''c'' [1, 2] = canonical_request ''s'' ''b'' ''c'' [2, 1]" by code_simp
  then have h: "hash_request zero_libs ''s'' ''b'' ''c'' [1, 2] = hash_request zero_libs ''s'' ''b'' ''c'' [2, 1]" by (simp only: hash_request_def)
  from hash_request_determines_payload [OF h] e h show ?thesis by simp
qed

theorem attachment_binding_is_final_witness:
  "map_option at_ticket_id (attachment_get_by_id 70 (database (snd (purge_unbound_attachments (agent_request\<lparr>rq_now := hours 999\<rparr>)
     (database (snd created)) (snd created))))) = Some (Some 200)"
proof -
  let ?a = "hd (attachments (database (snd created)))"
  let ?p = "snd (purge_unbound_attachments (agent_request\<lparr>rq_now := hours 999\<rparr>) (database (snd created)) (snd created))"
  have a: "attachments_ok (database (snd created))" by code_simp
  have b: "attachment_get_by_id 70 (database (snd created)) = Some ?a" by code_simp
  have c: "at_ticket_id ?a = Some 200" by code_simp
  have "support_step True zero_libs (snd created) ?p" by (rule support_step.purge) simp
  then have "(support_step True zero_libs)\<^sup>*\<^sup>* (snd created) ?p" by blast
  from attachment_binding_is_final [OF this a b c] show ?thesis
    by (cases "attachment_get_by_id 70 (database ?p)") (simp_all only: option.case not_True_eq_False simp_thms option.map)
qed

theorem racing_assignment_loses_witness:
  "\<exists>e. fst (assign_ticket zero_libs agent_request (database (desk Open Open)) 50 2 [''tickets:write''] 2
     (snd (assign_ticket zero_libs agent_request (database (desk Open Open)) 50 2 [''tickets:write''] 2 (desk Open Open)))) = Inl e"
proof -
  let ?run = "assign_ticket zero_libs agent_request (database (desk Open Open)) 50 2 [''tickets:write''] 2 (desk Open Open)"
  have "case fst ?run of Inl _ \<Rightarrow> False | Inr _ \<Rightarrow> True" by code_simp
  then obtain r where "fst ?run = Inr r" by (cases "fst ?run") simp_all
  then have r: "?run = (Inr r, snd ?run)" by (metis prod.collapse)
  have "tk_assignee_id (ticket_of 50 Open) \<noteq> Some 2" by (simp add: ticket_of_def)
  from racing_assignment_loses [OF r desk_ok desk_lookup(1) this] obtain e where
    "assign_ticket zero_libs agent_request (database (desk Open Open)) 50 2 [''tickets:write''] 2 (snd ?run) = (Inl e, snd ?run)" by blast
  then show ?thesis by (metis fst_conv)
qed

definition answered :: portal where
  "answered = snd (create_reply zero_libs (agent_request\<lparr>rq_uuid := (\<lambda>n. of_nat (300 + n))\<rparr>) (database (desk Open Open)) 50 2 Agent ''note''
     (Some Internal) [] (snd (stale_answer (desk Open Open))))"

theorem customer_sees_own_public_thread_witness:
  "map_sum (\<lambda>_. ()) (\<lambda>det. (tdr_requester_id det, map tr_body (fst (tdr_replies det))))
     (get_ticket_detail zero_libs 50 1 Customer None 10 (database answered)) = Inr (1, [''hello''])
   \<and> map_sum (\<lambda>_. ()) (\<lambda>det. list_all (\<lambda>r. tr_visibility r = Public) (fst (tdr_replies det)))
     (get_ticket_detail zero_libs 50 1 Customer None 10 (database answered)) = Inr True"
proof -
  let ?g = "get_ticket_detail zero_libs 50 1 Customer None 10 (database answered)"
  have m: "map_sum (\<lambda>_. ()) (\<lambda>det. (tdr_requester_id det, map tr_body (fst (tdr_replies det)))) ?g = Inr (1, [''hello''])"
    by code_simp
  then obtain det where d: "?g = Inr det" by (cases ?g) simp_all
  from customer_sees_own_public_thread [OF d] m d show ?thesis by (simp add: list_all_iff)
qed

lemma zero_libs_codec: "codec_sound zero_libs"
  by (simp add: codec_sound_def zero_libs_def of_unary_unary codec_sound_unary instant_of_def)

theorem cursor_roundtrip_witness:
  "decode_cursor zero_libs (encode_cursor zero_libs (7, 255)) = Some (Aware 7, 255)
   \<and> parse_uuid (uuid_str 255) = Some 255"
  by (rule cursor_roundtrip [OF zero_libs_codec])

theorem own_tickets_listed_once_witness:
  "walk_pages 3 (\<lambda>cursor. map_sum id Some (list_own_tickets zero_libs 1 None cursor 1 (database (desk Open Closed)))) None
    = Some [to_ticket_read (ticket_of 51 Closed), to_ticket_read (ticket_of 50 Open)]"
proof -
  have f: "filter (\<lambda>k. tk_requester_id k = 1) (tickets (database (desk Open Closed))) = [ticket_of 50 Open, ticket_of 51 Closed]"
    by (simp add: desk_def ticket_of_def)
  have s: "created_pos (ticket_of 50 Open) \<le> created_pos (ticket_of 51 Closed)" by (simp add: created_pos_def ticket_of_def)
  from own_tickets_listed_once [OF zero_libs_codec _ _ desk_ok, of 1 1 Open Closed] show ?thesis
    by (simp add: f s numeral_3_eq_3)
qed

theorem ticket_numbers_unique_witness:
  "ticket_number zero_libs 0 1 \<noteq> ticket_number zero_libs 0 2 \<and> ticket_number zero_libs 0 10000000 = ticket_number zero_libs 0 1000000"
  using ticket_numbers_unique [of 1 2 zero_libs 0] by simp

section \<open>What a stale read does\<close>

text \<open>An agent reads an open ticket; another agent resolves it; the first agent's public reply then sets the
  status back, leaving the resolution time in place: the update of \<open>create_reply\<close> has no status
  condition.\<close>

lemma late_reply_unresolves:
  "map_option (\<lambda>k. (tk_status k, tk_resolved_at k))
     (ticket_get_by_id 50 (database (snd (stale_answer (desk Resolved Open))))) = Some (WaitingOnCustomer, Some 20)"
  by code_simp

text \<open>An internal note is announced to the customer by mail.\<close>

lemma internal_note_is_mailed: "last (outbox answered) = TicketReplyNotification ''c@x'' ''CP-2026-0000050''"
  by code_simp

text \<open>The purge job scans while the upload is unbound; a ticket with it is created; the delete then takes
  the attachment from the ticket.\<close>

lemma late_purge_takes_a_bound_attachment:
  "let p = snd created; p' = snd (purge_unbound_attachments (agent_request\<lparr>rq_now := hours 25\<rparr>) (database (desk Open Open)) p)
   in map at_ticket_id (attachments (database p)) = [Some 200] \<and> attachments (database p') = []"
  by code_simp

text \<open>An attachment that is bound to a reply only is purged after a day.\<close>

lemma reply_attachment_purged:
  "let p = snd (create_reply zero_libs agent_request (database (desk Open Open)) 50 1 Customer ''see file'' None [70] (desk Open Open));
       p' = snd (purge_unbound_attachments (agent_request\<lparr>rq_now := hours 25\<rparr>) (database p) p)
   in map at_ticket_reply_id (attachments (database p)) = [Some 200] \<and> attachments (database p') = []"
  by code_simp

end
