(* ===== verification/Schema.thy ===== *)
theory Schema
  imports Cache_Keys
begin

text \<open>
  The database schema as the migrations see it: the catalogue of tables, indexes, sequences, functions,
  views and extensions, and the statements the migrations issue. \<open>effect\<close> is the effect of a statement
  on the catalogue, with PostgreSQL's documented errors (a name already taken, an object that is missing,
  an object something else depends on) as values of \<open>ddl_error\<close>. \<open>wf_catalog\<close> is referential integrity of
  the catalogue: every name is taken once, and every key, index, foreign key, trigger, default and view
  refers to objects that exist. Every statement preserves it.

  The table items mirror SQLAlchemy's constructors (\<open>sa.Column\<close>, \<open>sa.PrimaryKeyConstraint\<close>, ...); constraints
  without a name get the one PostgreSQL gives them, with a numeric suffix when it is taken.
\<close>

named_theorems ddl_defs \<open>definitions of the DDL statements\<close>

section \<open>Catalogue\<close>

datatype sql_type =
  Uuid | Varchar nat | Text_type | Timestamptz | Boolean_type | Bytea | Varchar_array nat | Jsonb

datatype column_default =
  Default_now | Default_false | Default_text string
| Default_ticket_number string  \<comment> \<open>the formatted \<open>nextval\<close> of the named sequence\<close>

datatype on_delete = No_action | Cascade

text \<open>Predicates of \<open>CHECK\<close> constraints, partial indexes and policies.\<close>

datatype predicate =
  Column_is string string | Column_is_not string string | Column_null string | Column_not_null string
| Setting_is string string
| Both predicate predicate | Either predicate predicate | Same predicate predicate

primrec predicate_columns :: "predicate \<Rightarrow> string list" where
  "predicate_columns (Column_is c _) = [c]"
| "predicate_columns (Column_is_not c _) = [c]"
| "predicate_columns (Column_null c) = [c]"
| "predicate_columns (Column_not_null c) = [c]"
| "predicate_columns (Setting_is _ _) = []"
| "predicate_columns (Both p q) = predicate_columns p @ predicate_columns q"
| "predicate_columns (Either p q) = predicate_columns p @ predicate_columns q"
| "predicate_columns (Same p q) = predicate_columns p @ predicate_columns q"

record column =
  col_type :: sql_type
  col_nullable :: bool
  col_default :: "column_default option"

record key =
  key_columns :: "string list"
  key_primary :: bool

record foreign_key =
  fk_columns :: "string list"
  fk_table :: string
  fk_refs :: "string list"
  fk_on_delete :: on_delete

record policy =
  pol_command :: string
  pol_predicate :: predicate

record table =
  columns :: "(string \<times> column) list"
  keys :: "(string \<times> key) list"
  foreign_keys :: "(string \<times> foreign_key) list"
  checks :: "(string \<times> predicate) list"
  triggers :: "(string \<times> string) list"
  policies :: "(string \<times> policy) list"
  row_security :: bool
  row_security_forced :: bool
  partition_key :: "string list"
  partitions :: "string list"

record index =
  ix_table :: string
  ix_columns :: "string list"
  ix_where :: "predicate option"
  ix_extension :: "string option"
  ix_valid :: bool

record catalog =
  tables :: "(string \<times> table) list"
  indexes :: "(string \<times> index) list"
  sequences :: "string list"
  routines :: "string list"
  views :: "(string \<times> (string \<times> string) list) list"
  extensions :: "string list"

definition empty_catalog :: catalog where
  "empty_catalog = \<lparr>tables = [], indexes = [], sequences = [], routines = [], views = [], extensions = []\<rparr>"

definition empty_table :: table where
  "empty_table = \<lparr>columns = [], keys = [], foreign_keys = [], checks = [], triggers = [], policies = [],
     row_security = False, row_security_forced = False, partition_key = [], partitions = []\<rparr>"

section \<open>Association lists\<close>

definition adjust :: "'k \<Rightarrow> ('v \<Rightarrow> 'v) \<Rightarrow> ('k \<times> 'v) list \<Rightarrow> ('k \<times> 'v) list" where
  "adjust k g xs = map (\<lambda>(n, v). (n, if n = k then g v else v)) xs"

definition without :: "'k \<Rightarrow> ('k \<times> 'v) list \<Rightarrow> ('k \<times> 'v) list" where
  "without k xs = filter (\<lambda>(n, _). n \<noteq> k) xs"

abbreviation names :: "(string \<times> 'v) list \<Rightarrow> string list" where
  "names xs \<equiv> map fst xs"

lemma adjust_simps [simp]:
  "adjust k g [] = []"
  "adjust k g ((n, v) # xs) = (n, if n = k then g v else v) # adjust k g xs"
  by (simp_all add: adjust_def)

lemma without_simps [simp]:
  "without k [] = []"
  "without k ((n, v) # xs) = (if n = k then without k xs else (n, v) # without k xs)"
  by (simp_all add: without_def)

lemma map_fst_adjust [simp]: "map fst (adjust k g xs) = map fst xs"
  by (induction xs) auto

lemma set_map_fst_without: "fst ` set (without k xs) = fst ` set xs - {k}"
  by (force simp: without_def)

lemma map_of_adjust:
  "map_of (adjust k g xs) n = (if n = k then map_option g (map_of xs n) else map_of xs n)"
  by (induction xs) auto

lemma map_of_without: "map_of (without k xs) n = (if n = k then None else map_of xs n)"
  by (induction xs) auto

lemma in_adjustE:
  assumes "(n, v) \<in> set (adjust k g xs)"
  obtains w where "(n, w) \<in> set xs" and "v = (if n = k then g w else w)"
  using assms by (auto simp: adjust_def)

lemma in_without: "(n, v) \<in> set (without k xs) \<longleftrightarrow> (n, v) \<in> set xs \<and> n \<noteq> k"
  by (auto simp: without_def)

lemma map_fst_without: "map fst (without k xs) = filter (\<lambda>n. n \<noteq> k) (map fst xs)"
  by (induction xs) auto

text \<open>What an addition is undone by.\<close>

lemma without_fresh: "k \<notin> set (map fst xs) \<Longrightarrow> without k xs = xs"
  by (induction xs) auto

lemma without_append [simp]: "without k (xs @ ys) = without k xs @ without k ys"
  by (simp add: without_def)

lemma adjust_adjust: "adjust k g (adjust k h xs) = adjust k (\<lambda>v. g (h v)) xs"
  by (induction xs) auto

lemma adjust_id: "(\<And>v. (k, v) \<in> set xs \<Longrightarrow> g v = v) \<Longrightarrow> adjust k g xs = xs"
  by (induction xs) auto

lemma adjust_other: "k \<notin> fst ` set xs \<Longrightarrow> adjust k g xs = xs"
  by (induction xs) auto

lemma adjust_append [simp]: "adjust k g (xs @ ys) = adjust k g xs @ adjust k g ys"
  by (simp add: adjust_def)

section \<open>Names\<close>

definition column_names :: "table \<Rightarrow> string list" where
  "column_names t = names (columns t)"

definition constraint_names :: "table \<Rightarrow> string list" where
  "constraint_names t = names (keys t) @ names (foreign_keys t) @ names (checks t)"

lemma column_names_update [simp]:
  "column_names (t\<lparr>columns := columns t @ xs\<rparr>) = column_names t @ map fst xs"
  "column_names (t\<lparr>columns := adjust n g (columns t)\<rparr>) = column_names t"
  "column_names (t\<lparr>keys := ks\<rparr>) = column_names t"
  "column_names (t\<lparr>foreign_keys := fks\<rparr>) = column_names t"
  "column_names (t\<lparr>checks := chs\<rparr>) = column_names t"
  "column_names (t\<lparr>triggers := trs\<rparr>) = column_names t"
  "column_names (t\<lparr>policies := pls\<rparr>) = column_names t"
  "column_names (t\<lparr>row_security := b\<rparr>) = column_names t"
  "column_names (t\<lparr>row_security_forced := b\<rparr>) = column_names t"
  "column_names (t\<lparr>partitions := ps\<rparr>) = column_names t"
  by (simp_all add: column_names_def)

lemma constraint_names_update [simp]:
  "constraint_names (t\<lparr>columns := xs\<rparr>) = constraint_names t"
  "constraint_names (t\<lparr>triggers := trs\<rparr>) = constraint_names t"
  "constraint_names (t\<lparr>policies := pls\<rparr>) = constraint_names t"
  "constraint_names (t\<lparr>row_security := b\<rparr>) = constraint_names t"
  "constraint_names (t\<lparr>row_security_forced := b\<rparr>) = constraint_names t"
  "constraint_names (t\<lparr>partitions := ps\<rparr>) = constraint_names t"
  by (simp_all add: constraint_names_def)

text \<open>Tables, partitions, the indexes behind keys, indexes, sequences and views share one name space.\<close>

definition relation_names :: "catalog \<Rightarrow> string list" where
  "relation_names c = names (tables c)
     @ concat (map (\<lambda>(_, t). names (keys t) @ partitions t) (tables c))
     @ names (indexes c) @ sequences c @ names (views c)"

lemma relation_names_update [simp]:
  "relation_names (c\<lparr>routines := fns\<rparr>) = relation_names c"
  "relation_names (c\<lparr>extensions := es\<rparr>) = relation_names c"
  by (simp_all add: relation_names_def)

fun fresh_name :: "string \<Rightarrow> string list \<Rightarrow> nat \<Rightarrow> nat \<Rightarrow> string" where
  "fresh_name base taken i 0 = base @ nat_digits i"
| "fresh_name base taken i (Suc n) =
     (if base @ nat_digits i \<in> set taken then fresh_name base taken (Suc i) n else base @ nat_digits i)"

definition choose_name :: "string \<Rightarrow> string list \<Rightarrow> string" where
  "choose_name base taken = (if base \<in> set taken then fresh_name base taken 1 (length taken) else base)"

section \<open>Integrity of the catalogue\<close>

definition references :: "catalog \<Rightarrow> string \<Rightarrow> string list \<Rightarrow> bool" where
  "references c n cols = (case map_of (tables c) n of
     None \<Rightarrow> False | Some t \<Rightarrow> \<exists>(_, k) \<in> set (keys t). key_columns k = cols)"

fun default_ok :: "catalog \<Rightarrow> column_default option \<Rightarrow> bool" where
  "default_ok c (Some (Default_ticket_number s)) = (s \<in> set (sequences c))"
| "default_ok c _ = True"

definition not_null :: "table \<Rightarrow> string \<Rightarrow> bool" where
  "not_null t n = (case map_of (columns t) n of None \<Rightarrow> False | Some col \<Rightarrow> \<not> col_nullable col)"

definition wf_key :: "table \<Rightarrow> key \<Rightarrow> bool" where
  "wf_key t k \<longleftrightarrow> set (key_columns k) \<subseteq> set (column_names t) \<and>
     (key_primary k \<longrightarrow> (\<forall>n \<in> set (key_columns k). not_null t n))"

definition wf_foreign_key :: "catalog \<Rightarrow> table \<Rightarrow> foreign_key \<Rightarrow> bool" where
  "wf_foreign_key c t fk \<longleftrightarrow> set (fk_columns fk) \<subseteq> set (column_names t) \<and>
     length (fk_columns fk) = length (fk_refs fk) \<and> references c (fk_table fk) (fk_refs fk)"

definition wf_table :: "catalog \<Rightarrow> table \<Rightarrow> bool" where
  "wf_table c t \<longleftrightarrow>
     distinct (column_names t) \<and> distinct (constraint_names t) \<and>
     (\<forall>(_, col) \<in> set (columns t). default_ok c (col_default col)) \<and>
     (\<forall>(_, k) \<in> set (keys t). wf_key t k) \<and>
     (\<forall>(_, fk) \<in> set (foreign_keys t). wf_foreign_key c t fk) \<and>
     (\<forall>(_, p) \<in> set (checks t). set (predicate_columns p) \<subseteq> set (column_names t)) \<and>
     (\<forall>(_, fn) \<in> set (triggers t). fn \<in> set (routines c)) \<and>
     (\<forall>(_, p) \<in> set (policies t). set (predicate_columns (pol_predicate p)) \<subseteq> set (column_names t)) \<and>
     set (partition_key t) \<subseteq> set (column_names t)"

definition index_columns :: "index \<Rightarrow> string list" where
  "index_columns ix = ix_columns ix @ (case ix_where ix of None \<Rightarrow> [] | Some p \<Rightarrow> predicate_columns p)"

definition has_columns :: "catalog \<Rightarrow> string \<Rightarrow> string list \<Rightarrow> bool" where
  "has_columns c n cols = (case map_of (tables c) n of
     None \<Rightarrow> False | Some t \<Rightarrow> set cols \<subseteq> set (column_names t))"

definition wf_index :: "catalog \<Rightarrow> index \<Rightarrow> bool" where
  "wf_index c ix \<longleftrightarrow> has_columns c (ix_table ix) (index_columns ix) \<and>
     (case ix_extension ix of None \<Rightarrow> True | Some e \<Rightarrow> e \<in> set (extensions c))"

definition wf_view :: "catalog \<Rightarrow> (string \<times> string) list \<Rightarrow> bool" where
  "wf_view c reads \<longleftrightarrow> (\<forall>(n, col) \<in> set reads. has_columns c n [col])"

definition wf_catalog :: "catalog \<Rightarrow> bool" where
  "wf_catalog c \<longleftrightarrow> distinct (relation_names c) \<and>
     (\<forall>(_, t) \<in> set (tables c). wf_table c t) \<and>
     (\<forall>(_, ix) \<in> set (indexes c). wf_index c ix) \<and>
     (\<forall>(_, reads) \<in> set (views c). wf_view c reads)"

section \<open>Statements\<close>

datatype ddl_error =
  Undefined_table | Undefined_column | Undefined_object | Duplicate_relation | Duplicate_object
| Invalid_definition | Dependent_objects | Not_null_violation | Check_violation | Foreign_key_violation

type_synonym 'a ddl_result = "ddl_error + 'a"

text \<open>What \<open>op.create_table\<close> lists after the name.\<close>

datatype table_item =
  Column string sql_type bool "column_default option"
| Primary_key "string list"
| Unique "string list"
| Foreign_key "string list" string "string list" on_delete
| Check string predicate
| Partition_by_range "string list"

definition default_name :: "string \<Rightarrow> string list \<Rightarrow> string \<Rightarrow> string" where
  "default_name n cols ending = n @ concat (map (\<lambda>col. ''_'' @ col) cols) @ ending"

fun add_item :: "catalog \<Rightarrow> string \<Rightarrow> table_item \<Rightarrow> table \<Rightarrow> table" where
  "add_item c n (Column name ty nullable dflt) t =
     t\<lparr>columns := columns t @ [(name, \<lparr>col_type = ty, col_nullable = nullable, col_default = dflt\<rparr>)]\<rparr>"
| "add_item c n (Primary_key cols) t =
     t\<lparr>keys := keys t @ [(choose_name (default_name n [] ''_pkey'') (relation_names c),
                          \<lparr>key_columns = cols, key_primary = True\<rparr>)]\<rparr>"
| "add_item c n (Unique cols) t =
     t\<lparr>keys := keys t @ [(choose_name (default_name n cols ''_key'') (relation_names c),
                          \<lparr>key_columns = cols, key_primary = False\<rparr>)]\<rparr>"
| "add_item c n (Foreign_key cols target refs act) t =
     t\<lparr>foreign_keys := foreign_keys t @ [(default_name n cols ''_fkey'',
        \<lparr>fk_columns = cols, fk_table = target, fk_refs = refs, fk_on_delete = act\<rparr>)]\<rparr>"
| "add_item c n (Check name p) t = t\<lparr>checks := checks t @ [(name, p)]\<rparr>"
| "add_item c n (Partition_by_range cols) t = t\<lparr>partition_key := cols\<rparr>"

definition build_table :: "catalog \<Rightarrow> string \<Rightarrow> table_item list \<Rightarrow> table" where
  "build_table c n items = fold (add_item c n) items empty_table"

definition change_table :: "string \<Rightarrow> (table \<Rightarrow> table) \<Rightarrow> catalog \<Rightarrow> catalog" where
  "change_table n g c = c\<lparr>tables := adjust n g (tables c)\<rparr>"

text \<open>\<open>on_table n k c\<close>: the statement \<open>k\<close> on the table \<open>n\<close>, which must exist.\<close>

definition on_table :: "string \<Rightarrow> (table \<Rightarrow> catalog ddl_result) \<Rightarrow> catalog \<Rightarrow> catalog ddl_result" where
  "on_table n k c = (case map_of (tables c) n of None \<Rightarrow> Inl Undefined_table | Some t \<Rightarrow> k t)"

definition create_table :: "string \<Rightarrow> table_item list \<Rightarrow> bool \<Rightarrow> catalog \<Rightarrow> catalog ddl_result" where
  "create_table n items if_not_exists c =
     (if n \<in> set (relation_names c) then (if if_not_exists then Inr c else Inl Duplicate_relation)
      else let t = build_table c n items; d = c\<lparr>tables := tables c @ [(n, t)]\<rparr> in
        if \<not> distinct (n # names (keys t)) \<or> (\<exists>k \<in> set (names (keys t)). k \<in> set (relation_names c))
        then Inl Duplicate_relation
        else if wf_table d t then Inr d else Inl Invalid_definition)"

text \<open>What \<open>DROP ... RESTRICT\<close>, the default, refuses to leave dangling.\<close>

definition table_in_use :: "catalog \<Rightarrow> string \<Rightarrow> bool" where
  "table_in_use c n \<longleftrightarrow>
     (\<exists>(m, t) \<in> set (tables c). m \<noteq> n \<and> (\<exists>(_, fk) \<in> set (foreign_keys t). fk_table fk = n)) \<or>
     (\<exists>(_, reads) \<in> set (views c). \<exists>(m, _) \<in> set reads. m = n)"

definition drop_table :: "string \<Rightarrow> bool \<Rightarrow> catalog \<Rightarrow> catalog ddl_result" where
  "drop_table n if_exists c =
     (if n \<in> set (names (tables c)) then
        if table_in_use c n then Inl Dependent_objects
        else Inr (c\<lparr>tables := without n (tables c), indexes := filter (\<lambda>(_, ix). ix_table ix \<noteq> n) (indexes c)\<rparr>)
      else if \<exists>(_, t) \<in> set (tables c). n \<in> set (partitions t) then
        Inr (c\<lparr>tables := map (\<lambda>(m, t). (m, t\<lparr>partitions := removeAll n (partitions t)\<rparr>)) (tables c)\<rparr>)
      else if if_exists then Inr c else Inl Undefined_table)"

definition create_partition :: "string \<Rightarrow> string \<Rightarrow> catalog \<Rightarrow> catalog ddl_result" where
  "create_partition n parent c =
     (if n \<in> set (relation_names c) then Inr c
      else on_table parent (\<lambda>t. if partition_key t = [] then Inl Invalid_definition
        else Inr (change_table parent (\<lambda>t. t\<lparr>partitions := partitions t @ [n]\<rparr>) c)) c)"

definition rename_in :: "string \<Rightarrow> string \<Rightarrow> string \<Rightarrow> string" where
  "rename_in old new n = (if n = old then new else n)"

definition rename_table :: "string \<Rightarrow> string \<Rightarrow> catalog \<Rightarrow> catalog ddl_result" where
  "rename_table old new c = on_table old (\<lambda>_. if new \<in> set (relation_names c) then Inl Duplicate_relation
     else Inr (c\<lparr>tables := map (\<lambda>(n, t). (rename_in old new n, t\<lparr>foreign_keys :=
                   map (\<lambda>(m, fk). (m, fk\<lparr>fk_table := rename_in old new (fk_table fk)\<rparr>)) (foreign_keys t)\<rparr>)) (tables c),
                 indexes := map (\<lambda>(n, ix). (n, ix\<lparr>ix_table := rename_in old new (ix_table ix)\<rparr>)) (indexes c),
                 views := map (\<lambda>(n, reads). (n, map (\<lambda>(t, col). (rename_in old new t, col)) reads)) (views c)\<rparr>)) c"

definition add_column :: "string \<Rightarrow> string \<Rightarrow> sql_type \<Rightarrow> bool \<Rightarrow> column_default option \<Rightarrow> catalog \<Rightarrow> catalog ddl_result" where
  "add_column n name ty nullable dflt c = on_table n (\<lambda>t.
     if name \<in> set (column_names t) then Inl Duplicate_object
     else if \<not> default_ok c dflt then Inl Undefined_object
     else Inr (change_table n (add_item c n (Column name ty nullable dflt)) c)) c"

definition column_in_use :: "catalog \<Rightarrow> string \<Rightarrow> string \<Rightarrow> bool" where
  "column_in_use c n name \<longleftrightarrow>
     (\<exists>(_, t) \<in> set (tables c). \<exists>(_, fk) \<in> set (foreign_keys t). fk_table fk = n \<and> name \<in> set (fk_refs fk)) \<or>
     (\<exists>(_, reads) \<in> set (views c). (n, name) \<in> set reads) \<or>
     (case map_of (tables c) n of None \<Rightarrow> False | Some t \<Rightarrow> name \<in> set (partition_key t) \<or>
        (\<exists>(_, p) \<in> set (policies t). name \<in> set (predicate_columns (pol_predicate p))))"

text \<open>Dropping a column drops the keys, foreign keys, checks and indexes it takes part in.\<close>

definition strip_column :: "string \<Rightarrow> table \<Rightarrow> table" where
  "strip_column name t = t\<lparr>columns := without name (columns t),
     keys := filter (\<lambda>(_, k). name \<notin> set (key_columns k)) (keys t),
     foreign_keys := filter (\<lambda>(_, fk). name \<notin> set (fk_columns fk)) (foreign_keys t),
     checks := filter (\<lambda>(_, p). name \<notin> set (predicate_columns p)) (checks t)\<rparr>"

definition drop_column :: "string \<Rightarrow> string \<Rightarrow> catalog \<Rightarrow> catalog ddl_result" where
  "drop_column n name c = on_table n (\<lambda>t.
     if name \<notin> set (column_names t) then Inl Undefined_column
     else if column_in_use c n name then Inl Dependent_objects
     else Inr ((change_table n (strip_column name) c)\<lparr>indexes :=
       filter (\<lambda>(_, ix). \<not> (ix_table ix = n \<and> name \<in> set (index_columns ix))) (indexes c)\<rparr>)) c"

definition set_default :: "string \<Rightarrow> string \<Rightarrow> column_default option \<Rightarrow> catalog \<Rightarrow> catalog ddl_result" where
  "set_default n name dflt c = on_table n (\<lambda>t.
     if name \<notin> set (column_names t) then Inl Undefined_column
     else if \<not> default_ok c dflt then Inl Undefined_object
     else Inr (change_table n (\<lambda>t. t\<lparr>columns := adjust name (\<lambda>col. col\<lparr>col_default := dflt\<rparr>) (columns t)\<rparr>) c)) c"

declare create_table_def [ddl_defs] drop_table_def [ddl_defs] create_partition_def [ddl_defs]
  rename_table_def [ddl_defs] add_column_def [ddl_defs] drop_column_def [ddl_defs] set_default_def [ddl_defs]
  on_table_def [ddl_defs] change_table_def [ddl_defs]

definition create_index ::
  "string \<Rightarrow> string \<Rightarrow> string list \<Rightarrow> predicate option \<Rightarrow> string option \<Rightarrow> bool \<Rightarrow> catalog \<Rightarrow> catalog ddl_result" where
  "create_index name n cols wh ext if_not_exists c =
     (if name \<in> set (relation_names c) then (if if_not_exists then Inr c else Inl Duplicate_relation)
      else let ix = \<lparr>ix_table = n, ix_columns = cols, ix_where = wh, ix_extension = ext, ix_valid = True\<rparr> in
        on_table n (\<lambda>t. if wf_index c ix then Inr (c\<lparr>indexes := indexes c @ [(name, ix)]\<rparr>)
          else Inl Invalid_definition) c)"

definition drop_index :: "string \<Rightarrow> bool \<Rightarrow> catalog \<Rightarrow> catalog ddl_result" where
  "drop_index name if_exists c =
     (if name \<in> set (names (indexes c)) then Inr (c\<lparr>indexes := without name (indexes c)\<rparr>)
      else if if_exists then Inr c else Inl Undefined_object)"

definition add_foreign_key ::
  "string \<Rightarrow> string \<Rightarrow> string \<Rightarrow> string list \<Rightarrow> string list \<Rightarrow> catalog \<Rightarrow> catalog ddl_result" where
  "add_foreign_key name n target cols refs c = on_table n (\<lambda>t.
     let fk = \<lparr>fk_columns = cols, fk_table = target, fk_refs = refs, fk_on_delete = No_action\<rparr> in
     if name \<in> set (constraint_names t) then Inl Duplicate_object
     else if \<not> wf_foreign_key c t fk then Inl Invalid_definition
     else Inr (change_table n (\<lambda>t. t\<lparr>foreign_keys := foreign_keys t @ [(name, fk)]\<rparr>) c)) c"

definition add_check :: "string \<Rightarrow> string \<Rightarrow> predicate \<Rightarrow> catalog \<Rightarrow> catalog ddl_result" where
  "add_check name n p c = on_table n (\<lambda>t.
     if name \<in> set (constraint_names t) then Inl Duplicate_object
     else if \<not> set (predicate_columns p) \<subseteq> set (column_names t) then Inl Undefined_column
     else Inr (change_table n (\<lambda>t. t\<lparr>checks := checks t @ [(name, p)]\<rparr>) c)) c"

text \<open>\<open>op.drop_constraint\<close> with \<open>type_="foreignkey"\<close> and \<open>type_="check"\<close>.\<close>

definition drop_foreign_key :: "string \<Rightarrow> string \<Rightarrow> catalog \<Rightarrow> catalog ddl_result" where
  "drop_foreign_key name n c = on_table n (\<lambda>t.
     if name \<in> set (names (foreign_keys t))
     then Inr (change_table n (\<lambda>t. t\<lparr>foreign_keys := without name (foreign_keys t)\<rparr>) c)
     else Inl Undefined_object) c"

definition drop_check :: "string \<Rightarrow> string \<Rightarrow> catalog \<Rightarrow> catalog ddl_result" where
  "drop_check name n c = on_table n (\<lambda>t.
     if name \<in> set (names (checks t))
     then Inr (change_table n (\<lambda>t. t\<lparr>checks := without name (checks t)\<rparr>) c)
     else Inl Undefined_object) c"

definition create_function :: "string \<Rightarrow> catalog \<Rightarrow> catalog ddl_result" where
  "create_function fn c = Inr (if fn \<in> set (routines c) then c else c\<lparr>routines := routines c @ [fn]\<rparr>)"

definition drop_function :: "string \<Rightarrow> catalog \<Rightarrow> catalog ddl_result" where
  "drop_function fn c =
     (if \<exists>(_, t) \<in> set (tables c). \<exists>(_, g) \<in> set (triggers t). g = fn then Inl Dependent_objects
      else Inr (c\<lparr>routines := removeAll fn (routines c)\<rparr>))"

definition create_trigger :: "string \<Rightarrow> string \<Rightarrow> string \<Rightarrow> catalog \<Rightarrow> catalog ddl_result" where
  "create_trigger name n fn c = on_table n (\<lambda>t.
     if fn \<notin> set (routines c) then Inl Undefined_object
     else if name \<in> set (names (triggers t)) then Inl Duplicate_object
     else Inr (change_table n (\<lambda>t. t\<lparr>triggers := triggers t @ [(name, fn)]\<rparr>) c)) c"

text \<open>With \<open>IF EXISTS\<close> a missing table is a notice as well.\<close>

definition drop_trigger :: "string \<Rightarrow> string \<Rightarrow> catalog \<Rightarrow> catalog ddl_result" where
  "drop_trigger name n c = Inr (change_table n (\<lambda>t. t\<lparr>triggers := without name (triggers t)\<rparr>) c)"

definition create_sequence :: "string \<Rightarrow> catalog \<Rightarrow> catalog ddl_result" where
  "create_sequence s c = Inr (if s \<in> set (relation_names c) then c else c\<lparr>sequences := sequences c @ [s]\<rparr>)"

definition drop_sequence :: "string \<Rightarrow> catalog \<Rightarrow> catalog ddl_result" where
  "drop_sequence s c =
     (if \<exists>(_, t) \<in> set (tables c). \<exists>(_, col) \<in> set (columns t). col_default col = Some (Default_ticket_number s)
      then Inl Dependent_objects
      else Inr (c\<lparr>sequences := removeAll s (sequences c)\<rparr>))"

definition create_extension :: "string \<Rightarrow> catalog \<Rightarrow> catalog ddl_result" where
  "create_extension e c = Inr (if e \<in> set (extensions c) then c else c\<lparr>extensions := extensions c @ [e]\<rparr>)"

definition drop_extension :: "string \<Rightarrow> catalog \<Rightarrow> catalog ddl_result" where
  "drop_extension e c =
     (if \<exists>(_, ix) \<in> set (indexes c). ix_extension ix = Some e then Inl Dependent_objects
      else Inr (c\<lparr>extensions := removeAll e (extensions c)\<rparr>))"

definition create_view :: "string \<Rightarrow> (string \<times> string) list \<Rightarrow> catalog \<Rightarrow> catalog ddl_result" where
  "create_view v reads c =
     (if \<not> wf_view c reads then Inl Invalid_definition
      else if v \<in> set (names (views c)) then Inr (c\<lparr>views := adjust v (\<lambda>_. reads) (views c)\<rparr>)
      else if v \<in> set (relation_names c) then Inl Duplicate_relation
      else Inr (c\<lparr>views := views c @ [(v, reads)]\<rparr>))"

definition drop_view :: "string \<Rightarrow> catalog \<Rightarrow> catalog ddl_result" where
  "drop_view v c = Inr (c\<lparr>views := without v (views c)\<rparr>)"

definition set_row_security :: "string \<Rightarrow> bool \<Rightarrow> catalog \<Rightarrow> catalog ddl_result" where
  "set_row_security n b c = on_table n (\<lambda>t. Inr (change_table n (\<lambda>t. t\<lparr>row_security := b\<rparr>) c)) c"

definition force_row_security :: "string \<Rightarrow> catalog \<Rightarrow> catalog ddl_result" where
  "force_row_security n c = on_table n (\<lambda>t. Inr (change_table n (\<lambda>t. t\<lparr>row_security_forced := True\<rparr>) c)) c"

definition create_policy :: "string \<Rightarrow> string \<Rightarrow> string \<Rightarrow> predicate \<Rightarrow> catalog \<Rightarrow> catalog ddl_result" where
  "create_policy name n cmd p c = on_table n (\<lambda>t.
     if name \<in> set (names (policies t)) then Inl Duplicate_object
     else if \<not> set (predicate_columns p) \<subseteq> set (column_names t) then Inl Undefined_column
     else Inr (change_table n (\<lambda>t. t\<lparr>policies := policies t @ [(name, \<lparr>pol_command = cmd, pol_predicate = p\<rparr>)]\<rparr>) c)) c"

definition drop_policy :: "string \<Rightarrow> string \<Rightarrow> catalog \<Rightarrow> catalog ddl_result" where
  "drop_policy name n c = Inr (change_table n (\<lambda>t. t\<lparr>policies := without name (policies t)\<rparr>) c)"

declare create_index_def [ddl_defs] drop_index_def [ddl_defs] add_foreign_key_def [ddl_defs] add_check_def [ddl_defs]
  drop_foreign_key_def [ddl_defs] drop_check_def [ddl_defs] create_function_def [ddl_defs] drop_function_def [ddl_defs]
  create_trigger_def [ddl_defs] drop_trigger_def [ddl_defs] create_sequence_def [ddl_defs] drop_sequence_def [ddl_defs]
  create_extension_def [ddl_defs] drop_extension_def [ddl_defs] create_view_def [ddl_defs] drop_view_def [ddl_defs]
  set_row_security_def [ddl_defs] force_row_security_def [ddl_defs] create_policy_def [ddl_defs] drop_policy_def [ddl_defs]

section \<open>The statements as data\<close>

text \<open>Rows, for the statements that write data: a column without a value is \<open>NULL\<close>.\<close>

datatype sql_value = Text_value string | Bool_value bool | Time_value datetime

type_synonym row = "string \<Rightarrow> sql_value option"

type_synonym store = "string \<Rightarrow> row list"

datatype statement =
  Create_table string "table_item list" bool
| Drop_table string bool
| Create_partition string string
| Rename_table string string
| Add_column string string sql_type bool "column_default option"
| Drop_column string string
| Set_default string string "column_default option"
| Create_index string string "string list" "predicate option" "string option" bool bool
    \<comment> \<open>the last two: \<open>postgresql_concurrently\<close> and \<open>if_not_exists\<close>\<close>
| Drop_index string bool
| Add_foreign_key string string string "string list" "string list"
| Add_check string string predicate
| Drop_foreign_key string string
| Drop_check string string
| Create_function string
| Drop_function string
| Create_trigger string string string
| Drop_trigger string string
| Create_sequence string
| Drop_sequence string
| Create_extension string
| Drop_extension string
| Create_view string "(string \<times> string) list"
| Drop_view string
| Set_row_security string bool
| Force_row_security string
| Create_policy string string string predicate
| Drop_policy string string
| Insert string "string list" "store \<Rightarrow> row list"
    \<comment> \<open>\<open>INSERT INTO\<close> table ... \<open>ON CONFLICT\<close> (columns) \<open>DO NOTHING\<close>\<close>

fun effect :: "statement \<Rightarrow> catalog \<Rightarrow> catalog ddl_result" where
  "effect (Create_table n items ine) = create_table n items ine"
| "effect (Drop_table n ie) = drop_table n ie"
| "effect (Create_partition n parent) = create_partition n parent"
| "effect (Rename_table old new) = rename_table old new"
| "effect (Add_column n name ty nullable dflt) = add_column n name ty nullable dflt"
| "effect (Drop_column n name) = drop_column n name"
| "effect (Set_default n name dflt) = set_default n name dflt"
| "effect (Create_index name n cols wh ext concurrently ine) = create_index name n cols wh ext ine"
| "effect (Drop_index name ie) = drop_index name ie"
| "effect (Add_foreign_key name n target cols refs) = add_foreign_key name n target cols refs"
| "effect (Add_check name n p) = add_check name n p"
| "effect (Drop_foreign_key name n) = drop_foreign_key name n"
| "effect (Drop_check name n) = drop_check name n"
| "effect (Create_function fn) = create_function fn"
| "effect (Drop_function fn) = drop_function fn"
| "effect (Create_trigger name n fn) = create_trigger name n fn"
| "effect (Drop_trigger name n) = drop_trigger name n"
| "effect (Create_sequence s) = create_sequence s"
| "effect (Drop_sequence s) = drop_sequence s"
| "effect (Create_extension e) = create_extension e"
| "effect (Drop_extension e) = drop_extension e"
| "effect (Create_view v reads) = create_view v reads"
| "effect (Drop_view v) = drop_view v"
| "effect (Set_row_security n b) = set_row_security n b"
| "effect (Force_row_security n) = force_row_security n"
| "effect (Create_policy name n cmd p) = create_policy name n cmd p"
| "effect (Drop_policy name n) = drop_policy name n"
| "effect (Insert n cols src) = (\<lambda>c. on_table n (\<lambda>_. Inr c) c)"

end
