(* ===== verification/Migrations.thy ===== *)
theory Migrations
  imports Schema
begin

text \<open>
  The Alembic history of \<open>src/migrations\<close>: every revision's \<open>upgrade\<close> and \<open>downgrade\<close>, statement for statement,
  with the guards that ask the inspector (\<open>sa.inspect(bind)\<close>) or \<open>pg_policies\<close>. Running a migration on a
  catalogue gives an error, or the catalogue it leaves together with the events of the run: the statements
  executed (with the catalogue before and after), the guarded statements skipped, the version stamps, and the
  points at which the transaction is committed. \<open>autocommit_block\<close> commits what came before it, and then each
  of its statements. Alembic stamps the version after each revision; \<open>env.py\<close> runs all pending revisions in
  one transaction.
\<close>

named_theorems migration_defs \<open>the revisions and the combinators they use\<close>

section \<open>Running a migration\<close>

datatype event = Ran statement catalog catalog | Skipped | Stamped "string option" | Committed

type_synonym migration = "catalog \<Rightarrow> (event list \<times> catalog) ddl_result"

definition exec :: "statement \<Rightarrow> migration" where
  "exec s c = (case effect s c of Inl e \<Rightarrow> Inl e | Inr d \<Rightarrow> Inr ([Ran s c d], d))"

fun steps :: "migration list \<Rightarrow> migration" where
  "steps [] c = Inr ([], c)"
| "steps (m # ms) c = (case m c of Inl e \<Rightarrow> Inl e | Inr (es, d) \<Rightarrow>
     (case steps ms d of Inl e \<Rightarrow> Inl e | Inr (fs, d') \<Rightarrow> Inr (es @ fs, d')))"

definition only_if :: "bool \<Rightarrow> migration \<Rightarrow> migration" where
  "only_if b m c = (if b then m c else Inr ([Skipped], c))"

text \<open>The inspector raises on a table that does not exist.\<close>

definition inspect_table :: "string \<Rightarrow> (table \<Rightarrow> string list) \<Rightarrow> (string list \<Rightarrow> migration list) \<Rightarrow> migration" where
  "inspect_table n what k c = (case map_of (tables c) n of
     None \<Rightarrow> Inl Undefined_table | Some t \<Rightarrow> steps (k (what t)) c)"

abbreviation "get_columns n \<equiv> inspect_table n column_names"
abbreviation "get_foreign_keys n \<equiv> inspect_table n (\<lambda>t. map fst (foreign_keys t))"
abbreviation "get_check_constraints n \<equiv> inspect_table n (\<lambda>t. map fst (checks t))"

text \<open>\<open>SELECT policyname FROM pg_policies WHERE tablename = ...\<close>\<close>

definition select_policies :: "string \<Rightarrow> (string list \<Rightarrow> migration list) \<Rightarrow> migration" where
  "select_policies n k c = steps (k (case map_of (tables c) n of None \<Rightarrow> [] | Some t \<Rightarrow> map fst (policies t))) c"

definition mark :: "event \<Rightarrow> migration" where
  "mark e c = Inr ([e], c)"

definition autocommit_block :: "statement list \<Rightarrow> migration" where
  "autocommit_block ss = steps (mark Committed # concat (map (\<lambda>s. [exec s, mark Committed]) ss))"

declare exec_def [migration_defs] steps.simps [migration_defs] only_if_def [migration_defs]
  inspect_table_def [migration_defs] select_policies_def [migration_defs] mark_def [migration_defs]
  autocommit_block_def [migration_defs]

abbreviation "required n ty \<equiv> Column n ty False None"
abbreviation "optional n ty \<equiv> Column n ty True None"
abbreviation "defaulted n ty d \<equiv> Column n ty False (Some d)"
abbreviation "belongs_to_user \<equiv> Foreign_key [''user_id''] ''users'' [''id''] Cascade"

section \<open>\<open>ff01f548bc2b\<close>: users\<close>

definition upgrade_ff01f548bc2b :: migration where
  "upgrade_ff01f548bc2b = steps [
     exec (Create_table ''users'' [
       required ''id'' Uuid, required ''email'' (Varchar 320), required ''hashed_password'' (Varchar 255),
       required ''status'' (Varchar 32), defaulted ''created_at'' Timestamptz Default_now,
       Primary_key [''id''], Unique [''email'']] True)]"

definition downgrade_ff01f548bc2b :: migration where
  "downgrade_ff01f548bc2b = steps [exec (Drop_table ''users'' True)]"

section \<open>\<open>430aa1b298fb\<close>: e-mail verification\<close>

text \<open>Every single-use token of the portal has a table of this shape.\<close>

abbreviation token_table :: "table_item list" where
  "token_table \<equiv> [
     required ''id'' Uuid, required ''user_id'' Uuid, required ''token_hash'' (Varchar 64),
     defaulted ''issued_at'' Timestamptz Default_now, required ''expires_at'' Timestamptz,
     optional ''consumed_at'' Timestamptz,
     belongs_to_user, Primary_key [''id''], Unique [''token_hash'']]"

definition upgrade_430aa1b298fb :: migration where
  "upgrade_430aa1b298fb = steps [
     exec (Create_table ''audit_log'' [
       required ''id'' Uuid, required ''event'' (Varchar 64), optional ''subject_user_id'' Uuid,
       required ''detail'' Text_type, defaulted ''occurred_at'' Timestamptz Default_now,
       Primary_key [''id'']] True),
     exec (Create_table ''email_verification_tokens'' token_table True),
     exec (Create_index ''ix_email_verification_tokens_user_id'' ''email_verification_tokens'' [''user_id'']
       None None False True),
     get_columns ''users'' (\<lambda>columns. [
       only_if (''email_verified'' \<notin> set columns)
         (exec (Add_column ''users'' ''email_verified'' Boolean_type False (Some Default_false)))])]"

definition downgrade_430aa1b298fb :: migration where
  "downgrade_430aa1b298fb = steps [
     get_columns ''users'' (\<lambda>columns. [
       only_if (''email_verified'' \<in> set columns) (exec (Drop_column ''users'' ''email_verified''))]),
     exec (Drop_index ''ix_email_verification_tokens_user_id'' True),
     exec (Drop_table ''email_verification_tokens'' True),
     exec (Drop_table ''audit_log'' True)]"

section \<open>\<open>2c77dd65027b\<close>: profile and authentication\<close>

definition upgrade_2c77dd65027b :: migration where
  "upgrade_2c77dd65027b = steps [
     exec (Create_table ''profile_audit_log'' [
       required ''id'' Uuid, required ''actor_id'' Uuid, required ''field'' (Varchar 64),
       optional ''old_value'' Text_type, optional ''new_value'' Text_type, required ''request_id'' (Varchar 64),
       defaulted ''timestamp'' Timestamptz Default_now, Primary_key [''id'']] True),
     exec (Create_table ''email_change_tokens'' token_table True),
     exec (Create_index ''ix_email_change_tokens_user_id'' ''email_change_tokens'' [''user_id''] None None False True),
     exec (Create_table ''user_sessions'' [
       required ''jti'' Uuid, required ''user_id'' Uuid, defaulted ''issued_at'' Timestamptz Default_now,
       required ''expires_at'' Timestamptz, optional ''revoked_at'' Timestamptz,
       belongs_to_user, Primary_key [''jti'']] True),
     exec (Create_index ''ix_user_sessions_user_id'' ''user_sessions'' [''user_id''] None None False True),
     get_columns ''users'' (\<lambda>columns. [
       only_if (''display_name'' \<notin> set columns)
         (exec (Add_column ''users'' ''display_name'' (Varchar 255) True None)),
       only_if (''locale'' \<notin> set columns) (exec (Add_column ''users'' ''locale'' (Varchar 35) True None)),
       only_if (''timezone'' \<notin> set columns) (exec (Add_column ''users'' ''timezone'' (Varchar 64) True None)),
       only_if (''avatar_url'' \<notin> set columns) (exec (Add_column ''users'' ''avatar_url'' (Varchar 2048) True None)),
       only_if (''pending_email'' \<notin> set columns)
         (exec (Add_column ''users'' ''pending_email'' (Varchar 320) True None))]),
     exec (Create_function ''profile_audit_log_deny_mutation''),
     exec (Drop_trigger ''profile_audit_log_no_update_delete'' ''profile_audit_log''),
     exec (Create_trigger ''profile_audit_log_no_update_delete'' ''profile_audit_log''
       ''profile_audit_log_deny_mutation'')]"

definition downgrade_2c77dd65027b :: migration where
  "downgrade_2c77dd65027b = steps [
     exec (Drop_trigger ''profile_audit_log_no_update_delete'' ''profile_audit_log''),
     exec (Drop_function ''profile_audit_log_deny_mutation''),
     get_columns ''users'' (\<lambda>columns. [
       only_if (''pending_email'' \<in> set columns) (exec (Drop_column ''users'' ''pending_email'')),
       only_if (''avatar_url'' \<in> set columns) (exec (Drop_column ''users'' ''avatar_url'')),
       only_if (''timezone'' \<in> set columns) (exec (Drop_column ''users'' ''timezone'')),
       only_if (''locale'' \<in> set columns) (exec (Drop_column ''users'' ''locale'')),
       only_if (''display_name'' \<in> set columns) (exec (Drop_column ''users'' ''display_name''))]),
     exec (Drop_index ''ix_user_sessions_user_id'' True),
     exec (Drop_table ''user_sessions'' True),
     exec (Drop_index ''ix_email_change_tokens_user_id'' True),
     exec (Drop_table ''email_change_tokens'' True),
     exec (Drop_table ''profile_audit_log'' True)]"

section \<open>\<open>7e371ad49a0a\<close>: account deactivation\<close>

definition upgrade_7e371ad49a0a :: migration where
  "upgrade_7e371ad49a0a = steps [
     exec (Create_table ''account_lifecycle_audit_log'' [
       required ''id'' Uuid, required ''user_id'' Uuid, required ''event'' (Varchar 32), required ''actor'' (Varchar 64),
       defaulted ''occurred_at'' Timestamptz Default_now, Primary_key [''id'']] True),
     exec (Create_index ''ix_account_lifecycle_audit_log_user_id'' ''account_lifecycle_audit_log'' [''user_id'']
       None None False True),
     get_columns ''users'' (\<lambda>columns. [
       only_if (''deactivated_at'' \<notin> set columns)
         (exec (Add_column ''users'' ''deactivated_at'' Timestamptz True None))])]"

definition downgrade_7e371ad49a0a :: migration where
  "downgrade_7e371ad49a0a = steps [
     get_columns ''users'' (\<lambda>columns. [
       only_if (''deactivated_at'' \<in> set columns) (exec (Drop_column ''users'' ''deactivated_at''))]),
     exec (Drop_index ''ix_account_lifecycle_audit_log_user_id'' True),
     exec (Drop_table ''account_lifecycle_audit_log'' True)]"

section \<open>\<open>1cdc08e88be9\<close>: login audit and refresh tokens\<close>

definition upgrade_1cdc08e88be9 :: migration where
  "upgrade_1cdc08e88be9 = steps [
     exec (Create_table ''auth_audit_log'' [
       required ''id'' Uuid, required ''event'' (Varchar 32), optional ''reason'' (Varchar 32),
       optional ''actor_id'' Uuid, required ''ip'' (Varchar 45), optional ''user_agent'' Text_type,
       required ''request_id'' (Varchar 64), defaulted ''occurred_at'' Timestamptz Default_now,
       Primary_key [''id'']] True),
     exec (Create_index ''ix_auth_audit_log_actor_id'' ''auth_audit_log'' [''actor_id''] None None False True),
     exec (Create_table ''refresh_tokens'' [
       required ''id'' Uuid, required ''token_hash'' (Varchar 64), required ''family_id'' Uuid, required ''user_id'' Uuid,
       defaulted ''issued_at'' Timestamptz Default_now, required ''expires_at'' Timestamptz,
       belongs_to_user, Primary_key [''id''], Unique [''token_hash'']] True),
     exec (Create_index ''ix_refresh_tokens_user_id'' ''refresh_tokens'' [''user_id''] None None False True),
     get_columns ''users'' (\<lambda>columns. [
       only_if (''last_login_at'' \<notin> set columns)
         (exec (Add_column ''users'' ''last_login_at'' Timestamptz True None))])]"

definition downgrade_1cdc08e88be9 :: migration where
  "downgrade_1cdc08e88be9 = steps [
     get_columns ''users'' (\<lambda>columns. [
       only_if (''last_login_at'' \<in> set columns) (exec (Drop_column ''users'' ''last_login_at''))]),
     exec (Drop_index ''ix_refresh_tokens_user_id'' True),
     exec (Drop_table ''refresh_tokens'' True),
     exec (Drop_index ''ix_auth_audit_log_actor_id'' True),
     exec (Drop_table ''auth_audit_log'' True)]"

section \<open>\<open>9f9d9263bdfc\<close>: logout and revocation\<close>

definition upgrade_9f9d9263bdfc :: migration where
  "upgrade_9f9d9263bdfc = steps [
     get_columns ''auth_audit_log'' (\<lambda>columns. [
       only_if (''scope'' \<notin> set columns) (exec (Add_column ''auth_audit_log'' ''scope'' (Varchar 32) True None))]),
     get_columns ''refresh_tokens'' (\<lambda>columns. [
       only_if (''revoked_at'' \<notin> set columns)
         (exec (Add_column ''refresh_tokens'' ''revoked_at'' Timestamptz True None))]),
     exec (Create_index ''ix_refresh_tokens_family_id'' ''refresh_tokens'' [''family_id''] None None False True)]"

definition downgrade_9f9d9263bdfc :: migration where
  "downgrade_9f9d9263bdfc = steps [
     exec (Drop_index ''ix_refresh_tokens_family_id'' True),
     get_columns ''refresh_tokens'' (\<lambda>columns. [
       only_if (''revoked_at'' \<in> set columns) (exec (Drop_column ''refresh_tokens'' ''revoked_at''))]),
     get_columns ''auth_audit_log'' (\<lambda>columns. [
       only_if (''scope'' \<in> set columns) (exec (Drop_column ''auth_audit_log'' ''scope''))])]"

section \<open>\<open>c8eeaa6b5ff6\<close>: refresh rotation\<close>

definition upgrade_c8eeaa6b5ff6 :: migration where
  "upgrade_c8eeaa6b5ff6 = steps [
     get_columns ''auth_audit_log'' (\<lambda>columns. [
       only_if (''severity'' \<notin> set columns) (exec (Add_column ''auth_audit_log'' ''severity'' (Varchar 16) True None))]),
     get_columns ''refresh_tokens'' (\<lambda>columns. [
       only_if (''consumed_at'' \<notin> set columns)
         (exec (Add_column ''refresh_tokens'' ''consumed_at'' Timestamptz True None)),
       only_if (''last_used_at'' \<notin> set columns)
         (exec (Add_column ''refresh_tokens'' ''last_used_at'' Timestamptz True None)),
       only_if (''ip'' \<notin> set columns) (exec (Add_column ''refresh_tokens'' ''ip'' (Varchar 45) True None)),
       only_if (''user_agent'' \<notin> set columns)
         (exec (Add_column ''refresh_tokens'' ''user_agent'' Text_type True None))])]"

definition downgrade_c8eeaa6b5ff6 :: migration where
  "downgrade_c8eeaa6b5ff6 = steps [
     get_columns ''refresh_tokens'' (\<lambda>columns. [
       only_if (''user_agent'' \<in> set columns) (exec (Drop_column ''refresh_tokens'' ''user_agent'')),
       only_if (''ip'' \<in> set columns) (exec (Drop_column ''refresh_tokens'' ''ip'')),
       only_if (''last_used_at'' \<in> set columns) (exec (Drop_column ''refresh_tokens'' ''last_used_at'')),
       only_if (''consumed_at'' \<in> set columns) (exec (Drop_column ''refresh_tokens'' ''consumed_at''))]),
     get_columns ''auth_audit_log'' (\<lambda>columns. [
       only_if (''severity'' \<in> set columns) (exec (Drop_column ''auth_audit_log'' ''severity''))])]"

section \<open>\<open>9a4776e19934\<close>: password reset\<close>

definition upgrade_9a4776e19934 :: migration where
  "upgrade_9a4776e19934 = steps [
     exec (Create_table ''password_reset_tokens'' token_table True),
     exec (Create_index ''ix_password_reset_tokens_user_id'' ''password_reset_tokens'' [''user_id''] None None False True)]"

definition downgrade_9a4776e19934 :: migration where
  "downgrade_9a4776e19934 = steps [
     exec (Drop_index ''ix_password_reset_tokens_user_id'' True),
     exec (Drop_table ''password_reset_tokens'' True)]"

section \<open>\<open>e50fbe8161fc\<close>: roles and permissions\<close>

definition seed_roles :: "store \<Rightarrow> row list" where
  "seed_roles s = map (\<lambda>(i, n). [''id'' \<mapsto> Text_value i, ''name'' \<mapsto> Text_value n]) [
     (''11111111-1111-1111-1111-111111111111'', ''customer''),
     (''22222222-2222-2222-2222-222222222222'', ''support_agent''),
     (''33333333-3333-3333-3333-333333333333'', ''admin''),
     (''44444444-4444-4444-4444-444444444444'', ''auditor'')]"

definition seed_permissions :: "store \<Rightarrow> row list" where
  "seed_permissions s = map (\<lambda>(i, sc). [''id'' \<mapsto> Text_value i, ''scope'' \<mapsto> Text_value sc]) [
     (''a1111111-1111-1111-1111-111111111111'', ''users:read''),
     (''a2222222-2222-2222-2222-222222222222'', ''users:write''),
     (''a3333333-3333-3333-3333-333333333333'', ''roles:write''),
     (''a4444444-4444-4444-4444-444444444444'', ''audit:read''),
     (''a5555555-5555-5555-5555-555555555555'', ''tickets:read''),
     (''a6666666-6666-6666-6666-666666666666'', ''tickets:write'')]"

text \<open>The \<open>WHERE\<close> clause of the third seed statement, over the cross product of roles and permissions.\<close>

definition seed_grants :: "row \<Rightarrow> row \<Rightarrow> bool" where
  "seed_grants r p \<longleftrightarrow>
     (r ''name'' = Some (Text_value ''support_agent'') \<and>
        p ''scope'' \<in> {Some (Text_value ''tickets:read''), Some (Text_value ''tickets:write'')}) \<or>
     (r ''name'' = Some (Text_value ''auditor'') \<and> p ''scope'' = Some (Text_value ''audit:read'')) \<or>
     r ''name'' = Some (Text_value ''admin'')"

definition seed_role_permissions :: "store \<Rightarrow> row list" where
  "seed_role_permissions s = concat (map (\<lambda>r.
     map (\<lambda>p. (\<lambda>_. None)(''role_id'' := r ''id'', ''permission_id'' := p ''id''))
       (filter (seed_grants r) (s ''permissions''))) (s ''roles''))"

definition upgrade_e50fbe8161fc :: migration where
  "upgrade_e50fbe8161fc = steps [
     exec (Create_table ''permissions'' [
       required ''id'' Uuid, required ''scope'' (Varchar 32), Primary_key [''id''], Unique [''scope'']] True),
     exec (Create_table ''roles'' [
       required ''id'' Uuid, required ''name'' (Varchar 32), Primary_key [''id''], Unique [''name'']] True),
     exec (Create_table ''role_permissions'' [
       required ''role_id'' Uuid, required ''permission_id'' Uuid,
       Foreign_key [''permission_id''] ''permissions'' [''id''] Cascade,
       Foreign_key [''role_id''] ''roles'' [''id''] Cascade,
       Primary_key [''role_id'', ''permission_id'']] True),
     exec (Create_table ''user_roles'' [
       required ''user_id'' Uuid, required ''role_id'' Uuid,
       Foreign_key [''role_id''] ''roles'' [''id''] Cascade,
       belongs_to_user,
       Primary_key [''user_id'', ''role_id'']] True),
     exec (Create_index ''ix_user_roles_role_id'' ''user_roles'' [''role_id''] None None False True),
     exec (Insert ''roles'' [''name''] seed_roles),
     exec (Insert ''permissions'' [''scope''] seed_permissions),
     exec (Insert ''role_permissions'' [''role_id'', ''permission_id''] seed_role_permissions)]"

definition downgrade_e50fbe8161fc :: migration where
  "downgrade_e50fbe8161fc = steps [
     exec (Drop_index ''ix_user_roles_role_id'' True),
     exec (Drop_table ''user_roles'' True),
     exec (Drop_table ''role_permissions'' True),
     exec (Drop_table ''roles'' True),
     exec (Drop_table ''permissions'' True)]"

section \<open>\<open>d7585b660cd7\<close>: administrative audit\<close>

definition upgrade_d7585b660cd7 :: migration where
  "upgrade_d7585b660cd7 = steps [
     exec (Create_table ''admin_audit_log'' [
       required ''id'' Uuid, required ''event'' (Varchar 32), optional ''actor_id'' Uuid, optional ''target_id'' Uuid,
       optional ''old_roles'' (Varchar_array 32), optional ''new_roles'' (Varchar_array 32),
       optional ''severity'' (Varchar 16), required ''request_id'' (Varchar 64),
       defaulted ''occurred_at'' Timestamptz Default_now, Primary_key [''id'']] True),
     exec (Create_index ''ix_admin_audit_log_actor_id'' ''admin_audit_log'' [''actor_id''] None None False True),
     exec (Create_index ''ix_admin_audit_log_target_id'' ''admin_audit_log'' [''target_id''] None None False True)]"

definition downgrade_d7585b660cd7 :: migration where
  "downgrade_d7585b660cd7 = steps [
     exec (Drop_index ''ix_admin_audit_log_target_id'' True),
     exec (Drop_index ''ix_admin_audit_log_actor_id'' True),
     exec (Drop_table ''admin_audit_log'' True)]"

section \<open>\<open>cef55228a927\<close>: second factor\<close>

definition upgrade_cef55228a927 :: migration where
  "upgrade_cef55228a927 = steps [
     exec (Create_table ''mfa_recovery_codes'' [
       required ''id'' Uuid, required ''user_id'' Uuid, required ''code_hash'' (Varchar 255),
       defaulted ''created_at'' Timestamptz Default_now, optional ''consumed_at'' Timestamptz,
       belongs_to_user, Primary_key [''id'']] True),
     exec (Create_index ''ix_mfa_recovery_codes_user_id'' ''mfa_recovery_codes'' [''user_id''] None None False True),
     get_columns ''user_roles'' (\<lambda>columns. [
       only_if (''granted_at'' \<notin> set columns)
         (exec (Add_column ''user_roles'' ''granted_at'' Timestamptz False (Some Default_now)))]),
     get_columns ''users'' (\<lambda>columns. [
       only_if (''mfa_enabled'' \<notin> set columns)
         (exec (Add_column ''users'' ''mfa_enabled'' Boolean_type False (Some Default_false))),
       only_if (''mfa_secret_encrypted'' \<notin> set columns)
         (exec (Add_column ''users'' ''mfa_secret_encrypted'' Bytea True None)),
       only_if (''mfa_activated_at'' \<notin> set columns)
         (exec (Add_column ''users'' ''mfa_activated_at'' Timestamptz True None)),
       only_if (''mfa_reenrollment_required'' \<notin> set columns)
         (exec (Add_column ''users'' ''mfa_reenrollment_required'' Boolean_type False (Some Default_false)))])]"

definition downgrade_cef55228a927 :: migration where
  "downgrade_cef55228a927 = steps [
     get_columns ''users'' (\<lambda>columns. [
       only_if (''mfa_reenrollment_required'' \<in> set columns)
         (exec (Drop_column ''users'' ''mfa_reenrollment_required'')),
       only_if (''mfa_activated_at'' \<in> set columns) (exec (Drop_column ''users'' ''mfa_activated_at'')),
       only_if (''mfa_secret_encrypted'' \<in> set columns) (exec (Drop_column ''users'' ''mfa_secret_encrypted'')),
       only_if (''mfa_enabled'' \<in> set columns) (exec (Drop_column ''users'' ''mfa_enabled''))]),
     get_columns ''user_roles'' (\<lambda>columns. [
       only_if (''granted_at'' \<in> set columns) (exec (Drop_column ''user_roles'' ''granted_at''))]),
     exec (Drop_index ''ix_mfa_recovery_codes_user_id'' True),
     exec (Drop_table ''mfa_recovery_codes'' True)]"

section \<open>\<open>5dccea7a3749\<close> and \<open>db8cbd5e3697\<close>: session management\<close>

definition upgrade_5dccea7a3749 :: migration where
  "upgrade_5dccea7a3749 = steps [
     get_columns ''auth_audit_log'' (\<lambda>columns. [
       only_if (''target_family'' \<notin> set columns)
         (exec (Add_column ''auth_audit_log'' ''target_family'' Uuid True None))])]"

definition downgrade_5dccea7a3749 :: migration where
  "downgrade_5dccea7a3749 = steps [
     get_columns ''auth_audit_log'' (\<lambda>columns. [
       only_if (''target_family'' \<in> set columns) (exec (Drop_column ''auth_audit_log'' ''target_family''))])]"

definition upgrade_db8cbd5e3697 :: migration where
  "upgrade_db8cbd5e3697 = steps [autocommit_block [
     Create_index ''ix_refresh_tokens_user_id_family_id_issued_at'' ''refresh_tokens''
       [''user_id'', ''family_id'', ''issued_at''] None None True True]]"

definition downgrade_db8cbd5e3697 :: migration where
  "downgrade_db8cbd5e3697 = steps [autocommit_block [
     Drop_index ''ix_refresh_tokens_user_id_family_id_issued_at'' True]]"

section \<open>\<open>a5edc35c8e96\<close>: invitations\<close>

definition upgrade_a5edc35c8e96 :: migration where
  "upgrade_a5edc35c8e96 = steps [
     exec (Create_table ''invitation_tokens'' token_table True),
     exec (Create_index ''ix_invitation_tokens_user_id'' ''invitation_tokens'' [''user_id''] None None False True),
     exec (Create_index ''ix_users_status_created_at'' ''users'' [''status'', ''created_at''] None None False True),
     get_columns ''account_lifecycle_audit_log'' (\<lambda>columns. [
       only_if (''reason'' \<notin> set columns)
         (exec (Add_column ''account_lifecycle_audit_log'' ''reason'' Text_type True None))]),
     get_columns ''admin_audit_log'' (\<lambda>columns. [
       only_if (''field'' \<notin> set columns) (exec (Add_column ''admin_audit_log'' ''field'' (Varchar 64) True None)),
       only_if (''old_value'' \<notin> set columns) (exec (Add_column ''admin_audit_log'' ''old_value'' Text_type True None)),
       only_if (''new_value'' \<notin> set columns) (exec (Add_column ''admin_audit_log'' ''new_value'' Text_type True None)),
       only_if (''reason'' \<notin> set columns) (exec (Add_column ''admin_audit_log'' ''reason'' Text_type True None))])]"

definition downgrade_a5edc35c8e96 :: migration where
  "downgrade_a5edc35c8e96 = steps [
     exec (Drop_index ''ix_users_status_created_at'' True),
     get_columns ''admin_audit_log'' (\<lambda>columns. [
       only_if (''reason'' \<in> set columns) (exec (Drop_column ''admin_audit_log'' ''reason'')),
       only_if (''new_value'' \<in> set columns) (exec (Drop_column ''admin_audit_log'' ''new_value'')),
       only_if (''old_value'' \<in> set columns) (exec (Drop_column ''admin_audit_log'' ''old_value'')),
       only_if (''field'' \<in> set columns) (exec (Drop_column ''admin_audit_log'' ''field''))]),
     get_columns ''account_lifecycle_audit_log'' (\<lambda>columns. [
       only_if (''reason'' \<in> set columns) (exec (Drop_column ''account_lifecycle_audit_log'' ''reason''))]),
     exec (Drop_index ''ix_invitation_tokens_user_id'' True),
     exec (Drop_table ''invitation_tokens'' True)]"

section \<open>\<open>1b2b1d52dd71\<close>: trigram indexes for the user search\<close>

definition upgrade_1b2b1d52dd71 :: migration where
  "upgrade_1b2b1d52dd71 = steps [
     exec (Create_extension ''pg_trgm''),
     autocommit_block [
       Create_index ''ix_users_email_trgm'' ''users'' [''email''] None (Some ''pg_trgm'') True True,
       Create_index ''ix_users_display_name_trgm'' ''users'' [''display_name''] None (Some ''pg_trgm'') True True]]"

definition downgrade_1b2b1d52dd71 :: migration where
  "downgrade_1b2b1d52dd71 = steps [
     autocommit_block [
       Drop_index ''ix_users_display_name_trgm'' True,
       Drop_index ''ix_users_email_trgm'' True],
     exec (Drop_extension ''pg_trgm'')]"

section \<open>\<open>81fe406156fa\<close>: the purge log makes room for the audit log\<close>

definition upgrade_81fe406156fa :: migration where
  "upgrade_81fe406156fa = steps [exec (Rename_table ''audit_log'' ''unverified_account_purge_log'')]"

definition downgrade_81fe406156fa :: migration where
  "downgrade_81fe406156fa = steps [exec (Rename_table ''unverified_account_purge_log'' ''audit_log'')]"

section \<open>\<open>57a978462b74\<close>: the audit log, its hash chain and the history view\<close>

definition history_view_reads :: "(string \<times> string) list" where
  "history_view_reads =
     map (Pair ''audit_log'') [''id'', ''occurred_at'', ''category'', ''actor_id'', ''actor_role'', ''event'', ''target_id'',
       ''outcome'', ''request_id'', ''ip'', ''user_agent'', ''payload'', ''previous_hash'', ''row_hash''] @
     map (Pair ''auth_audit_log'') [''id'', ''occurred_at'', ''actor_id'', ''event'', ''request_id'', ''ip'', ''user_agent''] @
     map (Pair ''admin_audit_log'') [''id'', ''occurred_at'', ''actor_id'', ''event'', ''target_id'', ''request_id''] @
     map (Pair ''profile_audit_log'') [''id'', ''timestamp'', ''actor_id'', ''request_id''] @
     map (Pair ''account_lifecycle_audit_log'') [''id'', ''occurred_at'', ''event'', ''user_id'']"

definition upgrade_57a978462b74 :: migration where
  "upgrade_57a978462b74 = steps [
     exec (Create_table ''audit_log'' [
       required ''id'' Uuid, defaulted ''occurred_at'' Timestamptz Default_now, required ''category'' (Varchar 32),
       optional ''actor_id'' Uuid, optional ''actor_role'' (Varchar 32), required ''event'' (Varchar 64),
       optional ''target_id'' Uuid, optional ''outcome'' (Varchar 32), optional ''request_id'' (Varchar 64),
       optional ''ip'' (Varchar 45), optional ''user_agent'' Text_type, optional ''payload'' Jsonb,
       required ''previous_hash'' (Varchar 64), required ''row_hash'' (Varchar 64),
       Primary_key [''id'', ''occurred_at''], Partition_by_range [''occurred_at'']] True),
     exec (Create_partition ''audit_log_default'' ''audit_log''),
     exec (Create_index ''ix_audit_log_occurred_at_actor_id_event'' ''audit_log'' [''occurred_at'', ''actor_id'', ''event'']
       None None False True),
     exec (Create_function ''audit_log_row_hash''),
     exec (Create_function ''audit_log_hash_chain''),
     exec (Drop_trigger ''audit_log_hash_chain_trigger'' ''audit_log''),
     exec (Create_trigger ''audit_log_hash_chain_trigger'' ''audit_log'' ''audit_log_hash_chain''),
     exec (Create_view ''audit_log_history'' history_view_reads)]"

definition downgrade_57a978462b74 :: migration where
  "downgrade_57a978462b74 = steps [
     exec (Drop_view ''audit_log_history''),
     exec (Drop_trigger ''audit_log_hash_chain_trigger'' ''audit_log''),
     exec (Drop_function ''audit_log_hash_chain''),
     exec (Drop_function ''audit_log_row_hash''),
     exec (Drop_index ''ix_audit_log_occurred_at_actor_id_event'' True),
     exec (Drop_table ''audit_log_default'' True),
     exec (Drop_table ''audit_log'' True)]"

section \<open>\<open>5dd6fff75016\<close>: indexes for the history view\<close>

definition occurred_at_indexes :: "(string \<times> string \<times> string) list" where
  "occurred_at_indexes = [
     (''ix_auth_audit_log_occurred_at'', ''auth_audit_log'', ''occurred_at''),
     (''ix_admin_audit_log_occurred_at'', ''admin_audit_log'', ''occurred_at''),
     (''ix_profile_audit_log_timestamp'', ''profile_audit_log'', ''timestamp''),
     (''ix_account_lifecycle_audit_log_occurred_at'', ''account_lifecycle_audit_log'', ''occurred_at'')]"

definition upgrade_5dd6fff75016 :: migration where
  "upgrade_5dd6fff75016 = steps [autocommit_block
     (map (\<lambda>(index_name, table_name, column_name).
        Create_index index_name table_name [column_name] None None True True) occurred_at_indexes)]"

definition downgrade_5dd6fff75016 :: migration where
  "downgrade_5dd6fff75016 = steps [autocommit_block
     (map (\<lambda>(index_name, _, _). Drop_index index_name True) (rev occurred_at_indexes))]"

section \<open>\<open>37c89e98a86f\<close>: tickets\<close>

definition upgrade_37c89e98a86f :: migration where
  "upgrade_37c89e98a86f = steps [
     exec (Create_table ''tickets'' [
       required ''id'' Uuid, required ''ticket_number'' (Varchar 20), required ''requester_id'' Uuid,
       required ''subject'' (Varchar 150), required ''body'' (Varchar 5000), required ''category'' (Varchar 50),
       defaulted ''status'' (Varchar 32) (Default_text ''open''),
       defaulted ''created_at'' Timestamptz Default_now, defaulted ''updated_at'' Timestamptz Default_now,
       Foreign_key [''requester_id''] ''users'' [''id''] No_action,
       Primary_key [''id''], Unique [''ticket_number'']] True),
     exec (Create_index ''ix_tickets_requester_id'' ''tickets'' [''requester_id''] None None False True),
     exec (Create_index ''ix_tickets_requester_id_created_at_id'' ''tickets'' [''requester_id'', ''created_at'', ''id'']
       None None False True),
     exec (Create_sequence ''ticket_number_seq''),
     exec (Set_default ''tickets'' ''ticket_number'' (Some (Default_ticket_number ''ticket_number_seq''))),
     exec (Create_table ''attachments'' [
       required ''id'' Uuid, required ''uploaded_by'' Uuid, optional ''ticket_id'' Uuid,
       defaulted ''created_at'' Timestamptz Default_now,
       Foreign_key [''ticket_id''] ''tickets'' [''id''] No_action,
       Foreign_key [''uploaded_by''] ''users'' [''id''] No_action,
       Primary_key [''id'']] True),
     exec (Create_index ''ix_attachments_created_at_unbound'' ''attachments'' [''created_at'']
       (Some (Column_null ''ticket_id'')) None False True),
     exec (Create_index ''ix_attachments_ticket_id'' ''attachments'' [''ticket_id''] None None False True),
     exec (Create_index ''ix_attachments_uploaded_by'' ''attachments'' [''uploaded_by''] None None False True)]"

definition downgrade_37c89e98a86f :: migration where
  "downgrade_37c89e98a86f = steps [
     exec (Drop_index ''ix_attachments_uploaded_by'' True),
     exec (Drop_index ''ix_attachments_ticket_id'' True),
     exec (Drop_index ''ix_attachments_created_at_unbound'' True),
     exec (Drop_table ''attachments'' True),
     exec (Set_default ''tickets'' ''ticket_number'' None),
     exec (Drop_sequence ''ticket_number_seq''),
     exec (Drop_index ''ix_tickets_requester_id_created_at_id'' True),
     exec (Drop_index ''ix_tickets_requester_id'' True),
     exec (Drop_table ''tickets'' True)]"

section \<open>\<open>9132a68b73c8\<close>: replies\<close>

definition reply_policy :: predicate where
  "reply_policy = Either (Column_is ''visibility'' ''public'') (Setting_is ''app.actor_kind'' ''agent'')"

definition upgrade_9132a68b73c8 :: migration where
  "upgrade_9132a68b73c8 = steps [
     exec (Create_table ''ticket_replies'' [
       required ''id'' Uuid, required ''ticket_id'' Uuid, required ''author_id'' Uuid, required ''author_kind'' (Varchar 20),
       required ''body'' (Varchar 5000), defaulted ''visibility'' (Varchar 20) (Default_text ''public''),
       defaulted ''created_at'' Timestamptz Default_now,
       Check ''ck_ticket_replies_visibility_agent_only''
         (Either (Column_is ''visibility'' ''public'') (Column_is ''author_kind'' ''agent'')),
       Foreign_key [''author_id''] ''users'' [''id''] No_action,
       Foreign_key [''ticket_id''] ''tickets'' [''id''] No_action,
       Primary_key [''id'']] True),
     exec (Create_index ''ix_ticket_replies_ticket_id_created_at_id'' ''ticket_replies''
       [''ticket_id'', ''created_at'', ''id''] None None False True),
     get_columns ''tickets'' (\<lambda>columns. [
       only_if (''first_response_at'' \<notin> set columns)
         (exec (Add_column ''tickets'' ''first_response_at'' Timestamptz True None))]),
     get_columns ''attachments'' (\<lambda>columns. [
       only_if (''ticket_reply_id'' \<notin> set columns)
         (exec (Add_column ''attachments'' ''ticket_reply_id'' Uuid True None))]),
     exec (Create_index ''ix_attachments_ticket_reply_id'' ''attachments'' [''ticket_reply_id''] None None False True),
     get_foreign_keys ''attachments'' (\<lambda>fks. [
       only_if (''attachments_ticket_reply_id_fkey'' \<notin> set fks)
         (exec (Add_foreign_key ''attachments_ticket_reply_id_fkey'' ''attachments'' ''ticket_replies''
            [''ticket_reply_id''] [''id'']))]),
     exec (Set_row_security ''ticket_replies'' True),
     exec (Force_row_security ''ticket_replies''),
     select_policies ''ticket_replies'' (\<lambda>existing. [
       only_if (''ticket_replies_read'' \<notin> set existing)
         (exec (Create_policy ''ticket_replies_read'' ''ticket_replies'' ''SELECT'' reply_policy)),
       only_if (''ticket_replies_write'' \<notin> set existing)
         (exec (Create_policy ''ticket_replies_write'' ''ticket_replies'' ''INSERT'' reply_policy))])]"

definition downgrade_9132a68b73c8 :: migration where
  "downgrade_9132a68b73c8 = steps [
     exec (Drop_policy ''ticket_replies_write'' ''ticket_replies''),
     exec (Drop_policy ''ticket_replies_read'' ''ticket_replies''),
     exec (Set_row_security ''ticket_replies'' False),
     get_foreign_keys ''attachments'' (\<lambda>fks. [
       only_if (''attachments_ticket_reply_id_fkey'' \<in> set fks)
         (exec (Drop_foreign_key ''attachments_ticket_reply_id_fkey'' ''attachments''))]),
     exec (Drop_index ''ix_attachments_ticket_reply_id'' True),
     get_columns ''attachments'' (\<lambda>columns. [
       only_if (''ticket_reply_id'' \<in> set columns) (exec (Drop_column ''attachments'' ''ticket_reply_id''))]),
     get_columns ''tickets'' (\<lambda>columns. [
       only_if (''first_response_at'' \<in> set columns) (exec (Drop_column ''tickets'' ''first_response_at''))]),
     exec (Drop_index ''ix_ticket_replies_ticket_id_created_at_id'' True),
     exec (Drop_table ''ticket_replies'' True)]"

section \<open>\<open>242e0dba5ba2\<close>: resolution and closure\<close>

definition closed_fields_check :: predicate where
  "closed_fields_check = Same (Column_is ''status'' ''closed'')
     (Both (Column_not_null ''closed_at'') (Column_not_null ''closed_by''))"

definition resolved_fields_check :: predicate where
  "resolved_fields_check = Either (Column_is_not ''status'' ''resolved'')
     (Both (Column_not_null ''resolved_at'') (Column_not_null ''resolution_note''))"

definition upgrade_242e0dba5ba2 :: migration where
  "upgrade_242e0dba5ba2 = steps [
     get_columns ''tickets'' (\<lambda>columns. [
       only_if (''resolved_at'' \<notin> set columns) (exec (Add_column ''tickets'' ''resolved_at'' Timestamptz True None)),
       only_if (''resolution_note'' \<notin> set columns)
         (exec (Add_column ''tickets'' ''resolution_note'' (Varchar 5000) True None)),
       only_if (''closed_at'' \<notin> set columns) (exec (Add_column ''tickets'' ''closed_at'' Timestamptz True None)),
       only_if (''closed_by'' \<notin> set columns) (exec (Add_column ''tickets'' ''closed_by'' Uuid True None))]),
     exec (Create_index ''ix_tickets_resolved_at_pending_autoclose'' ''tickets'' [''resolved_at'']
       (Some (Column_is ''status'' ''resolved'')) None False True),
     get_check_constraints ''tickets'' (\<lambda>checks. [
       only_if (''ck_tickets_closed_requires_closed_fields'' \<notin> set checks)
         (exec (Add_check ''ck_tickets_closed_requires_closed_fields'' ''tickets'' closed_fields_check)),
       only_if (''ck_tickets_resolved_requires_resolution_fields'' \<notin> set checks)
         (exec (Add_check ''ck_tickets_resolved_requires_resolution_fields'' ''tickets'' resolved_fields_check))])]"

definition downgrade_242e0dba5ba2 :: migration where
  "downgrade_242e0dba5ba2 = steps [
     get_check_constraints ''tickets'' (\<lambda>checks. [
       only_if (''ck_tickets_resolved_requires_resolution_fields'' \<in> set checks)
         (exec (Drop_check ''ck_tickets_resolved_requires_resolution_fields'' ''tickets'')),
       only_if (''ck_tickets_closed_requires_closed_fields'' \<in> set checks)
         (exec (Drop_check ''ck_tickets_closed_requires_closed_fields'' ''tickets''))]),
     exec (Drop_index ''ix_tickets_resolved_at_pending_autoclose'' True),
     get_columns ''tickets'' (\<lambda>columns. [
       only_if (''closed_by'' \<in> set columns) (exec (Drop_column ''tickets'' ''closed_by'')),
       only_if (''closed_at'' \<in> set columns) (exec (Drop_column ''tickets'' ''closed_at'')),
       only_if (''resolution_note'' \<in> set columns) (exec (Drop_column ''tickets'' ''resolution_note'')),
       only_if (''resolved_at'' \<in> set columns) (exec (Drop_column ''tickets'' ''resolved_at''))])]"

section \<open>\<open>55d8d34a9753\<close>: assignees\<close>

definition upgrade_55d8d34a9753 :: migration where
  "upgrade_55d8d34a9753 = steps [
     get_columns ''tickets'' (\<lambda>columns. [
       only_if (''assignee_id'' \<notin> set columns) (exec (Add_column ''tickets'' ''assignee_id'' Uuid True None))]),
     exec (Create_index ''ix_tickets_queue_default_updated_at_id'' ''tickets'' [''updated_at'', ''id'']
       (Some (Column_is_not ''status'' ''closed'')) None False True),
     exec (Create_index ''ix_tickets_status_updated_at_id'' ''tickets'' [''status'', ''updated_at'', ''id'']
       None None False True),
     exec (Create_index ''ix_tickets_assignee_id_updated_at_id'' ''tickets'' [''assignee_id'', ''updated_at'', ''id'']
       None None False True),
     get_foreign_keys ''tickets'' (\<lambda>fks. [
       only_if (''tickets_assignee_id_fkey'' \<notin> set fks)
         (exec (Add_foreign_key ''tickets_assignee_id_fkey'' ''tickets'' ''users'' [''assignee_id''] [''id'']))])]"

definition downgrade_55d8d34a9753 :: migration where
  "downgrade_55d8d34a9753 = steps [
     get_foreign_keys ''tickets'' (\<lambda>fks. [
       only_if (''tickets_assignee_id_fkey'' \<in> set fks) (exec (Drop_foreign_key ''tickets_assignee_id_fkey'' ''tickets''))]),
     exec (Drop_index ''ix_tickets_assignee_id_updated_at_id'' True),
     exec (Drop_index ''ix_tickets_status_updated_at_id'' True),
     exec (Drop_index ''ix_tickets_queue_default_updated_at_id'' True),
     get_columns ''tickets'' (\<lambda>columns. [
       only_if (''assignee_id'' \<in> set columns) (exec (Drop_column ''tickets'' ''assignee_id''))])]"

section \<open>The history\<close>

record revision =
  revision_id :: string
  down_revision :: "string option"
  upgrade :: migration
  downgrade :: migration

text \<open>The files of \<open>versions/\<close>, in directory order; their order of application is in the links.\<close>

definition versions :: "revision list" where
  "versions = map (\<lambda>(r, d, up, down). \<lparr>revision_id = r, down_revision = d, upgrade = up, downgrade = down\<rparr>) [
     (''1b2b1d52dd71'', Some ''a5edc35c8e96'', upgrade_1b2b1d52dd71, downgrade_1b2b1d52dd71),
     (''1cdc08e88be9'', Some ''7e371ad49a0a'', upgrade_1cdc08e88be9, downgrade_1cdc08e88be9),
     (''242e0dba5ba2'', Some ''9132a68b73c8'', upgrade_242e0dba5ba2, downgrade_242e0dba5ba2),
     (''2c77dd65027b'', Some ''430aa1b298fb'', upgrade_2c77dd65027b, downgrade_2c77dd65027b),
     (''37c89e98a86f'', Some ''5dd6fff75016'', upgrade_37c89e98a86f, downgrade_37c89e98a86f),
     (''430aa1b298fb'', Some ''ff01f548bc2b'', upgrade_430aa1b298fb, downgrade_430aa1b298fb),
     (''55d8d34a9753'', Some ''242e0dba5ba2'', upgrade_55d8d34a9753, downgrade_55d8d34a9753),
     (''57a978462b74'', Some ''81fe406156fa'', upgrade_57a978462b74, downgrade_57a978462b74),
     (''5dccea7a3749'', Some ''cef55228a927'', upgrade_5dccea7a3749, downgrade_5dccea7a3749),
     (''5dd6fff75016'', Some ''57a978462b74'', upgrade_5dd6fff75016, downgrade_5dd6fff75016),
     (''7e371ad49a0a'', Some ''2c77dd65027b'', upgrade_7e371ad49a0a, downgrade_7e371ad49a0a),
     (''81fe406156fa'', Some ''1b2b1d52dd71'', upgrade_81fe406156fa, downgrade_81fe406156fa),
     (''9132a68b73c8'', Some ''37c89e98a86f'', upgrade_9132a68b73c8, downgrade_9132a68b73c8),
     (''9a4776e19934'', Some ''c8eeaa6b5ff6'', upgrade_9a4776e19934, downgrade_9a4776e19934),
     (''9f9d9263bdfc'', Some ''1cdc08e88be9'', upgrade_9f9d9263bdfc, downgrade_9f9d9263bdfc),
     (''a5edc35c8e96'', Some ''db8cbd5e3697'', upgrade_a5edc35c8e96, downgrade_a5edc35c8e96),
     (''c8eeaa6b5ff6'', Some ''9f9d9263bdfc'', upgrade_c8eeaa6b5ff6, downgrade_c8eeaa6b5ff6),
     (''cef55228a927'', Some ''d7585b660cd7'', upgrade_cef55228a927, downgrade_cef55228a927),
     (''d7585b660cd7'', Some ''e50fbe8161fc'', upgrade_d7585b660cd7, downgrade_d7585b660cd7),
     (''db8cbd5e3697'', Some ''5dccea7a3749'', upgrade_db8cbd5e3697, downgrade_db8cbd5e3697),
     (''e50fbe8161fc'', Some ''9a4776e19934'', upgrade_e50fbe8161fc, downgrade_e50fbe8161fc),
     (''ff01f548bc2b'', None, upgrade_ff01f548bc2b, downgrade_ff01f548bc2b)]"

text \<open>The revisions above a version, in the order of their links.\<close>

fun pending :: "nat \<Rightarrow> revision list \<Rightarrow> string option \<Rightarrow> revision list" where
  "pending 0 rs v = []"
| "pending (Suc n) rs v = (case List.find (\<lambda>r. down_revision r = v) rs of
     None \<Rightarrow> [] | Some r \<Rightarrow> r # pending n rs (Some (revision_id r)))"

definition history :: "revision list" where
  "history = pending (length versions) versions None"

text \<open>\<open>alembic upgrade head\<close> from the version \<open>v\<close>, in one transaction (\<open>do_run_migrations\<close>).\<close>

definition run_upgrades :: "revision list \<Rightarrow> migration" where
  "run_upgrades rs = steps (concat (map (\<lambda>r. [upgrade r, mark (Stamped (Some (revision_id r)))]) rs) @ [mark Committed])"

definition upgrade_head :: "string option \<Rightarrow> migration" where
  "upgrade_head v = run_upgrades (pending (length versions) versions v)"

text \<open>\<open>alembic downgrade base\<close>.\<close>

definition run_downgrades :: "revision list \<Rightarrow> migration" where
  "run_downgrades rs = steps (concat (map (\<lambda>r. [downgrade r, mark (Stamped (down_revision r))]) (rev rs)) @ [mark Committed])"

end
