(* ===== verification/Schema_Integrity.thy ===== *)
theory Schema_Integrity
  imports Schema "HOL-Library.Multiset"
begin

text \<open>
  Every statement keeps the catalogue well formed. The statements that only add are covered by
  \<open>extends\<close>: what refers to objects of the smaller catalogue refers to objects of the larger one. The
  statements that remove rest on their refusal to drop what something else depends on.
\<close>

section \<open>Monotonicity\<close>

definition extends :: "catalog \<Rightarrow> catalog \<Rightarrow> bool" where
  "extends c d \<longleftrightarrow>
     (\<forall>n t. map_of (tables c) n = Some t \<longrightarrow> (\<exists>u. map_of (tables d) n = Some u \<and>
        set (column_names t) \<subseteq> set (column_names u) \<and> snd ` set (keys t) \<subseteq> snd ` set (keys u))) \<and>
     set (sequences c) \<subseteq> set (sequences d) \<and> set (routines c) \<subseteq> set (routines d) \<and>
     set (extensions c) \<subseteq> set (extensions d)"

lemma extends_refl [simp]: "extends c c"
  by (auto simp: extends_def)

lemma references_iff:
  "references c n cols \<longleftrightarrow> (\<exists>t k. map_of (tables c) n = Some t \<and> k \<in> snd ` set (keys t) \<and> key_columns k = cols)"
  by (force simp: references_def split: option.splits)

lemma has_columns_iff:
  "has_columns c n cols \<longleftrightarrow> (\<exists>t. map_of (tables c) n = Some t \<and> set cols \<subseteq> set (column_names t))"
  by (auto simp: has_columns_def split: option.splits)

lemma extendsD:
  assumes "extends c d" and "map_of (tables c) n = Some t"
  obtains u where "map_of (tables d) n = Some u" and "set (column_names t) \<subseteq> set (column_names u)"
    and "snd ` set (keys t) \<subseteq> snd ` set (keys u)"
proof -
  have "\<exists>u. map_of (tables d) n = Some u \<and> set (column_names t) \<subseteq> set (column_names u)
      \<and> snd ` set (keys t) \<subseteq> snd ` set (keys u)"
    using assms unfolding extends_def by simp
  then show thesis using that by auto
qed

lemma references_mono:
  assumes "extends c d" and "references c n cols"
  shows "references d n cols"
proof -
  obtain t k where t: "map_of (tables c) n = Some t" "k \<in> snd ` set (keys t)" "key_columns k = cols"
    using assms(2) by (auto simp: references_iff)
  obtain u where "map_of (tables d) n = Some u" "snd ` set (keys t) \<subseteq> snd ` set (keys u)"
    using assms(1) t(1) by (rule extendsD)
  then show ?thesis using t unfolding references_iff by blast
qed

lemma has_columns_mono: "extends c d \<Longrightarrow> has_columns c n cols \<Longrightarrow> has_columns d n cols"
  unfolding has_columns_iff by (auto elim!: extendsD)

lemma default_ok_iff:
  "default_ok c dflt \<longleftrightarrow> (\<forall>s. dflt = Some (Default_ticket_number s) \<longrightarrow> s \<in> set (sequences c))"
  by (induction c dflt rule: default_ok.induct) auto

lemma default_ok_mono: "extends c d \<Longrightarrow> default_ok c dflt \<Longrightarrow> default_ok d dflt"
  by (auto simp: default_ok_iff extends_def)

lemma wf_tableI:
  assumes "distinct (column_names t)" and "distinct (constraint_names t)"
    and "\<And>m col. (m, col) \<in> set (columns t) \<Longrightarrow> default_ok c (col_default col)"
    and "\<And>m k. (m, k) \<in> set (keys t) \<Longrightarrow> wf_key t k"
    and "\<And>m fk. (m, fk) \<in> set (foreign_keys t) \<Longrightarrow> wf_foreign_key c t fk"
    and "\<And>m p. (m, p) \<in> set (checks t) \<Longrightarrow> set (predicate_columns p) \<subseteq> set (column_names t)"
    and "\<And>m fn. (m, fn) \<in> set (triggers t) \<Longrightarrow> fn \<in> set (routines c)"
    and "\<And>m p. (m, p) \<in> set (policies t) \<Longrightarrow> set (predicate_columns (pol_predicate p)) \<subseteq> set (column_names t)"
    and "set (partition_key t) \<subseteq> set (column_names t)"
  shows "wf_table c t"
  unfolding wf_table_def
proof (intro conjI)
  show "\<forall>(_, fk) \<in> set (foreign_keys t). wf_foreign_key c t fk" using assms(5) by blast
qed (use assms in blast)+

lemma wf_tableD:
  assumes "wf_table c t"
  shows "distinct (column_names t)" and "distinct (constraint_names t)"
    and "(m, col) \<in> set (columns t) \<Longrightarrow> default_ok c (col_default col)"
    and "(m, k) \<in> set (keys t) \<Longrightarrow> wf_key t k"
    and "(m, fk) \<in> set (foreign_keys t) \<Longrightarrow> wf_foreign_key c t fk"
    and "(m, p) \<in> set (checks t) \<Longrightarrow> set (predicate_columns p) \<subseteq> set (column_names t)"
    and "(m, fn) \<in> set (triggers t) \<Longrightarrow> fn \<in> set (routines c)"
    and "(m, pl) \<in> set (policies t) \<Longrightarrow> set (predicate_columns (pol_predicate pl)) \<subseteq> set (column_names t)"
    and "set (partition_key t) \<subseteq> set (column_names t)"
  using assms unfolding wf_table_def by blast+

lemma wf_foreign_key_mono: "extends c d \<Longrightarrow> wf_foreign_key c t fk \<Longrightarrow> wf_foreign_key d t fk"
  by (auto simp: wf_foreign_key_def intro: references_mono)

lemma wf_table_mono:
  assumes ext: "extends c d" and wf: "wf_table c t"
  shows "wf_table d t"
proof (rule wf_tableI)
  fix m fn assume "(m, fn) \<in> set (triggers t)"
  then show "fn \<in> set (routines d)" using wf_tableD(7) [OF wf] ext by (auto simp: extends_def)
qed (use wf_tableD [OF wf] default_ok_mono [OF ext] wf_foreign_key_mono [OF ext] in blast)+

lemma wf_index_mono: "extends c d \<Longrightarrow> wf_index c ix \<Longrightarrow> wf_index d ix"
  unfolding wf_index_def
  by (auto intro: has_columns_mono split: option.splits) (auto simp: extends_def)

lemma wf_view_mono: "extends c d \<Longrightarrow> wf_view c reads \<Longrightarrow> wf_view d reads"
  unfolding wf_view_def by (auto intro: has_columns_mono)

text \<open>The names of a larger catalogue are the new ones and the old ones, in some order.\<close>

lemma distinct_names_perm:
  "mset (relation_names d) = mset (new @ relation_names c) \<Longrightarrow> distinct (new @ relation_names c)
    \<Longrightarrow> distinct (relation_names d)"
  using mset_eq_imp_distinct_iff by blast

section \<open>Access to a well-formed catalogue\<close>

lemma wf_distinct_tables: "wf_catalog c \<Longrightarrow> distinct (names (tables c))"
  by (simp add: wf_catalog_def relation_names_def)

lemma wf_catalogD:
  assumes "wf_catalog c"
  shows "distinct (relation_names c)"
    and "(n, t) \<in> set (tables c) \<Longrightarrow> wf_table c t"
    and "(i, ix) \<in> set (indexes c) \<Longrightarrow> wf_index c ix"
    and "(v, reads) \<in> set (views c) \<Longrightarrow> wf_view c reads"
  using assms by (auto simp: wf_catalog_def)

lemma wf_map_ofD: "wf_catalog c \<Longrightarrow> map_of (tables c) n = Some t \<Longrightarrow> wf_table c t"
  by (meson map_of_SomeD wf_catalogD(2))

lemma wf_catalogI:
  assumes "distinct (relation_names c)"
    and "\<And>n t. (n, t) \<in> set (tables c) \<Longrightarrow> wf_table c t"
    and "\<And>n ix. (n, ix) \<in> set (indexes c) \<Longrightarrow> wf_index c ix"
    and "\<And>n reads. (n, reads) \<in> set (views c) \<Longrightarrow> wf_view c reads"
  shows "wf_catalog c"
  using assms by (auto simp: wf_catalog_def)

text \<open>A catalogue that offers at least what \<open>c\<close> does is well formed when its new objects are.\<close>

lemma wf_extends:
  assumes "wf_catalog c" and "extends c d" and "distinct (relation_names d)"
    and "\<And>n t. (n, t) \<in> set (tables d) \<Longrightarrow> (n, t) \<in> set (tables c) \<or> wf_table d t"
    and "\<And>n ix. (n, ix) \<in> set (indexes d) \<Longrightarrow> (n, ix) \<in> set (indexes c) \<or> wf_index d ix"
    and "\<And>n reads. (n, reads) \<in> set (views d) \<Longrightarrow> (n, reads) \<in> set (views c) \<or> wf_view d reads"
  shows "wf_catalog d"
proof (rule wf_catalogI)
  show "distinct (relation_names d)" by fact
next
  fix n t assume "(n, t) \<in> set (tables d)"
  then show "wf_table d t" using assms(4) wf_table_mono [OF assms(2)] wf_catalogD(2) [OF assms(1)] by blast
next
  fix n ix assume "(n, ix) \<in> set (indexes d)"
  then show "wf_index d ix" using assms(5) wf_index_mono [OF assms(2)] wf_catalogD(3) [OF assms(1)] by blast
next
  fix n reads assume "(n, reads) \<in> set (views d)"
  then show "wf_view d reads" using assms(6) wf_view_mono [OF assms(2)] wf_catalogD(4) [OF assms(1)] by blast
qed

section \<open>Statements on one table\<close>

lemma change_table_simps [simp]:
  "tables (change_table n g c) = adjust n g (tables c)"
  "indexes (change_table n g c) = indexes c"
  "sequences (change_table n g c) = sequences c"
  "routines (change_table n g c) = routines c"
  "views (change_table n g c) = views c"
  "extensions (change_table n g c) = extensions c"
  by (simp_all add: change_table_def)

lemma relation_names_change_table:
  assumes "\<And>t. map_of (tables c) n = Some t \<Longrightarrow> names (keys (g t)) = names (keys t) \<and> partitions (g t) = partitions t"
    and "distinct (names (tables c))"
  shows "relation_names (change_table n g c) = relation_names c"
proof -
  have "map (\<lambda>(_, t). names (keys t) @ partitions t) (adjust n g (tables c))
      = map (\<lambda>(_, t). names (keys t) @ partitions t) (tables c)"
    unfolding adjust_def using assms(1) map_of_eq_Some_iff [OF assms(2)] by (auto simp: case_prod_beta)
  then show ?thesis by (simp add: relation_names_def)
qed

lemma change_table_extends:
  assumes "\<And>t. map_of (tables c) n = Some t \<Longrightarrow>
      set (column_names t) \<subseteq> set (column_names (g t)) \<and> snd ` set (keys t) \<subseteq> snd ` set (keys (g t))"
  shows "extends c (change_table n g c)"
  using assms by (auto simp: extends_def map_of_adjust)

text \<open>The rule for \<open>ALTER TABLE\<close>: what matters is the changed table.\<close>

lemma wf_change_table:
  assumes wf: "wf_catalog c" and t: "map_of (tables c) n = Some t"
    and names: "names (keys (g t)) = names (keys t)" "partitions (g t) = partitions t"
    and more: "set (column_names t) \<subseteq> set (column_names (g t))" "snd ` set (keys t) \<subseteq> snd ` set (keys (g t))"
    and ok: "wf_table c t \<Longrightarrow> wf_table c (g t)"
  shows "wf_catalog (change_table n g c)"
proof (rule wf_extends [OF wf])
  show ext: "extends c (change_table n g c)" using t more by (intro change_table_extends) simp
  show "distinct (relation_names (change_table n g c))"
    using relation_names_change_table [of c n g] t names wf_distinct_tables [OF wf] wf_catalogD(1) [OF wf] by simp
  fix m u assume "(m, u) \<in> set (tables (change_table n g c))"
  then obtain w where w: "(m, w) \<in> set (tables c)" "u = (if m = n then g w else w)"
    by (auto elim: in_adjustE)
  show "(m, u) \<in> set (tables c) \<or> wf_table (change_table n g c) u"
  proof (cases "m = n")
    case True
    then have "w = t" using w t wf_distinct_tables [OF wf] by (metis map_of_is_SomeI option.inject)
    then show ?thesis using True w ok wf_map_ofD [OF wf t] wf_table_mono [OF ext] by simp
  qed (use w in simp)
qed simp_all

section \<open>Additions\<close>

lemma on_tableE:
  assumes "on_table n k c = Inr d"
  obtains t where "map_of (tables c) n = Some t" and "k t = Inr d"
  using assms by (auto simp: on_table_def split: option.splits)

lemma partitions_add_item [simp]: "partitions (add_item c n item t) = partitions t"
  by (cases item) simp_all

lemma partitions_build_table [simp]: "partitions (build_table c n items) = []"
proof -
  have "partitions (fold (add_item c n) xs t) = partitions t" for xs t by (induction xs arbitrary: t) simp_all
  then show ?thesis by (simp add: build_table_def empty_table_def)
qed

lemma create_table_wf:
  assumes wf: "wf_catalog c" and d: "create_table n items ine c = Inr d"
  shows "wf_catalog d"
proof (cases "n \<in> set (relation_names c)")
  case False
  define t where "t = build_table c n items"
  from d False have d_def: "d = c\<lparr>tables := tables c @ [(n, t)]\<rparr>"
    and fresh: "distinct (n # names (keys t) @ partitions t @ relation_names c)" and ok: "wf_table d t"
    using wf_catalogD(1) [OF wf] by (auto simp: create_table_def t_def Let_def split: if_splits)
  have n: "n \<notin> set (names (tables c))" using False by (simp add: relation_names_def)
  show ?thesis
  proof (rule wf_extends [OF wf])
    show "extends c d" using n by (auto simp: extends_def d_def map_of_eq_None_iff map_add_Some_iff dest: map_of_SomeD)
    show "distinct (relation_names d)"
      by (rule distinct_names_perm [of _ "n # names (keys t) @ partitions t" c])
        (use fresh in \<open>simp_all add: d_def relation_names_def\<close>)
  qed (use ok in \<open>auto simp: d_def\<close>)
qed (use d wf in \<open>auto simp: create_table_def split: if_splits\<close>)

lemma not_null_append: "not_null t n \<Longrightarrow> not_null (t\<lparr>columns := columns t @ xs\<rparr>) n"
  by (auto simp: not_null_def map_add_Some_iff split: option.splits)

lemma add_column_wf:
  assumes wf: "wf_catalog c" and d: "add_column n name ty nullable dflt c = Inr d"
  shows "wf_catalog d"
proof -
  obtain t where t: "map_of (tables c) n = Some t" and new: "name \<notin> set (column_names t)"
    and dflt: "default_ok c dflt" and d_def: "d = change_table n (add_item c n (Column name ty nullable dflt)) c"
    using d by (auto simp: add_column_def elim!: on_tableE split: if_splits)
  show ?thesis unfolding d_def
  proof (rule wf_change_table [OF wf t])
    assume ok: "wf_table c t"
    let ?u = "add_item c n (Column name ty nullable dflt) t"
    have cols: "column_names ?u = column_names t @ [name]" by (simp add: column_names_def)
    have nn: "not_null ?u m" if "not_null t m" for m using not_null_append [OF that] by simp
    have keys: "wf_key ?u k" if "wf_key t k" for k
      using that nn cols unfolding wf_key_def by auto
    show "wf_table c ?u"
    proof (rule wf_tableI)
      fix m col assume "(m, col) \<in> set (columns ?u)"
      then show "default_ok c (col_default col)" using wf_tableD(3) [OF ok] dflt by auto
    next
      fix m k assume "(m, k) \<in> set (keys ?u)"
      then show "wf_key ?u k" using wf_tableD(4) [OF ok] keys by simp
    next
      fix m fk assume "(m, fk) \<in> set (foreign_keys ?u)"
      then have "wf_foreign_key c t fk" using wf_tableD(5) [OF ok] by simp
      then show "wf_foreign_key c ?u fk" by (auto simp: wf_foreign_key_def cols)
    next
      fix m p assume "(m, p) \<in> set (checks ?u)"
      then show "set (predicate_columns p) \<subseteq> set (column_names ?u)"
        using wf_tableD(6) [OF ok] by (fastforce simp: cols)
    next
      fix m p assume "(m, p) \<in> set (policies ?u)"
      then show "set (predicate_columns (pol_predicate p)) \<subseteq> set (column_names ?u)"
        using wf_tableD(8) [OF ok] by (fastforce simp: cols)
    next
      fix m fn assume "(m, fn) \<in> set (triggers ?u)"
      then show "fn \<in> set (routines c)" using wf_tableD(7) [OF ok] by simp
    qed (use wf_tableD(1,2,9) [OF ok] new in \<open>auto simp: cols\<close>)
  qed (auto simp: column_names_def)
qed

lemma set_default_wf:
  assumes wf: "wf_catalog c" and d: "set_default n name dflt c = Inr d"
  shows "wf_catalog d"
proof -
  define g where "g t = t\<lparr>columns := adjust name (\<lambda>col. col\<lparr>col_default := dflt\<rparr>) (columns t)\<rparr>" for t :: table
  obtain t where t: "map_of (tables c) n = Some t" and dflt: "default_ok c dflt" and d_def: "d = change_table n g c"
    using d by (auto simp: set_default_def g_def [abs_def] elim!: on_tableE split: if_splits)
  have cols: "column_names (g t) = column_names t" by (simp add: column_names_def g_def)
  have "not_null (g t) m = not_null t m" for m
    by (auto simp: not_null_def g_def map_of_adjust split: option.splits)
  then have keys: "wf_key (g t) k = wf_key t k" for k by (simp add: wf_key_def cols)
  show ?thesis unfolding d_def
  proof (rule wf_change_table [OF wf t])
    assume ok: "wf_table c t"
    show "wf_table c (g t)"
    proof (rule wf_tableI)
      fix m col assume "(m, col) \<in> set (columns (g t))"
      then show "default_ok c (col_default col)"
        using wf_tableD(3) [OF ok] dflt by (auto simp: g_def elim!: in_adjustE)
    next
      fix m fk assume "(m, fk) \<in> set (foreign_keys (g t))"
      then show "wf_foreign_key c (g t) fk"
        using wf_tableD(5) [OF ok] by (simp add: g_def [symmetric] wf_foreign_key_def cols) (simp add: g_def)
    qed (use wf_tableD [OF ok] in \<open>simp_all add: cols keys, simp_all add: constraint_names_def g_def column_names_def\<close>)
  qed (auto simp: cols g_def)
qed

lemma create_index_wf:
  assumes wf: "wf_catalog c" and d: "create_index name n cols wh ext ine c = Inr d"
  shows "wf_catalog d"
proof (cases "name \<in> set (relation_names c)")
  case False
  then obtain ix where d_def: "d = c\<lparr>indexes := indexes c @ [(name, ix)]\<rparr>" and ok: "wf_index c ix"
    using d by (auto simp: create_index_def Let_def elim!: on_tableE split: if_splits)
  show ?thesis
  proof (rule wf_extends [OF wf])
    show ext: "extends c d" by (auto simp: extends_def d_def)
    show "distinct (relation_names d)"
      by (rule distinct_names_perm [of _ "[name]" c])
        (use False wf_catalogD(1) [OF wf] in \<open>simp_all add: d_def relation_names_def\<close>)
    fix m jx assume "(m, jx) \<in> set (indexes d)"
    then show "(m, jx) \<in> set (indexes c) \<or> wf_index d jx"
      using wf_index_mono [OF ext ok] by (auto simp: d_def)
  qed (auto simp: d_def)
qed (use d wf in \<open>auto simp: create_index_def split: if_splits\<close>)

text \<open>The statements of \<open>ALTER TABLE\<close> that leave the columns and the keys alone.\<close>

lemma wf_same_columns:
  assumes wf: "wf_catalog c" and t: "map_of (tables c) n = Some t"
    and same: "columns (g t) = columns t" "keys (g t) = keys t" "partitions (g t) = partitions t"
      "partition_key (g t) = partition_key t"
    and con: "wf_table c t \<Longrightarrow> distinct (constraint_names (g t))"
    and fks: "\<And>m fk. (m, fk) \<in> set (foreign_keys (g t)) \<Longrightarrow> (m, fk) \<in> set (foreign_keys t) \<or> wf_foreign_key c t fk"
    and chk: "\<And>m p. (m, p) \<in> set (checks (g t)) \<Longrightarrow> (m, p) \<in> set (checks t) \<or> set (predicate_columns p) \<subseteq> set (column_names t)"
    and tri: "\<And>m fn. (m, fn) \<in> set (triggers (g t)) \<Longrightarrow> (m, fn) \<in> set (triggers t) \<or> fn \<in> set (routines c)"
    and pol: "\<And>m p. (m, p) \<in> set (policies (g t)) \<Longrightarrow>
      (m, p) \<in> set (policies t) \<or> set (predicate_columns (pol_predicate p)) \<subseteq> set (column_names t)"
  shows "wf_catalog (change_table n g c)"
proof (rule wf_change_table [OF wf t])
  have cols: "column_names (g t) = column_names t" by (simp add: column_names_def same)
  have key: "wf_key (g t) k = wf_key t k" for k by (simp add: wf_key_def cols not_null_def same)
  have fk: "wf_foreign_key c (g t) k = wf_foreign_key c t k" for k by (simp add: wf_foreign_key_def cols)
  assume "wf_table c t"
  note ok = this
  show "wf_table c (g t)"
  proof (rule wf_tableI)
    show "distinct (constraint_names (g t))" using con [OF ok] .
  next
    fix m k assume "(m, k) \<in> set (foreign_keys (g t))"
    then show "wf_foreign_key c (g t) k" using fks wf_tableD(5) [OF ok] fk by blast
  next
    fix m p assume "(m, p) \<in> set (checks (g t))"
    then show "set (predicate_columns p) \<subseteq> set (column_names (g t))"
      using chk wf_tableD(6) [OF ok] cols by metis
  next
    fix m fn assume "(m, fn) \<in> set (triggers (g t))"
    then show "fn \<in> set (routines c)" using tri wf_tableD(7) [OF ok] by blast
  next
    fix m p assume "(m, p) \<in> set (policies (g t))"
    then show "set (predicate_columns (pol_predicate p)) \<subseteq> set (column_names (g t))"
      using pol wf_tableD(8) [OF ok] cols by metis
  qed (use wf_tableD [OF ok] in \<open>simp_all add: cols key same\<close>)
qed (simp_all add: same column_names_def)

lemma add_foreign_key_wf:
  assumes wf: "wf_catalog c" and d: "add_foreign_key name n target cols refs c = Inr d"
  shows "wf_catalog d"
proof -
  obtain t fk where t: "map_of (tables c) n = Some t" and new: "name \<notin> set (constraint_names t)"
    and fk: "wf_foreign_key c t fk"
    and d_def: "d = change_table n (\<lambda>t. t\<lparr>foreign_keys := foreign_keys t @ [(name, fk)]\<rparr>) c"
    using d by (auto simp: add_foreign_key_def Let_def elim!: on_tableE split: if_splits)
  show ?thesis unfolding d_def
  proof (rule wf_same_columns [OF wf t])
    assume "wf_table c t"
    from wf_tableD(2) [OF this] show "distinct (constraint_names (t\<lparr>foreign_keys := foreign_keys t @ [(name, fk)]\<rparr>))"
      using new by (simp add: constraint_names_def)
  qed (use fk in auto)
qed

lemma add_check_wf:
  assumes wf: "wf_catalog c" and d: "add_check name n p c = Inr d"
  shows "wf_catalog d"
proof -
  obtain t where t: "map_of (tables c) n = Some t" and new: "name \<notin> set (constraint_names t)"
    and p: "set (predicate_columns p) \<subseteq> set (column_names t)"
    and d_def: "d = change_table n (\<lambda>t. t\<lparr>checks := checks t @ [(name, p)]\<rparr>) c"
    using d by (auto simp: add_check_def elim!: on_tableE split: if_splits)
  show ?thesis unfolding d_def
  proof (rule wf_same_columns [OF wf t])
    assume "wf_table c t"
    from wf_tableD(2) [OF this] show "distinct (constraint_names (t\<lparr>checks := checks t @ [(name, p)]\<rparr>))"
      using new by (simp add: constraint_names_def)
  qed (use p in auto)
qed

lemma create_trigger_wf:
  assumes wf: "wf_catalog c" and d: "create_trigger name n fn c = Inr d"
  shows "wf_catalog d"
proof -
  obtain t where t: "map_of (tables c) n = Some t" and fn: "fn \<in> set (routines c)"
    and d_def: "d = change_table n (\<lambda>t. t\<lparr>triggers := triggers t @ [(name, fn)]\<rparr>) c"
    using d by (auto simp: create_trigger_def elim!: on_tableE split: if_splits)
  show ?thesis unfolding d_def
    by (rule wf_same_columns [OF wf t]) (use fn in \<open>auto dest: wf_tableD(2)\<close>)
qed

lemma create_policy_wf:
  assumes wf: "wf_catalog c" and d: "create_policy name n cmd p c = Inr d"
  shows "wf_catalog d"
proof -
  obtain t where t: "map_of (tables c) n = Some t" and p: "set (predicate_columns p) \<subseteq> set (column_names t)"
    and d_def: "d = change_table n
      (\<lambda>t. t\<lparr>policies := policies t @ [(name, \<lparr>pol_command = cmd, pol_predicate = p\<rparr>)]\<rparr>) c"
    using d by (auto simp: create_policy_def elim!: on_tableE split: if_splits)
  show ?thesis unfolding d_def
    by (rule wf_same_columns [OF wf t]) (use p in \<open>auto dest: wf_tableD(2)\<close>)
qed

lemma set_row_security_wf:
  assumes wf: "wf_catalog c" and d: "set_row_security n b c = Inr d"
  shows "wf_catalog d"
proof -
  obtain t where t: "map_of (tables c) n = Some t" and d_def: "d = change_table n (\<lambda>t. t\<lparr>row_security := b\<rparr>) c"
    using d by (auto simp: set_row_security_def elim!: on_tableE)
  show ?thesis unfolding d_def by (rule wf_same_columns [OF wf t]) (auto dest: wf_tableD(2))
qed

lemma force_row_security_wf:
  assumes wf: "wf_catalog c" and d: "force_row_security n c = Inr d"
  shows "wf_catalog d"
proof -
  obtain t where t: "map_of (tables c) n = Some t" and d_def: "d = change_table n (\<lambda>t. t\<lparr>row_security_forced := True\<rparr>) c"
    using d by (auto simp: force_row_security_def elim!: on_tableE)
  show ?thesis unfolding d_def by (rule wf_same_columns [OF wf t]) (auto dest: wf_tableD(2))
qed

lemma wf_same_relations:
  assumes wf: "wf_catalog c" and ext: "extends c d" and "distinct (relation_names d)"
    and "tables d = tables c" "indexes d = indexes c" "views d = views c"
  shows "wf_catalog d"
  by (rule wf_extends [OF wf ext]) (simp_all add: assms)

lemma create_function_wf: "wf_catalog c \<Longrightarrow> create_function fn c = Inr d \<Longrightarrow> wf_catalog d"
  by (rule wf_same_relations [of c]) (auto simp: create_function_def extends_def wf_catalogD(1))

lemma create_extension_wf: "wf_catalog c \<Longrightarrow> create_extension e c = Inr d \<Longrightarrow> wf_catalog d"
  by (rule wf_same_relations [of c]) (auto simp: create_extension_def extends_def wf_catalogD(1))

lemma create_sequence_wf:
  assumes wf: "wf_catalog c" and d: "create_sequence s c = Inr d"
  shows "wf_catalog d"
proof (cases "s \<in> set (relation_names c)")
  case False
  then have d_def: "d = c\<lparr>sequences := sequences c @ [s]\<rparr>" using d by (simp add: create_sequence_def)
  have "distinct (relation_names d)"
    by (rule distinct_names_perm [of _ "[s]" c])
      (use False wf_catalogD(1) [OF wf] in \<open>simp_all add: d_def relation_names_def\<close>)
  then show ?thesis by (intro wf_same_relations [OF wf]) (auto simp: d_def extends_def)
qed (use d wf in \<open>simp add: create_sequence_def\<close>)

lemma create_view_wf:
  assumes wf: "wf_catalog c" and d: "create_view v reads c = Inr d"
  shows "wf_catalog d"
proof (rule wf_extends [OF wf])
  show ext: "extends c d" using d by (auto simp: create_view_def extends_def split: if_splits)
  show "distinct (relation_names d)"
  proof (cases "v \<in> set (names (views c))")
    case True
    then have "relation_names d = relation_names c"
      using d by (auto simp: create_view_def relation_names_def split: if_splits)
    then show ?thesis using wf_catalogD(1) [OF wf] by simp
  next
    case False
    then have "d = c\<lparr>views := views c @ [(v, reads)]\<rparr>" and "v \<notin> set (relation_names c)"
      using d by (auto simp: create_view_def split: if_splits)
    then show ?thesis
      by (intro distinct_names_perm [of _ "[v]" c])
        (use wf_catalogD(1) [OF wf] in \<open>simp_all add: relation_names_def\<close>)
  qed
  fix m r assume "(m, r) \<in> set (views d)"
  moreover have "wf_view d reads" using d wf_view_mono [OF ext] by (auto simp: create_view_def split: if_splits)
  ultimately show "(m, r) \<in> set (views c) \<or> wf_view d r"
    using d by (auto simp: create_view_def elim!: in_adjustE split: if_splits)
qed (use d in \<open>auto simp: create_view_def split: if_splits\<close>)

lemma create_partition_wf:
  assumes wf: "wf_catalog c" and d: "create_partition n parent c = Inr d"
  shows "wf_catalog d"
proof (cases "n \<in> set (relation_names c)")
  case False
  define g where "g t = t\<lparr>partitions := partitions t @ [n]\<rparr>" for t :: table
  obtain t where t: "map_of (tables c) parent = Some t" and d_def: "d = change_table parent g c"
    using d False by (auto simp: create_partition_def g_def [abs_def] elim!: on_tableE split: if_splits)
  have ext: "extends c d" unfolding d_def by (rule change_table_extends) (simp add: g_def column_names_def)
  have cols: "column_names (g u) = column_names u" "constraint_names (g u) = constraint_names u" for u
    by (simp_all add: column_names_def constraint_names_def g_def)
  have ok: "wf_table c (g u)" if "wf_table c u" for u
    using wf_tableD [OF that]
    by (intro wf_tableI) (simp_all add: cols wf_key_def wf_foreign_key_def not_null_def, simp_all add: g_def)
  obtain xs ys where split: "tables c = xs @ (parent, t) # ys" "parent \<notin> fst ` set xs"
    using map_of_SomeD [OF t] wf_distinct_tables [OF wf] by (auto dest!: split_list)
  then have "parent \<notin> fst ` set ys" using wf_distinct_tables [OF wf] by auto
  then have tabs: "tables d = xs @ (parent, g t) # ys"
    using split by (simp add: d_def adjust_other)
  show ?thesis
  proof (rule wf_extends [OF wf ext])
    show "distinct (relation_names d)"
      by (rule distinct_names_perm [of _ "[n]" c])
        (use False wf_catalogD(1) [OF wf] in
          \<open>simp_all add: relation_names_def tabs split(1), simp_all add: d_def g_def\<close>)
    fix m u assume "(m, u) \<in> set (tables d)"
    then show "(m, u) \<in> set (tables c) \<or> wf_table d u"
      using wf_table_mono [OF ext ok] wf_map_ofD [OF wf t] by (auto simp: tabs split(1))
  qed (simp_all add: d_def)
qed (use d wf in \<open>simp add: create_partition_def\<close>)

section \<open>Removals\<close>

lemma concat_subseq: "(\<And>x. x \<in> set xs \<Longrightarrow> subseq (h x) (h' x)) \<Longrightarrow> subseq (concat (map h xs)) (concat (map h' xs))"
  by (induction xs) (auto intro: list_emb_append_mono)

lemma subseq_distinctD: "subseq xs ys \<Longrightarrow> distinct ys \<Longrightarrow> distinct xs"
  by (induction rule: list_emb.induct) (auto dest: list_emb_set)

lemma subseq_without [simp]: "subseq (names (without k xs)) (names xs)"
  by (simp add: map_fst_without)

lemma subseq_names_filter [simp]: "subseq (names (filter p xs)) (names xs)"
  by (simp add: subseq_map)

text \<open>What a table needs from the catalogue.\<close>

lemma wf_table_transfer:
  assumes "wf_table c t"
    and "\<And>m fk. (m, fk) \<in> set (foreign_keys t) \<Longrightarrow> references c (fk_table fk) (fk_refs fk) \<Longrightarrow>
      references d (fk_table fk) (fk_refs fk)"
    and "\<And>m col. (m, col) \<in> set (columns t) \<Longrightarrow> default_ok c (col_default col) \<Longrightarrow> default_ok d (col_default col)"
    and "\<And>m fn. (m, fn) \<in> set (triggers t) \<Longrightarrow> fn \<in> set (routines c) \<Longrightarrow> fn \<in> set (routines d)"
  shows "wf_table d t"
proof (rule wf_tableI)
  fix m fk assume "(m, fk) \<in> set (foreign_keys t)"
  then show "wf_foreign_key d t fk" using wf_tableD(5) [OF assms(1)] assms(2) by (auto simp: wf_foreign_key_def)
qed (use wf_tableD [OF assms(1)] assms(3,4) in blast)+

lemma wf_remove:
  assumes wf: "wf_catalog c" and sub: "subseq (relation_names d) (relation_names c)"
    and "\<And>n t. (n, t) \<in> set (tables d) \<Longrightarrow> wf_table d t"
    and "\<And>n ix. (n, ix) \<in> set (indexes d) \<Longrightarrow> wf_index d ix"
    and "\<And>n reads. (n, reads) \<in> set (views d) \<Longrightarrow> wf_view d reads"
  shows "wf_catalog d"
  using assms subseq_distinctD [OF sub wf_catalogD(1) [OF wf]] by (auto intro: wf_catalogI)

lemma drop_index_wf:
  assumes wf: "wf_catalog c" and d: "drop_index name ie c = Inr d"
  shows "wf_catalog d"
proof (cases "name \<in> set (names (indexes c))")
  case True
  then have d_def: "d = c\<lparr>indexes := without name (indexes c)\<rparr>" using d by (simp add: drop_index_def)
  have ext: "extends c d" by (simp add: d_def extends_def)
  show ?thesis
  proof (rule wf_remove [OF wf])
    show "subseq (relation_names d) (relation_names c)"
      by (auto simp: relation_names_def d_def intro!: list_emb_append_mono)
  qed (use wf_catalogD [OF wf] wf_table_mono [OF ext] wf_index_mono [OF ext] wf_view_mono [OF ext]
      in \<open>auto simp: d_def in_without\<close>)
qed (use d wf in \<open>auto simp: drop_index_def split: if_splits\<close>)

lemma drop_view_wf:
  assumes wf: "wf_catalog c" and d: "drop_view v c = Inr d"
  shows "wf_catalog d"
proof -
  have d_def: "d = c\<lparr>views := without v (views c)\<rparr>" using d by (simp add: drop_view_def)
  have ext: "extends c d" by (simp add: d_def extends_def)
  show ?thesis
  proof (rule wf_remove [OF wf])
    show "subseq (relation_names d) (relation_names c)"
      by (auto simp: relation_names_def d_def intro!: list_emb_append_mono)
  qed (use wf_catalogD [OF wf] wf_table_mono [OF ext] wf_index_mono [OF ext] wf_view_mono [OF ext]
      in \<open>auto simp: d_def in_without\<close>)
qed

lemma has_columns_eq: "tables d = tables c \<Longrightarrow> has_columns d n cols = has_columns c n cols"
  by (simp add: has_columns_def)

lemma wf_index_eq: "tables d = tables c \<Longrightarrow> extensions d = extensions c \<Longrightarrow> wf_index d ix = wf_index c ix"
  by (simp add: wf_index_def has_columns_eq [of d c] split: option.split)

lemma wf_view_eq: "tables d = tables c \<Longrightarrow> wf_view d reads = wf_view c reads"
  by (simp add: wf_view_def has_columns_eq [of d c])

lemma drop_function_wf:
  assumes wf: "wf_catalog c" and d: "drop_function fn c = Inr d"
  shows "wf_catalog d"
proof -
  have d_def: "d = c\<lparr>routines := removeAll fn (routines c)\<rparr>"
    and unused: "\<And>n t m g. (n, t) \<in> set (tables c) \<Longrightarrow> (m, g) \<in> set (triggers t) \<Longrightarrow> g \<noteq> fn"
    using d by (auto simp: drop_function_def split: if_splits)
  show ?thesis
  proof (rule wf_remove [OF wf])
    show "subseq (relation_names d) (relation_names c)" by (simp add: d_def)
    fix n t assume "(n, t) \<in> set (tables d)"
    then have t: "(n, t) \<in> set (tables c)" by (simp add: d_def)
    show "wf_table d t"
    proof (rule wf_table_transfer [OF wf_catalogD(2) [OF wf t]])
      fix m col assume "default_ok c (col_default col)"
      then show "default_ok d (col_default col)" by (simp add: default_ok_iff d_def)
    qed (use unused [OF t] in \<open>auto simp: d_def references_def\<close>)
  qed (use wf_catalogD(3,4) [OF wf] wf_index_eq [of d c] wf_view_eq [of d c] in \<open>simp_all add: d_def\<close>)
qed

lemma drop_sequence_wf:
  assumes wf: "wf_catalog c" and d: "drop_sequence s c = Inr d"
  shows "wf_catalog d"
proof -
  have d_def: "d = c\<lparr>sequences := removeAll s (sequences c)\<rparr>"
    and unused: "\<And>n t m col. (n, t) \<in> set (tables c) \<Longrightarrow> (m, col) \<in> set (columns t) \<Longrightarrow>
      col_default col \<noteq> Some (Default_ticket_number s)"
    using d by (auto simp: drop_sequence_def split: if_splits)
  show ?thesis
  proof (rule wf_remove [OF wf])
    show "subseq (relation_names d) (relation_names c)"
      by (auto simp: relation_names_def d_def removeAll_filter_not_eq intro!: list_emb_append_mono)
    fix n t assume "(n, t) \<in> set (tables d)"
    then have t: "(n, t) \<in> set (tables c)" by (simp add: d_def)
    show "wf_table d t"
    proof (rule wf_table_transfer [OF wf_catalogD(2) [OF wf t]])
      fix m col assume "(m, col) \<in> set (columns t)" and "default_ok c (col_default col)"
      then show "default_ok d (col_default col)" using unused [OF t] by (auto simp: default_ok_iff d_def)
    qed (auto simp: d_def references_def)
  qed (use wf_catalogD(3,4) [OF wf] wf_index_eq [of d c] wf_view_eq [of d c] in \<open>simp_all add: d_def\<close>)
qed

lemma drop_extension_wf:
  assumes wf: "wf_catalog c" and d: "drop_extension e c = Inr d"
  shows "wf_catalog d"
proof -
  have d_def: "d = c\<lparr>extensions := removeAll e (extensions c)\<rparr>"
    and unused: "\<And>n ix. (n, ix) \<in> set (indexes c) \<Longrightarrow> ix_extension ix \<noteq> Some e"
    using d by (auto simp: drop_extension_def split: if_splits)
  show ?thesis
  proof (rule wf_remove [OF wf])
    show "subseq (relation_names d) (relation_names c)" by (simp add: d_def)
    fix n t assume "(n, t) \<in> set (tables d)"
    then have t: "(n, t) \<in> set (tables c)" by (simp add: d_def)
    show "wf_table d t"
    proof (rule wf_table_transfer [OF wf_catalogD(2) [OF wf t]])
      fix m col assume "default_ok c (col_default col)"
      then show "default_ok d (col_default col)" by (simp add: default_ok_iff d_def)
    qed (auto simp: d_def references_def)
  next
    fix n ix assume "(n, ix) \<in> set (indexes d)"
    then have "(n, ix) \<in> set (indexes c)" by (simp add: d_def)
    with wf_catalogD(3) [OF wf this] unused show "wf_index d ix"
      by (auto simp: d_def wf_index_def has_columns_def split: option.splits)
  qed (use wf_catalogD(4) [OF wf] wf_view_eq [of d c] in \<open>simp add: d_def\<close>)
qed

text \<open>\<open>DROP TRIGGER\<close> and \<open>DROP POLICY\<close> may name a missing table.\<close>

lemma change_missing_table: "map_of (tables c) n = None \<Longrightarrow> change_table n g c = c"
  by (simp add: change_table_def adjust_other map_of_eq_None_iff)

lemma drop_trigger_wf:
  assumes wf: "wf_catalog c" and d: "drop_trigger name n c = Inr d"
  shows "wf_catalog d"
proof (cases "map_of (tables c) n")
  case None
  then show ?thesis using d wf by (simp add: drop_trigger_def change_missing_table)
next
  case (Some t)
  have "wf_catalog (change_table n (\<lambda>t. t\<lparr>triggers := without name (triggers t)\<rparr>) c)"
    by (rule wf_same_columns [OF wf Some]) (auto simp: in_without dest: wf_tableD(2))
  then show ?thesis using d by (simp add: drop_trigger_def)
qed

lemma drop_policy_wf:
  assumes wf: "wf_catalog c" and d: "drop_policy name n c = Inr d"
  shows "wf_catalog d"
proof (cases "map_of (tables c) n")
  case None
  then show ?thesis using d wf by (simp add: drop_policy_def change_missing_table)
next
  case (Some t)
  have "wf_catalog (change_table n (\<lambda>t. t\<lparr>policies := without name (policies t)\<rparr>) c)"
    by (rule wf_same_columns [OF wf Some]) (auto simp: in_without dest: wf_tableD(2))
  then show ?thesis using d by (simp add: drop_policy_def)
qed

lemma distinct_without: "distinct (names xs) \<Longrightarrow> distinct (names (without k xs))"
  by (simp add: map_fst_without)

lemma drop_foreign_key_wf:
  assumes wf: "wf_catalog c" and d: "drop_foreign_key name n c = Inr d"
  shows "wf_catalog d"
proof -
  obtain t where t: "map_of (tables c) n = Some t"
    and d_def: "d = change_table n (\<lambda>t. t\<lparr>foreign_keys := without name (foreign_keys t)\<rparr>) c"
    using d by (auto simp: drop_foreign_key_def elim!: on_tableE split: if_splits)
  show ?thesis unfolding d_def
  proof (rule wf_same_columns [OF wf t])
    assume "wf_table c t"
    from wf_tableD(2) [OF this]
    show "distinct (constraint_names (t\<lparr>foreign_keys := without name (foreign_keys t)\<rparr>))"
      by (rule subseq_distinctD [rotated]) (auto simp: constraint_names_def intro!: list_emb_append_mono)
  qed (auto simp: in_without)
qed

lemma drop_check_wf:
  assumes wf: "wf_catalog c" and d: "drop_check name n c = Inr d"
  shows "wf_catalog d"
proof -
  obtain t where t: "map_of (tables c) n = Some t"
    and d_def: "d = change_table n (\<lambda>t. t\<lparr>checks := without name (checks t)\<rparr>) c"
    using d by (auto simp: drop_check_def elim!: on_tableE split: if_splits)
  show ?thesis unfolding d_def
  proof (rule wf_same_columns [OF wf t])
    assume "wf_table c t"
    from wf_tableD(2) [OF this]
    show "distinct (constraint_names (t\<lparr>checks := without name (checks t)\<rparr>))"
      by (rule subseq_distinctD [rotated]) (auto simp: constraint_names_def intro!: list_emb_append_mono)
  qed (auto simp: in_without)
qed

text \<open>Dropping a table that nothing refers to.\<close>

lemma drop_whole_table_wf:
  assumes wf: "wf_catalog c" and free: "\<not> table_in_use c n"
    and d_def: "d = c\<lparr>tables := without n (tables c), indexes := filter (\<lambda>(_, ix). ix_table ix \<noteq> n) (indexes c)\<rparr>"
  shows "wf_catalog d"
proof (rule wf_remove [OF wf])
  have "subseq (concat (map (\<lambda>(_, t). names (keys t) @ partitions t) (without n ts)))
      (concat (map (\<lambda>(_, t). names (keys t) @ partitions t) ts))" for ts
    by (induction ts) (auto simp: subseq_append' subseq_drop_many)
  then show "subseq (relation_names d) (relation_names c)"
    by (auto simp: relation_names_def d_def intro!: list_emb_append_mono)
next
  fix m t assume "(m, t) \<in> set (tables d)"
  then have t: "(m, t) \<in> set (tables c)" "m \<noteq> n" by (auto simp: d_def in_without)
  show "wf_table d t"
  proof (rule wf_table_transfer [OF wf_catalogD(2) [OF wf t(1)]])
    fix k fk assume "(k, fk) \<in> set (foreign_keys t)" and ref: "references c (fk_table fk) (fk_refs fk)"
    then have "fk_table fk \<noteq> n" using free t by (fastforce simp: table_in_use_def)
    then show "references d (fk_table fk) (fk_refs fk)" using ref by (simp add: references_def d_def map_of_without)
  qed (simp_all add: default_ok_iff d_def)
next
  fix i ix assume "(i, ix) \<in> set (indexes d)"
  then have ix: "(i, ix) \<in> set (indexes c)" "ix_table ix \<noteq> n" by (auto simp: d_def)
  then show "wf_index d ix" using wf_catalogD(3) [OF wf ix(1)]
    by (auto simp: wf_index_def has_columns_def d_def map_of_without split: option.splits)
next
  fix v reads assume "(v, reads) \<in> set (views d)"
  then have v: "(v, reads) \<in> set (views c)" by (simp add: d_def)
  then have "\<forall>(m, _) \<in> set reads. m \<noteq> n" using free by (fastforce simp: table_in_use_def)
  then show "wf_view d reads" using wf_catalogD(4) [OF wf v]
    by (fastforce simp: wf_view_def has_columns_def d_def map_of_without)
qed

lemma map_of_map_value: "map_of (map (\<lambda>(m, t). (m, h m t)) xs) n = map_option (h n) (map_of xs n)"
  by (induction xs) auto

lemma drop_partition_wf:
  assumes wf: "wf_catalog c"
    and d_def: "d = c\<lparr>tables := map (\<lambda>(m, t). (m, t\<lparr>partitions := removeAll n (partitions t)\<rparr>)) (tables c)\<rparr>"
  shows "wf_catalog d"
proof (rule wf_remove [OF wf])
  have "subseq (concat (map (\<lambda>(_, t). names (keys t) @ partitions t)
        (map (\<lambda>(m, t). (m, t\<lparr>partitions := removeAll n (partitions t)\<rparr>)) ts)))
      (concat (map (\<lambda>(_, t). names (keys t) @ partitions t) ts))" for ts
    by (induction ts) (auto simp: removeAll_filter_not_eq intro!: list_emb_append_mono)
  moreover have same: "names (tables d) = names (tables c)" by (simp add: d_def comp_def case_prod_beta)
  ultimately show "subseq (relation_names d) (relation_names c)"
    unfolding relation_names_def same by (intro list_emb_append_mono) (simp_all add: d_def)
next
  have map: "map_of (tables d) m = map_option (\<lambda>t. t\<lparr>partitions := removeAll n (partitions t)\<rparr>) (map_of (tables c) m)" for m
    by (simp add: d_def map_of_map_value)
  have ext: "extends c d" by (auto simp: extends_def map) (simp_all add: d_def)
  {
    fix m t assume "(m, t) \<in> set (tables d)"
    then obtain u where u: "(m, u) \<in> set (tables c)" "t = u\<lparr>partitions := removeAll n (partitions u)\<rparr>"
      by (auto simp: d_def)
    from wf_tableD [OF wf_table_mono [OF ext wf_catalogD(2) [OF wf u(1)]]]
    show "wf_table d t"
      by (intro wf_tableI) (auto simp: u(2) wf_key_def not_null_def wf_foreign_key_def)
  }
  show "(i, ix) \<in> set (indexes d) \<Longrightarrow> wf_index d ix" for i ix
    using wf_catalogD(3) [OF wf] wf_index_mono [OF ext] by (simp add: d_def)
  show "(v, reads) \<in> set (views d) \<Longrightarrow> wf_view d reads" for v reads
    using wf_catalogD(4) [OF wf] wf_view_mono [OF ext] by (simp add: d_def)
qed

lemma drop_table_wf:
  assumes "wf_catalog c" and "drop_table n ie c = Inr d"
  shows "wf_catalog d"
  using assms drop_whole_table_wf [OF assms(1)] drop_partition_wf [OF assms(1)]
  by (auto simp: drop_table_def split: if_splits)

text \<open>Dropping a column that no foreign key, view or policy reads.\<close>

lemma strip_column_simps [simp]:
  "set (column_names (strip_column name t)) = set (column_names t) - {name}"
  "keys (strip_column name t) = filter (\<lambda>(_, k). name \<notin> set (key_columns k)) (keys t)"
  "partitions (strip_column name t) = partitions t"
  "policies (strip_column name t) = policies t" "triggers (strip_column name t) = triggers t"
  "partition_key (strip_column name t) = partition_key t"
  by (simp_all add: strip_column_def column_names_def set_map_fst_without)

lemma drop_column_wf:
  assumes wf: "wf_catalog c" and d: "drop_column n name c = Inr d"
  shows "wf_catalog d"
proof -
  obtain t where t: "map_of (tables c) n = Some t" and free: "\<not> column_in_use c n name"
    and d_def: "d = (change_table n (strip_column name) c)\<lparr>indexes :=
       filter (\<lambda>(_, ix). \<not> (ix_table ix = n \<and> name \<in> set (index_columns ix))) (indexes c)\<rparr>"
    using d by (auto simp: drop_column_def elim!: on_tableE split: if_splits)
  have map: "map_of (tables d) m = (if m = n then map_option (strip_column name) (map_of (tables c) m)
      else map_of (tables c) m)" for m
    by (simp add: d_def map_of_adjust)
  have cols: "has_columns d m xs" if "has_columns c m xs" "m = n \<Longrightarrow> name \<notin> set xs" for m xs
    using that t by (auto simp: has_columns_iff map)
  have refs: "references d m xs" if "references c m xs" "m = n \<Longrightarrow> name \<notin> set xs" for m xs
    using that t by (fastforce simp: references_def map split: option.splits)
  show ?thesis
  proof (rule wf_remove [OF wf])
    have "subseq (concat (map (\<lambda>(_, t). names (keys t) @ partitions t) (adjust n (strip_column name) ts)))
        (concat (map (\<lambda>(_, t). names (keys t) @ partitions t) ts))" for ts
      by (induction ts) (auto intro!: list_emb_append_mono)
    then show "subseq (relation_names d) (relation_names c)"
      by (auto simp: relation_names_def d_def intro!: list_emb_append_mono)
  next
    fix m u assume "(m, u) \<in> set (tables d)"
    then obtain w where w: "(m, w) \<in> set (tables c)" "u = (if m = n then strip_column name w else w)"
      by (auto simp: d_def elim: in_adjustE)
    have "wf_table d w"
    proof (rule wf_table_transfer [OF wf_catalogD(2) [OF wf w(1)]])
      fix k fk assume "(k, fk) \<in> set (foreign_keys w)" and "references c (fk_table fk) (fk_refs fk)"
      then show "references d (fk_table fk) (fk_refs fk)"
        using refs free w(1) by (fastforce simp: column_in_use_def)
    qed (simp_all add: default_ok_iff d_def)
    note ok = wf_tableD [OF this]
    show "wf_table d u"
    proof (cases "m = n")
      case True
      then have wt: "w = t" using w t wf_distinct_tables [OF wf] by (metis map_of_is_SomeI option.inject)
      have nn: "not_null (strip_column name t) k" if "not_null t k" "k \<noteq> name" for k
        using that by (simp add: not_null_def strip_column_def map_of_without)
      have "wf_table d (strip_column name t)"
      proof (rule wf_tableI)
        show "distinct (column_names (strip_column name t))"
          using ok(1) by (simp add: wt strip_column_def column_names_def distinct_without)
        show "distinct (constraint_names (strip_column name t))"
          using ok(2) unfolding wt by (rule subseq_distinctD [rotated])
            (auto simp: constraint_names_def strip_column_def intro!: list_emb_append_mono)
        show "wf_key (strip_column name t) k" if "(i, k) \<in> set (keys (strip_column name t))" for i k
          using that ok(4) nn unfolding wt by (fastforce simp: wf_key_def)
        show "wf_foreign_key d (strip_column name t) fk" if "(i, fk) \<in> set (foreign_keys (strip_column name t))" for i fk
          using that ok(5) [of i fk] unfolding wt by (auto simp: wf_foreign_key_def strip_column_def column_names_def set_map_fst_without)
        show "set (predicate_columns p) \<subseteq> set (column_names (strip_column name t))"
          if "(i, p) \<in> set (checks (strip_column name t))" for i p
          using that ok(6) [of i p] unfolding wt by (auto simp: strip_column_def column_names_def set_map_fst_without)
        show "set (predicate_columns (pol_predicate p)) \<subseteq> set (column_names (strip_column name t))"
          if "(i, p) \<in> set (policies (strip_column name t))" for i p
          using that ok(8) [of i p] free t unfolding wt by (auto simp: column_in_use_def)
        show "set (partition_key (strip_column name t)) \<subseteq> set (column_names (strip_column name t))"
          using ok(9) free t unfolding wt by (auto simp: column_in_use_def)
      qed (use ok(3,7) in \<open>auto simp: wt strip_column_def in_without\<close>)
      then show ?thesis using True w wt by simp
    qed (use w \<open>wf_table d w\<close> in simp)
  next
    fix i ix assume "(i, ix) \<in> set (indexes d)"
    then have ix: "(i, ix) \<in> set (indexes c)" "ix_table ix = n \<Longrightarrow> name \<notin> set (index_columns ix)"
      by (auto simp: d_def)
    then show "wf_index d ix" using wf_catalogD(3) [OF wf ix(1)] cols
      by (auto simp: wf_index_def d_def split: option.splits)
  next
    fix v reads assume "(v, reads) \<in> set (views d)"
    then have v: "(v, reads) \<in> set (views c)" by (simp add: d_def)
    then have "(n, name) \<notin> set reads" using free by (auto simp: column_in_use_def)
    then show "wf_view d reads" using wf_catalogD(4) [OF wf v] cols by (fastforce simp: wf_view_def)
  qed
qed

text \<open>Renaming a table renames it in everything that refers to it.\<close>

lemma map_of_renamed:
  assumes "new \<notin> fst ` set xs" and "n \<noteq> new"
  shows "map_of (map (\<lambda>(m, t). (rename_in old new m, h t)) xs) (rename_in old new n) = map_option h (map_of xs n)"
  using assms by (induction xs) (auto simp: rename_in_def)

lemma rename_table_wf:
  assumes wf: "wf_catalog c" and d: "rename_table old new c = Inr d"
  shows "wf_catalog d"
proof -
  let ?r = "rename_in old new"
  define h where "h t = t\<lparr>foreign_keys := map (\<lambda>(m, fk). (m, fk\<lparr>fk_table := ?r (fk_table fk)\<rparr>)) (foreign_keys t)\<rparr>"
    for t :: table
  have fresh: "new \<notin> set (relation_names c)"
    and d_def: "d = c\<lparr>tables := map (\<lambda>(n, t). (?r n, h t)) (tables c),
       indexes := map (\<lambda>(n, ix). (n, ix\<lparr>ix_table := ?r (ix_table ix)\<rparr>)) (indexes c),
       views := map (\<lambda>(n, reads). (n, map (\<lambda>(t, col). (?r t, col)) reads)) (views c)\<rparr>"
    using d by (auto simp: rename_table_def h_def elim!: on_tableE split: if_splits)
  have new: "new \<notin> fst ` set (tables c)" using fresh by (simp add: relation_names_def)
  have known: "m \<noteq> new" if "map_of (tables c) m = Some t" for m t using new map_of_SomeD [OF that] by force
  have map: "map_of (tables d) (?r m) = map_option h (map_of (tables c) m)" if "m \<noteq> new" for m
    using map_of_renamed [OF new that] by (simp add: d_def)
  have h: "column_names (h t) = column_names t" "constraint_names (h t) = constraint_names t"
      "keys (h t) = keys t" "columns (h t) = columns t" "checks (h t) = checks t" "triggers (h t) = triggers t"
      "policies (h t) = policies t" "partition_key (h t) = partition_key t" "partitions (h t) = partitions t" for t
    by (simp_all add: h_def constraint_names_def comp_def case_prod_beta)
  have cols: "has_columns d (?r m) xs" if "has_columns c m xs" for m xs
    using that known map by (auto simp: has_columns_iff h)
  have refs: "references d (?r m) xs" if "references c m xs" for m xs
    using that known map by (force simp: references_iff h)
  show ?thesis
  proof (rule wf_catalogI)
    have names: "relation_names d = map ?r (names (tables c)) @ drop (length (tables c)) (relation_names c)"
      by (simp add: relation_names_def d_def comp_def case_prod_beta' h)
    have split: "relation_names c = names (tables c) @ drop (length (tables c)) (relation_names c)"
      by (simp add: relation_names_def)
    have "distinct (names (tables c) @ drop (length (tables c)) (relation_names c))"
      using wf_catalogD(1) [OF wf] split by simp
    moreover have "new \<notin> set (names (tables c) @ drop (length (tables c)) (relation_names c))"
      using fresh split by simp
    ultimately have "distinct (map ?r (names (tables c)) @ drop (length (tables c)) (relation_names c))"
      by (auto simp: rename_in_def distinct_map inj_on_def split: if_splits)
    then show "distinct (relation_names d)" by (simp add: names)
  next
    fix n u assume "(n, u) \<in> set (tables d)"
    then obtain m t where t: "(m, t) \<in> set (tables c)" "u = h t" by (auto simp: d_def)
    note ok = wf_tableD [OF wf_catalogD(2) [OF wf t(1)]]
    show "wf_table d u" unfolding t(2)
    proof (rule wf_tableI)
      show "wf_foreign_key d (h t) fk" if "(i, fk) \<in> set (foreign_keys (h t))" for i fk
        using that ok(5) refs by (fastforce simp: wf_foreign_key_def h_def)
      show "wf_key (h t) k" if "(i, k) \<in> set (keys (h t))" for i k
        using that ok(4) by (simp add: wf_key_def h not_null_def)
      show "default_ok d (col_default col)" if "(i, col) \<in> set (columns (h t))" for i col
        using that ok(3) by (simp add: h default_ok_iff d_def)
      show "fn \<in> set (routines d)" if "(i, fn) \<in> set (triggers (h t))" for i fn
        using that ok(7) by (simp add: h d_def)
    qed (use ok(1,2,6,8,9) in \<open>simp_all add: h\<close>)
  next
    fix i jx assume "(i, jx) \<in> set (indexes d)"
    then obtain ix where ix: "(i, ix) \<in> set (indexes c)" "jx = ix\<lparr>ix_table := ?r (ix_table ix)\<rparr>"
      by (auto simp: d_def)
    have "index_columns jx = index_columns ix" by (simp add: ix(2) index_columns_def)
    then show "wf_index d jx" using wf_catalogD(3) [OF wf ix(1)] cols
      by (auto simp: wf_index_def ix(2) d_def split: option.splits)
  next
    fix v rs assume "(v, rs) \<in> set (views d)"
    then obtain reads where v: "(v, reads) \<in> set (views c)" "rs = map (\<lambda>(t, col). (?r t, col)) reads"
      by (auto simp: d_def)
    then show "wf_view d rs" using wf_catalogD(4) [OF wf v(1)] cols by (fastforce simp: wf_view_def)
  qed
qed

section \<open>Every statement\<close>

lemmas statement_wf =
  create_table_wf drop_table_wf create_partition_wf rename_table_wf add_column_wf drop_column_wf set_default_wf
  create_index_wf drop_index_wf add_foreign_key_wf add_check_wf drop_foreign_key_wf drop_check_wf
  create_function_wf drop_function_wf create_trigger_wf drop_trigger_wf create_sequence_wf drop_sequence_wf
  create_extension_wf drop_extension_wf create_view_wf drop_view_wf set_row_security_wf force_row_security_wf
  create_policy_wf drop_policy_wf

lemma effect_wf: "effect s c = Inr d \<Longrightarrow> wf_catalog c \<Longrightarrow> wf_catalog d"
  by (cases s) (auto intro: statement_wf simp: on_table_def split: option.splits)

lemma empty_catalog_wf [simp]: "wf_catalog empty_catalog"
  by (simp add: wf_catalog_def empty_catalog_def relation_names_def)

end
