(* ===== verification/Schema_Undo.thy ===== *)
theory Schema_Undo
  imports Schema_Integrity
begin

text \<open>
  The statement that takes another one back. On a well-formed catalogue where the object of a statement is
  not in place yet, dropping it afterwards restores the catalogue exactly, the order of columns, indexes
  and constraints included: nothing else can refer to an object that did not exist.
\<close>

section \<open>Nothing in place yet\<close>

text \<open>\<open>unopposed s c\<close>: what \<open>s\<close> adds is not there. Statements that fail on an existing object need no condition.\<close>

fun unopposed :: "statement \<Rightarrow> catalog \<Rightarrow> bool" where
  "unopposed (Create_table n items ine) c = (n \<notin> set (relation_names c))"
| "unopposed (Create_index name n cols wh ext concurrently ine) c = (name \<notin> set (relation_names c))"
| "unopposed (Create_partition n parent) c = (n \<notin> set (relation_names c))"
| "unopposed (Create_function fn) c = (fn \<notin> set (routines c))"
| "unopposed (Create_sequence s) c = (s \<notin> set (relation_names c))"
| "unopposed (Create_extension e) c = (e \<notin> set (extensions c))"
| "unopposed (Create_view v reads) c = (v \<notin> set (relation_names c))"
| "unopposed (Drop_trigger name n) c =
     (case map_of (tables c) n of None \<Rightarrow> True | Some t \<Rightarrow> name \<notin> set (names (triggers t)))"
| "unopposed (Set_default n name dflt) c = (case map_of (tables c) n of None \<Rightarrow> True
     | Some t \<Rightarrow> (\<forall>(m, col) \<in> set (columns t). m = name \<longrightarrow> col_default col = None))"
| "unopposed (Set_row_security n b) c =
     (case map_of (tables c) n of None \<Rightarrow> True | Some t \<Rightarrow> \<not> row_security t)"
| "unopposed _ c = True"

text \<open>The statement that takes back, where there is one.\<close>

fun inverse :: "statement \<Rightarrow> statement option" where
  "inverse (Create_table n items ine) = Some (Drop_table n True)"
| "inverse (Create_partition n parent) = Some (Drop_table n True)"
| "inverse (Rename_table old new) = Some (Rename_table new old)"
| "inverse (Add_column n name ty nullable dflt) = Some (Drop_column n name)"
| "inverse (Set_default n name (Some dflt)) = Some (Set_default n name None)"
| "inverse (Create_index name n cols wh ext concurrently ine) = Some (Drop_index name True)"
| "inverse (Add_foreign_key name n target cols refs) = Some (Drop_foreign_key name n)"
| "inverse (Add_check name n p) = Some (Drop_check name n)"
| "inverse (Create_function fn) = Some (Drop_function fn)"
| "inverse (Create_trigger name n fn) = Some (Drop_trigger name n)"
| "inverse (Create_sequence s) = Some (Drop_sequence s)"
| "inverse (Create_extension e) = Some (Drop_extension e)"
| "inverse (Create_view v reads) = Some (Drop_view v)"
| "inverse (Set_row_security n True) = Some (Set_row_security n False)"
| "inverse (Create_policy name n cmd p) = Some (Drop_policy name n)"
| "inverse _ = None"

section \<open>One case per statement\<close>

lemma relation_namesD:
  "n \<notin> set (relation_names c) \<Longrightarrow> n \<notin> fst ` set (tables c)"
  "n \<notin> set (relation_names c) \<Longrightarrow> n \<notin> fst ` set (indexes c)"
  "n \<notin> set (relation_names c) \<Longrightarrow> n \<notin> set (sequences c)"
  "n \<notin> set (relation_names c) \<Longrightarrow> n \<notin> fst ` set (views c)"
  "n \<notin> set (relation_names c) \<Longrightarrow> (m, t) \<in> set (tables c) \<Longrightarrow> n \<notin> set (partitions t)"
  by (auto simp: relation_names_def)

lemma map_of_fst: "map_of xs n = Some v \<Longrightarrow> n \<in> fst ` set xs"
  by (induction xs) (auto split: if_splits)

lemma has_columnsD: "has_columns c n cols \<Longrightarrow> n \<in> fst ` set (tables c)"
  by (auto simp: has_columns_iff dest: map_of_fst)

lemma wf_refers:
  assumes wf: "wf_catalog c"
  shows "(m, t) \<in> set (tables c) \<Longrightarrow> (k, fk) \<in> set (foreign_keys t) \<Longrightarrow> fk_table fk \<in> fst ` set (tables c)"
    and "(i, ix) \<in> set (indexes c) \<Longrightarrow> ix_table ix \<in> fst ` set (tables c)"
    and "(v, reads) \<in> set (views c) \<Longrightarrow> (n, col) \<in> set reads \<Longrightarrow> n \<in> fst ` set (tables c)"
proof -
  show "fk_table fk \<in> fst ` set (tables c)" if "(m, t) \<in> set (tables c)" "(k, fk) \<in> set (foreign_keys t)"
    using wf_tableD(5) [OF wf_catalogD(2) [OF wf that(1)] that(2)]
    by (auto simp: wf_foreign_key_def references_iff dest: map_of_fst)
  show "ix_table ix \<in> fst ` set (tables c)" if "(i, ix) \<in> set (indexes c)"
    using wf_catalogD(3) [OF wf that] by (auto simp: wf_index_def dest: has_columnsD)
  show "n \<in> fst ` set (tables c)" if "(v, reads) \<in> set (views c)" "(n, col) \<in> set reads"
    using wf_catalogD(4) [OF wf that(1)] that(2) by (auto simp: wf_view_def dest: has_columnsD)
qed

lemma filter_all: "(\<And>x. x \<in> set xs \<Longrightarrow> p x) \<Longrightarrow> filter p xs = xs"
  by (simp add: filter_id_conv)

lemma catalog_eqI:
  "tables c = tables d \<Longrightarrow> indexes c = indexes d \<Longrightarrow> sequences c = sequences d \<Longrightarrow> routines c = routines d \<Longrightarrow>
   views c = views d \<Longrightarrow> extensions c = extensions d \<Longrightarrow> c = (d :: catalog)"
  by simp

lemma undo_create_table:
  assumes wf: "wf_catalog c" and new: "n \<notin> set (relation_names c)" and d: "create_table n items ine c = Inr d"
  shows "drop_table n True d = Inr c"
proof -
  obtain t where d_def: "d = c\<lparr>tables := tables c @ [(n, t)]\<rparr>"
    using d new by (auto simp: create_table_def Let_def split: if_splits)
  have n: "n \<notin> fst ` set (tables c)" by (rule relation_namesD(1) [OF new])
  have "\<not> table_in_use d n"
    using wf_refers(1,3) [OF wf] n by (fastforce simp: table_in_use_def d_def)
  moreover have "filter (\<lambda>(_, ix). ix_table ix \<noteq> n) (indexes c) = indexes c"
    using wf_refers(2) [OF wf] n by (intro filter_all) auto
  ultimately show ?thesis using n by (simp add: drop_table_def d_def without_fresh)
qed

lemma undo_create_index:
  assumes new: "name \<notin> set (relation_names c)" and d: "create_index name n cols wh ext ine c = Inr d"
  shows "drop_index name True d = Inr c"
proof -
  obtain ix where d_def: "d = c\<lparr>indexes := indexes c @ [(name, ix)]\<rparr>"
    using d new by (auto simp: create_index_def Let_def elim!: on_tableE split: if_splits)
  show ?thesis using relation_namesD(2) [OF new] by (simp add: drop_index_def d_def without_fresh)
qed

text \<open>\<open>ALTER TABLE\<close> and back.\<close>

lemma change_table_back:
  assumes wf: "wf_catalog c" and t: "map_of (tables c) n = Some t" and same: "h (g t) = t"
  shows "change_table n h (change_table n g c) = c"
proof -
  have "adjust n h (adjust n g (tables c)) = tables c"
    unfolding adjust_adjust
  proof (rule adjust_id)
    fix u assume "(n, u) \<in> set (tables c)"
    then have "u = t" using t wf_distinct_tables [OF wf] by (metis map_of_is_SomeI option.inject)
    then show "h (g u) = u" using same by simp
  qed
  then show ?thesis by (intro catalog_eqI) simp_all
qed

lemma change_table_lookup: "map_of (tables c) n = Some t \<Longrightarrow> map_of (tables (change_table n g c)) n = Some (g t)"
  by (simp add: map_of_adjust)

lemma undo_add_column:
  assumes wf: "wf_catalog c" and d: "add_column n name ty nullable dflt c = Inr d"
  shows "drop_column n name d = Inr c"
proof -
  let ?g = "add_item c n (Column name ty nullable dflt)"
  obtain t where t: "map_of (tables c) n = Some t" and new: "name \<notin> set (column_names t)"
    and d_def: "d = change_table n ?g c"
    using d by (auto simp: add_column_def elim!: on_tableE split: if_splits)
  note ok = wf_tableD [OF wf_map_ofD [OF wf t]]
  have key: "name \<notin> set (key_columns k)" if "(m, k) \<in> set (keys t)" for m k
    using ok(4) [OF that] new by (auto simp: wf_key_def)
  have fk: "name \<notin> set (fk_columns fk)" if "(m, fk) \<in> set (foreign_keys t)" for m fk
    using ok(5) [OF that] new by (auto simp: wf_foreign_key_def)
  have chk: "name \<notin> set (predicate_columns p)" if "(m, p) \<in> set (checks t)" for m p
    using ok(6) [OF that] new by auto
  have "strip_column name (?g t) = t"
  proof -
    have "without name (columns t) = columns t" using new by (simp add: column_names_def without_fresh)
    moreover have "filter (\<lambda>(_, k). name \<notin> set (key_columns k)) (keys t) = keys t"
      by (rule filter_all) (auto dest: key)
    moreover have "filter (\<lambda>(_, fk). name \<notin> set (fk_columns fk)) (foreign_keys t) = foreign_keys t"
      by (rule filter_all) (auto dest: fk)
    moreover have "filter (\<lambda>(_, p). name \<notin> set (predicate_columns p)) (checks t) = checks t"
      by (rule filter_all) (auto dest: chk)
    ultimately show ?thesis by (simp add: strip_column_def)
  qed
  then have old: "change_table n (strip_column name) d = c" unfolding d_def by (rule change_table_back [OF wf t])
  have ix: "filter (\<lambda>(_, ix). \<not> (ix_table ix = n \<and> name \<in> set (index_columns ix))) (indexes c) = indexes c"
  proof (rule filter_all)
    fix x assume x: "x \<in> set (indexes c)"
    obtain i ix where "x = (i, ix)" by fastforce
    with wf_catalogD(3) [OF wf, of i ix] x t new
    show "case x of (_, ix) \<Rightarrow> \<not> (ix_table ix = n \<and> name \<in> set (index_columns ix))"
      by (auto simp: wf_index_def has_columns_def)
  qed
  have refs: False if "(m, u) \<in> set (tables c)" "(k, fk) \<in> set (foreign_keys u)" "fk_table fk = n" "name \<in> set (fk_refs fk)"
    for m u k fk
  proof -
    have "references c n (fk_refs fk)"
      using wf_tableD(5) [OF wf_catalogD(2) [OF wf that(1)] that(2)] that(3) by (simp add: wf_foreign_key_def)
    then obtain i k where "(i, k) \<in> set (keys t)" "key_columns k = fk_refs fk" using t by (auto simp: references_def)
    then show False using key [of i k] that(4) by simp
  qed
  have view: False if "(v, reads) \<in> set (views c)" "(n, name) \<in> set reads" for v reads
    using wf_catalogD(4) [OF wf that(1)] that(2) t new by (fastforce simp: wf_view_def has_columns_def)
  have "\<not> (\<exists>(_, u) \<in> set (tables d). \<exists>(_, fk) \<in> set (foreign_keys u). fk_table fk = n \<and> name \<in> set (fk_refs fk))"
    using refs by (auto simp: d_def elim!: in_adjustE split: if_splits) blast+
  moreover have "\<not> (\<exists>(_, p) \<in> set (policies t). name \<in> set (predicate_columns (pol_predicate p)))"
    using ok(8) new by blast
  ultimately have "\<not> column_in_use d n name"
    using view ok(9) new t by (auto simp: column_in_use_def d_def map_of_adjust)
  then show ?thesis
    using old ix t by (simp add: drop_column_def on_table_def d_def map_of_adjust)
qed

lemma undo_add_foreign_key:
  assumes wf: "wf_catalog c" and d: "add_foreign_key name n target cols refs c = Inr d"
  shows "drop_foreign_key name n d = Inr c"
proof -
  obtain t fk where t: "map_of (tables c) n = Some t" and new: "name \<notin> set (constraint_names t)"
    and d_def: "d = change_table n (\<lambda>t. t\<lparr>foreign_keys := foreign_keys t @ [(name, fk)]\<rparr>) c"
    using d by (auto simp: add_foreign_key_def Let_def elim!: on_tableE split: if_splits)
  have "change_table n (\<lambda>t. t\<lparr>foreign_keys := without name (foreign_keys t)\<rparr>) d = c"
    unfolding d_def using new by (intro change_table_back [OF wf t]) (simp add: constraint_names_def without_fresh)
  then show ?thesis using t by (simp add: drop_foreign_key_def on_table_def d_def map_of_adjust)
qed

lemma undo_add_check:
  assumes wf: "wf_catalog c" and d: "add_check name n p c = Inr d"
  shows "drop_check name n d = Inr c"
proof -
  obtain t where t: "map_of (tables c) n = Some t" and new: "name \<notin> set (constraint_names t)"
    and d_def: "d = change_table n (\<lambda>t. t\<lparr>checks := checks t @ [(name, p)]\<rparr>) c"
    using d by (auto simp: add_check_def elim!: on_tableE split: if_splits)
  have "change_table n (\<lambda>t. t\<lparr>checks := without name (checks t)\<rparr>) d = c"
    unfolding d_def using new by (intro change_table_back [OF wf t]) (simp add: constraint_names_def without_fresh)
  then show ?thesis using t by (simp add: drop_check_def on_table_def d_def map_of_adjust)
qed

lemma undo_create_trigger:
  assumes wf: "wf_catalog c" and d: "create_trigger name n fn c = Inr d"
  shows "drop_trigger name n d = Inr c"
proof -
  obtain t where t: "map_of (tables c) n = Some t" and new: "name \<notin> set (names (triggers t))"
    and d_def: "d = change_table n (\<lambda>t. t\<lparr>triggers := triggers t @ [(name, fn)]\<rparr>) c"
    using d by (auto simp: create_trigger_def elim!: on_tableE split: if_splits)
  have "change_table n (\<lambda>t. t\<lparr>triggers := without name (triggers t)\<rparr>) d = c"
    unfolding d_def using new by (intro change_table_back [OF wf t]) (simp add: without_fresh)
  then show ?thesis by (simp add: drop_trigger_def)
qed

lemma undo_create_policy:
  assumes wf: "wf_catalog c" and d: "create_policy name n cmd p c = Inr d"
  shows "drop_policy name n d = Inr c"
proof -
  obtain t where t: "map_of (tables c) n = Some t" and new: "name \<notin> set (names (policies t))"
    and d_def: "d = change_table n
      (\<lambda>t. t\<lparr>policies := policies t @ [(name, \<lparr>pol_command = cmd, pol_predicate = p\<rparr>)]\<rparr>) c"
    using d by (auto simp: create_policy_def elim!: on_tableE split: if_splits)
  have "change_table n (\<lambda>t. t\<lparr>policies := without name (policies t)\<rparr>) d = c"
    unfolding d_def using new by (intro change_table_back [OF wf t]) (simp add: without_fresh)
  then show ?thesis by (simp add: drop_policy_def)
qed

lemma undo_set_default:
  assumes wf: "wf_catalog c" and un: "unopposed (Set_default n name (Some dflt)) c"
    and d: "set_default n name (Some dflt) c = Inr d"
  shows "set_default n name None d = Inr c"
proof -
  obtain t where t: "map_of (tables c) n = Some t" and col: "name \<in> set (column_names t)"
    and d_def: "d = change_table n (\<lambda>t. t\<lparr>columns := adjust name (\<lambda>col. col\<lparr>col_default := Some dflt\<rparr>) (columns t)\<rparr>) c"
    using d by (auto simp: set_default_def elim!: on_tableE split: if_splits)
  have "adjust name (\<lambda>col. col\<lparr>col_default := None\<rparr>) (adjust name (\<lambda>col. col\<lparr>col_default := Some dflt\<rparr>) (columns t))
      = columns t"
    unfolding adjust_adjust using un t by (intro adjust_id) auto
  then have "change_table n (\<lambda>t. t\<lparr>columns := adjust name (\<lambda>col. col\<lparr>col_default := None\<rparr>) (columns t)\<rparr>) d = c"
    unfolding d_def by (intro change_table_back [OF wf t]) simp
  then show ?thesis using t col by (simp add: set_default_def on_table_def d_def map_of_adjust)
qed

lemma undo_set_row_security:
  assumes wf: "wf_catalog c" and un: "unopposed (Set_row_security n True) c"
    and d: "set_row_security n True c = Inr d"
  shows "set_row_security n False d = Inr c"
proof -
  obtain t where t: "map_of (tables c) n = Some t" and d_def: "d = change_table n (\<lambda>t. t\<lparr>row_security := True\<rparr>) c"
    using d by (auto simp: set_row_security_def elim!: on_tableE)
  have "change_table n (\<lambda>t. t\<lparr>row_security := False\<rparr>) d = c"
    unfolding d_def using un t by (intro change_table_back [OF wf t]) simp
  then show ?thesis using t by (simp add: set_row_security_def on_table_def d_def map_of_adjust)
qed

text \<open>Functions, sequences, extensions and views.\<close>

lemma removeAll_new: "x \<notin> set xs \<Longrightarrow> removeAll x xs = xs"
  by (induction xs) auto

lemma undo_create_function:
  assumes wf: "wf_catalog c" and new: "fn \<notin> set (routines c)" and d: "create_function fn c = Inr d"
  shows "drop_function fn d = Inr c"
proof -
  have d_def: "d = c\<lparr>routines := routines c @ [fn]\<rparr>" using d new by (simp add: create_function_def)
  have "g \<noteq> fn" if "(m, t) \<in> set (tables c)" "(k, g) \<in> set (triggers t)" for m t k g
    using wf_tableD(7) [OF wf_catalogD(2) [OF wf that(1)] that(2)] new by auto
  then show ?thesis using new by (auto simp: drop_function_def d_def removeAll_new)
qed

lemma undo_create_sequence:
  assumes wf: "wf_catalog c" and new: "s \<notin> set (relation_names c)" and d: "create_sequence s c = Inr d"
  shows "drop_sequence s d = Inr c"
proof -
  have d_def: "d = c\<lparr>sequences := sequences c @ [s]\<rparr>" using d new by (simp add: create_sequence_def)
  have s: "s \<notin> set (sequences c)" by (rule relation_namesD(3) [OF new])
  have "col_default col \<noteq> Some (Default_ticket_number s)" if "(m, t) \<in> set (tables c)" "(k, col) \<in> set (columns t)" for m t k col
    using wf_tableD(3) [OF wf_catalogD(2) [OF wf that(1)] that(2)] s by (auto simp: default_ok_iff)
  then show ?thesis using s by (fastforce simp: drop_sequence_def d_def removeAll_new)
qed

lemma undo_create_extension:
  assumes wf: "wf_catalog c" and new: "e \<notin> set (extensions c)" and d: "create_extension e c = Inr d"
  shows "drop_extension e d = Inr c"
proof -
  have d_def: "d = c\<lparr>extensions := extensions c @ [e]\<rparr>" using d new by (simp add: create_extension_def)
  have "ix_extension ix \<noteq> Some e" if "(i, ix) \<in> set (indexes c)" for i ix
    using wf_catalogD(3) [OF wf that] new by (auto simp: wf_index_def)
  then show ?thesis using new by (fastforce simp: drop_extension_def d_def removeAll_new)
qed

lemma undo_create_view:
  assumes new: "v \<notin> set (relation_names c)" and d: "create_view v reads c = Inr d"
  shows "drop_view v d = Inr c"
  using d new relation_namesD(4) [OF new]
  by (auto simp: create_view_def drop_view_def without_fresh split: if_splits)

lemma undo_create_partition:
  assumes wf: "wf_catalog c" and new: "n \<notin> set (relation_names c)" and d: "create_partition n parent c = Inr d"
  shows "drop_table n True d = Inr c"
proof -
  obtain t where t: "map_of (tables c) parent = Some t"
    and d_def: "d = change_table parent (\<lambda>t. t\<lparr>partitions := partitions t @ [n]\<rparr>) c"
    using d new by (auto simp: create_partition_def elim!: on_tableE split: if_splits)
  have tabs: "n \<notin> fst ` set (tables d)" using relation_namesD(1) [OF new] by (simp add: d_def adjust_def image_iff case_prod_beta)
  have "(parent, t\<lparr>partitions := partitions t @ [n]\<rparr>) \<in> set (tables d)"
    using map_of_SomeD [OF change_table_lookup [OF t]] by (simp only: d_def)
  then have "\<exists>(_, t) \<in> set (tables d). n \<in> set (partitions t)" by force
  moreover have "map (\<lambda>(m, t). (m, t\<lparr>partitions := removeAll n (partitions t)\<rparr>)) (tables d) = tables c"
    using relation_namesD(5) [OF new] by (auto simp: d_def adjust_def removeAll_new intro!: map_idI)
  ultimately show ?thesis using tabs by (simp add: drop_table_def) (simp add: d_def)
qed

text \<open>Renaming back.\<close>

lemma rename_back: "x \<noteq> new \<Longrightarrow> rename_in new old (rename_in old new x) = x"
  by (simp add: rename_in_def)

lemma undo_rename_table:
  assumes wf: "wf_catalog c" and d: "rename_table old new c = Inr d"
  shows "rename_table new old d = Inr c"
proof -
  let ?r = "rename_in old new"
  obtain t where old: "map_of (tables c) old = Some t" and fresh: "new \<notin> set (relation_names c)"
    and d_def: "d = c\<lparr>tables := map (\<lambda>(n, t). (?r n, t\<lparr>foreign_keys :=
                   map (\<lambda>(m, fk). (m, fk\<lparr>fk_table := ?r (fk_table fk)\<rparr>)) (foreign_keys t)\<rparr>)) (tables c),
                 indexes := map (\<lambda>(n, ix). (n, ix\<lparr>ix_table := ?r (ix_table ix)\<rparr>)) (indexes c),
                 views := map (\<lambda>(n, reads). (n, map (\<lambda>(t, col). (?r t, col)) reads)) (views c)\<rparr>"
    using d by (auto simp: rename_table_def elim!: on_tableE split: if_splits)
  have known: "n \<noteq> new" if "n \<in> fst ` set (tables c)" for n using that relation_namesD(1) [OF fresh] by auto
  define h where "h t = t\<lparr>foreign_keys := map (\<lambda>(m, fk). (m, fk\<lparr>fk_table := ?r (fk_table fk)\<rparr>)) (foreign_keys t)\<rparr>"
    for t :: table
  have "tables d = map (\<lambda>(n, t). (?r n, h t)) (tables c)" by (simp add: d_def h_def)
  then have "map_of (tables d) (?r old) \<noteq> None"
    using map_of_renamed [OF relation_namesD(1) [OF fresh] known [OF map_of_fst [OF old]], of old h] old by simp
  then obtain u where u: "map_of (tables d) new = Some u" by (auto simp: rename_in_def)
  have rest: "drop (length (tables c)) (relation_names d) = drop (length (tables c)) (relation_names c)"
    by (simp add: relation_names_def d_def comp_def case_prod_beta')
  have split: "relation_names c = names (tables c) @ drop (length (tables c)) (relation_names c)"
    "relation_names d = names (tables d) @ drop (length (tables c)) (relation_names d)"
    by (simp_all add: relation_names_def d_def)
  have "old \<notin> set (drop (length (tables c)) (relation_names c))"
    using wf_catalogD(1) [OF wf] map_of_fst [OF old] split(1) by (metis disjoint_iff distinct_append image_set)
  moreover have "old \<notin> fst ` set (tables d)"
    using known [OF map_of_fst [OF old]] by (auto simp: d_def rename_in_def split: if_splits)
  ultimately have free: "old \<notin> set (relation_names d)"
    using split(2) rest by (metis Un_iff image_set set_append)
  let ?b = "rename_in new old"
  have again: "?b (?r n) = n" if "n \<in> fst ` set (tables c)" for n using rename_back known [OF that] by blast
  have fks: "map (\<lambda>(m, fk). (m, fk\<lparr>fk_table := ?b (fk_table fk)\<rparr>)) (foreign_keys (h t)) = foreign_keys t"
    if "(n, t) \<in> set (tables c)" for n t
    using wf_refers(1) [OF wf that] again by (auto simp: h_def intro!: map_idI)
  have tabs: "map (\<lambda>(n, t). (?b n, t\<lparr>foreign_keys :=
      map (\<lambda>(m, fk). (m, fk\<lparr>fk_table := ?b (fk_table fk)\<rparr>)) (foreign_keys t)\<rparr>)) (map (\<lambda>(n, t). (?r n, h t)) (tables c))
    = tables c"
  proof (simp only: map_map, rule map_idI)
    fix x assume x: "x \<in> set (tables c)"
    obtain n t where nt: "x = (n, t)" by fastforce
    have "(h t)\<lparr>foreign_keys := foreign_keys t\<rparr> = t" by (simp add: h_def)
    moreover have "n \<in> fst ` set (tables c)" using x nt by force
    ultimately show "((\<lambda>(n, t). (?b n, t\<lparr>foreign_keys :=
        map (\<lambda>(m, fk). (m, fk\<lparr>fk_table := ?b (fk_table fk)\<rparr>)) (foreign_keys t)\<rparr>)) \<circ> (\<lambda>(n, t). (?r n, h t))) x = x"
      using fks [of n t] again x by (simp add: nt)
  qed
  then have "map (\<lambda>(n, t). (?b n, t\<lparr>foreign_keys :=
      map (\<lambda>(m, fk). (m, fk\<lparr>fk_table := ?b (fk_table fk)\<rparr>)) (foreign_keys t)\<rparr>)) (tables d) = tables c"
    by (simp add: d_def h_def)
  moreover have "map (\<lambda>(n, ix). (n, ix\<lparr>ix_table := rename_in new old (ix_table ix)\<rparr>)) (indexes d) = indexes c"
    using again wf_refers(2) [OF wf] by (auto simp: d_def intro!: map_idI)
  moreover have "map (\<lambda>(n, reads). (n, map (\<lambda>(t, col). (rename_in new old t, col)) reads)) (views d) = views c"
    using again wf_refers(3) [OF wf] by (auto simp: d_def intro!: map_idI)
  ultimately show ?thesis using u free by (simp add: rename_table_def on_table_def) (simp add: d_def)
qed

section \<open>The statement that takes back\<close>

lemma undo:
  assumes wf: "wf_catalog c" and un: "unopposed s c" and d: "effect s c = Inr d" and s: "inverse s = Some s'"
  shows "effect s' d = Inr c"
  using un d s undo_create_table [OF wf] undo_create_index undo_create_partition [OF wf] undo_add_column [OF wf]
    undo_add_foreign_key [OF wf] undo_add_check [OF wf] undo_create_trigger [OF wf] undo_create_policy [OF wf]
    undo_set_default [OF wf] undo_set_row_security [OF wf] undo_create_function [OF wf] undo_create_sequence [OF wf]
    undo_create_extension [OF wf] undo_create_view undo_rename_table [OF wf]
  by (induction s rule: inverse.induct) auto

end
