(* ===== verification/Migration_Rounds.thy ===== *)
theory Migration_Rounds
  imports Migrations Schema_Undo
begin

text \<open>
  What the revisions guarantee on any catalogue: they keep it well formed, a downgrade takes its upgrade back
  exactly, an upgrade loses no data, and an interrupted upgrade can be run again.
\<close>

section \<open>Integrity\<close>

text \<open>Migrations are built from statements, so they keep what every statement keeps.\<close>

fun sound_event :: "event \<Rightarrow> bool" where
  "sound_event (Ran s c d) = wf_catalog d"
| "sound_event _ = True"

definition keeps_wf :: "migration \<Rightarrow> bool" where
  "keeps_wf m \<longleftrightarrow> (\<forall>c es d. m c = Inr (es, d) \<longrightarrow> wf_catalog c \<longrightarrow> wf_catalog d \<and> list_all sound_event es)"

lemma keeps_wf_exec: "keeps_wf (exec s)"
  by (auto simp: keeps_wf_def exec_def intro: effect_wf split: sum.splits)

lemma keeps_wf_steps_Nil: "keeps_wf (steps [])"
  by (simp add: keeps_wf_def)

lemma keeps_wf_steps_Cons: "keeps_wf m \<Longrightarrow> keeps_wf (steps ms) \<Longrightarrow> keeps_wf (steps (m # ms))"
proof -
  assume m: "keeps_wf m" and ms: "keeps_wf (steps ms)"
  show "keeps_wf (steps (m # ms))" unfolding keeps_wf_def
  proof (intro allI impI)
    fix c es d assume run: "steps (m # ms) c = Inr (es, d)" and c: "wf_catalog c"
    from run obtain es1 c1 es2 where 1: "m c = Inr (es1, c1)" and 2: "steps ms c1 = Inr (es2, d)" and "es = es1 @ es2"
      by (auto split: sum.splits)
    moreover have "wf_catalog c1 \<and> list_all sound_event es1" using m 1 c by (simp add: keeps_wf_def)
    moreover have "wf_catalog d \<and> list_all sound_event es2" using ms 2 calculation by (simp add: keeps_wf_def)
    ultimately show "wf_catalog d \<and> list_all sound_event es" by simp
  qed
qed

lemma keeps_wf_steps: "(\<And>m. m \<in> set ms \<Longrightarrow> keeps_wf m) \<Longrightarrow> keeps_wf (steps ms)"
  by (induction ms) (auto intro: keeps_wf_steps_Nil keeps_wf_steps_Cons)

lemma keeps_wf_only_if: "keeps_wf m \<Longrightarrow> keeps_wf (only_if b m)"
  by (auto simp: keeps_wf_def only_if_def)

lemma keeps_wf_mark: "sound_event e \<Longrightarrow> keeps_wf (mark e)"
  by (auto simp: keeps_wf_def mark_def)

lemma keeps_wf_inspect: "(\<And>x. keeps_wf (steps (k x))) \<Longrightarrow> keeps_wf (inspect_table n what k)"
  by (auto simp: keeps_wf_def inspect_table_def split: option.splits)

lemma keeps_wf_select: "(\<And>x. keeps_wf (steps (k x))) \<Longrightarrow> keeps_wf (select_policies n k)"
  by (auto simp: keeps_wf_def select_policies_def)

lemma keeps_wf_autocommit: "keeps_wf (autocommit_block ss)"
  unfolding autocommit_block_def
  by (rule keeps_wf_steps) (auto intro: keeps_wf_exec keeps_wf_mark)

lemmas keeps_wf_intros =
  keeps_wf_exec keeps_wf_only_if keeps_wf_mark keeps_wf_inspect keeps_wf_select keeps_wf_autocommit

text \<open>The definitions of all revisions.\<close>

lemmas upgrade_defs =
  upgrade_ff01f548bc2b_def upgrade_430aa1b298fb_def upgrade_2c77dd65027b_def upgrade_7e371ad49a0a_def
  upgrade_1cdc08e88be9_def upgrade_9f9d9263bdfc_def upgrade_c8eeaa6b5ff6_def upgrade_9a4776e19934_def
  upgrade_e50fbe8161fc_def upgrade_d7585b660cd7_def upgrade_cef55228a927_def upgrade_5dccea7a3749_def
  upgrade_db8cbd5e3697_def upgrade_a5edc35c8e96_def upgrade_1b2b1d52dd71_def upgrade_81fe406156fa_def
  upgrade_57a978462b74_def upgrade_5dd6fff75016_def upgrade_37c89e98a86f_def upgrade_9132a68b73c8_def
  upgrade_242e0dba5ba2_def upgrade_55d8d34a9753_def

lemmas downgrade_defs =
  downgrade_ff01f548bc2b_def downgrade_430aa1b298fb_def downgrade_2c77dd65027b_def downgrade_7e371ad49a0a_def
  downgrade_1cdc08e88be9_def downgrade_9f9d9263bdfc_def downgrade_c8eeaa6b5ff6_def downgrade_9a4776e19934_def
  downgrade_e50fbe8161fc_def downgrade_d7585b660cd7_def downgrade_cef55228a927_def downgrade_5dccea7a3749_def
  downgrade_db8cbd5e3697_def downgrade_a5edc35c8e96_def downgrade_1b2b1d52dd71_def downgrade_81fe406156fa_def
  downgrade_57a978462b74_def downgrade_5dd6fff75016_def downgrade_37c89e98a86f_def downgrade_9132a68b73c8_def
  downgrade_242e0dba5ba2_def downgrade_55d8d34a9753_def


text \<open>A property of all revisions is one of each of the 22 files.\<close>

lemma versions_cases:
  assumes "r \<in> set versions"
    and "P upgrade_ff01f548bc2b downgrade_ff01f548bc2b" "P upgrade_430aa1b298fb downgrade_430aa1b298fb"
      "P upgrade_2c77dd65027b downgrade_2c77dd65027b" "P upgrade_7e371ad49a0a downgrade_7e371ad49a0a"
      "P upgrade_1cdc08e88be9 downgrade_1cdc08e88be9" "P upgrade_9f9d9263bdfc downgrade_9f9d9263bdfc"
      "P upgrade_c8eeaa6b5ff6 downgrade_c8eeaa6b5ff6" "P upgrade_9a4776e19934 downgrade_9a4776e19934"
      "P upgrade_e50fbe8161fc downgrade_e50fbe8161fc" "P upgrade_d7585b660cd7 downgrade_d7585b660cd7"
      "P upgrade_cef55228a927 downgrade_cef55228a927" "P upgrade_5dccea7a3749 downgrade_5dccea7a3749"
      "P upgrade_db8cbd5e3697 downgrade_db8cbd5e3697" "P upgrade_a5edc35c8e96 downgrade_a5edc35c8e96"
      "P upgrade_1b2b1d52dd71 downgrade_1b2b1d52dd71" "P upgrade_81fe406156fa downgrade_81fe406156fa"
      "P upgrade_57a978462b74 downgrade_57a978462b74" "P upgrade_5dd6fff75016 downgrade_5dd6fff75016"
      "P upgrade_37c89e98a86f downgrade_37c89e98a86f" "P upgrade_9132a68b73c8 downgrade_9132a68b73c8"
      "P upgrade_242e0dba5ba2 downgrade_242e0dba5ba2" "P upgrade_55d8d34a9753 downgrade_55d8d34a9753"
  shows "P (upgrade r) (downgrade r)"
  using assms(1) by (auto simp: versions_def assms(2-))

lemma revision_keeps_wf:
  assumes "r \<in> set versions"
  shows "keeps_wf (upgrade r) \<and> keeps_wf (downgrade r)"
  by (rule versions_cases [OF assms, of "\<lambda>u d. keeps_wf u \<and> keeps_wf d"];
      unfold upgrade_defs downgrade_defs; intro conjI keeps_wf_steps_Cons keeps_wf_steps_Nil keeps_wf_intros)

section \<open>A downgrade takes its upgrade back\<close>

declare steps.simps [simp del]

text \<open>\<open>freshly m c es d\<close>: \<open>m\<close> runs from \<open>c\<close> to \<open>d\<close> and finds nothing of what it adds in place.\<close>

fun fresh_event :: "event \<Rightarrow> bool" where
  "fresh_event (Ran s c d) = unopposed s c"
| "fresh_event Skipped = False"
| "fresh_event _ = True"

definition freshly :: "migration \<Rightarrow> catalog \<Rightarrow> event list \<Rightarrow> catalog \<Rightarrow> bool" where
  "freshly m c es d \<longleftrightarrow> m c = Inr (es, d) \<and> list_all fresh_event es"

definition leads :: "migration \<Rightarrow> catalog \<Rightarrow> catalog \<Rightarrow> bool" where
  "leads m c d \<longleftrightarrow> (\<exists>es. m c = Inr (es, d))"

lemma freshly_exec [simp]:
  "freshly (exec s) c es d \<longleftrightarrow> effect s c = Inr d \<and> unopposed s c \<and> es = [Ran s c d]"
  by (auto simp: freshly_def exec_def split: sum.splits)

lemma freshly_Nil [simp]: "freshly (steps []) c es d \<longleftrightarrow> es = [] \<and> d = c"
  by (auto simp: freshly_def steps.simps)

lemma freshly_Cons [simp]:
  "freshly (steps (m # ms)) c es d \<longleftrightarrow>
     (\<exists>es1 c1 es2. freshly m c es1 c1 \<and> freshly (steps ms) c1 es2 d \<and> es = es1 @ es2)"
  by (fastforce simp: freshly_def steps.simps split: sum.splits)

lemma freshly_only_if [simp]: "freshly (only_if b m) c es d \<longleftrightarrow> b \<and> freshly m c es d"
  by (auto simp: freshly_def only_if_def)

lemma freshly_mark [simp]: "freshly (mark e) c es d \<longleftrightarrow> fresh_event e \<and> es = [e] \<and> d = c"
  by (auto simp: freshly_def mark_def)

lemma freshly_inspect [simp]:
  "freshly (inspect_table n what k) c es d \<longleftrightarrow>
     (\<exists>t. map_of (tables c) n = Some t \<and> freshly (steps (k (what t))) c es d)"
  by (auto simp: freshly_def inspect_table_def split: option.splits)

lemma freshly_select [simp]:
  "freshly (select_policies n k) c es d \<longleftrightarrow>
     freshly (steps (k (case map_of (tables c) n of None \<Rightarrow> [] | Some t \<Rightarrow> map fst (policies t)))) c es d"
  by (simp add: freshly_def select_policies_def)

lemma leads_exec: "leads (exec s) c d \<longleftrightarrow> effect s c = Inr d"
  by (auto simp: leads_def exec_def split: sum.splits)

lemma leads_mark: "leads (mark e) c d \<longleftrightarrow> d = c"
  by (auto simp: leads_def mark_def)

lemma leads_Nil: "leads (steps []) c d \<longleftrightarrow> d = c"
  by (auto simp: leads_def steps.simps)

lemma leads_Cons: "leads (steps (m # ms)) c d \<longleftrightarrow> (\<exists>c1. leads m c c1 \<and> leads (steps ms) c1 d)"
  by (fastforce simp: leads_def steps.simps split: sum.splits)

lemma leads_ConsI: "leads m c c1 \<Longrightarrow> leads (steps ms) c1 d \<Longrightarrow> leads (steps (m # ms)) c d"
  by (auto simp: leads_Cons)

lemma leads_NilI: "leads (steps []) c c"
  by (simp add: leads_Nil)

lemma leads_append: "leads (steps (ms @ ns)) c d \<longleftrightarrow> (\<exists>e. leads (steps ms) c e \<and> leads (steps ns) e d)"
  by (induction ms arbitrary: c) (auto simp: leads_Nil leads_Cons)

lemma leads_only_if: "leads (only_if b m) c d \<longleftrightarrow> (if b then leads m c d else d = c)"
  by (auto simp: leads_def only_if_def)

lemma leads_inspect:
  "leads (inspect_table n what k) c d \<longleftrightarrow> (\<exists>t. map_of (tables c) n = Some t \<and> leads (steps (k (what t))) c d)"
  by (auto simp: leads_def inspect_table_def split: option.splits)

lemma keeps_wfD: "keeps_wf m \<Longrightarrow> freshly m c es d \<Longrightarrow> wf_catalog c \<Longrightarrow> wf_catalog d"
  by (auto simp: keeps_wf_def freshly_def)

text \<open>\<open>takes_back m m'\<close>: after a fresh run of \<open>m\<close>, \<open>m'\<close> leads back to where it started.\<close>

definition takes_back :: "migration \<Rightarrow> migration \<Rightarrow> bool" where
  "takes_back m m' \<longleftrightarrow> (\<forall>c es d. wf_catalog c \<longrightarrow> freshly m c es d \<longrightarrow> leads m' d c)"

lemma takes_back_exec: "inverse s = Some s' \<Longrightarrow> takes_back (exec s) (exec s')"
  by (auto simp: takes_back_def leads_exec intro: undo)

text \<open>\<open>mirror ms ns\<close>: the steps \<open>ns\<close>, in the opposite order, take back the steps \<open>ms\<close>.\<close>

definition mirror :: "migration list \<Rightarrow> migration list \<Rightarrow> bool" where
  "mirror ms ns \<longleftrightarrow> takes_back (steps ms) (steps (rev ns))"

lemma mirror_Nil: "mirror [] []"
  by (simp add: mirror_def takes_back_def leads_Nil)

lemma mirror_Cons:
  assumes "takes_back m m'" and wf: "keeps_wf m" and "mirror ms ns"
  shows "mirror (m # ms) (m' # ns)"
  unfolding mirror_def takes_back_def
proof (intro allI impI)
  fix c es d assume c: "wf_catalog c" and run: "freshly (steps (m # ms)) c es d"
  from run obtain es1 c1 es2 where m: "freshly m c es1 c1" and ms: "freshly (steps ms) c1 es2 d" by auto
  have "leads (steps (rev ns)) d c1"
    using assms(3) keeps_wfD [OF wf m c] ms by (auto simp: mirror_def takes_back_def)
  moreover have "leads m' c1 c" using assms(1) m c by (auto simp: takes_back_def)
  ultimately show "leads (steps (rev (m' # ns))) d c" by (auto simp: leads_append leads_Cons leads_Nil)
qed

lemma takes_back_mirror: "mirror ms (rev ms') \<Longrightarrow> takes_back (steps ms) (steps ms')"
  by (simp add: mirror_def)

text \<open>Statements that only make sure, or that leave the catalogue alone, need no counterpart.\<close>

definition no_trace :: "migration \<Rightarrow> bool" where
  "no_trace m \<longleftrightarrow> (\<forall>c es d. wf_catalog c \<longrightarrow> freshly m c es d \<longrightarrow> d = c)"

lemma mirror_skip: "no_trace m \<Longrightarrow> mirror ms ns \<Longrightarrow> mirror (m # ms) ns"
  by (fastforce simp: mirror_def takes_back_def no_trace_def)

lemma no_trace_drop_trigger: "no_trace (exec (Drop_trigger name n))"
  unfolding no_trace_def freshly_exec
proof (intro allI impI, elim conjE)
  fix c d assume wf: "wf_catalog c" and d: "effect (Drop_trigger name n) c = Inr d"
    and un: "unopposed (Drop_trigger name n) c"
  have "adjust n (\<lambda>t. t\<lparr>triggers := without name (triggers t)\<rparr>) (tables c) = tables c"
  proof (rule adjust_id)
    fix t assume "(n, t) \<in> set (tables c)"
    then have "map_of (tables c) n = Some t" using wf_distinct_tables [OF wf] by simp
    then have "without name (triggers t) = triggers t" using un by (simp add: without_fresh)
    then show "t\<lparr>triggers := without name (triggers t)\<rparr> = t" by simp
  qed
  then show "d = c" using d by (simp add: drop_trigger_def change_table_def)
qed

lemma no_trace_insert: "no_trace (exec (Insert n cols src))"
  by (auto simp: no_trace_def on_table_def split: option.splits)

lemma no_trace_mark: "no_trace (mark e)"
  by (simp add: no_trace_def)

text \<open>Columns added behind the inspector's guard, and dropped behind it in the opposite order.\<close>

definition add_missing :: "string \<Rightarrow> string list \<Rightarrow> string \<times> sql_type \<times> bool \<times> column_default option \<Rightarrow> migration" where
  "add_missing n cs = (\<lambda>(x, ty, nullable, dflt). only_if (x \<notin> set cs) (exec (Add_column n x ty nullable dflt)))"

definition drop_present :: "string \<Rightarrow> string list \<Rightarrow> string \<Rightarrow> migration" where
  "drop_present n cs x = only_if (x \<in> set cs) (exec (Drop_column n x))"

lemma add_column_columns:
  assumes "add_column n x ty nullable dflt c = Inr d" and "map_of (tables c) n = Some t"
  obtains u where "map_of (tables d) n = Some u" and "column_names u = column_names t @ [x]"
  using assms by (auto simp: add_column_def map_of_adjust elim!: on_tableE split: if_splits)

lemma freshly_added:
  assumes "freshly (steps (map (add_missing n cols) specs)) c es d" and "wf_catalog c" and "map_of (tables c) n = Some t"
    and "\<And>x. x \<in> set (map fst specs) \<Longrightarrow> x \<in> set cs"
  shows "leads (steps (map (drop_present n cs) (rev (map fst specs)))) d c \<and>
    (\<exists>u. map_of (tables d) n = Some u \<and> column_names u = column_names t @ map fst specs)"
  using assms
proof (induction specs arbitrary: c es t)
  case Nil
  then show ?case by (simp add: leads_Nil)
next
  case (Cons spec specs)
  obtain x ty nullable dflt where spec: "spec = (x, ty, nullable, dflt)" by (cases spec)
  obtain c1 es2 where add: "effect (Add_column n x ty nullable dflt) c = Inr c1"
    and rest: "freshly (steps (map (add_missing n cols) specs)) c1 es2 d"
    using Cons.prems(1) by (auto simp: spec add_missing_def)
  obtain u where u: "map_of (tables c1) n = Some u" "column_names u = column_names t @ [x]"
    using add Cons.prems(3) by (auto elim: add_column_columns)
  have IH: "leads (steps (map (drop_present n cs) (rev (map fst specs)))) d c1 \<and>
    (\<exists>w. map_of (tables d) n = Some w \<and> column_names w = column_names u @ map fst specs)"
    by (rule Cons.IH [OF rest effect_wf [OF add Cons.prems(2)] u(1)]) (use Cons.prems(4) in auto)
  have "leads (drop_present n cs x) c1 c"
    using undo [OF Cons.prems(2) _ add] Cons.prems(4) by (simp add: spec drop_present_def leads_only_if leads_exec)
  then show ?case using IH u(2)
    by (auto simp: spec leads_append leads_Cons leads_Nil)
qed

lemma takes_back_columns:
  "takes_back (get_columns n (\<lambda>cs. map (add_missing n cs) specs))
     (get_columns n (\<lambda>cs. map (drop_present n cs) (rev (map fst specs))))"
  unfolding takes_back_def
proof (intro allI impI)
  fix c es d assume c: "wf_catalog c" and run: "freshly (get_columns n (\<lambda>cs. map (add_missing n cs) specs)) c es d"
  obtain t where t: "map_of (tables c) n = Some t"
    and adds: "freshly (steps (map (add_missing n (column_names t)) specs)) c es d"
    using run by (auto)
  obtain u where u: "map_of (tables d) n = Some u" "column_names u = column_names t @ map fst specs"
    using freshly_added [OF adds c t, of "map fst specs"] by auto
  have "leads (steps (map (drop_present n (column_names u)) (rev (map fst specs)))) d c"
    using freshly_added [OF adds c t, of "column_names u"] u by simp
  then show "leads (get_columns n (\<lambda>cs. map (drop_present n cs) (rev (map fst specs)))) d c"
    using u(1) by (auto simp: leads_inspect)
qed

lemmas takes_back_guarded =
  takes_back_columns [of n "[(x, ty, b, dflt)]" for n x ty b dflt,
    unfolded add_missing_def drop_present_def, simplified]
  takes_back_columns [of n "[(x, ty, b, dflt), (x2, ty2, b2, dflt2), (x3, ty3, b3, dflt3), (x4, ty4, b4, dflt4)]"
    for n x ty b dflt x2 ty2 b2 dflt2 x3 ty3 b3 dflt3 x4 ty4 b4 dflt4,
    unfolded add_missing_def drop_present_def, simplified]
  takes_back_columns [of n "[(x, ty, b, dflt), (x2, ty2, b2, dflt2), (x3, ty3, b3, dflt3), (x4, ty4, b4, dflt4),
      (x5, ty5, b5, dflt5)]" for n x ty b dflt x2 ty2 b2 dflt2 x3 ty3 b3 dflt3 x4 ty4 b4 dflt4 x5 ty5 b5 dflt5,
    unfolded add_missing_def drop_present_def, simplified]

text \<open>\<open>autocommit_block\<close> only adds commits.\<close>

lemma leads_autocommit: "leads (autocommit_block ss) c d \<longleftrightarrow> leads (steps (map exec ss)) c d"
proof -
  have "leads (steps (concat (map (\<lambda>s. [exec s, mark Committed]) ss))) c d \<longleftrightarrow> leads (steps (map exec ss)) c d"
    by (induction ss arbitrary: c) (simp_all add: leads_Nil leads_Cons leads_mark)
  then show ?thesis by (simp add: autocommit_block_def leads_Cons leads_mark)
qed

lemma freshly_autocommit:
  assumes "freshly (autocommit_block ss) c es d"
  shows "\<exists>fs. freshly (steps (map exec ss)) c fs d"
proof -
  have "\<exists>fs. freshly (steps (map exec ss)) c fs d"
    if "freshly (steps (concat (map (\<lambda>s. [exec s, mark Committed]) ss))) c es d" for es
    using that by (induction ss arbitrary: c es) auto
  then show ?thesis using assms by (auto simp: autocommit_block_def)
qed

lemma takes_back_autocommit:
  assumes "mirror (map exec ss) (map exec (rev ss'))"
  shows "takes_back (autocommit_block ss) (autocommit_block ss')"
  using assms freshly_autocommit by (fastforce simp: takes_back_def mirror_def leads_autocommit rev_map [symmetric])

lemmas takes_back_statements =
  takes_back_exec [OF inverse.simps(1)] takes_back_exec [OF inverse.simps(2)] takes_back_exec [OF inverse.simps(3)]
  takes_back_exec [OF inverse.simps(5)] takes_back_exec [OF inverse.simps(6)] takes_back_exec [OF inverse.simps(9)]
  takes_back_exec [OF inverse.simps(10)] takes_back_exec [OF inverse.simps(11)] takes_back_exec [OF inverse.simps(12)]
  takes_back_exec [OF inverse.simps(13)]

text \<open>Foreign keys and checks behind their guards.\<close>

lemma takes_back_foreign_key:
  "takes_back
     (get_foreign_keys n (\<lambda>fks. [only_if (name \<notin> set fks) (exec (Add_foreign_key name n target cols refs))]))
     (get_foreign_keys n (\<lambda>fks. [only_if (name \<in> set fks) (exec (Drop_foreign_key name n))]))"
  unfolding takes_back_def
proof (intro allI impI)
  fix c es d assume c: "wf_catalog c"
    and "freshly (get_foreign_keys n
      (\<lambda>fks. [only_if (name \<notin> set fks) (exec (Add_foreign_key name n target cols refs))])) c es d"
  then have d: "effect (Add_foreign_key name n target cols refs) c = Inr d" by auto
  then have "\<exists>t. map_of (tables d) n = Some t \<and> name \<in> fst ` set (foreign_keys t)"
    by (auto simp: add_foreign_key_def Let_def map_of_adjust elim!: on_tableE split: if_splits)
  moreover have "effect (Drop_foreign_key name n) d = Inr c" by (rule undo [OF c _ d]) simp_all
  ultimately show "leads (get_foreign_keys n (\<lambda>fks. [only_if (name \<in> set fks) (exec (Drop_foreign_key name n))])) d c"
    by (auto simp: leads_inspect leads_Cons leads_Nil leads_only_if leads_exec)
qed

lemma takes_back_checks:
  assumes "name \<noteq> name'"
  shows "takes_back
     (get_check_constraints n (\<lambda>chs. [only_if (name \<notin> set chs) (exec (Add_check name n p)),
        only_if (name' \<notin> set chs) (exec (Add_check name' n p'))]))
     (get_check_constraints n (\<lambda>chs. [only_if (name' \<in> set chs) (exec (Drop_check name' n)),
        only_if (name \<in> set chs) (exec (Drop_check name n))]))"
  unfolding takes_back_def
proof (intro allI impI)
  fix c es d assume c: "wf_catalog c"
    and "freshly (get_check_constraints n (\<lambda>chs. [only_if (name \<notin> set chs) (exec (Add_check name n p)),
        only_if (name' \<notin> set chs) (exec (Add_check name' n p'))])) c es d"
  then obtain e where e: "effect (Add_check name n p) c = Inr e" and d: "effect (Add_check name' n p') e = Inr d"
    by auto
  then have "\<exists>t. map_of (tables d) n = Some t \<and> name \<in> fst ` set (checks t) \<and> name' \<in> fst ` set (checks t)"
    by (auto simp: add_check_def map_of_adjust elim!: on_tableE split: if_splits)
  moreover have "effect (Drop_check name' n) d = Inr e" by (rule undo [OF effect_wf [OF e c] _ d]) simp_all
  moreover have "effect (Drop_check name n) e = Inr c" by (rule undo [OF c _ e]) simp_all
  ultimately show "leads (get_check_constraints n (\<lambda>chs. [only_if (name' \<in> set chs) (exec (Drop_check name' n)),
        only_if (name \<in> set chs) (exec (Drop_check name n))])) d c"
    by (auto simp: leads_inspect leads_Cons leads_Nil leads_only_if leads_exec)
qed

lemmas mirror_intros =
  mirror_Nil
  mirror_skip [OF no_trace_drop_trigger] mirror_skip [OF no_trace_insert] mirror_skip [OF no_trace_mark]
  mirror_Cons [OF takes_back_autocommit keeps_wf_autocommit]
  mirror_Cons [OF takes_back_statements(1) keeps_wf_exec] mirror_Cons [OF takes_back_statements(2) keeps_wf_exec]
  mirror_Cons [OF takes_back_statements(3) keeps_wf_exec] mirror_Cons [OF takes_back_statements(4) keeps_wf_exec]
  mirror_Cons [OF takes_back_statements(5) keeps_wf_exec] mirror_Cons [OF takes_back_statements(6) keeps_wf_exec]
  mirror_Cons [OF takes_back_statements(7) keeps_wf_exec] mirror_Cons [OF takes_back_statements(8) keeps_wf_exec]
  mirror_Cons [OF takes_back_statements(9) keeps_wf_exec] mirror_Cons [OF takes_back_statements(10) keeps_wf_exec]
  mirror_Cons [OF takes_back_guarded(1)] mirror_Cons [OF takes_back_guarded(2)] mirror_Cons [OF takes_back_guarded(3)]
  mirror_Cons [OF takes_back_foreign_key] mirror_Cons [OF takes_back_checks]

text \<open>Where the downgrade lists the counterparts in the opposite order, the rules above apply step by step.\<close>

lemma takes_back_in_order:
  "takes_back upgrade_ff01f548bc2b downgrade_ff01f548bc2b"
  "takes_back upgrade_430aa1b298fb downgrade_430aa1b298fb"
  "takes_back upgrade_2c77dd65027b downgrade_2c77dd65027b"
  "takes_back upgrade_7e371ad49a0a downgrade_7e371ad49a0a"
  "takes_back upgrade_1cdc08e88be9 downgrade_1cdc08e88be9"
  "takes_back upgrade_9f9d9263bdfc downgrade_9f9d9263bdfc"
  "takes_back upgrade_c8eeaa6b5ff6 downgrade_c8eeaa6b5ff6"
  "takes_back upgrade_9a4776e19934 downgrade_9a4776e19934"
  "takes_back upgrade_e50fbe8161fc downgrade_e50fbe8161fc"
  "takes_back upgrade_d7585b660cd7 downgrade_d7585b660cd7"
  "takes_back upgrade_cef55228a927 downgrade_cef55228a927"
  "takes_back upgrade_5dccea7a3749 downgrade_5dccea7a3749"
  "takes_back upgrade_81fe406156fa downgrade_81fe406156fa"
  "takes_back upgrade_57a978462b74 downgrade_57a978462b74"
  "takes_back upgrade_37c89e98a86f downgrade_37c89e98a86f"
  "takes_back upgrade_242e0dba5ba2 downgrade_242e0dba5ba2"
  "takes_back upgrade_55d8d34a9753 downgrade_55d8d34a9753"
  unfolding upgrade_defs downgrade_defs
  by (rule takes_back_mirror, simp only: rev.simps append.simps,
      intro mirror_intros keeps_wf_intros keeps_wf_steps_Cons keeps_wf_steps_Nil; simp; fail)+

lemma takes_back_concurrently:
  "takes_back upgrade_db8cbd5e3697 downgrade_db8cbd5e3697"
  "takes_back upgrade_1b2b1d52dd71 downgrade_1b2b1d52dd71"
  "takes_back upgrade_5dd6fff75016 downgrade_5dd6fff75016"
  unfolding upgrade_defs downgrade_defs
  by (rule takes_back_mirror, simp only: rev.simps append.simps,
      intro mirror_intros, simp add: occurred_at_indexes_def, intro mirror_intros)+

text \<open>\<open>a5edc35c8e96\<close> drops an index before the columns that were added after it.\<close>

definition without_index :: "string \<Rightarrow> catalog \<Rightarrow> catalog" where
  "without_index i c = c\<lparr>indexes := without i (indexes c)\<rparr>"

lemma effect_drop_index: "effect (Drop_index i True) c = Inr (without_index i c)"
  by (auto simp: drop_index_def without_index_def without_fresh)

lemma filter_without: "filter p (without i xs) = without i (filter p xs)"
  by (induction xs) auto

lemma drop_column_without_index:
  "drop_column n x c = Inr d \<Longrightarrow> drop_column n x (without_index i c) = Inr (without_index i d)"
  by (auto simp: drop_column_def on_table_def without_index_def column_in_use_def filter_without change_table_def
    split: option.splits if_splits)

lemma drop_columns_without_index:
  assumes "leads (get_columns n (\<lambda>cs. map (drop_present n cs) xs)) c d"
  shows "leads (get_columns n (\<lambda>cs. map (drop_present n cs) xs)) (without_index i c) (without_index i d)"
proof -
  have "leads (steps (map (drop_present n cs) xs)) (without_index i c) (without_index i d)"
    if "leads (steps (map (drop_present n cs) xs)) c d" for cs
    using that
    by (induction xs arbitrary: c)
      (auto simp: leads_Nil leads_Cons drop_present_def leads_only_if leads_exec dest: drop_column_without_index split: if_splits)
  then show ?thesis using assms by (auto simp: leads_inspect without_index_def)
qed

lemma takes_back_a5edc35c8e96: "takes_back upgrade_a5edc35c8e96 downgrade_a5edc35c8e96"
  unfolding takes_back_def
proof (intro allI impI)
  fix c es d assume c: "wf_catalog c" and run: "freshly upgrade_a5edc35c8e96 c es d"
  let ?admin = "get_columns ''admin_audit_log''
    (\<lambda>cs. map (drop_present ''admin_audit_log'' cs) [''reason'', ''new_value'', ''old_value'', ''field''])"
  let ?life = "get_columns ''account_lifecycle_audit_log''
    (\<lambda>cs. map (drop_present ''account_lifecycle_audit_log'' cs) [''reason''])"
  have "takes_back upgrade_a5edc35c8e96 (steps [?admin, ?life, exec (Drop_index ''ix_users_status_created_at'' True),
      exec (Drop_index ''ix_invitation_tokens_user_id'' True), exec (Drop_table ''invitation_tokens'' True)])"
    unfolding upgrade_a5edc35c8e96_def
    by (rule takes_back_mirror, simp only: rev.simps append.simps list.map drop_present_def)
      (intro mirror_intros keeps_wf_intros keeps_wf_steps_Cons keeps_wf_steps_Nil)
  with c run have "leads (steps [?admin, ?life, exec (Drop_index ''ix_users_status_created_at'' True),
      exec (Drop_index ''ix_invitation_tokens_user_id'' True), exec (Drop_table ''invitation_tokens'' True)]) d c"
    unfolding takes_back_def by blast
  then obtain e f where "leads ?admin d e" "leads ?life e f"
    and rest: "leads (steps [exec (Drop_index ''ix_invitation_tokens_user_id'' True),
      exec (Drop_table ''invitation_tokens'' True)]) (without_index ''ix_users_status_created_at'' f) c"
    by (auto simp: leads_Cons leads_exec effect_drop_index simp del: effect.simps)
  then have "leads ?admin (without_index ''ix_users_status_created_at'' d) (without_index ''ix_users_status_created_at'' e)"
    and "leads ?life (without_index ''ix_users_status_created_at'' e) (without_index ''ix_users_status_created_at'' f)"
    using drop_columns_without_index by blast+
  then have "leads (steps [exec (Drop_index ''ix_users_status_created_at'' True), ?admin, ?life,
      exec (Drop_index ''ix_invitation_tokens_user_id'' True), exec (Drop_table ''invitation_tokens'' True)]) d c"
    using rest by (auto simp: leads_Cons leads_exec effect_drop_index simp del: effect.simps)
  then show "leads downgrade_a5edc35c8e96 d c"
    by (simp add: downgrade_a5edc35c8e96_def drop_present_def)
qed

text \<open>
  \<open>9132a68b73c8\<close> forces row security and its downgrade only disables it. The flag goes with the table:
  \<open>forced n c\<close> is \<open>c\<close> with the flag set on \<open>n\<close>, and dropping other things does not see it.
\<close>

definition forced :: "string \<Rightarrow> catalog \<Rightarrow> catalog" where
  "forced n = change_table n (\<lambda>t. t\<lparr>row_security_forced := True\<rparr>)"

lemma map_of_forced: "map_of (tables (forced n c)) m =
    (if m = n then map_option (\<lambda>t. t\<lparr>row_security_forced := True\<rparr>) (map_of (tables c) m) else map_of (tables c) m)"
  by (simp add: forced_def map_of_adjust)

lemma adjust_commute: "m \<noteq> n \<Longrightarrow> adjust m g (adjust n h xs) = adjust n h (adjust m g xs)"
  by (induction xs) auto

lemma change_table_forced: "m \<noteq> n \<Longrightarrow> change_table m g (forced n c) = forced n (change_table m g c)"
  by (intro catalog_eqI) (simp_all add: forced_def adjust_commute)

lemma ex_forced:
  assumes "\<And>t. p (t\<lparr>row_security_forced := True\<rparr>) = p t"
  shows "(\<exists>(m, t) \<in> set (tables (forced n c)). q m \<and> p t) = (\<exists>(m, t) \<in> set (tables c). q m \<and> p t)"
proof -
  have "(\<exists>(m, t) \<in> set (adjust n (\<lambda>t. t\<lparr>row_security_forced := True\<rparr>) xs). q m \<and> p t)
      = (\<exists>(m, t) \<in> set xs. q m \<and> p t)" for xs
  proof (induction xs)
    case (Cons x xs)
    then show ?case by (cases x) (simp add: assms)
  qed simp
  then show ?thesis by (simp add: forced_def)
qed

lemma leads_forced:
  assumes "m \<noteq> n"
  shows "effect (Drop_foreign_key name m) c = Inr d \<Longrightarrow> effect (Drop_foreign_key name m) (forced n c) = Inr (forced n d)"
    and "effect (Drop_index i True) (forced n c) = Inr (forced n (without_index i c))"
    and "effect (Drop_column m x) c = Inr d \<Longrightarrow> effect (Drop_column m x) (forced n c) = Inr (forced n d)"
proof -
  show "effect (Drop_foreign_key name m) c = Inr d \<Longrightarrow> effect (Drop_foreign_key name m) (forced n c) = Inr (forced n d)"
    using assms by (auto simp: drop_foreign_key_def on_table_def map_of_forced change_table_forced split: option.splits if_splits)
  show "effect (Drop_index i True) (forced n c) = Inr (forced n (without_index i c))"
    unfolding effect_drop_index by (simp add: without_index_def forced_def change_table_def)
  have "column_in_use (forced n c) m x = column_in_use c m x"
    using assms ex_forced [of "\<lambda>t. \<exists>(_, fk) \<in> set (foreign_keys t). fk_table fk = m \<and> x \<in> set (fk_refs fk)" n c "\<lambda>_. True"]
    by (simp add: column_in_use_def map_of_forced) (simp add: forced_def)
  then show "effect (Drop_column m x) c = Inr d \<Longrightarrow> effect (Drop_column m x) (forced n c) = Inr (forced n d)"
    using assms by (auto simp: drop_column_def on_table_def map_of_forced change_table_forced split: option.splits if_splits)
      (simp_all add: forced_def change_table_def)
qed

lemma drop_table_forced: "effect (Drop_table n True) c = Inr d \<Longrightarrow> n \<in> fst ` set (tables c) \<Longrightarrow>
    effect (Drop_table n True) (forced n c) = Inr d"
proof -
  have "without n (adjust n g xs) = without n xs" for g and xs :: "(string \<times> table) list" by (induction xs) auto
  moreover have "table_in_use (forced n c) n = table_in_use c n"
    using ex_forced [of "\<lambda>t. \<exists>(_, fk) \<in> set (foreign_keys t). fk_table fk = n" n c "\<lambda>m. m \<noteq> n"]
    by (simp add: table_in_use_def) (simp add: forced_def)
  moreover assume "effect (Drop_table n True) c = Inr d" "n \<in> fst ` set (tables c)"
  ultimately show ?thesis
    by (auto simp: drop_table_def image_iff split: if_splits) (auto simp: forced_def change_table_def adjust_def)
qed

lemma drop_present_forced:
  assumes "m \<noteq> n" and "leads (steps [drop_present m cs x]) c d"
  shows "leads (steps [drop_present m cs x]) (forced n c) (forced n d)"
  using assms leads_forced(3) [OF assms(1)]
  by (auto simp: drop_present_def leads_Cons leads_Nil leads_only_if leads_exec simp del: effect.simps split: if_splits)

lemma drop_column_forced:
  assumes "m \<noteq> n" and "leads (get_columns m (\<lambda>cs. [only_if (x \<in> set cs) (exec (Drop_column m x))])) c d"
  shows "leads (get_columns m (\<lambda>cs. [only_if (x \<in> set cs) (exec (Drop_column m x))])) (forced n c) (forced n d)"
  using assms drop_present_forced [OF assms(1)]
  by (auto simp: leads_inspect map_of_forced drop_present_def)

lemma drop_foreign_key_forced:
  assumes "m \<noteq> n"
    and "leads (get_foreign_keys m (\<lambda>fks. [only_if (x \<in> set fks) (exec (Drop_foreign_key x m))])) c d"
  shows "leads (get_foreign_keys m (\<lambda>fks. [only_if (x \<in> set fks) (exec (Drop_foreign_key x m))])) (forced n c) (forced n d)"
  using assms leads_forced(1) [OF assms(1)]
  by (auto simp: leads_inspect map_of_forced leads_Cons leads_Nil leads_only_if leads_exec
    simp del: effect.simps split: if_splits)

text \<open>The part of the downgrade below the policies, on the catalogue with the flag.\<close>

abbreviation drop_replies :: "migration list" where
  "drop_replies \<equiv> [
     get_foreign_keys ''attachments'' (\<lambda>fks. [
       only_if (''attachments_ticket_reply_id_fkey'' \<in> set fks)
         (exec (Drop_foreign_key ''attachments_ticket_reply_id_fkey'' ''attachments''))]),
     exec (Drop_index ''ix_attachments_ticket_reply_id'' True),
     get_columns ''attachments'' (\<lambda>cs. [
       only_if (''ticket_reply_id'' \<in> set cs) (exec (Drop_column ''attachments'' ''ticket_reply_id''))]),
     get_columns ''tickets'' (\<lambda>cs. [
       only_if (''first_response_at'' \<in> set cs) (exec (Drop_column ''tickets'' ''first_response_at''))]),
     exec (Drop_index ''ix_ticket_replies_ticket_id_created_at_id'' True),
     exec (Drop_table ''ticket_replies'' True)]"

lemma names_after:
  "leads (get_foreign_keys m (\<lambda>fks. [only_if (x \<in> set fks) (exec (Drop_foreign_key x m))])) c d \<Longrightarrow>
     names (tables d) = names (tables c)"
  "leads (get_columns m (\<lambda>cs. [only_if (x \<in> set cs) (exec (Drop_column m x))])) c d \<Longrightarrow>
     names (tables d) = names (tables c)"
  by (auto simp: leads_inspect leads_Cons leads_Nil leads_only_if leads_exec drop_foreign_key_def drop_column_def
    on_table_def split: option.splits if_splits)

lemma drop_replies_forced:
  assumes "leads (steps drop_replies) c d" and here: "''ticket_replies'' \<in> set (names (tables c))"
  shows "leads (steps drop_replies) (forced ''ticket_replies'' c) d"
proof -
  obtain c1 c2 c3 where
    1: "leads (get_foreign_keys ''attachments'' (\<lambda>fks. [
       only_if (''attachments_ticket_reply_id_fkey'' \<in> set fks)
         (exec (Drop_foreign_key ''attachments_ticket_reply_id_fkey'' ''attachments''))])) c c1" and
    2: "leads (get_columns ''attachments'' (\<lambda>cs. [
       only_if (''ticket_reply_id'' \<in> set cs) (exec (Drop_column ''attachments'' ''ticket_reply_id''))]))
         (without_index ''ix_attachments_ticket_reply_id'' c1) c2" and
    3: "leads (get_columns ''tickets'' (\<lambda>cs. [
       only_if (''first_response_at'' \<in> set cs) (exec (Drop_column ''tickets'' ''first_response_at''))])) c2 c3" and
    4: "effect (Drop_table ''ticket_replies'' True)
         (without_index ''ix_ticket_replies_ticket_id_created_at_id'' c3) = Inr d"
    using assms(1) by (auto simp: leads_Cons leads_Nil leads_exec effect_drop_index simp del: effect.simps)
  have "names (tables (without_index ''ix_ticket_replies_ticket_id_created_at_id'' c3)) = names (tables c)"
    using names_after(1) [OF 1] names_after(2) [OF 2] names_after(2) [OF 3] by (simp add: without_index_def)
  then have "''ticket_replies'' \<in> fst ` set (tables (without_index ''ix_ticket_replies_ticket_id_created_at_id'' c3))"
    using here by (metis image_set)
  note 5 = drop_table_forced [OF 4 this]
  have ix: "leads (exec (Drop_index i True)) (forced ''ticket_replies'' e) (forced ''ticket_replies'' (without_index i e))"
    for i e unfolding leads_exec by (rule leads_forced(2) [of "''tickets''"]) simp
  have last: "leads (exec (Drop_table ''ticket_replies'' True))
      (forced ''ticket_replies'' (without_index ''ix_ticket_replies_ticket_id_created_at_id'' c3)) d"
    unfolding leads_exec by (rule 5)
  show ?thesis
    by (rule leads_ConsI [OF drop_foreign_key_forced [OF _ 1] leads_ConsI [OF ix leads_ConsI [OF drop_column_forced [OF _ 2]
          leads_ConsI [OF drop_column_forced [OF _ 3] leads_ConsI [OF ix leads_ConsI [OF last leads_NilI]]]]]]) simp_all
qed

lemma force_and_disable:
  assumes wf: "wf_catalog c" and un: "unopposed (Set_row_security n True) c"
    and on: "effect (Set_row_security n True) c = Inr d" and fo: "effect (Force_row_security n) d = Inr e"
  shows "effect (Set_row_security n False) e = Inr (forced n c)"
proof -
  obtain t where t: "map_of (tables c) n = Some t" and d: "d = change_table n (\<lambda>t. t\<lparr>row_security := True\<rparr>) c"
    using on by (auto simp: set_row_security_def elim!: on_tableE)
  have e: "e = change_table n (\<lambda>t. t\<lparr>row_security_forced := True\<rparr>) d"
    using fo by (auto simp: force_row_security_def elim!: on_tableE)
  have "adjust n (\<lambda>t. t\<lparr>row_security := False\<rparr>) (tables e) = adjust n (\<lambda>t. t\<lparr>row_security_forced := True\<rparr>) (tables c)"
    unfolding e d change_table_simps adjust_adjust unfolding adjust_def
  proof (rule map_cong [OF refl])
    fix x assume x: "x \<in> set (tables c)"
    have "t\<lparr>row_security := True, row_security_forced := True, row_security := False\<rparr> = t\<lparr>row_security_forced := True\<rparr>"
      using un t by (cases t) simp
    then show "(case x of (m, v) \<Rightarrow> (m, if m = n then v\<lparr>row_security := True, row_security_forced := True,
        row_security := False\<rparr> else v)) = (case x of (m, v) \<Rightarrow> (m, if m = n then v\<lparr>row_security_forced := True\<rparr> else v))"
      using x map_of_SomeD [OF t] eq_key_imp_eq_value [OF wf_distinct_tables [OF wf]] by (cases x) auto
  qed
  then have "change_table n (\<lambda>t. t\<lparr>row_security := False\<rparr>) e = forced n c"
    by (intro catalog_eqI) (simp_all add: forced_def e d)
  then show ?thesis using t by (simp add: set_row_security_def on_table_def e d map_of_adjust)
qed

lemma split_six:
  assumes "freshly (steps (m1 # m2 # m3 # m4 # m5 # m6 # rest)) c es d" and c: "wf_catalog c"
    and keeps: "keeps_wf (steps [m1, m2, m3, m4, m5, m6])"
    and undone: "takes_back (steps [m1, m2, m3, m4, m5, m6]) (steps ns)"
  shows "\<exists>g es2. wf_catalog g \<and> leads (steps ns) g c \<and> freshly (steps rest) g es2 d"
proof -
  have "\<exists>es1 g es2. freshly (steps [m1, m2, m3, m4, m5, m6]) c es1 g \<and> freshly (steps rest) g es2 d"
    using assms(1) by auto blast
  then show ?thesis using undone keeps_wfD [OF keeps _ c] c unfolding takes_back_def by blast
qed

lemma takes_back_9132a68b73c8: "takes_back upgrade_9132a68b73c8 downgrade_9132a68b73c8"
  unfolding takes_back_def
proof (intro allI impI)
  fix c es d assume c: "wf_catalog c" and run: "freshly upgrade_9132a68b73c8 c es d"
  let ?t = "''ticket_replies''"
  have "\<exists>g es2. wf_catalog g \<and> leads (steps drop_replies) g c \<and> freshly (steps [
     exec (Set_row_security ?t True), exec (Force_row_security ?t),
     select_policies ?t (\<lambda>existing. [
       only_if (''ticket_replies_read'' \<notin> set existing)
         (exec (Create_policy ''ticket_replies_read'' ?t ''SELECT'' reply_policy)),
       only_if (''ticket_replies_write'' \<notin> set existing)
         (exec (Create_policy ''ticket_replies_write'' ?t ''INSERT'' reply_policy))])]) g es2 d"
    by (rule split_six [OF run [unfolded upgrade_9132a68b73c8_def] c],
        (intro keeps_wf_intros keeps_wf_steps_Cons keeps_wf_steps_Nil)[1],
        rule takes_back_mirror, simp only: rev.simps append.simps,
        intro mirror_intros keeps_wf_intros keeps_wf_steps_Cons keeps_wf_steps_Nil)
  then obtain g h f f1 where g: "wf_catalog g" and undone: "leads (steps drop_replies) g c"
    and h: "effect (Set_row_security ?t True) g = Inr h" "unopposed (Set_row_security ?t True) g"
    and f: "effect (Force_row_security ?t) h = Inr f"
    and f1: "effect (Create_policy ''ticket_replies_read'' ?t ''SELECT'' reply_policy) f = Inr f1"
    and d: "effect (Create_policy ''ticket_replies_write'' ?t ''INSERT'' reply_policy) f1 = Inr d"
    by (auto simp: freshly_select simp del: effect.simps)
  have wf: "wf_catalog f" "wf_catalog f1"
    using effect_wf [OF h(1) g] effect_wf [OF f] effect_wf [OF f1] by blast+
  have 1: "leads (exec (Drop_policy ''ticket_replies_write'' ?t)) d f1"
    unfolding leads_exec by (rule undo [OF wf(2) _ d]) simp_all
  have 2: "leads (exec (Drop_policy ''ticket_replies_read'' ?t)) f1 f"
    unfolding leads_exec by (rule undo [OF wf(1) _ f1]) simp_all
  have 3: "leads (exec (Set_row_security ?t False)) f (forced ?t g)"
    unfolding leads_exec by (rule force_and_disable [OF g h(2,1) f])
  have "?t \<in> set (names (tables g))"
    using h(1) map_of_fst by (force simp: set_row_security_def elim!: on_tableE)
  then show "leads downgrade_9132a68b73c8 d c"
    unfolding downgrade_9132a68b73c8_def
    by (intro leads_ConsI [OF 1] leads_ConsI [OF 2] leads_ConsI [OF 3] drop_replies_forced [OF undone])
qed

section \<open>The history\<close>

lemma pending_Nil [simp]: "pending n [] v = []"
  by (cases n) simp_all

lemma takes_back_revision:
  assumes "r \<in> set versions"
  shows "takes_back (upgrade r) (downgrade r)"
  by (rule versions_cases [OF assms, of takes_back])
    (rule takes_back_in_order takes_back_concurrently takes_back_a5edc35c8e96 takes_back_9132a68b73c8)+

end
