(* ===== verification/Migration_History.thy ===== *)
theory Migration_History
  imports Migration_Rounds
begin

text \<open>
  Whole runs of the migration tool: the order of the revisions, \<open>alembic upgrade head\<close> followed by
  \<open>alembic downgrade base\<close>, and runs that are cut off and started again.
\<close>

section \<open>The first and the last revision\<close>

text \<open>What the first revision makes of an empty database.\<close>

definition users_table :: table where
  "users_table = \<lparr>
     columns = [
       (''id'', \<lparr>col_type = Uuid, col_nullable = False, col_default = None\<rparr>),
       (''email'', \<lparr>col_type = Varchar 320, col_nullable = False, col_default = None\<rparr>),
       (''hashed_password'', \<lparr>col_type = Varchar 255, col_nullable = False, col_default = None\<rparr>),
       (''status'', \<lparr>col_type = Varchar 32, col_nullable = False, col_default = None\<rparr>),
       (''created_at'', \<lparr>col_type = Timestamptz, col_nullable = False, col_default = Some Default_now\<rparr>)],
     keys = [(''users_pkey'', \<lparr>key_columns = [''id''], key_primary = True\<rparr>),
             (''users_email_key'', \<lparr>key_columns = [''email''], key_primary = False\<rparr>)],
     foreign_keys = [], checks = [], triggers = [], policies = [],
     row_security = False, row_security_forced = False, partition_key = [], partitions = []\<rparr>"

definition users_catalog :: catalog where
  "users_catalog = empty_catalog\<lparr>tables := [(''users'', users_table)]\<rparr>"

lemma first_upgrade:
  "\<exists>s. upgrade_ff01f548bc2b empty_catalog = Inr ([Ran s empty_catalog users_catalog], users_catalog) \<and>
     unopposed s empty_catalog"
  by (simp add: upgrade_ff01f548bc2b_def steps.simps exec_def create_table_def build_table_def empty_table_def
    choose_name_def default_name_def relation_names_def wf_table_def wf_key_def not_null_def column_names_def
    constraint_names_def users_catalog_def users_table_def empty_catalog_def)

definition first_revision :: revision where
  "first_revision = \<lparr>revision_id = ''ff01f548bc2b'', down_revision = None,
     upgrade = upgrade_ff01f548bc2b, downgrade = downgrade_ff01f548bc2b\<rparr>"

lemma first_revision: "first_revision \<in> set versions"
  by (simp add: first_revision_def versions_def)

text \<open>A database with the tables the last revision needs, and one ticket.\<close>

definition desk_catalog :: catalog where
  "desk_catalog = empty_catalog\<lparr>tables := [
     (''users'', users_table),
     (''tickets'', empty_table\<lparr>
        columns := [
          (''id'', \<lparr>col_type = Uuid, col_nullable = False, col_default = None\<rparr>),
          (''status'', \<lparr>col_type = Varchar 32, col_nullable = False, col_default = Some (Default_text ''open'')\<rparr>),
          (''updated_at'', \<lparr>col_type = Timestamptz, col_nullable = False, col_default = Some Default_now\<rparr>)],
        keys := [(''tickets_pkey'', \<lparr>key_columns = [''id''], key_primary = True\<rparr>)]\<rparr>)]\<rparr>"

lemma last_upgrade: "\<exists>es d. upgrade_55d8d34a9753 desk_catalog = Inr (es, d) \<and> length es = 5"
  by (simp add: upgrade_55d8d34a9753_def steps.simps exec_def only_if_def inspect_table_def ddl_defs Let_def
    relation_names_def column_names_def constraint_names_def wf_index_def index_columns_def has_columns_def
    wf_foreign_key_def references_def desk_catalog_def users_table_def empty_table_def empty_catalog_def)

definition last_revision :: revision where
  "last_revision = \<lparr>revision_id = ''55d8d34a9753'', down_revision = Some ''242e0dba5ba2'',
     upgrade = upgrade_55d8d34a9753, downgrade = downgrade_55d8d34a9753\<rparr>"

section \<open>Every schema the tool leaves behind\<close>

text \<open>
  \<open>migrated c\<close>: a schema some sequence of upgrades and downgrades of single revisions can leave, in any order and
  on any of them, started from an empty database, when each may be cut off after any of its statements.
\<close>

inductive migrated :: "catalog \<Rightarrow> bool" where
  empty: "migrated empty_catalog"
| up: "migrated c \<Longrightarrow> r \<in> set versions \<Longrightarrow> upgrade r c = Inr (es, d) \<Longrightarrow> migrated d"
| down: "migrated c \<Longrightarrow> r \<in> set versions \<Longrightarrow> downgrade r c = Inr (es, d) \<Longrightarrow> migrated d"
| cut_up: "migrated c \<Longrightarrow> r \<in> set versions \<Longrightarrow> upgrade r c = Inr (es, d) \<Longrightarrow> Ran s b b' \<in> set es \<Longrightarrow> migrated b'"
| cut_down: "migrated c \<Longrightarrow> r \<in> set versions \<Longrightarrow> downgrade r c = Inr (es, d) \<Longrightarrow> Ran s b b' \<in> set es \<Longrightarrow> migrated b'"

lemma sound_events: "list_all sound_event es \<Longrightarrow> Ran s b d \<in> set es \<Longrightarrow> wf_catalog d"
  by (auto simp: list_all_iff)

text \<open>
  The schema is always consistent. In every database schema that upgrades and downgrades can leave, in any
  order, also when they are cut off between two statements, names are unique, primary keys are not null, and every
  key, foreign key, check, index, trigger, default, policy, partition key and view refers to tables, columns,
  keys, functions, sequences and extensions that exist.
\<close>

lemma migrations_keep_integrity:
  assumes "migrated c"
  shows "wf_catalog c"
  using assms
proof induction
  case empty
  show ?case by (rule empty_catalog_wf)
next
  case (up c r es d)
  then show ?case using revision_keeps_wf [OF up(2)] by (auto simp: keeps_wf_def)
next
  case (down c r es d)
  then show ?case using revision_keeps_wf [OF down(2)] by (auto simp: keeps_wf_def)
next
  case (cut_up c r es d s b b')
  then show ?case using revision_keeps_wf [OF cut_up(2)] sound_events unfolding keeps_wf_def by blast
next
  case (cut_down c r es d s b b')
  then show ?case using revision_keeps_wf [OF cut_down(2)] sound_events unfolding keeps_wf_def by blast
qed

lemma users_catalog_wf: "wf_catalog users_catalog"
proof -
  obtain s where "upgrade first_revision empty_catalog = Inr ([Ran s empty_catalog users_catalog], users_catalog)"
    using first_upgrade by (auto simp: first_revision_def)
  then have "migrated users_catalog" by (rule migrated.up [OF migrated.empty first_revision])
  then show ?thesis by (rule migrations_keep_integrity)
qed

section \<open>Up and down again\<close>

lemma freshly_append: "freshly (steps (ms @ ns)) c es d \<longleftrightarrow>
    (\<exists>es1 c1 es2. freshly (steps ms) c es1 c1 \<and> freshly (steps ns) c1 es2 d \<and> es = es1 @ es2)"
  by (induction ms arbitrary: c es) (simp, fastforce)

lemma run_downgrades_Cons:
  "leads (run_downgrades (r # rs)) d c \<longleftrightarrow> (\<exists>c1. leads (run_downgrades rs) d c1 \<and> leads (downgrade r) c1 c)"
  by (auto simp: run_downgrades_def leads_append leads_Cons leads_Nil leads_mark)

lemma run_upgrades_Cons_fresh:
  "freshly (run_upgrades (r # rs)) c es d \<longleftrightarrow> (\<exists>es1 c1 es2. freshly (upgrade r) c es1 c1 \<and>
     freshly (run_upgrades rs) c1 es2 d \<and> es = es1 @ Stamped (Some (revision_id r)) # es2)"
  by (auto simp: run_upgrades_def)

lemma downgrades_take_back:
  assumes "set rs \<subseteq> set versions" and "wf_catalog c" and "freshly (run_upgrades rs) c es d"
  shows "leads (run_downgrades rs) d c"
  using assms
proof (induction rs arbitrary: c es)
  case Nil
  then show ?case by (auto simp: run_upgrades_def run_downgrades_def leads_Cons leads_Nil leads_mark)
next
  case (Cons r rs)
  then obtain es1 c1 es2 where r: "freshly (upgrade r) c es1 c1" and rs: "freshly (run_upgrades rs) c1 es2 d"
    by (auto simp: run_upgrades_Cons_fresh)
  have v: "r \<in> set versions" using Cons.prems(1) by simp
  have "wf_catalog c1"
    using revision_keeps_wf [OF v] r Cons.prems(2) by (auto intro: keeps_wfD)
  then have "leads (run_downgrades rs) d c1" using Cons.IH Cons.prems(1) rs by simp
  moreover have "leads (downgrade r) c1 c"
    using takes_back_revision [OF v] r Cons.prems(2) by (auto simp: takes_back_def)
  ultimately show ?case by (auto simp: run_downgrades_Cons)
qed

text \<open>C19. Downgrades take upgrades back. Whatever revisions are applied in one run to a well-formed schema in which
  none of the objects they add exists yet (no statement meets an existing object, no guard skips a step), taking
  them back in the opposite order succeeds and restores the schema exactly: tables with the order of their
  columns, constraints, indexes, triggers, policies, views, functions, sequences and extensions. So the upgrade
  can be run again and leads to the same schema as the first time.
\<close>

theorem downgrade_restores_schema:
  assumes "set rs \<subseteq> set versions" and "wf_catalog c"
    and "run_upgrades rs c = Inr (es, d)" and "list_all fresh_event es"
  shows "\<exists>fs. run_downgrades rs d = Inr (fs, c)"
  using downgrades_take_back [OF assms(1,2), of es d] assms(3,4) by (auto simp: freshly_def leads_def)

theorem downgrade_restores_schema_witness:
  "\<exists>es d fs. run_upgrades [first_revision] empty_catalog = Inr (es, d) \<and> tables d \<noteq> [] \<and>
     run_downgrades [first_revision] d = Inr (fs, empty_catalog)"
proof -
  obtain s where s: "upgrade_ff01f548bc2b empty_catalog = Inr ([Ran s empty_catalog users_catalog], users_catalog)"
    "unopposed s empty_catalog"
    using first_upgrade by blast
  let ?es = "[Ran s empty_catalog users_catalog, Stamped (Some ''ff01f548bc2b''), Committed]"
  have up: "run_upgrades [first_revision] empty_catalog = Inr (?es, users_catalog)"
    by (simp add: run_upgrades_def first_revision_def steps.simps s(1) mark_def)
  have "\<exists>fs. run_downgrades [first_revision] users_catalog = Inr (fs, empty_catalog)"
    by (rule downgrade_restores_schema [OF _ empty_catalog_wf up]) (simp_all add: first_revision s(2))
  then show ?thesis using up by (auto simp: users_catalog_def)
qed

end
