(* ===== verification/Migration_Resume.thy ===== *)
theory Migration_Resume
  imports Migration_History
begin

text \<open>
  The order of the revisions, and runs of \<open>alembic upgrade head\<close> that are cut off. All revisions run in one
  transaction, except that \<open>autocommit_block\<close> commits before and after each of its statements: what a cut leaves
  is the schema and the version of the last commit. Starting again from there leads to the same schema.
\<close>

section \<open>The order of the revisions\<close>

text \<open>The order depends on the identifiers only.\<close>

fun pending_ids :: "nat \<Rightarrow> (string \<times> string option) list \<Rightarrow> string option \<Rightarrow> string list" where
  "pending_ids 0 ls v = []"
| "pending_ids (Suc n) ls v = (case List.find (\<lambda>l. snd l = v) ls of
     None \<Rightarrow> [] | Some l \<Rightarrow> fst l # pending_ids n ls (Some (fst l)))"

definition link :: "revision \<Rightarrow> string \<times> string option" where
  "link r = (revision_id r, down_revision r)"

lemma fst_link: "fst (link r) = revision_id r"
  by (simp add: link_def)

lemma find_link:
  "map_option link (List.find (\<lambda>r. down_revision r = v) rs) = List.find (\<lambda>l. snd l = v) (map link rs)"
  by (induction rs) (auto simp: link_def)

lemma pending_ids: "map revision_id (pending n rs v) = pending_ids n (map link rs) v"
proof (induction n arbitrary: v)
  case (Suc n)
  have "List.find (\<lambda>l. snd l = v) (map link rs) = map_option link (List.find (\<lambda>r. down_revision r = v) rs)"
    by (simp add: find_link)
  then show ?case using Suc by (cases "List.find (\<lambda>r. down_revision r = v) rs") (simp_all add: fst_link)
qed simp

lemma pending_take: "n \<le> m \<Longrightarrow> pending n rs v = take n (pending m rs v)"
proof (induction n arbitrary: m v)
  case (Suc n)
  then obtain k where "m = Suc k" by (cases m) auto
  then show ?case using Suc by (auto split: option.splits)
qed simp

lemma length_pending: "length (pending n rs v) \<le> n"
  by (induction n arbitrary: v) (auto split: option.splits)

lemma find_in_set: "Some x = List.find P xs \<Longrightarrow> x \<in> set xs"
  by (induction xs) (auto split: if_splits)

lemma set_pending: "set (pending n rs v) \<subseteq> set rs"
  by (induction n arbitrary: v) (auto split: option.splits dest!: find_in_set)

definition links :: "(string \<times> string option) list" where
  "links = [
     (''1b2b1d52dd71'', Some ''a5edc35c8e96''), (''1cdc08e88be9'', Some ''7e371ad49a0a''),
     (''242e0dba5ba2'', Some ''9132a68b73c8''), (''2c77dd65027b'', Some ''430aa1b298fb''),
     (''37c89e98a86f'', Some ''5dd6fff75016''), (''430aa1b298fb'', Some ''ff01f548bc2b''),
     (''55d8d34a9753'', Some ''242e0dba5ba2''), (''57a978462b74'', Some ''81fe406156fa''),
     (''5dccea7a3749'', Some ''cef55228a927''), (''5dd6fff75016'', Some ''57a978462b74''),
     (''7e371ad49a0a'', Some ''2c77dd65027b''), (''81fe406156fa'', Some ''1b2b1d52dd71''),
     (''9132a68b73c8'', Some ''37c89e98a86f''), (''9a4776e19934'', Some ''c8eeaa6b5ff6''),
     (''9f9d9263bdfc'', Some ''1cdc08e88be9''), (''a5edc35c8e96'', Some ''db8cbd5e3697''),
     (''c8eeaa6b5ff6'', Some ''9f9d9263bdfc''), (''cef55228a927'', Some ''d7585b660cd7''),
     (''d7585b660cd7'', Some ''e50fbe8161fc''), (''db8cbd5e3697'', Some ''5dccea7a3749''),
     (''e50fbe8161fc'', Some ''9a4776e19934''), (''ff01f548bc2b'', None)]"

lemma map_link_versions: "map link versions = links"
  by (simp add: versions_def links_def link_def)

lemma links_chain:
  "list_all (\<lambda>l. length (pending_ids 22 links (Some (fst l))) < 22) links \<and>
   length (pending_ids 22 links None) = 22 \<and> distinct (map fst links)"
  by code_simp


text \<open>Above the revision that was stamped last lies the rest of the run.\<close>

lemma pending_after:
  assumes "r \<in> set versions"
  shows "pending (length versions) versions (Some (revision_id r))
    = pending (length versions - 1) versions (Some (revision_id r))"
proof -
  have n: "length versions = 22" using arg_cong [OF map_link_versions, of length] by (simp add: links_def)
  have "link r \<in> set links" using assms by (simp flip: map_link_versions)
  then have "length (pending_ids 22 links (Some (fst (link r)))) < 22"
    using links_chain unfolding list_all_iff by blast
  then have "length (pending 22 versions (Some (revision_id r))) < 22"
    using arg_cong [OF pending_ids [of 22 versions "Some (revision_id r)"], of length]
    by (simp add: map_link_versions link_def)
  then show ?thesis using pending_take [of 21 22 versions "Some (revision_id r)"] by (simp add: n)
qed

definition stamp_after :: "string option \<Rightarrow> revision list \<Rightarrow> string option" where
  "stamp_after v rs = (if rs = [] then v else Some (revision_id (last rs)))"

lemma pending_rest:
  assumes "pending (length versions) versions v = rs @ ss"
  shows "pending (length versions) versions (stamp_after v rs) = ss"
  using assms
proof (induction rs arbitrary: v)
  case Nil
  then show ?case by (simp add: stamp_after_def)
next
  case (Cons r rs)
  obtain n where n: "length versions = Suc n" by (simp add: versions_def)
  have r: "pending n versions (Some (revision_id r)) = rs @ ss" "r \<in> set versions"
    using Cons.prems set_pending [of "length versions" versions v]
    by (auto simp: n split: option.splits)
  have "pending (length versions) versions (Some (revision_id r)) = rs @ ss"
    using pending_after [OF r(2)] r(1) by (simp add: n)
  from Cons.IH [OF this] show ?case by (auto simp: stamp_after_def)
qed

section \<open>What a cut leaves\<close>

text \<open>The first argument of the accumulators is the state of the transaction, the second the one committed last.\<close>

fun advance :: "catalog \<times> string option \<Rightarrow> event \<Rightarrow> catalog \<times> string option" where
  "advance (c, v) (Ran s b d) = (d, v)"
| "advance (c, v) (Stamped w) = (c, w)"
| "advance now _ = now"

fun saved :: "event list \<Rightarrow> catalog \<times> string option \<Rightarrow> catalog \<times> string option \<Rightarrow> catalog \<times> string option" where
  "saved [] now kept = kept"
| "saved (Committed # es) now kept = saved es now now"
| "saved (e # es) now kept = saved es (advance now e) kept"

lemma saved_append: "saved (es @ fs) now kept = saved fs (foldl advance now es) (saved es now kept)"
  by (induction es now kept rule: saved.induct) auto

text \<open>A run that is cut off after \<open>k\<close> events.\<close>

definition cut_off :: "nat \<Rightarrow> event list \<Rightarrow> catalog \<Rightarrow> string option \<Rightarrow> catalog \<times> string option" where
  "cut_off k es c v = saved (take k es) (c, v) (c, v)"

text \<open>
  \<open>resumable m\<close>: what a cut within \<open>m\<close> leaves is either what was committed before it, or a schema from which
  \<open>m\<close> leads to where it would have led.
\<close>

definition unstamped :: "migration \<Rightarrow> bool" where
  "unstamped m \<longleftrightarrow> (\<forall>c es d. m c = Inr (es, d) \<longrightarrow> (\<forall>v. foldl advance (c, v) es = (d, v)))"

definition resumable :: "migration \<Rightarrow> bool" where
  "resumable m \<longleftrightarrow> (\<forall>c es d. m c = Inr (es, d) \<longrightarrow> (\<forall>k v kept. saved (take k es) (c, v) kept = kept \<or>
     (\<exists>b. saved (take k es) (c, v) kept = (b, v) \<and> leads m b d)))"

definition silent :: "migration \<Rightarrow> bool" where
  "silent m \<longleftrightarrow> (\<forall>c es d. m c = Inr (es, d) \<longrightarrow> Committed \<notin> set es)"

lemma saved_silent: "Committed \<notin> set es \<Longrightarrow> saved es now kept = kept"
  by (induction es now kept rule: saved.induct) auto

lemma silent_resumable: "silent m \<Longrightarrow> resumable m"
  unfolding silent_def resumable_def using in_set_takeD saved_silent by metis

lemma silent_intros:
  "silent (steps [])" "silent m \<Longrightarrow> silent (steps ms) \<Longrightarrow> silent (steps (m # ms))"
  "silent (exec s)" "silent m \<Longrightarrow> silent (only_if b m)"
  "(\<And>x. silent (steps (k x))) \<Longrightarrow> silent (inspect_table n what k)"
  "(\<And>x. silent (steps (k x))) \<Longrightarrow> silent (select_policies n k)"
  by (fastforce simp: silent_def steps.simps exec_def only_if_def inspect_table_def select_policies_def
    split: sum.splits option.splits prod.splits)+

lemma unstamped_intros:
  "unstamped (steps [])" "unstamped m \<Longrightarrow> unstamped (steps ms) \<Longrightarrow> unstamped (steps (m # ms))"
  "unstamped (exec s)" "unstamped m \<Longrightarrow> unstamped (only_if b m)" "unstamped (mark Committed)"
  "(\<And>x. unstamped (steps (k x))) \<Longrightarrow> unstamped (inspect_table n what k)"
  "(\<And>x. unstamped (steps (k x))) \<Longrightarrow> unstamped (select_policies n k)"
  by (fastforce simp: unstamped_def steps.simps exec_def only_if_def inspect_table_def select_policies_def mark_def
    split: sum.splits option.splits prod.splits)+

section \<open>Statements that can be run again\<close>

text \<open>With \<open>IF NOT EXISTS\<close>, the second run of a statement finds its object in place.\<close>

fun repeatable :: "statement \<Rightarrow> bool" where
  "repeatable (Create_index name n cols wh ext concurrently ine) = ine"
| "repeatable (Create_extension e) = True"
| "repeatable _ = False"

fun settled :: "statement \<Rightarrow> catalog \<Rightarrow> bool" where
  "settled (Create_index name n cols wh ext concurrently ine) c = (name \<in> set (relation_names c))"
| "settled (Create_extension e) c = (e \<in> set (extensions c))"
| "settled _ c = True"

lemma settled_after: "repeatable s \<Longrightarrow> effect s c = Inr d \<Longrightarrow> settled s d"
  by (cases s) (auto simp: create_index_def create_extension_def relation_names_def Let_def on_table_def
    split: if_splits option.splits)

lemma settled_repeat: "repeatable s \<Longrightarrow> settled s d \<Longrightarrow> effect s d = Inr d"
  by (cases s) (auto simp: create_index_def create_extension_def)

lemma settled_later: "repeatable t \<Longrightarrow> effect t c = Inr d \<Longrightarrow> settled s c \<Longrightarrow> settled s d"
proof -
  assume "repeatable t" and "effect t c = Inr d"
  then have "d = c \<or> (\<exists>i. d = c\<lparr>indexes := indexes c @ [i]\<rparr>) \<or> (\<exists>e. d = c\<lparr>extensions := extensions c @ [e]\<rparr>)"
    by (cases t) (auto simp: create_index_def create_extension_def Let_def on_table_def
      split: if_splits option.splits)
  then have "set (relation_names c) \<subseteq> set (relation_names d) \<and> set (extensions c) \<subseteq> set (extensions d)"
    by (elim disjE exE) (auto simp: relation_names_def)
  then show "settled s c \<Longrightarrow> settled s d" by (cases s) auto
qed

lemma repeat: "repeatable s \<Longrightarrow> effect s c = Inr d \<Longrightarrow> effect s d = Inr d"
  by (blast intro: settled_repeat settled_after)

lemma repeat_later:
  "repeatable s \<Longrightarrow> repeatable t \<Longrightarrow> effect s c = Inr c \<Longrightarrow> effect t c = Inr d \<Longrightarrow> effect s d = Inr d"
  by (blast intro: settled_repeat settled_after settled_later)

lemma repeat_all:
  assumes "leads (steps (map exec ss)) c d" and "\<forall>s \<in> set ss. repeatable s" and "repeatable t" and "effect t c = Inr c"
  shows "effect t d = Inr d"
  using assms
proof (induction ss arbitrary: c)
  case (Cons s ss)
  then obtain c1 where s: "effect s c = Inr c1" and ss: "leads (steps (map exec ss)) c1 d"
    by (auto simp: leads_Cons leads_exec simp del: effect.simps)
  have "effect t c1 = Inr c1" using repeat_later [OF Cons.prems(3) _ Cons.prems(4) s] Cons.prems(2) by simp
  then show ?case using Cons.IH [OF ss] Cons.prems(2,3) by simp
qed (simp add: leads_Nil)

lemma repeat_prefix:
  assumes "leads (steps (map exec ss)) c d" and "\<forall>s \<in> set ss. repeatable s"
  shows "leads (steps (map exec ss)) d d"
proof -
  have "effect s d = Inr d" if "s \<in> set ss" for s
    using that assms
  proof (induction ss arbitrary: c)
    case (Cons t ss)
    then obtain c1 where t: "effect t c = Inr c1" and ss: "leads (steps (map exec ss)) c1 d"
      by (auto simp: leads_Cons leads_exec simp del: effect.simps)
    show ?case
    proof (cases "s = t")
      case True
      then show ?thesis using repeat_all [OF ss] repeat [OF _ t] Cons.prems(3) by simp
    next
      case False
      then show ?thesis using Cons.IH [OF _ ss] Cons.prems(1,3) by simp
    qed
  qed simp
  then show ?thesis
    by (induction ss) (simp_all add: leads_Nil leads_Cons leads_exec del: effect.simps)
qed

lemma repeat_from_middle:
  assumes "leads (steps (map exec ss)) c b" and "leads (steps (map exec ts)) b d"
    and "\<forall>s \<in> set ss. repeatable s"
  shows "leads (steps (map exec (ss @ ts))) b d"
  using repeat_prefix [OF assms(1,3)] assms(2) by (auto simp: leads_append)

text \<open>The cuts of an \<open>autocommit_block\<close> lie between two of its statements.\<close>

lemma steps_exec_commit:
  "steps (exec s # mark Committed # ms) c = Inr (es, d) \<longleftrightarrow>
     (\<exists>c1 fs. effect s c = Inr c1 \<and> steps ms c1 = Inr (fs, d) \<and> es = Ran s c c1 # Committed # fs)"
  by (auto simp: steps.simps exec_def mark_def simp del: effect.simps split: sum.splits)

lemma steps_Cons:
  "steps (m # ms) c = Inr (es, d) \<longleftrightarrow>
     (\<exists>es1 c1 es2. m c = Inr (es1, c1) \<and> steps ms c1 = Inr (es2, d) \<and> es = es1 @ es2)"
  by (fastforce simp: steps.simps split: sum.splits)

lemma block_leads:
  assumes "steps (concat (map (\<lambda>s. [exec s, mark Committed]) ss)) c = Inr (es, d)"
  shows "leads (steps (map exec ss)) c d"
proof -
  have "leads (steps (concat (map (\<lambda>s. [exec s, mark Committed]) ss))) c d" using assms by (auto simp: leads_def)
  then show ?thesis using leads_autocommit [of ss c d] by (simp add: autocommit_block_def leads_Cons leads_mark)
qed

lemma steps_append:
  "steps (ms @ ns) c = Inr (es, d) \<longleftrightarrow>
     (\<exists>es1 c1 es2. steps ms c = Inr (es1, c1) \<and> steps ns c1 = Inr (es2, d) \<and> es = es1 @ es2)"
proof (induction ms arbitrary: c es)
  case (Cons m ms)
  show ?case unfolding append_Cons steps_Cons Cons.IH by (metis append.assoc)
qed (simp add: steps.simps)

lemma silent_map_exec: "silent (steps (map exec ss))"
  by (induction ss) (auto intro: silent_intros)

lemma unstamped_map_exec: "unstamped (steps (map exec ss))"
  by (induction ss) (auto intro: unstamped_intros)

lemma cut_in_block:
  assumes "steps (concat (map (\<lambda>s. [exec s, mark Committed]) ss)) c = Inr (es, d)"
  shows "saved (take k es) (c, v) kept = kept \<or>
    (\<exists>ts us b. ss = ts @ us \<and> saved (take k es) (c, v) kept = (b, v) \<and>
       leads (steps (map exec ts)) c b \<and> leads (steps (map exec us)) b d)"
  using assms
proof (induction ss arbitrary: c es k kept)
  case Nil
  then show ?case by (simp add: steps.simps)
next
  case (Cons s ss)
  then obtain c1 fs where s: "effect s c = Inr c1" and es: "es = Ran s c c1 # Committed # fs"
    and ss: "steps (concat (map (\<lambda>s. [exec s, mark Committed]) ss)) c1 = Inr (fs, d)"
    by (auto simp: steps_exec_commit simp del: effect.simps)
  have rest: "leads (steps (map exec ss)) c1 d"
    by (rule block_leads [OF ss])
  show ?case
  proof (cases "k \<le> 1")
    case True
    then show ?thesis by (cases k) (auto simp: es)
  next
    case False
    then obtain j where k: "k = Suc (Suc j)" by (metis One_nat_def Suc_le_D not_less_eq_eq old.nat.exhaust le0)
    have now: "saved (take k es) (c, v) kept = saved (take j fs) (c1, v) (c1, v)" by (simp add: k es)
    have first: "leads (steps (map exec [s])) c c1" using s by (simp add: leads_Cons leads_Nil leads_exec del: effect.simps)
    from Cons.IH [OF ss, of j "(c1, v)"] show ?thesis
    proof (elim disjE exE conjE)
      assume "saved (take j fs) (c1, v) (c1, v) = (c1, v)"
      then show ?thesis using now first rest by (intro disjI2 exI [of _ "[s]"] exI [of _ ss] exI [of _ c1]) simp
    next
      fix ts us b assume *: "ss = ts @ us" "saved (take j fs) (c1, v) (c1, v) = (b, v)"
        "leads (steps (map exec ts)) c1 b" "leads (steps (map exec us)) b d"
      have "leads (steps (map exec (s # ts))) c b"
        using s *(3) by (auto simp: leads_Cons leads_exec simp del: effect.simps)
      then show ?thesis using now * by (intro disjI2 exI [of _ "s # ts"] exI [of _ us] exI [of _ b]) simp
    qed
  qed
qed

lemma resumable_block:
  assumes "\<forall>s \<in> set (ts @ ss). repeatable s"
  shows "resumable (steps (map exec ts @ [autocommit_block ss]))"
  unfolding resumable_def
proof (intro allI impI)
  fix c es d k v kept assume "steps (map exec ts @ [autocommit_block ss]) c = Inr (es, d)"
  then obtain es1 c1 fs where ts: "steps (map exec ts) c = Inr (es1, c1)" and es: "es = es1 @ Committed # fs"
    and ss: "steps (concat (map (\<lambda>s. [exec s, mark Committed]) ss)) c1 = Inr (fs, d)"
    by (auto simp: steps_append autocommit_block_def steps.simps mark_def split: sum.splits)
  have quiet: "Committed \<notin> set es1" using silent_map_exec [of ts] ts by (auto simp: silent_def)
  have live: "foldl advance (c, v) es1 = (c1, v)" using unstamped_map_exec [of ts] ts by (auto simp: unstamped_def)
  have to: "leads (steps (map exec ts @ [autocommit_block ss])) b d" if "leads (steps (map exec (ts @ ss))) b d" for b
    using that by (auto simp: leads_append leads_Cons leads_Nil leads_autocommit)
  have c1: "leads (steps (map exec ts)) c c1" using ts by (auto simp: leads_def)
  show "saved (take k es) (c, v) kept = kept \<or>
      (\<exists>b. saved (take k es) (c, v) kept = (b, v) \<and> leads (steps (map exec ts @ [autocommit_block ss])) b d)"
  proof (cases "k \<le> length es1")
    case True
    then have "Committed \<notin> set (take k es)"
      using quiet in_set_takeD [of Committed k es1] by (auto simp: es)
    then show ?thesis by (simp add: saved_silent)
  next
    case False
    then obtain j where "k = length es1 + Suc j" by (metis add_Suc_right less_iff_Suc_add linorder_not_le)
    then have now: "saved (take k es) (c, v) kept = saved (take j fs) (c1, v) (c1, v)"
      by (simp add: es saved_append saved_silent [OF quiet] live)
    from cut_in_block [OF ss, of j v "(c1, v)"] show ?thesis
    proof (elim disjE exE conjE)
      assume "saved (take j fs) (c1, v) (c1, v) = (c1, v)"
      moreover have "leads (steps (map exec ss)) c1 d"
        by (rule block_leads [OF ss])
      then have "leads (steps (map exec (ts @ ss))) c1 d"
        using repeat_from_middle [OF c1] assms by simp
      ultimately show ?thesis using now to by simp
    next
      fix ts' us b assume *: "ss = ts' @ us" "saved (take j fs) (c1, v) (c1, v) = (b, v)"
        "leads (steps (map exec ts')) c1 b" "leads (steps (map exec us)) b d"
      have "leads (steps (map exec (ts @ ts'))) c b" using c1 *(3) by (auto simp: leads_append)
      from repeat_from_middle [OF this *(4)] have "leads (steps (map exec (ts @ ss))) b d"
        using assms by (auto simp: *(1))
      then show ?thesis using now *(2) to by simp
    qed
  qed
qed

section \<open>Every revision, and whole runs\<close>

lemma resumable_upgrade:
  assumes "r \<in> set versions"
  shows "resumable (upgrade r)"
proof -
  have block: "resumable (steps [autocommit_block ss])" if "\<forall>s \<in> set ss. repeatable s" for ss
    using resumable_block [of "[]" ss] that by simp
  have blocks: "resumable upgrade_db8cbd5e3697" "resumable upgrade_5dd6fff75016"
    unfolding upgrade_db8cbd5e3697_def upgrade_5dd6fff75016_def by (rule block; auto)+
  have last_block: "resumable upgrade_1b2b1d52dd71"
    using resumable_block [of "[Create_extension ''pg_trgm'']"] by (simp add: upgrade_1b2b1d52dd71_def)
  show ?thesis
    by (rule versions_cases [OF assms, of "\<lambda>u _. resumable u"];
      (rule blocks last_block | (unfold upgrade_defs, rule silent_resumable, intro silent_intros)))
qed

lemma unstamped_upgrade:
  assumes "r \<in> set versions"
  shows "unstamped (upgrade r)"
proof -
  have block: "unstamped (steps (autocommit_block ss # ms))" if "unstamped (steps ms)" for ss ms
  proof -
    have "unstamped (steps (concat (map (\<lambda>s. [exec s, mark Committed]) ss)))"
      by (induction ss) (auto intro: unstamped_intros)
    then have "unstamped (autocommit_block ss)"
      unfolding autocommit_block_def by (intro unstamped_intros)
    then show ?thesis using that by (rule unstamped_intros)
  qed
  show ?thesis
    by (rule versions_cases [OF assms, of "\<lambda>u _. unstamped u"]; unfold upgrade_defs; intro block unstamped_intros)
qed

lemma run_upgrades_Nil: "run_upgrades [] c = Inr ([Committed], c)"
  by (simp add: run_upgrades_def steps.simps mark_def)

lemma run_upgrades_Cons:
  "run_upgrades (r # rs) c = Inr (es, d) \<longleftrightarrow> (\<exists>es1 c1 es2. upgrade r c = Inr (es1, c1) \<and>
     run_upgrades rs c1 = Inr (es2, d) \<and> es = es1 @ Stamped (Some (revision_id r)) # es2)"
  by (simp add: run_upgrades_def steps_Cons mark_def) blast

lemma leads_run_upgrades_Cons:
  "leads (run_upgrades (r # rs)) c d \<longleftrightarrow> (\<exists>c1. leads (upgrade r) c c1 \<and> leads (run_upgrades rs) c1 d)"
  by (simp add: run_upgrades_def leads_Cons leads_mark)

lemma cut_in_run:
  assumes "set rs \<subseteq> set versions" and "run_upgrades rs c = Inr (es, d)"
  shows "saved (take k es) (c, v) kept = kept \<or> (\<exists>qs ps b. rs = qs @ ps \<and>
     saved (take k es) (c, v) kept = (b, stamp_after v qs) \<and> leads (run_upgrades ps) b d)"
  using assms
proof (induction rs arbitrary: c v es k kept)
  case Nil
  then show ?case by (cases k) (auto simp: run_upgrades_Nil stamp_after_def leads_def)
next
  case (Cons r rs)
  then obtain es1 c1 fs where r: "upgrade r c = Inr (es1, c1)" and rs: "run_upgrades rs c1 = Inr (fs, d)"
    and es: "es = es1 @ Stamped (Some (revision_id r)) # fs"
    by (auto simp: run_upgrades_Cons)
  have v: "r \<in> set versions" using Cons.prems(1) by simp
  have within: "saved (take j es1) (c, v) kept = kept \<or> (\<exists>b. saved (take j es1) (c, v) kept = (b, v) \<and>
      leads (run_upgrades (r # rs)) b d)" for j
  proof -
    have "saved (take j es1) (c, v) kept = kept \<or>
        (\<exists>b. saved (take j es1) (c, v) kept = (b, v) \<and> leads (upgrade r) b c1)"
      using resumable_upgrade [OF v] r unfolding resumable_def by blast
    moreover have "leads (run_upgrades rs) c1 d" using rs by (auto simp: leads_def)
    ultimately show ?thesis unfolding leads_run_upgrades_Cons by blast
  qed
  have inside: "?case" if "saved (take k es) (c, v) kept = saved (take j es1) (c, v) kept" for j
    using within [of j]
  proof (elim disjE exE conjE)
    fix b assume "saved (take j es1) (c, v) kept = (b, v)" "leads (run_upgrades (r # rs)) b d"
    then show ?thesis using that
      by (intro disjI2 exI [of _ "[]"] exI [of _ "r # rs"] exI [of _ b]) (simp add: stamp_after_def)
  qed (simp add: that)
  show ?case
  proof (cases "k \<le> length es1")
    case True
    then show ?thesis using inside [of k] by (simp add: es)
  next
    case False
    then obtain j where k: "k = length es1 + Suc j" by (metis add_Suc_right less_iff_Suc_add linorder_not_le)
    let ?v = "Some (revision_id r)" and ?kept = "saved es1 (c, v) kept"
    have live: "foldl advance (c, v) es1 = (c1, v)" using unstamped_upgrade [OF v] r by (auto simp: unstamped_def)
    have now: "saved (take k es) (c, v) kept = saved (take j fs) (c1, ?v) ?kept"
      by (simp add: k es saved_append live)
    have "set rs \<subseteq> set versions" using Cons.prems(1) by simp
    from Cons.IH [OF this rs, of j ?v ?kept] show ?thesis
    proof (elim disjE exE conjE)
      assume "saved (take j fs) (c1, ?v) ?kept = ?kept"
      then show ?thesis using inside [of "length es1"] now by simp
    next
      fix qs ps b assume *: "rs = qs @ ps" "saved (take j fs) (c1, ?v) ?kept = (b, stamp_after ?v qs)"
        "leads (run_upgrades ps) b d"
      have "stamp_after ?v qs = stamp_after v (r # qs)" by (simp add: stamp_after_def)
      then show ?thesis using now * by (intro disjI2 exI [of _ "r # qs"] exI [of _ ps] exI [of _ b]) simp
    qed
  qed
qed

text \<open>C18. An upgrade that is cut off can be run again. When \<open>alembic upgrade head\<close> would lead from a schema at some
  version to another schema and is cut off between any two of its steps, what the database keeps is the
  schema and the version of the last commit, and \<open>alembic upgrade head\<close> started again from there succeeds
  and leads to the schema of the uninterrupted run. No assumption is made on the schema at the start.
\<close>

theorem interrupted_upgrade_resumes:
  assumes "upgrade_head v c = Inr (es, d)" and "cut_off k es c v = (b, w)"
  shows "\<exists>fs. upgrade_head w b = Inr (fs, d)"
proof -
  let ?rs = "pending (length versions) versions v"
  have run: "run_upgrades ?rs c = Inr (es, d)" using assms(1) by (simp add: upgrade_head_def)
  from cut_in_run [OF set_pending run, of k v "(c, v)"] show ?thesis
  proof (elim disjE exE conjE)
    assume "saved (take k es) (c, v) (c, v) = (c, v)"
    then show ?thesis using assms by (simp add: cut_off_def)
  next
    fix qs ps b' assume *: "?rs = qs @ ps" "saved (take k es) (c, v) (c, v) = (b', stamp_after v qs)"
      "leads (run_upgrades ps) b' d"
    have "pending (length versions) versions w = ps" "b' = b"
      using pending_rest [OF *(1)] *(2) assms(2) by (simp_all add: cut_off_def)
    then show ?thesis using *(3) by (simp add: upgrade_head_def leads_def)
  qed
qed

lemma last_pending:
  "pending (length versions) versions (Some ''242e0dba5ba2'') = [last_revision]"
  by (simp add: versions_def last_revision_def)

theorem interrupted_upgrade_resumes_witness:
  "\<exists>es d fs. upgrade_head (Some ''242e0dba5ba2'') desk_catalog = Inr (es, d) \<and> length es = 7 \<and>
     upgrade_head (snd (cut_off 2 es desk_catalog (Some ''242e0dba5ba2'')))
       (fst (cut_off 2 es desk_catalog (Some ''242e0dba5ba2''))) = Inr (fs, d)"
proof -
  let ?v = "Some ''242e0dba5ba2''"
  obtain es d where "upgrade_55d8d34a9753 desk_catalog = Inr (es, d)" "length es = 5"
    using last_upgrade by blast
  then have run: "upgrade_head ?v desk_catalog = Inr (es @ [Stamped (Some ''55d8d34a9753''), Committed], d)"
    by (simp add: upgrade_head_def last_pending last_revision_def run_upgrades_def steps.simps mark_def)
  then show ?thesis
    using interrupted_upgrade_resumes [OF run prod.collapse [symmetric], of 2] \<open>length es = 5\<close> by fastforce
qed

section \<open>A cut within a concurrent build\<close>

text \<open>
  Between statements a cut is harmless, within \<open>CREATE INDEX CONCURRENTLY\<close> it is not: PostgreSQL leaves the
  index behind, marked invalid, and the revision, run again, finds its name taken and reports success.
\<close>

definition interrupted_build :: "string \<Rightarrow> string \<Rightarrow> string list \<Rightarrow> catalog \<Rightarrow> catalog" where
  "interrupted_build name n cols c = c\<lparr>indexes := indexes c @
     [(name, \<lparr>ix_table = n, ix_columns = cols, ix_where = None, ix_extension = None, ix_valid = False\<rparr>)]\<rparr>"

lemma invalid_index_stays:
  assumes "b = interrupted_build ''ix_refresh_tokens_user_id_family_id_issued_at'' ''refresh_tokens''
      [''user_id'', ''family_id'', ''issued_at''] c"
    and "''ix_refresh_tokens_user_id_family_id_issued_at'' \<notin> set (relation_names c)"
  shows "\<exists>es ix. upgrade_db8cbd5e3697 b = Inr (es, b) \<and>
    map_of (indexes b) ''ix_refresh_tokens_user_id_family_id_issued_at'' = Some ix \<and> \<not> ix_valid ix"
  using assms relation_namesD(2) [OF assms(2)]
  by (simp add: upgrade_db8cbd5e3697_def autocommit_block_def steps.simps exec_def mark_def create_index_def
    interrupted_build_def relation_names_def map_of_eq_None_iff map_add_def flip: map_of_eq_None_iff split: option.splits)

end
