(* ===== verification/Migration_Rows.thy ===== *)
theory Migration_Rows
  imports Migration_History Support_Repository
begin

text \<open>
  The rows under a migration. Statements that change the schema change the rows with it, or fail on them: a
  column is added with its default, a new check or foreign key is verified on every row, \<open>INSERT\<close> skips the
  rows that conflict. No upgrade removes a row or a value of a row.
\<close>

section \<open>Rows and statements\<close>

text \<open>Three-valued logic as the set of truth values that \<open>CHECK\<close> accepts: an unknown predicate passes.\<close>

datatype truth = Yes | No | Unknown

definition truth_of :: "bool \<Rightarrow> truth" where
  "truth_of b = (if b then Yes else No)"

fun sql_and :: "truth \<Rightarrow> truth \<Rightarrow> truth" where
  "sql_and No _ = No" | "sql_and _ No = No" | "sql_and Yes Yes = Yes" | "sql_and _ _ = Unknown"

fun sql_or :: "truth \<Rightarrow> truth \<Rightarrow> truth" where
  "sql_or Yes _ = Yes" | "sql_or _ Yes = Yes" | "sql_or No No = No" | "sql_or _ _ = Unknown"

fun sql_eq :: "truth \<Rightarrow> truth \<Rightarrow> truth" where
  "sql_eq Unknown _ = Unknown" | "sql_eq _ Unknown = Unknown" | "sql_eq a b = truth_of (a = b)"

text \<open>The settings are those of the session (\<open>current_setting\<close>), \<open>NULL\<close> when they are not set.\<close>

primrec holds :: "(string \<Rightarrow> string option) \<Rightarrow> row \<Rightarrow> predicate \<Rightarrow> truth" where
  "holds cfg r (Column_is c x) = (case r c of None \<Rightarrow> Unknown | Some v \<Rightarrow> truth_of (v = Text_value x))"
| "holds cfg r (Column_is_not c x) = (case r c of None \<Rightarrow> Unknown | Some v \<Rightarrow> truth_of (v \<noteq> Text_value x))"
| "holds cfg r (Column_null c) = truth_of (r c = None)"
| "holds cfg r (Column_not_null c) = truth_of (r c \<noteq> None)"
| "holds cfg r (Setting_is s x) = (case cfg s of None \<Rightarrow> Unknown | Some v \<Rightarrow> truth_of (v = x))"
| "holds cfg r (Both p q) = sql_and (holds cfg r p) (holds cfg r q)"
| "holds cfg r (Either p q) = sql_or (holds cfg r p) (holds cfg r q)"
| "holds cfg r (Same p q) = sql_eq (holds cfg r p) (holds cfg r q)"

definition accepted :: "row \<Rightarrow> predicate \<Rightarrow> bool" where
  "accepted r p \<longleftrightarrow> holds (\<lambda>_. None) r p \<noteq> No"

text \<open>A generated ticket number is left to the data model of the support desk; no migration draws one.\<close>

definition default_value :: "datetime \<Rightarrow> column_default option \<Rightarrow> sql_value option" where
  "default_value now d = (case d of None \<Rightarrow> None | Some Default_now \<Rightarrow> Some (Time_value now)
     | Some Default_false \<Rightarrow> Some (Bool_value False) | Some (Default_text x) \<Rightarrow> Some (Text_value x)
     | Some (Default_ticket_number _) \<Rightarrow> None)"

definition conflicts :: "string list \<Rightarrow> row \<Rightarrow> row \<Rightarrow> bool" where
  "conflicts cols r q \<longleftrightarrow> (\<forall>x \<in> set cols. r x = q x \<and> r x \<noteq> None)"

definition insert_row :: "string list \<Rightarrow> row \<Rightarrow> row list \<Rightarrow> row list" where
  "insert_row cols r rows = (if list_ex (conflicts cols r) rows then rows else rows @ [r])"

definition refers :: "string list \<Rightarrow> string list \<Rightarrow> row list \<Rightarrow> row \<Rightarrow> bool" where
  "refers cols refs targets r \<longleftrightarrow>
     list_ex (\<lambda>x. r x = None) cols \<or> list_ex (\<lambda>t. map r cols = map t refs) targets"

text \<open>\<open>row_effect now s c st\<close>: the rows after the statement \<open>s\<close> on the schema \<open>c\<close> with the rows \<open>st\<close>.\<close>

fun row_effect :: "datetime \<Rightarrow> statement \<Rightarrow> catalog \<Rightarrow> store \<Rightarrow> store ddl_result" where
  "row_effect now (Create_table n items ine) c st =
     Inr (if n \<in> set (relation_names c) then st else st(n := []))"
| "row_effect now (Drop_table n ie) c st = Inr (st(n := []))"
| "row_effect now (Rename_table old new) c st = Inr (st(new := st old, old := []))"
| "row_effect now (Add_column n x ty nullable dflt) c st =
     (if \<not> nullable \<and> dflt = None \<and> st n \<noteq> [] then Inl Not_null_violation
      else Inr (st(n := map (\<lambda>r. r(x := default_value now dflt)) (st n))))"
| "row_effect now (Drop_column n x) c st = Inr (st(n := map (\<lambda>r. r(x := None)) (st n)))"
| "row_effect now (Add_check name n p) c st =
     (if list_all (\<lambda>r. accepted r p) (st n) then Inr st else Inl Check_violation)"
| "row_effect now (Add_foreign_key name n target cols refs) c st =
     (if list_all (refers cols refs (st target)) (st n) then Inr st else Inl Foreign_key_violation)"
| "row_effect now (Insert n cols src) c st = Inr (case map_of (tables c) n of None \<Rightarrow> st
     | Some t \<Rightarrow> st(n := fold (insert_row cols) (map (\<lambda>r. r |` set (column_names t)) (src st)) (st n)))"
| "row_effect now _ c st = Inr st"

fun replay :: "datetime \<Rightarrow> event list \<Rightarrow> store \<Rightarrow> store ddl_result" where
  "replay now [] st = Inr st"
| "replay now (Ran s c d # es) st = (case row_effect now s c st of Inl e \<Rightarrow> Inl e | Inr st' \<Rightarrow> replay now es st')"
| "replay now (_ # es) st = replay now es st"

section \<open>Rows that go with a table\<close>

text \<open>Rows belong to tables that exist and have values in their columns only.\<close>

definition stored :: "catalog \<Rightarrow> store \<Rightarrow> bool" where
  "stored c st \<longleftrightarrow> (\<forall>n. case map_of (tables c) n of None \<Rightarrow> st n = []
     | Some t \<Rightarrow> \<forall>r \<in> set (st n). dom r \<subseteq> set (column_names t))"

text \<open>\<open>carried rows rows'\<close>: every row of \<open>rows\<close> is still there, in order, with at least its values.\<close>

definition carried :: "row list \<Rightarrow> row list \<Rightarrow> bool" where
  "carried rows rows' \<longleftrightarrow> (\<exists>ks rest. rows' = ks @ rest \<and> list_all2 (\<subseteq>\<^sub>m) rows ks)"

lemma carriedI: "list_all2 (\<subseteq>\<^sub>m) rows ks \<Longrightarrow> carried rows (ks @ rest)"
  by (auto simp: carried_def)

lemma carried_append: "carried rows (rows @ rest)"
  by (intro carriedI list.rel_refl) simp

lemma carried_refl: "carried rows rows"
  using carried_append [of rows "[]"] by simp

lemma carried_Nil [simp]: "carried [] rows"
  using carriedI [of "[]" "[]" rows] by simp

lemma carried_trans:
  assumes "carried xs ys" and "carried ys zs"
  shows "carried xs zs"
proof -
  obtain ks rest where ys: "ys = ks @ rest" "list_all2 (\<subseteq>\<^sub>m) xs ks" using assms(1) by (auto simp: carried_def)
  obtain ls rest2 where zs: "zs = ls @ rest2" "list_all2 (\<subseteq>\<^sub>m) ys ls" using assms(2) by (auto simp: carried_def)
  then obtain us vs where ls: "ls = us @ vs" "list_all2 (\<subseteq>\<^sub>m) ks us" by (auto simp: ys(1) list_all2_append1)
  have "list_all2 (\<subseteq>\<^sub>m) xs us"
    by (rule list_all2_trans [OF _ ys(2) ls(2)]) (blast intro: map_le_trans)
  then show ?thesis by (auto simp: carried_def zs(1) ls(1))
qed

lemma carried_map: "(\<And>r. r \<in> set rows \<Longrightarrow> r \<subseteq>\<^sub>m g r) \<Longrightarrow> carried rows (map g rows)"
  using carriedI [of rows "map g rows" "[]"] by (simp add: list_all2_conv_all_nth)

lemma carried_inserts: "carried rows (fold (insert_row cols) new rows)"
proof (induction new arbitrary: rows)
  case (Cons r new)
  have "carried rows (insert_row cols r rows)" by (simp add: insert_row_def carried_refl carried_append)
  then show ?case using Cons carried_trans by (metis fold_simps(2))
qed (simp add: carried_refl)

lemma set_inserts: "set (fold (insert_row cols) new rows) \<subseteq> set rows \<union> set new"
proof (induction new arbitrary: rows)
  case (Cons r new)
  have "set (insert_row cols r rows) \<subseteq> insert r (set rows)" by (auto simp: insert_row_def)
  then show ?case using Cons [of "insert_row cols r rows"] by auto
qed simp

section \<open>What a harmless statement does\<close>

fun harmless :: "statement \<Rightarrow> bool" where
  "harmless (Drop_table _ _) = False"
| "harmless (Drop_column _ _) = False"
| "harmless _ = True"

fun renamed_by :: "statement \<Rightarrow> string \<Rightarrow> string" where
  "renamed_by (Rename_table old new) n = rename_in old new n"
| "renamed_by _ n = n"

text \<open>The statements that change which columns there are, or rows.\<close>

fun reshapes :: "statement \<Rightarrow> bool" where
  "reshapes (Create_table _ _ _) = True"
| "reshapes (Drop_table _ _) = True"
| "reshapes (Rename_table _ _) = True"
| "reshapes (Add_column _ _ _ _ _) = True"
| "reshapes (Drop_column _ _) = True"
| "reshapes (Insert _ _ _) = True"
| "reshapes _ = False"

lemma same_columns:
  assumes "\<not> reshapes s" and "effect s c = Inr d"
  shows "map_option column_names (map_of (tables d) n) = map_option column_names (map_of (tables c) n)"
  using assms
  by (cases s) (auto simp: ddl_defs Let_def map_of_adjust option.map_comp comp_def split: if_splits option.splits)

lemma stored_same:
  assumes "\<And>n. map_option column_names (map_of (tables d) n) = map_option column_names (map_of (tables c) n)"
  shows "stored d st = stored c st"
proof -
  have "(case map_of (tables d) n of None \<Rightarrow> st n = [] | Some t \<Rightarrow> \<forall>r \<in> set (st n). dom r \<subseteq> set (column_names t)) =
    (case map_of (tables c) n of None \<Rightarrow> st n = [] | Some t \<Rightarrow> \<forall>r \<in> set (st n). dom r \<subseteq> set (column_names t))" for n
    using assms [of n] by (cases "map_of (tables d) n"; cases "map_of (tables c) n") simp_all
  then show ?thesis by (simp add: stored_def)
qed

lemma storedD: "stored c st \<Longrightarrow> map_of (tables c) n = None \<Longrightarrow> st n = []"
  unfolding stored_def by (drule spec [of _ n]) simp

lemma stored_dom:
  "stored c st \<Longrightarrow> map_of (tables c) n = Some t \<Longrightarrow> r \<in> set (st n) \<Longrightarrow> dom r \<subseteq> set (column_names t)"
  unfolding stored_def by (drule spec [of _ n]) simp

lemma stored_value:
  "stored c st \<Longrightarrow> map_of (tables c) n = Some t \<Longrightarrow> r \<in> set (st n) \<Longrightarrow> r x = Some v \<Longrightarrow> x \<in> set (column_names t)"
  using stored_dom by blast

lemma storedI:
  assumes "\<And>n. map_of (tables c) n = None \<Longrightarrow> st n = []"
    and "\<And>n t r. map_of (tables c) n = Some t \<Longrightarrow> r \<in> set (st n) \<Longrightarrow> dom r \<subseteq> set (column_names t)"
  shows "stored c st"
  unfolding stored_def using assms by (auto split: option.splits)

lemma no_table: "n \<notin> set (relation_names c) \<Longrightarrow> map_of (tables c) n = None"
  using relation_namesD(1) by (simp add: map_of_eq_None_iff)

lemma rows_under_create:
  assumes "effect (Create_table n items ine) c = Inr d" and "stored c st"
    and "row_effect now (Create_table n items ine) c st = Inr st'"
  shows "stored d st' \<and> carried (st m) (st' m)"
proof (cases "n \<in> set (relation_names c)")
  case True
  then show ?thesis using assms by (auto simp: create_table_def carried_refl split: if_splits)
next
  case False
  then obtain t where d: "d = c\<lparr>tables := tables c @ [(n, t)]\<rparr>"
    using assms(1) by (auto simp: create_table_def Let_def split: if_splits)
  have n: "st n = []" by (rule storedD [OF assms(2) no_table [OF False]])
  have st: "st' = st" using assms(3) False n by auto
  have "stored d st"
  proof (rule storedI)
    show "st k = []" if "map_of (tables d) k = None" for k
      using that storedD [OF assms(2), of k] by (auto simp: d map_add_def split: option.splits)
    show "dom r \<subseteq> set (column_names u)" if "map_of (tables d) k = Some u" "r \<in> set (st k)" for k u r
    proof (cases "k = n")
      case False
      then show ?thesis using that stored_dom [OF assms(2)] by (auto simp: d map_add_def split: option.splits)
    qed (use that n in simp)
  qed
  then show ?thesis by (simp add: st carried_refl)
qed

lemma map_of_rename:
  assumes "new \<notin> fst ` set xs" and "old \<noteq> new"
  shows "map_of (map (\<lambda>(n, t). (rename_in old new n, g t)) xs) m =
    (if m = new then map_option g (map_of xs old) else if m = old then None else map_option g (map_of xs m))"
  using assms
proof (induction xs)
  case (Cons x xs)
  obtain n t where "x = (n, t)" by (cases x)
  then show ?case using Cons by (auto simp: rename_in_def)
qed simp

lemma rows_under_rename:
  assumes "effect (Rename_table old new) c = Inr d" and "stored c st"
    and "row_effect now (Rename_table old new) c st = Inr st'"
  shows "stored d st' \<and> carried (st m) (st' (rename_in old new m))"
proof -
  let ?g = "\<lambda>t. t\<lparr>foreign_keys := map (\<lambda>(m, fk). (m, fk\<lparr>fk_table := rename_in old new (fk_table fk)\<rparr>)) (foreign_keys t)\<rparr>"
  obtain t where old: "map_of (tables c) old = Some t" and new: "new \<notin> set (relation_names c)"
    and d: "tables d = map (\<lambda>(n, t). (rename_in old new n, ?g t)) (tables c)"
    using assms(1) by (auto simp: rename_table_def elim!: on_tableE split: if_splits)
  have neq: "old \<noteq> new" using old no_table [OF new] by auto
  have st: "st' = st(new := st old, old := [])" using assms(3) by simp
  have d_of: "map_of (tables d) k = (if k = new then map_option ?g (map_of (tables c) old) else if k = old then None
      else map_option ?g (map_of (tables c) k))" for k
    unfolding d by (rule map_of_rename [OF relation_namesD(1) [OF new] neq])
  have "stored d st'"
  proof (rule storedI)
    show "st' k = []" if "map_of (tables d) k = None" for k
      using that neq storedD [OF assms(2)] by (auto simp: d_of st split: if_splits)
    show "dom r \<subseteq> set (column_names u)" if "map_of (tables d) k = Some u" "r \<in> set (st' k)" for k u r
      using that neq stored_value [OF assms(2), of _ _ r] by (cases "k = new"; cases "k = old") (auto simp: d_of st)
  qed
  moreover have "st new = []" by (rule storedD [OF assms(2) no_table [OF new]])
  ultimately show ?thesis using neq by (auto simp: st rename_in_def carried_refl)
qed

lemma rows_under_add:
  assumes "effect (Add_column n x ty nullable dflt) c = Inr d" and "stored c st"
    and "row_effect now (Add_column n x ty nullable dflt) c st = Inr st'"
  shows "stored d st' \<and> carried (st m) (st' m)"
proof -
  obtain t where t: "map_of (tables c) n = Some t" and x: "x \<notin> set (column_names t)"
    and d: "d = change_table n (add_item c n (Column x ty nullable dflt)) c"
    using assms(1) by (auto simp: add_column_def elim!: on_tableE split: if_splits)
  have st: "st' = st(n := map (\<lambda>r. r(x := default_value now dflt)) (st n))"
    using assms(3) by (auto split: if_splits)
  have "r \<subseteq>\<^sub>m r(x := default_value now dflt)" if "r \<in> set (st n)" for r
  proof -
    have "r x = None" using stored_dom [OF assms(2) t that] x by auto
    then show ?thesis by (auto simp: map_le_def dom_def)
  qed
  then have "carried (st m) (st' m)" by (auto simp: st carried_refl intro: carried_map)
  moreover have "stored d st'"
  proof (rule storedI)
    show "st' k = []" if "map_of (tables d) k = None" for k
      using that t storedD [OF assms(2), of k] by (auto simp: d st change_table_def map_of_adjust split: if_splits)
    show "dom r \<subseteq> set (column_names u)" if k: "map_of (tables d) k = Some u" and r: "r \<in> set (st' k)" for k u r
    proof (cases "k = n")
      case True
      then obtain q where q: "q \<in> set (st n)" "r = q(x := default_value now dflt)"
        using r unfolding st True fun_upd_same by (auto simp only: set_map image_iff)
      have u: "column_names u = column_names t @ [x]"
        using k t True by (simp add: d change_table_def map_of_adjust) (auto simp: column_names_def)
      have "dom r \<subseteq> insert x (dom q)" by (auto simp: q(2) split: if_splits)
      then show ?thesis using stored_dom [OF assms(2) t q(1)] u by auto
    next
      case False
      then show ?thesis using k r stored_dom [OF assms(2)] by (auto simp: d st change_table_def map_of_adjust)
    qed
  qed
  ultimately show ?thesis by blast
qed

lemma rows_under_insert:
  assumes "effect (Insert n cols src) c = Inr d" and "stored c st"
    and "row_effect now (Insert n cols src) c st = Inr st'"
  shows "stored d st' \<and> carried (st m) (st' m)"
proof -
  obtain t where t: "map_of (tables c) n = Some t" and d: "d = c"
    using assms(1) by (auto simp: on_table_def split: option.splits)
  let ?new = "map (\<lambda>r. r |` set (column_names t)) (src st)"
  have st: "st' = st(n := fold (insert_row cols) ?new (st n))" using assms(3) t by simp
  have "stored c st'"
  proof (rule storedI)
    show "st' k = []" if "map_of (tables c) k = None" for k
      using that t storedD [OF assms(2), of k] by (auto simp: st)
    show "dom r \<subseteq> set (column_names u)" if "map_of (tables c) k = Some u" "r \<in> set (st' k)" for k u r
    proof (cases "k = n")
      case True
      then have "r \<in> set (st n) \<union> set ?new" using that(2) set_inserts [of cols ?new "st n"] by (auto simp: st)
      moreover have "dom q \<subseteq> set (column_names t)" if "q \<in> set ?new" for q
        using that by (auto simp: dom_def restrict_map_def split: if_splits)
      ultimately show ?thesis using that(1) True t stored_dom [OF assms(2) t, of r] by auto
    next
      case False
      then show ?thesis using that stored_dom [OF assms(2)] by (simp add: st)
    qed
  qed
  then show ?thesis by (auto simp: d st carried_refl carried_inserts)
qed

lemma rows_kept:
  assumes "harmless s" and "effect s c = Inr d" and "stored c st" and "row_effect now s c st = Inr st'"
  shows "stored d st' \<and> carried (st m) (st' (renamed_by s m))"
proof (cases "reshapes s")
  case False
  then have "st' = st" "renamed_by s m = m" using assms(4) by (cases s; auto split: if_splits)+
  then show ?thesis using stored_same [OF same_columns [OF False assms(2)]] assms(3) by (simp add: carried_refl)
next
  case True
  then show ?thesis
    using assms rows_under_create rows_under_rename rows_under_add rows_under_insert
    by (cases s) (simp_all del: effect.simps row_effect.simps)
qed

section \<open>Upgrades\<close>

text \<open>The events of a run: each statement starts from the schema the one before it left.\<close>

fun chain :: "catalog \<Rightarrow> event list \<Rightarrow> catalog \<Rightarrow> bool" where
  "chain c [] d \<longleftrightarrow> d = c"
| "chain c (Ran s b e # es) d \<longleftrightarrow> b = c \<and> effect s c = Inr e \<and> chain e es d"
| "chain c (_ # es) d \<longleftrightarrow> chain c es d"

fun harmless_event :: "event \<Rightarrow> bool" where
  "harmless_event (Ran s c d) = harmless s"
| "harmless_event _ = True"

lemma chain_append: "chain c (es @ fs) d \<longleftrightarrow> (\<exists>e. chain c es e \<and> chain e fs d)"
  by (induction c es d rule: chain.induct) auto

definition gentle :: "migration \<Rightarrow> bool" where
  "gentle m \<longleftrightarrow> (\<forall>c es d. m c = Inr (es, d) \<longrightarrow> chain c es d \<and> list_all harmless_event es)"

lemma gentle_Cons: "gentle m \<Longrightarrow> gentle (steps ms) \<Longrightarrow> gentle (steps (m # ms))"
  unfolding gentle_def by (fastforce simp: steps.simps chain_append split: sum.splits)

lemma gentle_intros:
  "gentle (steps [])" "harmless s \<Longrightarrow> gentle (exec s)" "gentle m \<Longrightarrow> gentle (only_if b m)"
  "(\<And>x. gentle (steps (k x))) \<Longrightarrow> gentle (inspect_table n what k)"
  "(\<And>x. gentle (steps (k x))) \<Longrightarrow> gentle (select_policies n k)"
  "gentle (mark (Stamped v))" "gentle (mark Committed)"
  by (auto simp: gentle_def steps.simps exec_def only_if_def inspect_table_def select_policies_def mark_def
    simp del: effect.simps split: sum.splits option.splits)

lemma gentle_autocommit: "list_all harmless ss \<Longrightarrow> gentle (autocommit_block ss)"
proof -
  assume "list_all harmless ss"
  then have "gentle (steps (concat (map (\<lambda>s. [exec s, mark Committed]) ss)))"
    by (induction ss) (auto intro!: gentle_intros gentle_Cons)
  then show ?thesis unfolding autocommit_block_def by (intro gentle_Cons gentle_intros)
qed

lemma gentle_upgrade:
  assumes "r \<in> set versions"
  shows "gentle (upgrade r)"
  by (rule versions_cases [OF assms, of "\<lambda>u _. gentle u"]; unfold upgrade_defs;
    intro gentle_autocommit gentle_Cons gentle_intros; simp add: occurred_at_indexes_def)

lemma gentle_run:
  assumes "set rs \<subseteq> set versions"
  shows "gentle (run_upgrades rs)"
proof -
  have "gentle (steps (concat (map (\<lambda>r. [upgrade r, mark (Stamped (Some (revision_id r)))]) rs) @ [mark Committed]))"
    using assms by (induction rs) (auto intro!: gentle_intros gentle_Cons gentle_upgrade)
  then show ?thesis by (simp add: run_upgrades_def)
qed

text \<open>The name a table has after a run.\<close>

definition renamed_in_run :: "event list \<Rightarrow> string \<Rightarrow> string" where
  "renamed_in_run es n = fold (\<lambda>e n. case e of Ran s _ _ \<Rightarrow> renamed_by s n | _ \<Rightarrow> n) es n"

lemma rows_kept_in_run:
  assumes "chain c es d" and "list_all harmless_event es" and "stored c st" and "replay now es st = Inr st'"
  shows "stored d st' \<and> carried (st n) (st' (renamed_in_run es n))"
  using assms
proof (induction c es d arbitrary: st n rule: chain.induct)
  case (2 c s b e es d)
  then obtain st1 where st1: "row_effect now s c st = Inr st1" and rest: "replay now es st1 = Inr st'"
    by (auto simp del: effect.simps row_effect.simps split: sum.splits)
  have now: "stored e st1 \<and> carried (st n) (st1 (renamed_by s n))"
    by (rule rows_kept) (use 2 st1 in auto)
  then have "stored d st' \<and> carried (st1 (renamed_by s n)) (st' (renamed_in_run es (renamed_by s n)))"
    using 2 rest by (intro "2.IH") auto
  then show ?case using now by (auto simp: renamed_in_run_def intro: carried_trans)
qed (auto simp: renamed_in_run_def carried_refl)

text \<open>C20. An upgrade loses no data. Whatever revisions are applied in one run, when the run succeeds on the rows of
  the database (no new constraint is violated), every table of before is there under its name (\<open>audit_log\<close> of
  the purge job under its new one) with all its rows in their order, each with all the values it had; rows and
  columns are only added.
\<close>

theorem upgrade_keeps_rows:
  assumes "set rs \<subseteq> set versions" and "stored c st"
    and "run_upgrades rs c = Inr (es, d)" and "replay now es st = Inr st'"
  shows "stored d st' \<and> carried (st n) (st' (renamed_in_run es n))"
  using gentle_run [OF assms(1)] assms(2-4) by (intro rows_kept_in_run) (auto simp: gentle_def)

definition desk_rows :: store where
  "desk_rows = (\<lambda>_. [])(''tickets'' :=
     [[''id'' \<mapsto> Text_value ''11111111-1111-1111-1111-111111111111'', ''status'' \<mapsto> Text_value ''open'']])"

lemma last_upgrade_rows:
  "\<exists>es d st. upgrade_55d8d34a9753 desk_catalog = Inr (es, d) \<and> replay 0 es desk_rows = Inr st \<and>
     renamed_in_run es ''tickets'' = ''tickets''"
  by (simp add: upgrade_55d8d34a9753_def steps.simps exec_def only_if_def inspect_table_def ddl_defs Let_def
    relation_names_def column_names_def constraint_names_def wf_index_def index_columns_def has_columns_def
    wf_foreign_key_def references_def desk_catalog_def users_table_def empty_table_def empty_catalog_def
    desk_rows_def refers_def default_value_def renamed_in_run_def)

theorem upgrade_keeps_rows_witness:
  "\<exists>es d st. run_upgrades [last_revision] desk_catalog = Inr (es, d) \<and>
     replay 0 es desk_rows = Inr st \<and> carried (desk_rows ''tickets'') (st ''tickets'')"
proof -
  obtain es d st where up: "upgrade_55d8d34a9753 desk_catalog = Inr (es, d)" and st: "replay 0 es desk_rows = Inr st"
    and name: "renamed_in_run es ''tickets'' = ''tickets''"
    using last_upgrade_rows by blast
  let ?es = "es @ [Stamped (Some ''55d8d34a9753''), Committed]"
  have run: "run_upgrades [last_revision] desk_catalog = Inr (?es, d)"
    by (simp add: run_upgrades_def last_revision_def steps.simps up mark_def)
  have replay_more: "replay now (es @ [Stamped v, Committed]) s = replay now es s" for now v s and es :: "event list"
    by (induction now es s rule: replay.induct) (auto split: sum.splits)
  have r: "last_revision \<in> set versions" by (simp add: last_revision_def versions_def)
  have here: "stored desk_catalog desk_rows"
    by (rule storedI) (auto simp: desk_catalog_def desk_rows_def column_names_def empty_catalog_def split: if_splits)
  have "stored d st \<and> carried (desk_rows ''tickets'') (st (renamed_in_run ?es ''tickets''))"
    by (rule upgrade_keeps_rows [OF _ here run, where now = 0]) (simp_all add: r replay_more st)
  then have "carried (desk_rows ''tickets'') (st ''tickets'')" using name by (simp add: renamed_in_run_def)
  moreover have "replay 0 ?es desk_rows = Inr st" by (simp add: replay_more st)
  ultimately show ?thesis using run by (intro exI conjI)
qed

section \<open>The constraints the migrations install are those of the data model\<close>

text \<open>The columns of a ticket and of a reply that the constraints and policies read.\<close>

definition ticket_columns :: "ticket \<Rightarrow> row" where
  "ticket_columns k = (\<lambda>_. None)(
     ''status'' := Some (Text_value (ticket_status_str (tk_status k))),
     ''resolved_at'' := map_option Time_value (tk_resolved_at k),
     ''resolution_note'' := map_option Text_value (tk_resolution_note k),
     ''closed_at'' := map_option Time_value (tk_closed_at k),
     ''closed_by'' := map_option (\<lambda>i. Text_value (uuid_str i)) (tk_closed_by k))"

definition actor_kind_str :: "actor_kind \<Rightarrow> string" where
  "actor_kind_str a = (case a of Customer \<Rightarrow> ''customer'' | Agent \<Rightarrow> ''agent'')"

definition reply_columns :: "ticket_reply \<Rightarrow> row" where
  "reply_columns r = (\<lambda>_. None)(
     ''visibility'' := Some (Text_value (case tr_visibility r of Public \<Rightarrow> ''public'' | Internal \<Rightarrow> ''internal'')),
     ''author_kind'' := Some (Text_value (actor_kind_str (tr_author_kind r))))"

text \<open>C21. The schema enforces what the model of the support desk assumes. A row of \<open>tickets\<close> passes the two \<open>CHECK\<close>
  constraints of revision \<open>242e0dba5ba2\<close>, evaluated as SQL does with nulls, exactly when it satisfies
  \<open>ticket_checks\<close>, which every write of the model tests; a reply satisfies the row level security policies of
  revision \<open>9132a68b73c8\<close> in a session of a customer or an agent exactly when it is \<open>rls_visible\<close> there.
\<close>

theorem installed_constraints_agree:
  "(ticket_checks k \<longleftrightarrow> accepted (ticket_columns k) closed_fields_check \<and> accepted (ticket_columns k) resolved_fields_check)
   \<and> (rls_visible setting r \<longleftrightarrow>
        holds ((\<lambda>_. None)(''app.actor_kind'' := Some (actor_kind_str setting))) (reply_columns r) reply_policy = Yes)"
  by (cases "tk_status k"; cases "tk_closed_at k"; cases "tk_closed_by k"; cases "tk_resolved_at k"; cases "tk_resolution_note k";
      cases setting; cases "tr_visibility r")
    (simp_all add: ticket_checks_def accepted_def ticket_columns_def closed_fields_check_def resolved_fields_check_def
      truth_of_def rls_visible_def reply_policy_def reply_columns_def actor_kind_str_def)

end
