(* ===== verification/Spec2Isabelle.thy ===== *)
theory Spec2Isabelle
  imports Later_Calls Support_Witnesses Migration_Resume Migration_Rows
begin

text \<open>
  A verification development of the backend of the customer portal (\<open>src/app\<close>, a FastAPI application on
  PostgreSQL and Valkey, with the cron scripts of \<open>src/scripts\<close> and the schema migrations of \<open>src/migrations\<close>).

  \<^bold>\<open>The program and its model.\<close> A request reaches a router, which hands it to the service of its module; the
  service reads and writes rows through its repository, uses the cache gateways, and queues mails. The state of
  the model is the record \<open>portal\<close> (\<open>Portal_Database\<close>): the tables (\<open>db\<close>, one list of row records per table,
  in insertion order), the cache (\<open>valkey\<close>) and the mails handed to the mailer. An operation is a
  function from the portal to a pair of an outcome (\<open>Inl\<close> an exception of \<open>Problems\<close>, \<open>Inr\<close> a result) and the
  portal it leaves. What differs from run to run is the record \<open>request\<close>: clock, transaction time, client
  address, user agent, request id, the random draws (\<open>rq_uuid\<close>, \<open>rq_token\<close>, \<open>rq_bytes\<close>, numbered in the order
  of the code), and whether mail server and cache answer. The libraries are the record \<open>libs\<close> (\<open>Security\<close>);
  what is relied on about them are the hypotheses \<open>jwt_sound\<close>, \<open>hmac_sha1_sized\<close>, \<open>aesgcm_sound\<close>,
  \<open>codec_sound\<close> and injectivity of SHA-256 on the texts at hand. \<open>Sample_Library\<close> has concrete libraries
  that satisfy them, on which the witnesses run.

  A result that is a transaction is modelled whole: when an exception escapes before the commit, the tables are
  those before the request, while cache writes that have happened stay. Where another request can run in between
  (between a check and an atomic \<open>UPDATE\<close>, or between two commits), the operation is split there or takes the
  database of the earlier read as an argument, and step relations interleave the parts.

  \<^bold>\<open>Theories, from the bottom up.\<close>
  \<^item> \<open>Portal_Prelude\<close>: types (a uuid is a \<open>128 word\<close>, a date a number of microseconds), lists of rows with
    conditional updates, and the locales \<open>prefix_free\<close> and \<open>prefix_code\<close> of self-delimiting encodings.
    \<open>Config\<close>: \<open>core/config.py\<close>.
  \<^item> \<open>Valkey\<close>: the commands on a map with expiry, as the locale \<open>ttl_cache\<close> with its interpretation.
    \<open>Cache_Keys\<close>: \<open>core/cache_keys.py\<close>; the keys of all entries are distinct strings. \<open>Cache_Gateways\<close>:
    \<open>core/revocation_cache.py\<close>, \<open>modules/users/cache.py\<close>, \<open>modules/support/cache.py\<close>.
  \<^item> \<open>Security\<close>: \<open>core/security.py\<close>, \<open>crypto.py\<close>, \<open>device.py\<close>, \<open>breached_passwords.py\<close>; access tokens, HOTP
    and TOTP with their skew, secrets at rest. \<open>Otpauth\<close>: the provisioning URI of an authenticator app.
  \<^item> \<open>Portal_Database\<close>: the rows of every \<open>models.py\<close>, \<open>core/email.py\<close>. \<open>Problems\<close>: every \<open>exceptions.py\<close> and
    the responses of \<open>main.py\<close>.
  \<^item> \<open>Users_Repository\<close>, \<open>Users_Auth\<close>, \<open>Users_Sessions\<close>, \<open>Users_Mfa\<close>, \<open>Users_Passwords\<close>: \<open>modules/users\<close>, the
    repository, login and token checks, logout and rotation, the second factor, registration and reset. The
    locale \<open>consumable\<close> (in \<open>Users_Repository\<close>) is the contract of an atomic check-and-consume \<open>UPDATE\<close>; it is
    interpreted for refresh, reset, recovery and e-mail change tokens.
  \<^item> \<open>Refresh_Families\<close> and \<open>Session_Machine\<close>: the abstract behaviour of refresh token families, the step
    relation of all requests that touch sessions, with races, and the simulation between them. A row lock
    (\<open>FOR UPDATE\<close>) has no effect of its own: what it protects is one step of the relation.
  \<^item> \<open>Roles\<close>, \<open>Account\<close>, \<open>Email_Verification\<close>, \<open>Profile\<close>, \<open>Admin_Users\<close>: the modules of these names. \<open>Profile\<close>
    has the locale \<open>conditional_write\<close> (a write guarded by an entity tag, \<open>core/etag.py\<close>), interpreted for the
    self-service and the administrative update; \<open>Admin_Users\<close> the machine of administrative requests with
    the locale \<open>kept_by_steps\<close> for its invariants.
  \<^item> \<open>Keyset\<close>: cursor and keyset pagination (\<open>modules/audit\<close>, \<open>modules/support\<close>, \<open>modules/admin_users\<close>), the
    locale \<open>paged_query\<close> and its walk over all pages. \<open>Audit_Chain\<close>: \<open>modules/audit\<close>, the trigger of the
    migration, \<open>scripts/verify_audit_chain.py\<close>. \<open>Json\<close>: \<open>json.dumps\<close> and the canonical request.
  \<^item> \<open>Support_Repository\<close>, \<open>Support_Tickets\<close>, \<open>Support_Replies\<close>: \<open>modules/support\<close> and two cron scripts.
    \<open>Support_Writes\<close>: the locale \<open>ticket_writer\<close> of conditional updates of tickets, interpreted for the four
    of the repository. \<open>Support_Machine\<close>: the step relation of the support desk. \<open>Support_Properties\<close> and
    \<open>Support_Witnesses\<close>: its properties, and a small desk on which they are run.
  \<^item> \<open>Access_Control\<close>: who gets a session and what ends it.
  \<^item> \<open>Api\<close>: every \<open>router.py\<close> with its guards (\<open>dependencies.py\<close>), the constraints of the schemas, status codes,
    headers and the refresh cookie; \<open>serve\<close> runs any of the 37 routes. \<open>Ownership\<close>: what belongs to an account,
    and that the operations open to customers write only there. \<open>Isolation\<close> and \<open>Grants\<close>: what follows for
    whole calls. \<open>Later_Calls\<close>: what every call does to the permission epochs, the used TOTP steps and the
    starts of sessions, the relation \<open>later_call\<close> of arbitrary sequences of calls, and what survives them.
    This theory: properties across modules.
  \<^item> \<open>Schema\<close>: the database catalogue and the effect of each DDL statement on it, after PostgreSQL's documentation,
    with its errors. \<open>Schema_Integrity\<close>: every statement keeps the catalogue consistent. \<open>Schema_Undo\<close>: the
    statement that takes another one back. \<open>Migrations\<close>: the 22 files of \<open>src/migrations/versions\<close>, one
    \<open>upgrade_\<close> and one \<open>downgrade_\<close> definition each, their order, and the runs of \<open>env.py\<close>. \<open>Migration_Rounds\<close>:
    what holds of each revision; \<open>Migration_History\<close>, \<open>Migration_Resume\<close>, \<open>Migration_Rows\<close>: what holds of whole runs,
    of runs that are cut off, and of the rows under them.

  \<^bold>\<open>What is shown.\<close> Sessions: a family of refresh tokens has one unconsumed token, a token is rotated once under
  every interleaving, reuse revokes every token the family then has (and what a racing rotation can still add is
  stated), signing out and role changes void every older token over all later calls, a live
  session in use goes on within the rate limit, a login
  passes all its gates and keeps the cap of 20, a TOTP step opens one login. Tickets: every run refines a five-state life cycle, a closed
  ticket is final, creation is idempotent under its key, an attachment keeps its ticket as long as its row exists (the
  purge job's \<open>SELECT\<close> and \<open>DELETE\<close> are two statements, and only an overlap with them loses a bound row), customers see their own
  public thread only, pagination lists everything once. Audit: which appended entries keep the chain, which edits are
  reported and which are not (the columns outside the hash), and that deletions are reported. Accounts: an administrator remains, no role change escalates, lost updates are refused, links and
  codes work once, limits and lockouts hold; a confirmed e-mail change ends sessions but no refresh token, which is
  less than the specification asks. The provisioning URI is given character for character. The interface: a call without an accepted token or without the scope of
  its route changes nothing (but for the one row that records a denied audit listing), a customer's call changes nothing that belongs to another account, and only two
  routes, with their scopes, change roles. Migrations: a downgrade restores the schema before the upgrade exactly, an
  upgrade that is cut off can be started again, no upgrade loses a row or a value, and the constraints
  the migrations install are those that the model of the support desk relies on. The lemmas named in the manifest's findings show where the code
  departs from its documentation.

  \<^bold>\<open>Bounds and fuel.\<close> The only bounded loop of the code is the poll of an idempotent replay (at most five
  attempts, \<open>POLL_MAX_ATTEMPTS\<close>); every other loop runs over
  its data and terminates. The walk over pages takes as fuel the number
  of pages, and \<^verbatim>\<open>own_tickets_listed_once\<close> shows that the number of tickets is enough. Random draws that the
  code assumes fresh (uuids, tokens) are arbitrary in the model; a collision is a violated unique constraint.

  \<^bold>\<open>Simplifications.\<close> Strings are lists of characters up to code point 255, without NUL. The limit of 64
  characters on request ids is enforced in the tables \<open>audit_log\<close> and the profile audit only. Constant texts of
  error details are left out. The code that SQLAlchemy runs for a \<open>JSONB\<close> column stores a payload \<open>None\<close> as the JSON
  value null, so does the model. PostgreSQL runs at READ COMMITTED: one statement is atomic, and a conditional
  \<open>UPDATE\<close> sees the latest committed rows. In the catalogue, the sort direction of index columns, the indexes and
  triggers that a partition inherits, and the bodies of functions and views (only what a view reads is kept) are left
  out; no generated name reaches PostgreSQL's limit of 63 bytes.

  \<^bold>\<open>Not modelled.\<close> FastAPI itself (routing tables, OpenAPI, CORS, parsing of JSON bodies into fields of the declared
  types), the SMTP client, the geo-IP database reader, the database engine and session factory, Alembic's
  offline mode, the constant-time dummy verification (it has no effect but time), the harness that checks the
  repository's own documents (\<open>scripts/validate_harness.py\<close>), and the TypeScript frontend.
\<close>

section \<open>Properties that span components\<close>

text \<open>C24. No lost update. Once an account differs, in a field that a tag covers, from the version a client has
  read, whoever changed it, a self-service update and an administrative update that carry the tag of that
  version are refused with 412 and change nothing (unless SHA-256 collides on the two renderings).\<close>

theorem no_lost_update:
  assumes "get_by_id i (database p) = Some u" and "get_by_id i (database q) = Some v"
    and "admin_etag_fields u \<noteq> admin_etag_fields v"
    and "inj_on (sha256_hex L) {json_object (rendered f) |f. f \<in> {etag_fields u, etag_fields v, admin_etag_fields u, admin_etag_fields v}}"
  shows "apply_partial_update L rq i b (Some (compute_profile_etag L (etag_fields u))) q
      = (Inl (ProfileError ProfilePreconditionFailedError), q)
    \<and> admin_update_user L rq a i b (Some (compute_profile_etag L (admin_etag_fields u))) q
      = (Inl (AdminUsersError AdminPreconditionFailedError), q)"
proof
  have differ: "etag_fields u \<noteq> etag_fields v"
    using assms(3) by (auto simp: etag_fields_def admin_etag_fields_def)
  show "apply_partial_update L rq i b (Some (compute_profile_etag L (etag_fields u))) q
      = (Inl (ProfileError ProfilePreconditionFailedError), q)"
    by (rule profile_write.stale_write_refused [where p = p and f' = "etag_fields v"])
      (use assms(1,2) differ inj_onD [OF assms(4)] in auto)
  show "admin_update_user L rq a i b (Some (compute_profile_etag L (admin_etag_fields u))) q
      = (Inl (AdminUsersError AdminPreconditionFailedError), q)"
    by (rule admin_write.stale_write_refused [where p = p and f' = "admin_etag_fields v"])
      (use assms(1-3) inj_onD [OF assms(4)] in auto)
qed

text \<open>The owner renames the account between an administrator's read and write.\<close>

definition renamed :: portal where
  "renamed = snd (apply_partial_update zero_libs sample_request 1 [(''display_name'', JStr ''n'')] (Some ''*'') profile_account)"

theorem no_lost_update_witness:
  "admin_update_user zero_libs sample_request 2 1 [(''reason'', JStr ''r'')]
     (Some (compute_profile_etag zero_libs (admin_etag_fields (new_user 0 1 ''a@x'' ''s$pw'' ACTIVE)))) renamed
   = (Inl (AdminUsersError AdminPreconditionFailedError), renamed)"
proof -
  let ?u = "new_user 0 1 ''a@x'' ''s$pw'' ACTIVE"
  have u: "get_by_id 1 (database profile_account) = Some ?u"
    and v: "get_by_id 1 (database renamed) = Some (?u\<lparr>u_display_name := Some ''n''\<rparr>)"
    by code_simp+
  have d: "admin_etag_fields ?u \<noteq> admin_etag_fields (?u\<lparr>u_display_name := Some ''n''\<rparr>)"
    by (simp add: admin_etag_fields_def new_user_def)
  have "inj_on (sha256_hex zero_libs) A" for A by (simp add: inj_on_def zero_libs_def)
  from no_lost_update [OF u v d this] show ?thesis by (rule conjunct2)
qed

end
